(* ===== verification/Prelude.thy ===== *)
theory Prelude
  imports
    Main
    "HOL-Library.Word"
    "HOL-Library.AList"
    "HOL-Library.List_Lexorder"
    "HOL-Library.Char_ord"
    "HOL-Library.Sublist"
begin

text \<open>
  The vocabulary every other theory of the development shares.

  A Go function that changes state and may return an error is a function from the state to
  a pair of a result (\<open>Inl\<close> the error, \<open>Inr\<close> the value) and the new state: an error return
  keeps whatever was changed before it, as the Go code does.  The combinators below are the
  shapes the Go code is written in: \<open>bindE\<close> is \<open>if err != nil { return err }\<close>, \<open>finallyE\<close> is a
  deferred call, \<open>ignoreE\<close> is \<open>_ = f()\<close>.

  The collections: \<open>io_simps\<close> rewrites a run step by step, \<open>pres_intros\<close> proves that a composed
  operation keeps an invariant from the facts about its parts.
\<close>

named_theorems io_simps \<open>rewriting a run of composed operations\<close>
named_theorems pres_intros \<open>an operation keeps an invariant\<close>

section \<open>Operations with state and errors\<close>

type_synonym ('s, 'e, 'a) io = "'s \<Rightarrow> ('e + 'a) \<times> 's"

definition retE :: "'a \<Rightarrow> ('s, 'e, 'a) io" where
  "retE a s = (Inr a, s)"

definition failE :: "'e \<Rightarrow> ('s, 'e, 'a) io" where
  "failE e s = (Inl e, s)"

definition bindE :: "('s, 'e, 'a) io \<Rightarrow> ('a \<Rightarrow> ('s, 'e, 'b) io) \<Rightarrow> ('s, 'e, 'b) io" where
  "bindE m k s = (case m s of (Inl e, s') \<Rightarrow> (Inl e, s') | (Inr a, s') \<Rightarrow> k a s')"

text \<open>A deferred call: it runs whatever the result is, and its own result is dropped.\<close>

definition finallyE :: "('s, 'e, 'a) io \<Rightarrow> ('s, 'e, 'b) io \<Rightarrow> ('s, 'e, 'a) io" where
  "finallyE m c s = (case m s of (r, s') \<Rightarrow> (r, snd (c s')))"

text \<open>\<open>_ = f()\<close>: the error is dropped, the changes stay.\<close>

definition ignoreE :: "('s, 'e, 'a) io \<Rightarrow> ('s, 'f, unit) io" where
  "ignoreE m s = (Inr (), snd (m s))"

text \<open>The loop \<open>for _, x := range xs { if err := f(x); err != nil { return err } }\<close>.\<close>

fun forE :: "'x list \<Rightarrow> ('x \<Rightarrow> ('s, 'e, unit) io) \<Rightarrow> ('s, 'e, unit) io" where
  "forE [] f = retE ()"
| "forE (x # xs) f = bindE (f x) (\<lambda>_. forE xs f)"

lemma retE_run [simp, io_simps]: "retE a s = (Inr a, s)"
  by (simp add: retE_def)

lemma failE_run [simp, io_simps]: "failE e s = (Inl e, s)"
  by (simp add: failE_def)

lemma ignoreE_run [simp, io_simps]: "ignoreE m s = (Inr (), snd (m s))"
  by (simp add: ignoreE_def)

lemma bindE_Inl [simp, io_simps]: "m s = (Inl e, t) \<Longrightarrow> bindE m k s = (Inl e, t)"
  by (simp add: bindE_def)

lemma bindE_Inr [simp, io_simps]: "m s = (Inr a, t) \<Longrightarrow> bindE m k s = k a t"
  by (simp add: bindE_def)

lemma bindE_retE [simp]: "bindE (retE a) k = k a"
  by (rule ext) simp

lemma bindE_failE [simp]: "bindE (failE e) k = failE e"
  by (rule ext) simp

lemma bindE_assoc: "bindE (bindE m k) l = bindE m (\<lambda>a. bindE (k a) l)"
  by (rule ext) (simp add: bindE_def split: prod.split sum.split)

lemma bindE_ignoreE [simp]: "bindE (ignoreE m) k s = k () (snd (m s))"
  by (simp add: bindE_def)

lemma finallyE_run [io_simps]: "m s = (r, t) \<Longrightarrow> finallyE m c s = (r, snd (c t))"
  by (simp add: finallyE_def)

lemma bindE_cases:
  assumes "bindE m k s = (r, t)"
  obtains (err) e where "m s = (Inl e, t)" "r = Inl e"
  | (ok) a u where "m s = (Inr a, u)" "k a u = (r, t)"
  using assms by (auto simp: bindE_def split: prod.splits sum.splits)

lemma bindE_okE:
  assumes "bindE m k s = (Inr b, t)"
  obtains a u where "m s = (Inr a, u)" "k a u = (Inr b, t)"
  using assms by (auto simp: bindE_def split: prod.splits sum.splits)

lemma finallyE_cases:
  assumes "finallyE m c s = (r, t)"
  obtains u where "m s = (r, u)" "t = snd (c u)"
  using assms by (auto simp: finallyE_def split: prod.splits)

section \<open>Keeping an invariant\<close>

definition pres :: "('s \<Rightarrow> bool) \<Rightarrow> ('s, 'e, 'a) io \<Rightarrow> bool" where
  "pres I m \<longleftrightarrow> (\<forall>s. I s \<longrightarrow> I (snd (m s)))"

lemma presI: "(\<And>s r t. I s \<Longrightarrow> m s = (r, t) \<Longrightarrow> I t) \<Longrightarrow> pres I m"
  unfolding pres_def by (metis prod.collapse)

lemma presD: "pres I m \<Longrightarrow> I s \<Longrightarrow> I (snd (m s))"
  by (simp add: pres_def)

lemma presE: "pres I m \<Longrightarrow> m s = (r, t) \<Longrightarrow> I s \<Longrightarrow> I t"
  by (metis pres_def snd_conv)

lemma pres_retE [pres_intros]: "pres I (retE a)"
  by (simp add: pres_def)

lemma pres_failE [pres_intros]: "pres I (failE e)"
  by (simp add: pres_def)

lemma pres_bindE [pres_intros]: "pres I m \<Longrightarrow> (\<And>a. pres I (k a)) \<Longrightarrow> pres I (bindE m k)"
  by (rule presI, erule bindE_cases) (auto dest: presE)

lemma pres_finallyE [pres_intros]: "pres I m \<Longrightarrow> pres I c \<Longrightarrow> pres I (finallyE m c)"
  by (rule presI, erule finallyE_cases) (auto dest: presE presD)

lemma pres_ignoreE [pres_intros]: "pres I m \<Longrightarrow> pres I (ignoreE m)"
  by (simp add: pres_def)

lemma pres_forE [pres_intros]: "(\<And>x. x \<in> set xs \<Longrightarrow> pres I (f x)) \<Longrightarrow> pres I (forE xs f)"
  by (induction xs) (auto intro!: pres_intros)

lemma pres_If [pres_intros]: "(b \<Longrightarrow> pres I m) \<Longrightarrow> (\<not> b \<Longrightarrow> pres I n) \<Longrightarrow> pres I (if b then m else n)"
  by simp

lemma pres_case_option [pres_intros]:
  "(v = None \<Longrightarrow> pres I m) \<Longrightarrow> (\<And>a. v = Some a \<Longrightarrow> pres I (k a)) \<Longrightarrow>
   pres I (case v of None \<Rightarrow> m | Some a \<Rightarrow> k a)"
  by (cases v) auto

lemma pres_case_sum [pres_intros]:
  "(\<And>e. v = Inl e \<Longrightarrow> pres I (h e)) \<Longrightarrow> (\<And>a. v = Inr a \<Longrightarrow> pres I (k a)) \<Longrightarrow>
   pres I (case v of Inl e \<Rightarrow> h e | Inr a \<Rightarrow> k a)"
  by (cases v) auto

section \<open>Generic facts\<close>

lemma foldr_max_le: "x \<in> set xs \<Longrightarrow> x \<le> foldr max xs (a :: 'a :: linorder)"
  by (induction xs) (auto simp: le_max_iff_disj)

lemma map_of_None_iff: "map_of xs k = None \<longleftrightarrow> k \<notin> fst ` set xs"
  by (induction xs) auto

lemma distinct_map_fst_filter: "distinct (map fst xs) \<Longrightarrow> distinct (map fst (filter P xs))"
  by (induction xs) auto

lemma map_of_filter_keys:
  "map_of (filter (\<lambda>x. P (fst x)) xs) k = (if P k then map_of xs k else None)"
  by (induction xs) auto

lemma unat_byte_lt: "unat (b :: 8 word) < 256"
  using unsigned_less [of b] by simp

lemma suffix_append [simp]: "suffix t (s @ t)"
  by (simp add: suffix_def)

lemma not_prefix_length: "length ys < length xs \<Longrightarrow> \<not> prefix xs ys"
  by (auto dest: prefix_length_le)

end
