(* ===== verification/GoLib.thy ===== *)
theory GoLib
  imports Prelude
begin

text \<open>
  What the source uses of Go's \<open>strings\<close>, \<open>strconv\<close>, \<open>sort\<close>, \<open>path/filepath\<close> and
  \<open>encoding/hex\<close>.  A Go string is a byte sequence, as \<open>string\<close> is; \<open>sort.Strings\<close> orders
  bytewise, as the lexicographic order on \<open>char list\<close> does.
\<close>

section \<open>strings\<close>

text \<open>\<open>strings.HasPrefix\<close> and \<open>strings.HasSuffix\<close> are \<open>prefix\<close> and \<open>suffix\<close> of Sublist.\<close>

definition trim_suffix :: "string \<Rightarrow> string \<Rightarrow> string" where
  "trim_suffix s suf = (if suffix suf s then take (length s - length suf) s else s)"

definition trim_prefix :: "string \<Rightarrow> string \<Rightarrow> string" where
  "trim_prefix s pre = (if prefix pre s then drop (length pre) s else s)"

text \<open>\<open>strings.Index\<close>: the first position of the separator, \<open>None\<close> for -1.\<close>

fun str_index :: "string \<Rightarrow> string \<Rightarrow> nat option" where
  "str_index [] sep = (if sep = [] then Some 0 else None)"
| "str_index (c # cs) sep =
     (if prefix sep (c # cs) then Some 0 else map_option Suc (str_index cs sep))"

text \<open>\<open>strings.Split\<close> on a one-character separator: never empty.\<close>

fun split_on :: "char \<Rightarrow> string \<Rightarrow> string list" where
  "split_on d [] = [[]]"
| "split_on d (c # cs) =
     (if c = d then [] # split_on d cs
      else (c # hd (split_on d cs)) # tl (split_on d cs))"

text \<open>\<open>strings.Join\<close>.\<close>

fun join_with :: "string \<Rightarrow> string list \<Rightarrow> string" where
  "join_with d [] = []"
| "join_with d [s] = s"
| "join_with d (s # t # ss) = s @ d @ join_with d (t # ss)"

text \<open>\<open>strings.SplitN(s, d, 2)\<close> on a one-character separator.\<close>

definition split_n2 :: "char \<Rightarrow> string \<Rightarrow> string list" where
  "split_n2 d s =
     (let a = takeWhile (\<lambda>c. c \<noteq> d) s; b = dropWhile (\<lambda>c. c \<noteq> d) s
      in if b = [] then [a] else [a, tl b])"

text \<open>\<open>strings.Trim(s, "\"")\<close>, with the cut set as a list of characters.\<close>

definition trim_chars :: "char list \<Rightarrow> string \<Rightarrow> string" where
  "trim_chars cs s = rev (dropWhile (\<lambda>c. c \<in> set cs) (rev (dropWhile (\<lambda>c. c \<in> set cs) s)))"

definition to_lower_char :: "char \<Rightarrow> char" where
  "to_lower_char c =
     (let n = of_char c :: nat in if 65 \<le> n \<and> n \<le> 90 then char_of (n + 32) else c)"

text \<open>\<open>strings.ToLower\<close> on ASCII.\<close>

definition to_lower :: "string \<Rightarrow> string" where
  "to_lower s = map to_lower_char s"

definition quote_char :: char where
  "quote_char = char_of (34 :: nat)"

definition quoted :: "string \<Rightarrow> string" where
  "quoted s = [quote_char] @ s @ [quote_char]"

lemma split_on_not_Nil [simp]: "split_on d s \<noteq> []"
  by (cases s) auto

lemma split_on_no_sep: "c \<in> set (split_on d s) \<Longrightarrow> d \<notin> set c"
proof (induction s arbitrary: c)
  case Nil
  then show ?case by simp
next
  case (Cons a s)
  have "hd (split_on d s) \<in> set (split_on d s)" by simp
  moreover have "x \<in> set (tl (split_on d s)) \<Longrightarrow> x \<in> set (split_on d s)" for x
    by (cases "split_on d s") auto
  ultimately show ?case using Cons by (auto split: if_splits)
qed

lemma join_split [simp]: "join_with [d] (split_on d s) = s"
proof (induction s)
  case Nil
  then show ?case by simp
next
  case (Cons a s)
  moreover obtain x xs where "split_on d s = x # xs" by (cases "split_on d s") auto
  ultimately show ?case by (cases xs) auto
qed

lemma split_on_inject [simp]: "split_on d s = split_on d t \<longleftrightarrow> s = t"
  by (metis join_split)

lemma split_on_plain: "d \<notin> set s \<Longrightarrow> split_on d s = [s]"
  by (induction s) auto

text \<open>Text without the separator goes to the last component.\<close>

lemma split_on_append:
  "d \<notin> set t \<Longrightarrow> split_on d (s @ t) = butlast (split_on d s) @ [last (split_on d s) @ t]"
proof (induction s)
  case Nil
  then show ?case by (simp add: split_on_plain)
next
  case (Cons a s)
  then show ?case by (cases "split_on d s") auto
qed

lemma suffix_imp_trim: "trim_suffix (s @ suf) suf = s"
  by (simp add: trim_suffix_def)

section \<open>strconv\<close>

definition digit_char :: "nat \<Rightarrow> char" where
  "digit_char n = char_of (48 + n)"

fun nat_digits :: "nat \<Rightarrow> string" where
  "nat_digits n =
     (if n < 10 then [digit_char n] else nat_digits (n div 10) @ [digit_char (n mod 10)])"

declare nat_digits.simps [simp del]

text \<open>\<open>strconv.FormatInt(n, 10)\<close> and the verb \<open>%d\<close>.\<close>

definition itoa :: "int \<Rightarrow> string" where
  "itoa n = (if n < 0 then CHR ''-'' # nat_digits (nat (- n)) else nat_digits (nat n))"

text \<open>The verb \<open>%05d\<close>: zero padded to width five, the sign first.\<close>

definition pad_digits :: "nat \<Rightarrow> string \<Rightarrow> string" where
  "pad_digits w ds = replicate (w - length ds) (CHR ''0'') @ ds"

definition itoa05 :: "int \<Rightarrow> string" where
  "itoa05 n = (if n < 0 then CHR ''-'' # pad_digits 4 (nat_digits (nat (- n)))
               else pad_digits 5 (nat_digits (nat n)))"

definition is_digit :: "char \<Rightarrow> bool" where
  "is_digit c \<longleftrightarrow> 48 \<le> (of_char c :: nat) \<and> (of_char c :: nat) \<le> 57"

definition digits_val :: "string \<Rightarrow> nat" where
  "digits_val s = foldl (\<lambda>a c. 10 * a + (of_char c - 48)) 0 s"

definition int64_ok :: "int \<Rightarrow> bool" where
  "int64_ok n \<longleftrightarrow> - (2 ^ 63) \<le> n \<and> n < 2 ^ 63"

text \<open>\<open>strconv.Atoi\<close> and \<open>strconv.ParseInt(s, 10, 64)\<close>: an optional sign, at least one digit,
  nothing else, and the value fits 64 bits; \<open>None\<close> for the error.\<close>

definition parse_udec :: "string \<Rightarrow> int option" where
  "parse_udec s = (if s \<noteq> [] \<and> list_all is_digit s then Some (int (digits_val s)) else None)"

definition atoi :: "string \<Rightarrow> int option" where
  "atoi s =
     (case (case s of
              [] \<Rightarrow> None
            | c # cs \<Rightarrow> if c = CHR ''-'' then map_option uminus (parse_udec cs)
                       else if c = CHR ''+'' then parse_udec cs else parse_udec s) of
        None \<Rightarrow> None
      | Some n \<Rightarrow> if int64_ok n then Some n else None)"

lemma digit_char_is_digit: "n < 10 \<Longrightarrow> is_digit (digit_char n)"
  by (simp add: is_digit_def digit_char_def)

lemma digit_char_val: "n < 10 \<Longrightarrow> of_char (digit_char n) - (48 :: nat) = n"
  by (simp add: digit_char_def)

lemma nat_digits_digits: "list_all is_digit (nat_digits n)"
proof (induction n rule: nat_digits.induct)
  case (1 n)
  then show ?case
    by (subst nat_digits.simps) (auto simp: digit_char_is_digit)
qed

lemma nat_digits_not_Nil [simp]: "nat_digits n \<noteq> []"
  by (subst nat_digits.simps) simp

lemma digits_val_nat_digits [simp]: "digits_val (nat_digits n) = n"
proof (induction n rule: nat_digits.induct)
  case (1 n)
  show ?case
  proof (cases "n < 10")
    case True
    then show ?thesis
      by (subst nat_digits.simps) (simp add: digits_val_def digit_char_val)
  next
    case False
    with 1 have "digits_val (nat_digits (n div 10)) = n div 10" by simp
    with False show ?thesis
      by (subst nat_digits.simps) (simp add: digits_val_def digit_char_val)
  qed
qed

lemma nat_digits_inject [simp]: "nat_digits m = nat_digits n \<longleftrightarrow> m = n"
  by (metis digits_val_nat_digits)

lemma parse_nat_digits [simp]: "parse_udec (nat_digits n) = Some (int n)"
  by (simp add: parse_udec_def nat_digits_digits)

lemma hd_nat_digits_digit: "is_digit (hd (nat_digits n))"
  using nat_digits_digits [of n] by (cases "nat_digits n") auto

lemma sign_not_digit: "\<not> is_digit (CHR ''-'')" "\<not> is_digit (CHR ''+'')"
    "\<not> is_digit (CHR ''.'')" "\<not> is_digit (CHR ''/'')"
  by (simp_all add: is_digit_def)

lemma nat_digits_no_sign: "\<not> is_digit c \<Longrightarrow> c \<notin> set (nat_digits n)"
  using nat_digits_digits [of n] by (auto simp: list_all_iff)

lemma itoa_inject [simp]: "itoa m = itoa n \<longleftrightarrow> m = n"
proof
  assume eq: "itoa m = itoa n"
  have "CHR ''-'' \<noteq> hd (nat_digits k)" for k
    using hd_nat_digits_digit [of k] sign_not_digit by metis
  then have "nat_digits j \<noteq> CHR ''-'' # nat_digits k" for j k
    by (metis list.sel(1))
  with eq show "m = n"
    by (auto simp: itoa_def split: if_splits dest: sym)
qed simp

text \<open>Formatting and parsing an integer are inverse on the 64-bit range.\<close>

lemma atoi_itoa:
  assumes "int64_ok n"
  shows "atoi (itoa n) = Some n"
proof (cases "n < 0")
  case True
  with assms show ?thesis by (simp add: atoi_def itoa_def)
next
  case False
  obtain c cs where ds: "nat_digits (nat n) = c # cs"
    by (cases "nat_digits (nat n)") auto
  with hd_nat_digits_digit [of "nat n"] have "is_digit c" by simp
  then have "c \<noteq> CHR ''-''" "c \<noteq> CHR ''+''"
    using sign_not_digit by auto
  moreover have "parse_udec (c # cs) = Some n"
    using parse_nat_digits [of "nat n"] ds False by simp
  ultimately show ?thesis
    using False assms ds by (simp add: atoi_def itoa_def)
qed

lemma itoa_no_slash [simp]: "CHR ''/'' \<notin> set (itoa n)"
  using sign_not_digit by (auto simp: itoa_def nat_digits_no_sign)

section \<open>path/filepath\<close>

text \<open>
  A path is the list of its components below the file system's root.  \<open>clean_path\<close> is
  \<open>filepath.Clean\<close> of a rooted path: empty components and \<open>.\<close> go, \<open>..\<close> drops the component
  before it and is dropped itself at the root.
\<close>

type_synonym path = "string list"

fun clean_step :: "path \<Rightarrow> string \<Rightarrow> path" where
  "clean_step acc c =
     (if c = [] \<or> c = ''.'' then acc else if c = ''..'' then butlast acc else acc @ [c])"

definition clean_path :: "string list \<Rightarrow> path" where
  "clean_path cs = foldl clean_step [] cs"

text \<open>\<open>filepath.Join(root, e1, e2, ...)\<close> for a rooted, clean \<open>root\<close>.\<close>

definition path_join :: "path \<Rightarrow> string list \<Rightarrow> path" where
  "path_join root es = clean_path (root @ concat (map (split_on (CHR ''/'')) es))"

text \<open>\<open>filepath.Dir\<close> of a clean rooted path.\<close>

definition path_dir :: "path \<Rightarrow> path" where
  "path_dir p = butlast p"

text \<open>A component that \<open>Clean\<close> keeps, and a name all of whose components are kept.\<close>

definition plain_comp :: "string \<Rightarrow> bool" where
  "plain_comp c \<longleftrightarrow> c \<noteq> [] \<and> c \<noteq> ''.'' \<and> c \<noteq> ''..''"

definition plain_name :: "string \<Rightarrow> bool" where
  "plain_name s \<longleftrightarrow> list_all plain_comp (split_on (CHR ''/'') s)"

lemma foldl_clean_plain:
  "list_all plain_comp cs \<Longrightarrow> foldl clean_step acc cs = acc @ cs"
  by (induction cs arbitrary: acc) (auto simp: plain_comp_def)

lemma clean_path_plain: "list_all plain_comp cs \<Longrightarrow> clean_path cs = cs"
  by (simp add: clean_path_def foldl_clean_plain)

lemma path_join_plain:
  "list_all plain_comp root \<Longrightarrow> list_all plain_name es \<Longrightarrow>
   path_join root es = root @ concat (map (split_on (CHR ''/'')) es)"
  unfolding path_join_def
  by (rule clean_path_plain) (auto simp: list_all_iff plain_name_def)

text \<open>A single plain component with no slash.\<close>

definition plain_seg :: "string \<Rightarrow> bool" where
  "plain_seg s \<longleftrightarrow> plain_comp s \<and> CHR ''/'' \<notin> set s"

lemma plain_seg_name [simp]: "plain_seg s \<Longrightarrow> plain_name s"
  by (simp add: plain_seg_def plain_name_def split_on_plain)

lemma plain_seg_split [simp]: "plain_seg s \<Longrightarrow> split_on (CHR ''/'') s = [s]"
  by (simp add: plain_seg_def split_on_plain)

lemma plain_name_append_suffix:
  assumes "plain_name s" "CHR ''/'' \<notin> set t" "3 \<le> length t"
  shows "plain_name (s @ t)"
proof -
  have "plain_comp (last (split_on (CHR ''/'') s) @ t)"
    using assms(3) by (auto simp: plain_comp_def append_eq_Cons_conv dest!: arg_cong [where f = length])
  moreover have "list_all plain_comp (butlast (split_on (CHR ''/'') s))"
    using assms(1) by (auto simp: plain_name_def list_all_iff dest: in_set_butlastD)
  ultimately show ?thesis
    using assms(2) by (simp add: plain_name_def split_on_append)
qed

section \<open>encoding/hex\<close>

type_synonym byte = "8 word"

definition hex_digit :: "nat \<Rightarrow> char" where
  "hex_digit n = (if n < 10 then char_of (48 + n) else char_of (87 + n))"

definition unhex_digit :: "char \<Rightarrow> nat option" where
  "unhex_digit c =
     (let n = of_char c in
      if 48 \<le> n \<and> n \<le> 57 then Some (n - 48)
      else if 97 \<le> n \<and> n \<le> 102 then Some (n - 87)
      else if 65 \<le> n \<and> n \<le> 70 then Some (n - 55) else None)"

fun hex_encode :: "byte list \<Rightarrow> string" where
  "hex_encode [] = []"
| "hex_encode (b # bs) =
     hex_digit (unat b div 16) # hex_digit (unat b mod 16) # hex_encode bs"

text \<open>\<open>hex.DecodeString\<close>: \<open>None\<close> on an odd length or a character that is no hex digit.\<close>

fun hex_decode :: "string \<Rightarrow> byte list option" where
  "hex_decode [] = Some []"
| "hex_decode [c] = None"
| "hex_decode (c # d # cs) =
     (case (unhex_digit c, unhex_digit d, hex_decode cs) of
        (Some h, Some l, Some bs) \<Rightarrow> Some (word_of_nat (16 * h + l) # bs)
      | _ \<Rightarrow> None)"

lemma unhex_hex_digit: "n < 16 \<Longrightarrow> unhex_digit (hex_digit n) = Some n"
  by (simp add: unhex_digit_def hex_digit_def)

lemma hex_decode_encode: "hex_decode (hex_encode bs) = Some bs"
proof (induction bs)
  case Nil
  then show ?case by simp
next
  case (Cons b bs)
  have "unat b < 256" by (rule unat_byte_lt)
  then have "unat b div 16 < 16" by simp
  moreover have "word_of_nat (16 * (unat b div 16) + unat b mod 16) = b"
    by (simp only: mult_div_mod_eq) simp
  ultimately show ?case using Cons by (simp add: unhex_hex_digit)
qed

lemma hex_digit_not_quote: "n < 16 \<Longrightarrow> hex_digit n \<noteq> quote_char"
proof -
  assume "n < 16"
  have "hex_digit n = quote_char \<Longrightarrow> (of_char (hex_digit n) :: nat) = 34"
    by (simp add: quote_char_def)
  moreover have "(of_char (hex_digit n) :: nat) \<noteq> 34"
    using \<open>n < 16\<close> by (simp add: hex_digit_def)
  ultimately show ?thesis by blast
qed

lemma hex_encode_no_quote: "quote_char \<notin> set (hex_encode bs)"
proof (induction bs)
  case (Cons b bs)
  have "unat b < 256" by (rule unat_byte_lt)
  then have "hex_digit (unat b div 16) \<noteq> quote_char" "hex_digit (unat b mod 16) \<noteq> quote_char"
    by (auto intro!: hex_digit_not_quote)
  with Cons show ?case by auto
qed simp

lemma trim_quoted:
  assumes "quote_char \<notin> set s"
  shows "trim_chars [quote_char] (quoted s) = s"
proof -
  have id: "dropWhile (\<lambda>c. c = quote_char) t = t" if "quote_char \<notin> set t" for t
    using that by (cases t) auto
  have "dropWhile (\<lambda>c. c = quote_char) (s @ [quote_char]) =
      (if s = [] then [] else s @ [quote_char])"
    using assms by (cases s) auto
  with id [of "rev s"] assms show ?thesis
    by (auto simp: trim_chars_def quoted_def)
qed

end
