(* ===== verification/GoHash.thy ===== *)
theory GoHash
  imports GoLib
begin

unbundle bit_operations_syntax

text \<open>
  The digests the storage layer writes into its metadata: \<open>hash/crc32\<close> with the IEEE
  polynomial and \<open>crypto/md5\<close> (RFC 1321), over byte lists.  The theorems of the development
  treat both as opaque functions; they are spelled out so that a run of the storage model
  on a concrete body computes the checksum and the ETag the code computes.
\<close>

section \<open>hash/crc32, ChecksumIEEE\<close>

type_synonym u32 = "32 word"

definition crc_bit :: "u32 \<Rightarrow> u32" where
  "crc_bit c = (if bit c 0 then drop_bit 1 c XOR 0xEDB88320 else drop_bit 1 c)"

definition crc_byte :: "u32 \<Rightarrow> byte \<Rightarrow> u32" where
  "crc_byte c b = (crc_bit ^^ 8) (c XOR ucast b)"

definition crc32 :: "byte list \<Rightarrow> u32" where
  "crc32 bs = NOT (foldl crc_byte (NOT 0) bs)"

section \<open>crypto/md5\<close>

definition md5_k :: "u32 list" where
  "md5_k =
    [0xd76aa478, 0xe8c7b756, 0x242070db, 0xc1bdceee, 0xf57c0faf, 0x4787c62a,
     0xa8304613, 0xfd469501, 0x698098d8, 0x8b44f7af, 0xffff5bb1, 0x895cd7be,
     0x6b901122, 0xfd987193, 0xa679438e, 0x49b40821, 0xf61e2562, 0xc040b340,
     0x265e5a51, 0xe9b6c7aa, 0xd62f105d, 0x02441453, 0xd8a1e681, 0xe7d3fbc8,
     0x21e1cde6, 0xc33707d6, 0xf4d50d87, 0x455a14ed, 0xa9e3e905, 0xfcefa3f8,
     0x676f02d9, 0x8d2a4c8a, 0xfffa3942, 0x8771f681, 0x6d9d6122, 0xfde5380c,
     0xa4beea44, 0x4bdecfa9, 0xf6bb4b60, 0xbebfbc70, 0x289b7ec6, 0xeaa127fa,
     0xd4ef3085, 0x04881d05, 0xd9d4d039, 0xe6db99e5, 0x1fa27cf8, 0xc4ac5665,
     0xf4292244, 0x432aff97, 0xab9423a7, 0xfc93a039, 0x655b59c3, 0x8f0ccc92,
     0xffeff47d, 0x85845dd1, 0x6fa87e4f, 0xfe2ce6e0, 0xa3014314, 0x4e0811a1,
     0xf7537e82, 0xbd3af235, 0x2ad7d2bb, 0xeb86d391]"

definition md5_shift :: "nat \<Rightarrow> nat" where
  "md5_shift i =
     (if i < 16 then [7, 12, 17, 22] else if i < 32 then [5, 9, 14, 20]
      else if i < 48 then [4, 11, 16, 23] else [6, 10, 15, 21]) ! (i mod 4)"

text \<open>One round: the four chaining words, the block as sixteen words, the round's number.\<close>

definition md5_round :: "u32 list \<Rightarrow> u32 \<times> u32 \<times> u32 \<times> u32 \<Rightarrow> nat \<Rightarrow> u32 \<times> u32 \<times> u32 \<times> u32" where
  "md5_round m abcd i =
     (case abcd of (a, b, c, d) \<Rightarrow>
       let f = (if i < 16 then (b AND c) OR (NOT b AND d)
                else if i < 32 then (d AND b) OR (NOT d AND c)
                else if i < 48 then b XOR c XOR d
                else c XOR (b OR NOT d));
           g = (if i < 16 then i else if i < 32 then (5 * i + 1) mod 16
                else if i < 48 then (3 * i + 5) mod 16 else (7 * i) mod 16)
       in (d, b + word_rotl (md5_shift i) (a + f + md5_k ! i + m ! g), b, c))"

fun le_words :: "byte list \<Rightarrow> u32 list" where
  "le_words (a # b # c # d # bs) =
     (ucast a OR push_bit 8 (ucast b) OR push_bit 16 (ucast c) OR push_bit 24 (ucast d))
       # le_words bs"
| "le_words _ = []"

definition le_bytes4 :: "u32 \<Rightarrow> byte list" where
  "le_bytes4 w = [ucast w, ucast (drop_bit 8 w), ucast (drop_bit 16 w), ucast (drop_bit 24 w)]"

definition md5_block ::
    "u32 \<times> u32 \<times> u32 \<times> u32 \<Rightarrow> u32 list \<Rightarrow> u32 \<times> u32 \<times> u32 \<times> u32" where
  "md5_block h m =
     (case (h, foldl (md5_round m) h [0..<64]) of
        ((a, b, c, d), (a', b', c', d')) \<Rightarrow> (a + a', b + b', c + c', d + d'))"

definition md5_pad :: "byte list \<Rightarrow> byte list" where
  "md5_pad bs =
     (let n = length bs; z = (119 - n mod 64) mod 64; l = word_of_nat (8 * n) :: 64 word
      in bs @ [0x80] @ replicate z 0 @ map (\<lambda>i. ucast (drop_bit (8 * i) l)) [0..<8])"

function md5_blocks ::
    "u32 \<times> u32 \<times> u32 \<times> u32 \<Rightarrow> u32 list \<Rightarrow> u32 \<times> u32 \<times> u32 \<times> u32" where
  "md5_blocks h ws =
     (if length ws < 16 then h else md5_blocks (md5_block h (take 16 ws)) (drop 16 ws))"
  by pat_completeness auto
termination
  by (relation "measure (\<lambda>(h, ws). length ws)") auto

declare md5_blocks.simps [simp del]

definition md5 :: "byte list \<Rightarrow> byte list" where
  "md5 bs =
     (case md5_blocks (0x67452301, 0xefcdab89, 0x98badcfe, 0x10325476) (le_words (md5_pad bs)) of
        (a, b, c, d) \<Rightarrow> le_bytes4 a @ le_bytes4 b @ le_bytes4 c @ le_bytes4 d)"

text \<open>The padded message is whole blocks, and a digest has sixteen bytes.\<close>

lemma md5_pad_length: "length (md5_pad bs) mod 64 = 0"
proof -
  have "(n + 9 + (119 - n mod 64) mod 64) mod 64 = 0" for n :: nat
  proof -
    define r where "r = n mod 64"
    have r: "r < 64" "n = 64 * (n div 64) + r" by (simp_all add: r_def)
    have "(119 - r) mod 64 = (if r \<le> 55 then 55 - r else 119 - r)"
      using r(1) by (auto simp: mod_if)
    then have "r + 9 + (119 - r) mod 64 = 64 \<or> r + 9 + (119 - r) mod 64 = 128"
      using r(1) by auto
    moreover have "n + 9 + (119 - r) mod 64 = 64 * (n div 64) + (r + 9 + (119 - r) mod 64)"
      using r(2) by simp
    ultimately have "n + 9 + (119 - r) mod 64 = 64 * (n div 64 + 1) \<or>
        n + 9 + (119 - r) mod 64 = 64 * (n div 64 + 2)"
      by auto
    then show ?thesis unfolding r_def [symmetric] by (auto simp only: mod_mult_self1_is_0)
  qed
  from this [of "length bs"] show ?thesis by (simp add: md5_pad_def Let_def ac_simps)
qed

lemma md5_length [simp]: "length (md5 bs) = 16"
  by (simp add: md5_def le_bytes4_def split: prod.split)

end
