(* ===== verification/OsFiles.thy ===== *)
theory OsFiles
  imports GoLib
begin

text \<open>
  The part of Go's \<open>os\<close> package the storage layer calls, over a file tree: a finite map from
  clean rooted paths to nodes, kept as an association list so that directories can be
  enumerated.  A node is a directory or a regular file with its modification time and content;
  the root \<open>[]\<close> is always a directory.  Each operation is one system call's effect and fails
  exactly for the structural reasons the code can meet: a missing path, a regular file on the
  way, a directory in the way, a directory that is not empty.  Device faults (a full disk, an
  I/O error, permissions) are not modelled.  Contents are a parameter \<open>'c\<close> of the tree.

  Rename is modelled for regular files: every rename of the source moves a file the same
  operation has written, or the staged data file.
\<close>

section \<open>Errors\<close>

datatype errno = ENOENT | ENOTDIR | EISDIR | EEXIST | ENOTEMPTY | EINVAL

datatype gerror =
    ErrNotExist                     \<comment> \<open>\<open>os.ErrNotExist\<close>\<close>
  | PathErr string path errno       \<comment> \<open>\<open>*os.PathError\<close>, \<open>*os.LinkError\<close>\<close>
  | ErrMsg string                   \<comment> \<open>\<open>errors.New\<close>, \<open>fmt.Errorf\<close> without \<open>%w\<close>\<close>
  | Wrapped string gerror           \<comment> \<open>\<open>fmt.Errorf\<close> with \<open>%w\<close>\<close>
  | Panic                           \<comment> \<open>a goroutine panicked: the process is gone, nobody sees this value\<close>

fun is_panic :: "gerror \<Rightarrow> bool" where
  "is_panic Panic = True"
| "is_panic (Wrapped _ e) = is_panic e"
| "is_panic _ = False"

text \<open>\<open>os.IsNotExist\<close>: it does not look through \<open>%w\<close>.\<close>

fun is_not_exist :: "gerror \<Rightarrow> bool" where
  "is_not_exist ErrNotExist = True"
| "is_not_exist (PathErr _ _ e) = (e = ENOENT)"
| "is_not_exist _ = False"

section \<open>The file tree\<close>

datatype 'c fnode = Dir | File int 'c

type_synonym 'c fsys = "(path \<times> 'c fnode) list"
type_synonym ('c, 'a) fs_io = "('c fsys, gerror, 'a) io"

definition fs_get :: "'c fsys \<Rightarrow> path \<Rightarrow> 'c fnode option" where
  "fs_get fs p = (if p = [] then Some Dir else map_of fs p)"

definition is_file :: "'c fnode option \<Rightarrow> bool" where
  "is_file n \<longleftrightarrow> (case n of Some (File _ _) \<Rightarrow> True | _ \<Rightarrow> False)"

definition is_dir :: "'c fnode option \<Rightarrow> bool" where
  "is_dir n \<longleftrightarrow> (case n of Some Dir \<Rightarrow> True | _ \<Rightarrow> False)"

text \<open>Why a path that is not there cannot be opened: a regular file on the way, or nothing.\<close>

definition file_above :: "'c fsys \<Rightarrow> path \<Rightarrow> bool" where
  "file_above fs p \<longleftrightarrow> list_ex (\<lambda>i. is_file (fs_get fs (take i p))) [0..<length p]"

definition missing_errno :: "'c fsys \<Rightarrow> path \<Rightarrow> errno" where
  "missing_errno fs p = (if file_above fs p then ENOTDIR else ENOENT)"

definition has_children :: "'c fsys \<Rightarrow> path \<Rightarrow> bool" where
  "has_children fs p \<longleftrightarrow> list_ex (\<lambda>e. fst e \<noteq> [] \<and> butlast (fst e) = p) fs"

section \<open>System calls\<close>

definition os_stat :: "path \<Rightarrow> ('c, 'c fnode) fs_io" where
  "os_stat p fs = (case fs_get fs p of
     None \<Rightarrow> (Inl (PathErr ''stat'' p (missing_errno fs p)), fs)
   | Some n \<Rightarrow> (Inr n, fs))"

text \<open>\<open>os.Open\<close> for reading; opening a directory succeeds, reading it does not.\<close>

definition os_open :: "path \<Rightarrow> ('c, 'c fnode) fs_io" where
  "os_open p fs = (case fs_get fs p of
     None \<Rightarrow> (Inl (PathErr ''open'' p (missing_errno fs p)), fs)
   | Some n \<Rightarrow> (Inr n, fs))"

fun mkdirs :: "nat list \<Rightarrow> path \<Rightarrow> 'c fsys \<Rightarrow> 'c fsys" where
  "mkdirs [] p fs = fs"
| "mkdirs (i # is) p fs =
     mkdirs is p (if fs_get fs (take i p) = None then (take i p, Dir) # fs else fs)"

definition os_mkdir_all :: "path \<Rightarrow> ('c, unit) fs_io" where
  "os_mkdir_all p fs =
     (if file_above fs p \<or> is_file (fs_get fs p) then (Inl (PathErr ''mkdir'' p ENOTDIR), fs)
      else (Inr (), mkdirs [1..<Suc (length p)] p fs))"

text \<open>\<open>os.OpenFile\<close> with \<open>O_CREATE|O_WRONLY|O_TRUNC\<close>, the whole content written, closed.\<close>

definition os_write :: "path \<Rightarrow> int \<Rightarrow> 'c \<Rightarrow> ('c, unit) fs_io" where
  "os_write p now c fs = (case fs_get fs p of
     Some Dir \<Rightarrow> (Inl (PathErr ''open'' p EISDIR), fs)
   | Some (File _ _) \<Rightarrow> (Inr (), AList.update p (File now c) fs)
   | None \<Rightarrow> (if is_dir (fs_get fs (path_dir p)) then (Inr (), AList.update p (File now c) fs)
              else (Inl (PathErr ''open'' p (missing_errno fs p)), fs)))"

definition os_remove :: "path \<Rightarrow> ('c, unit) fs_io" where
  "os_remove p fs = (case fs_get fs p of
     None \<Rightarrow> (Inl (PathErr ''remove'' p (missing_errno fs p)), fs)
   | Some (File _ _) \<Rightarrow> (Inr (), AList.delete p fs)
   | Some Dir \<Rightarrow> (if p = [] \<or> has_children fs p then (Inl (PathErr ''remove'' p ENOTEMPTY), fs)
                  else (Inr (), AList.delete p fs)))"

definition os_remove_all :: "path \<Rightarrow> ('c, unit) fs_io" where
  "os_remove_all p fs =
     (if file_above fs p then (Inl (PathErr ''unlinkat'' p ENOTDIR), fs)
      else (Inr (), filter (\<lambda>e. \<not> prefix p (fst e)) fs))"

definition os_rename :: "path \<Rightarrow> path \<Rightarrow> ('c, unit) fs_io" where
  "os_rename src dst fs = (case fs_get fs src of
     None \<Rightarrow> (Inl (PathErr ''rename'' src (missing_errno fs src)), fs)
   | Some Dir \<Rightarrow> (Inl (PathErr ''rename'' src EINVAL), fs)
   | Some (File m c) \<Rightarrow>
       (case fs_get fs dst of
          Some Dir \<Rightarrow> (Inl (PathErr ''rename'' dst EEXIST), fs)
        | Some (File _ _) \<Rightarrow> (Inr (), AList.update dst (File m c) (AList.delete src fs))
        | None \<Rightarrow>
            (if is_dir (fs_get fs (path_dir dst))
             then (Inr (), AList.update dst (File m c) (AList.delete src fs))
             else (Inl (PathErr ''rename'' dst (missing_errno fs dst)), fs))))"

text \<open>\<open>os.ReadDir\<close>: the entries by name, each with whether it is a directory.\<close>

definition dir_names :: "'c fsys \<Rightarrow> path \<Rightarrow> string list" where
  "dir_names fs p =
     sort (remdups (map (last \<circ> fst) (filter (\<lambda>e. fst e \<noteq> [] \<and> butlast (fst e) = p) fs)))"

definition os_read_dir :: "path \<Rightarrow> ('c, (string \<times> bool) list) fs_io" where
  "os_read_dir p fs = (case fs_get fs p of
     None \<Rightarrow> (Inl (PathErr ''open'' p (missing_errno fs p)), fs)
   | Some (File _ _) \<Rightarrow> (Inl (PathErr ''readdirent'' p ENOTDIR), fs)
   | Some Dir \<Rightarrow>
       (Inr (map (\<lambda>n. (n, is_dir (fs_get fs (p @ [n])))) (dir_names fs p)), fs))"

text \<open>The regular files a walk from \<open>p\<close> visits, by their path below \<open>p\<close>.\<close>

definition files_under :: "path \<Rightarrow> 'c fsys \<Rightarrow> path list" where
  "files_under p fs =
     map (\<lambda>e. drop (length p) (fst e))
       (filter (\<lambda>e. is_file (Some (snd e)) \<and> prefix p (fst e)) fs)"

text \<open>\<open>syncDir\<close> opens the directory and flushes it: no change to the tree.\<close>

definition os_sync_dir :: "path \<Rightarrow> ('c, unit) fs_io" where
  "os_sync_dir p = bindE (os_open p) (\<lambda>_. retE ())"

section \<open>Lookup after each call\<close>

lemma fs_get_Nil [simp]: "fs_get fs [] = Some Dir"
  by (simp add: fs_get_def)

lemma is_file_simps [simp]:
  "is_file None = False" "is_file (Some Dir) = False" "is_file (Some (File m c)) = True"
  by (simp_all add: is_file_def)

lemma is_dir_simps [simp]:
  "is_dir None = False" "is_dir (Some Dir) = True" "is_dir (Some (File m c)) = False"
  by (simp_all add: is_dir_def)

lemma is_dir_iff: "is_dir n \<longleftrightarrow> n = Some Dir"
  by (auto simp: is_dir_def split: option.splits fnode.splits)

lemma is_file_iff: "is_file n \<longleftrightarrow> (\<exists>m c. n = Some (File m c))"
  by (auto simp: is_file_def split: option.splits fnode.splits)

lemma fs_get_update:
  "p \<noteq> [] \<Longrightarrow> fs_get (AList.update p n fs) = (fs_get fs)(p \<mapsto> n)"
  by (rule ext) (simp add: fs_get_def update_conv')

lemma fs_get_delete:
  "p \<noteq> [] \<Longrightarrow> fs_get (AList.delete p fs) = (fs_get fs)(p := None)"
  by (rule ext) (auto simp: fs_get_def delete_conv')

lemma fs_get_Cons:
  "p \<noteq> [] \<Longrightarrow> fs_get ((p, n) # fs) = (fs_get fs)(p \<mapsto> n)"
  by (rule ext) (simp add: fs_get_def)

lemma fs_get_filter_prefix:
  "fs_get (filter (\<lambda>e. \<not> prefix p (fst e)) fs) q =
     (if q \<noteq> [] \<and> prefix p q then None else fs_get fs q)"
  by (simp add: fs_get_def map_of_filter_keys [where P = "\<lambda>q. \<not> prefix p q"])

text \<open>The regular files, by path: what the storage layer's reads see.\<close>

definition fs_file :: "'c fsys \<Rightarrow> path \<Rightarrow> (int \<times> 'c) option" where
  "fs_file fs p = (case fs_get fs p of Some (File m c) \<Rightarrow> Some (m, c) | _ \<Rightarrow> None)"

lemma fs_file_Some_iff: "fs_file fs p = Some (m, c) \<longleftrightarrow> fs_get fs p = Some (File m c)"
  by (auto simp: fs_file_def split: option.splits fnode.splits)

lemma fs_file_not_Nil: "fs_file fs p = Some x \<Longrightarrow> p \<noteq> []"
  by (auto simp: fs_file_def)

lemma fs_file_None_cases:
  "fs_file fs p = None \<longleftrightarrow> fs_get fs p = None \<or> fs_get fs p = Some Dir"
  by (auto simp: fs_file_def split: option.splits fnode.splits)

lemma mkdirs_get:
  "fs_get (mkdirs is p fs) q =
     (case fs_get fs q of Some n \<Rightarrow> Some n
      | None \<Rightarrow> if q \<in> (\<lambda>i. take i p) ` set is then Some Dir else None)"
proof (induction "is" arbitrary: fs)
  case Nil
  then show ?case by (simp split: option.split)
next
  case (Cons i "is")
  show ?case
  proof (cases "fs_get fs (take i p)")
    case None
    then have "take i p \<noteq> []" by (metis fs_get_Nil option.distinct(1))
    then show ?thesis
      using None by (auto simp: Cons.IH fs_get_Cons split: option.split)
  next
    case (Some n)
    then show ?thesis by (auto simp: Cons.IH split: option.split)
  qed
qed

lemma os_stat_state [simp]: "snd (os_stat p fs) = fs"
  by (simp add: os_stat_def split: option.split)

lemma os_open_state [simp]: "snd (os_open p fs) = fs"
  by (simp add: os_open_def split: option.split)

lemma os_read_dir_state [simp]: "snd (os_read_dir p fs) = fs"
  by (simp add: os_read_dir_def split: option.split fnode.split)

lemma os_sync_dir_state [simp]: "snd (os_sync_dir p fs) = fs"
  by (simp add: os_sync_dir_def bindE_def os_open_def split: option.split)

lemma os_sync_dir_ok: "fs_get fs p \<noteq> None \<Longrightarrow> os_sync_dir p fs = (Inr (), fs)"
  by (auto simp: os_sync_dir_def bindE_def os_open_def)

section \<open>Effect on the regular files\<close>

lemma fs_file_mkdir_all [simp]: "fs_file (snd (os_mkdir_all p fs)) = fs_file fs"
  by (rule ext) (auto simp: os_mkdir_all_def fs_file_def mkdirs_get split: option.split)

lemma os_mkdir_all_ok:
  assumes "os_mkdir_all p fs = (Inr u, fs')"
  shows "fs_get fs' p = Some Dir" and "fs_file fs' = fs_file fs"
    and "fs_get fs q = Some n \<Longrightarrow> fs_get fs' q = Some n"
    and "fs_get fs' q = None \<or> fs_get fs' q = Some Dir \<or> fs_get fs' q = fs_get fs q"
proof -
  have fs': "fs' = mkdirs [1..<Suc (length p)] p fs" and nf: "\<not> is_file (fs_get fs p)"
    using assms by (auto simp: os_mkdir_all_def split: if_splits)
  have "p = [] \<or> p \<in> (\<lambda>i. take i p) ` {1..<Suc (length p)}"
    by (cases p) (auto intro!: image_eqI [where x = "length p"])
  then show "fs_get fs' p = Some Dir"
    using nf by (auto simp: fs' mkdirs_get is_file_def split: option.splits fnode.splits)
  show "fs_file fs' = fs_file fs"
    using fs_file_mkdir_all [of p fs] assms by simp
  show "fs_get fs q = Some n \<Longrightarrow> fs_get fs' q = Some n"
    by (simp add: fs' mkdirs_get)
  show "fs_get fs' q = None \<or> fs_get fs' q = Some Dir \<or> fs_get fs' q = fs_get fs q"
    by (simp add: fs' mkdirs_get split: option.split)
qed

lemma os_mkdir_all_err: "os_mkdir_all p fs = (Inl e, fs') \<Longrightarrow> fs' = fs"
  by (auto simp: os_mkdir_all_def split: if_splits)

lemma os_write_ok:
  assumes "os_write p now c fs = (Inr u, fs')"
  shows "p \<noteq> []" and "fs_get fs' = (fs_get fs)(p \<mapsto> File now c)"
    and "fs_file fs' = (fs_file fs)(p \<mapsto> (now, c))"
proof -
  show p: "p \<noteq> []" using assms by (auto simp: os_write_def)
  show get: "fs_get fs' = (fs_get fs)(p \<mapsto> File now c)"
    using assms p by (auto simp: os_write_def fs_get_update split: option.splits fnode.splits if_splits)
  show "fs_file fs' = (fs_file fs)(p \<mapsto> (now, c))"
    by (rule ext) (simp add: fs_file_def get)
qed

lemma os_write_err: "os_write p now c fs = (Inl e, fs') \<Longrightarrow> fs' = fs"
  by (auto simp: os_write_def split: option.splits fnode.splits if_splits)

lemma os_write_succeeds:
  "p \<noteq> [] \<Longrightarrow> fs_get fs p \<noteq> Some Dir \<Longrightarrow> fs_get fs (path_dir p) = Some Dir \<Longrightarrow>
   os_write p now c fs = (Inr (), AList.update p (File now c) fs)"
  by (auto simp: os_write_def split: option.split fnode.split)

lemma os_remove_ok:
  assumes "os_remove p fs = (Inr u, fs')"
  shows "p \<noteq> []" and "fs_get fs' = (fs_get fs)(p := None)"
    and "fs_file fs' = (fs_file fs)(p := None)"
proof -
  show p: "p \<noteq> []" using assms by (auto simp: os_remove_def)
  show get: "fs_get fs' = (fs_get fs)(p := None)"
    using assms p by (auto simp: os_remove_def fs_get_delete split: option.splits fnode.splits if_splits)
  show "fs_file fs' = (fs_file fs)(p := None)"
    by (rule ext) (simp add: fs_file_def get)
qed

lemma os_remove_err:
  assumes "os_remove p fs = (Inl e, fs')"
  shows "fs' = fs" and "fs_file fs p = None"
  using assms by (auto simp: os_remove_def fs_file_def split: option.splits fnode.splits if_splits)

text \<open>Whatever \<open>os.Remove\<close> answers, the path holds no regular file afterwards.\<close>

lemma fs_file_remove [simp]: "fs_file (snd (os_remove p fs)) = (fs_file fs)(p := None)"
proof (cases "os_remove p fs")
  case (Pair r fs')
  show ?thesis
  proof (cases r)
    case (Inl e)
    with Pair os_remove_err [of p fs e fs'] show ?thesis by auto
  next
    case (Inr u)
    with Pair os_remove_ok(3) [of p fs u fs'] show ?thesis by simp
  qed
qed

lemma os_remove_all_ok:
  assumes "os_remove_all p fs = (Inr u, fs')"
  shows "fs_file fs' = (\<lambda>q. if prefix p q then None else fs_file fs q)"
    and "fs_get fs' q = (if q \<noteq> [] \<and> prefix p q then None else fs_get fs q)"
proof -
  have fs': "fs' = filter (\<lambda>e. \<not> prefix p (fst e)) fs"
    using assms by (auto simp: os_remove_all_def split: if_splits)
  show "fs_get fs' q = (if q \<noteq> [] \<and> prefix p q then None else fs_get fs q)"
    by (simp add: fs' fs_get_filter_prefix)
  show "fs_file fs' = (\<lambda>q. if prefix p q then None else fs_file fs q)"
    by (rule ext) (auto simp: fs_file_def fs' fs_get_filter_prefix)
qed

lemma os_remove_all_err: "os_remove_all p fs = (Inl e, fs') \<Longrightarrow> fs' = fs"
  by (auto simp: os_remove_all_def split: if_splits)

lemma os_rename_ok:
  assumes "os_rename src dst fs = (Inr u, fs')"
  obtains m c where "fs_file fs src = Some (m, c)" and "src \<noteq> []" and "dst \<noteq> []"
    and "fs_get fs' = (fs_get fs)(src := None, dst \<mapsto> File m c)"
    and "fs_file fs' = (fs_file fs)(src := None, dst \<mapsto> (m, c))"
proof -
  from assms obtain m c where src: "fs_get fs src = Some (File m c)"
    by (auto simp: os_rename_def split: option.splits fnode.splits)
  have ne: "src \<noteq> []" "dst \<noteq> []"
    using src assms by (auto simp: os_rename_def)
  have get: "fs_get fs' = (fs_get fs)(src := None, dst \<mapsto> File m c)"
    using assms src ne
    by (auto simp: os_rename_def fs_get_update fs_get_delete split: option.splits fnode.splits if_splits)
  have "fs_file fs' = (fs_file fs)(src := None, dst \<mapsto> (m, c))"
    by (rule ext) (simp add: fs_file_def get)
  with src ne get that show ?thesis by (simp add: fs_file_Some_iff)
qed

lemma os_rename_err: "os_rename src dst fs = (Inl e, fs') \<Longrightarrow> fs' = fs"
  by (auto simp: os_rename_def split: option.splits fnode.splits if_splits)

lemma os_rename_succeeds:
  assumes "fs_get fs src = Some (File m c)" "fs_get fs dst \<noteq> Some Dir"
    "fs_get fs (path_dir dst) = Some Dir"
  shows "os_rename src dst fs = (Inr (), AList.update dst (File m c) (AList.delete src fs))"
  using assms by (auto simp: os_rename_def split: option.split fnode.split)

section \<open>Well-formed trees\<close>

text \<open>One node per path, every component a plain name, and every node below a directory.\<close>

definition wf_fs :: "'c fsys \<Rightarrow> bool" where
  "wf_fs fs \<longleftrightarrow> distinct (map fst fs) \<and>
     list_all (\<lambda>e. fst e \<noteq> [] \<and> list_all plain_seg (fst e) \<and>
       is_dir (fs_get fs (butlast (fst e)))) fs"

lemma fs_get_not_None_iff: "fs_get fs p \<noteq> None \<longleftrightarrow> p = [] \<or> p \<in> fst ` set fs"
  unfolding fs_get_def using map_of_None_iff [of fs p] by (metis option.distinct(1))

lemma wf_fs_iff:
  "wf_fs fs \<longleftrightarrow> distinct (map fst fs) \<and> [] \<notin> fst ` set fs \<and>
     (\<forall>p. fs_get fs p \<noteq> None \<longrightarrow> fs_get fs (butlast p) = Some Dir \<and> list_all plain_seg p)"
  unfolding wf_fs_def fs_get_not_None_iff list_all_iff is_dir_iff by force

lemma wf_fs_parent: "wf_fs fs \<Longrightarrow> fs_get fs p \<noteq> None \<Longrightarrow> fs_get fs (butlast p) = Some Dir"
  by (auto simp: wf_fs_iff)

lemma wf_fs_plain: "wf_fs fs \<Longrightarrow> fs_get fs p \<noteq> None \<Longrightarrow> list_all plain_seg p"
  by (auto simp: wf_fs_iff)

lemma has_children_iff:
  "has_children fs p \<longleftrightarrow> (\<exists>q. q \<noteq> [] \<and> butlast q = p \<and> fs_get fs q \<noteq> None)"
  unfolding has_children_def list_ex_iff fs_get_not_None_iff by auto

text \<open>Below a regular file, or below nothing, there is nothing.\<close>

lemma wf_fs_take:
  assumes "wf_fs fs" "fs_get fs p \<noteq> None" "i < length p"
  shows "fs_get fs (take i p) = Some Dir"
proof -
  have "fs_get fs (take (length p - Suc j) p) = Some Dir" if "j < length p" for j
    using that
  proof (induction j)
    case 0
    then show ?case
      using assms(1,2) wf_fs_parent [of fs p] by (simp add: butlast_conv_take)
  next
    case (Suc j)
    then have IH: "fs_get fs (take (length p - Suc j) p) = Some Dir" by simp
    have "butlast (take (length p - Suc j) p) = take (length p - Suc (Suc j)) p"
      using Suc.prems by (simp add: butlast_take)
    then show ?case
      using wf_fs_parent [OF assms(1), of "take (length p - Suc j) p"] IH by simp
  qed
  from this [of "length p - Suc i"] assms(3) show ?thesis by simp
qed

lemma wf_fs_no_file_above: "wf_fs fs \<Longrightarrow> fs_get fs p \<noteq> None \<Longrightarrow> \<not> file_above fs p"
  by (auto simp: file_above_def list_ex_iff wf_fs_take)

lemma wf_fs_updateI:
  assumes "wf_fs fs" "p \<noteq> []" "fs_get fs (butlast p) = Some Dir" "fs_get fs p \<noteq> Some Dir"
    "list_all plain_seg p"
  shows "wf_fs (AList.update p (File m c) fs)"
proof -
  have np: "butlast p \<noteq> p"
    using assms(2) by (metis append_butlast_last_id not_Cons_self2 append_self_conv)
  have "fs_get (AList.update p (File m c) fs) (butlast q) = Some Dir"
    if "fs_get (AList.update p (File m c) fs) q \<noteq> None" for q
  proof (cases "q = p")
    case True
    with np assms(3) show ?thesis by (simp add: fs_get_update [OF assms(2)])
  next
    case False
    with that have "fs_get fs (butlast q) = Some Dir"
      using wf_fs_parent [OF assms(1), of q] by (simp add: fs_get_update [OF assms(2)])
    moreover from this assms(4) have "butlast q \<noteq> p" by metis
    ultimately show ?thesis by (simp add: fs_get_update [OF assms(2)])
  qed
  moreover have "list_all plain_seg q" if "fs_get (AList.update p (File m c) fs) q \<noteq> None" for q
    using that assms(5) wf_fs_plain [OF assms(1), of q]
    by (auto simp: fs_get_update [OF assms(2)] split: if_splits)
  moreover have "[] \<notin> fst ` set (AList.update p (File m c) fs)"
    using assms(1,2) by (auto simp: wf_fs_iff dom_update)
  ultimately show ?thesis
    using assms(1) by (simp add: wf_fs_iff distinct_update)
qed

lemma wf_fs_deleteI:
  assumes "wf_fs fs" "p \<noteq> []" "\<not> has_children fs p"
  shows "wf_fs (AList.delete p fs)"
proof -
  have "fs_get (AList.delete p fs) (butlast q) = Some Dir" if "fs_get (AList.delete p fs) q \<noteq> None" for q
  proof (cases "q = []")
    case False
    with that assms(3) have "butlast q \<noteq> p"
      using assms(2) by (auto simp: has_children_iff fs_get_delete split: if_splits)
    with that wf_fs_parent [OF assms(1), of q] show ?thesis
      by (simp add: fs_get_delete [OF assms(2)] split: if_splits)
  qed simp
  moreover have "list_all plain_seg q" if "fs_get (AList.delete p fs) q \<noteq> None" for q
    using that wf_fs_plain [OF assms(1), of q]
    by (auto simp: fs_get_delete [OF assms(2)] split: if_splits)
  moreover have "[] \<notin> fst ` set (AList.delete p fs)"
    using assms(1) dom_delete_subset [of p fs] by (auto simp: wf_fs_iff)
  ultimately show ?thesis
    using assms(1) by (simp add: wf_fs_iff distinct_delete)
qed

lemma wf_fs_file_no_children:
  "wf_fs fs \<Longrightarrow> fs_get fs p = Some (File m c) \<Longrightarrow> \<not> has_children fs p"
  using wf_fs_parent by (fastforce simp: has_children_iff)

lemma wf_fs_add_dir:
  assumes "wf_fs fs" "q \<noteq> []" "fs_get fs q = None" "fs_get fs (butlast q) = Some Dir"
    "list_all plain_seg q"
  shows "wf_fs ((q, Dir) # fs)"
proof -
  have "q \<notin> fst ` set fs"
    using assms(2,3) by (simp add: fs_get_def map_of_None_iff)
  moreover have "fs_get ((q, Dir) # fs) (butlast r) = Some Dir" if "fs_get ((q, Dir) # fs) r \<noteq> None" for r
    using that assms wf_fs_parent [OF assms(1), of r] by (auto simp: fs_get_Cons split: if_splits)
  moreover have "list_all plain_seg r" if "fs_get ((q, Dir) # fs) r \<noteq> None" for r
    using that assms wf_fs_plain [OF assms(1), of r] by (auto simp: fs_get_Cons split: if_splits)
  ultimately show ?thesis
    using assms(1,2) by (auto simp: wf_fs_iff)
qed

lemma wf_mkdirs:
  assumes "wf_fs fs" "0 < n" "m \<le> Suc (length p)" "list_all plain_seg p"
    "\<And>i. i < n \<Longrightarrow> fs_get fs (take i p) = Some Dir"
    "\<And>i. i \<le> length p \<Longrightarrow> \<not> is_file (fs_get fs (take i p))"
  shows "wf_fs (mkdirs [n..<m] p fs)"
  using assms
proof (induction "m - n" arbitrary: fs n)
  case 0
  then show ?case by simp
next
  case (Suc k)
  then have nm: "n < m" "n \<le> length p" by simp_all
  let ?q = "take n p"
  let ?fs = "if fs_get fs ?q = None then (?q, Dir) # fs else fs"
  have ne: "?q \<noteq> []" using Suc.prems(2) nm by auto
  have "butlast ?q = take (n - 1) p" using nm by (simp add: butlast_take)
  then have par: "fs_get fs (butlast ?q) = Some Dir"
    using Suc.prems(2,5) by simp
  have "fs_get fs ?q = None \<or> fs_get fs ?q = Some Dir"
    using Suc.prems(6) [OF nm(2)] by (auto simp: is_file_def split: option.splits fnode.splits)
  then have get: "fs_get ?fs r = (if r = ?q then Some Dir else fs_get fs r)" for r
    using ne by (auto simp: fs_get_Cons)
  have "wf_fs (mkdirs [Suc n..<m] p ?fs)"
  proof (rule Suc.hyps(1))
    show "k = m - Suc n" using Suc.hyps(2) by simp
    have "list_all plain_seg ?q"
      using Suc.prems(4) by (auto simp: list_all_iff dest: in_set_takeD)
    then show "wf_fs ?fs" using Suc.prems(1) ne par by (auto intro: wf_fs_add_dir)
    show "fs_get ?fs (take i p) = Some Dir" if "i < Suc n" for i
      unfolding get using that Suc.prems(5) [of i] by (auto simp: less_Suc_eq)
    show "\<not> is_file (fs_get ?fs (take i p))" if "i \<le> length p" for i
      unfolding get using that Suc.prems(6) by simp
  qed (use Suc.prems in simp_all)
  then show ?case using nm by (simp add: upt_conv_Cons)
qed

lemma wf_os_mkdir_all [pres_intros]:
  assumes p: "list_all plain_seg p"
  shows "pres wf_fs (os_mkdir_all p)"
proof (rule presI)
  fix fs r t
  assume wf: "wf_fs fs" and run: "os_mkdir_all p fs = (r, t :: 'a fsys)"
  show "wf_fs t"
  proof (cases "file_above fs p \<or> is_file (fs_get fs p)")
    case True
    with wf run show ?thesis by (simp add: os_mkdir_all_def)
  next
    case False
    have "\<not> is_file (fs_get fs (take i p))" if "i \<le> length p" for i
      using that False by (cases "i = length p") (auto simp: file_above_def list_ex_iff)
    with wf p have "wf_fs (mkdirs [1..<Suc (length p)] p fs)"
      by (intro wf_mkdirs) auto
    with run False show ?thesis by (simp add: os_mkdir_all_def)
  qed
qed

lemma wf_os_write [pres_intros]:
  assumes p: "list_all plain_seg p"
  shows "pres wf_fs (os_write p now c)"
proof (rule presI)
  fix fs r t
  assume wf: "wf_fs fs" and run: "os_write p now c fs = (r, t)"
  have ne: "p \<noteq> []" if "fs_get fs p \<noteq> Some Dir" using that by auto
  show "wf_fs t"
    using run wf ne p wf_fs_parent [OF wf, of p]
    by (auto simp: os_write_def path_dir_def is_dir_iff intro!: wf_fs_updateI
        split: option.splits fnode.splits if_splits)
qed

lemma wf_os_remove [pres_intros]: "pres wf_fs (os_remove p)"
proof (rule presI)
  fix fs r t
  assume wf: "wf_fs fs" and run: "os_remove p fs = (r, t)"
  show "wf_fs t"
    using run wf
    by (auto simp: os_remove_def intro!: wf_fs_deleteI dest: wf_fs_file_no_children
        split: option.splits fnode.splits if_splits)
qed

lemma wf_os_remove_all [pres_intros]: "pres wf_fs (os_remove_all p)"
proof (rule presI)
  fix fs r t
  assume wf: "wf_fs fs" and run: "os_remove_all p fs = (r, t :: 'a fsys)"
  let ?fs = "filter (\<lambda>e. \<not> prefix p (fst e)) fs"
  have "fs_get ?fs (butlast q) = Some Dir" if "fs_get ?fs q \<noteq> None" for q
  proof -
    from that have "q = [] \<or> \<not> prefix p q" "fs_get fs q \<noteq> None"
      by (auto simp: fs_get_filter_prefix split: if_splits)
    moreover from this have "butlast q = [] \<or> \<not> prefix p (butlast q)"
      using prefix_order.trans [OF _ prefixeq_butlast] by auto
    ultimately show ?thesis
      using wf_fs_parent [OF wf, of q] by (auto simp: fs_get_filter_prefix)
  qed
  moreover have "list_all plain_seg q" if "fs_get ?fs q \<noteq> None" for q
    using that wf_fs_plain [OF wf, of q] by (auto simp: fs_get_filter_prefix split: if_splits)
  ultimately have "wf_fs ?fs"
    using wf by (auto simp: wf_fs_iff distinct_map_fst_filter)
  with run wf show "wf_fs t"
    by (auto simp: os_remove_all_def split: if_splits)
qed

lemma wf_os_rename [pres_intros]:
  assumes p: "list_all plain_seg dst"
  shows "pres wf_fs (os_rename src dst)"
proof (rule presI)
  fix fs r t
  assume wf: "wf_fs fs" and run: "os_rename src dst fs = (r, t)"
  show "wf_fs t"
  proof (cases r)
    case (Inl e)
    with run wf show ?thesis by (auto dest: os_rename_err)
  next
    case (Inr u)
    with run obtain m c where src: "fs_get fs src = Some (File m c)" "src \<noteq> []" "dst \<noteq> []"
      by (auto elim!: os_rename_ok simp: fs_file_Some_iff)
    have t: "t = AList.update dst (File m c) (AList.delete src fs)"
      and dst: "fs_get fs dst \<noteq> Some Dir" "fs_get fs (butlast dst) = Some Dir"
      using run Inr src wf_fs_parent [OF wf, of dst]
      by (auto simp: os_rename_def path_dir_def is_dir_iff split: option.splits fnode.splits if_splits)
    have "wf_fs (AList.delete src fs)"
      using wf src by (intro wf_fs_deleteI wf_fs_file_no_children)
    moreover have "fs_get (AList.delete src fs) (butlast dst) = Some Dir"
      using dst src by (auto simp: fs_get_delete)
    moreover have "fs_get (AList.delete src fs) dst \<noteq> Some Dir"
      using dst src by (simp add: fs_get_delete)
    ultimately show ?thesis
      using src p by (auto simp: t intro!: wf_fs_updateI)
  qed
qed

lemma wf_os_reads [pres_intros]:
  "pres wf_fs (os_stat p)" "pres wf_fs (os_open p)" "pres wf_fs (os_read_dir p)"
  "pres wf_fs (os_sync_dir p)"
  by (simp_all add: pres_def)

lemma wf_fs_Nil [simp]: "wf_fs []"
  by (auto simp: wf_fs_iff fs_get_def)

end
