(* ===== verification/Domain.thy ===== *)
theory Domain
  imports GoHash OsFiles
begin

text \<open>
  The domain types of \<open>internal/domain/s3/object.go\<close> and \<open>internal/domain/cluster/node.go\<close>:
  object metadata, the two-phase-commit transaction with its state machine, multipart records,
  listing results, and the cluster node.  Times are nanoseconds since the epoch, Go's
  \<open>int\<close> and \<open>int64\<close> fields are \<open>int\<close>, strings stay strings (operation and state names
  arrive from the network, so they are not restricted to the known ones).
\<close>

section \<open>internal/domain/s3/object.go\<close>

definition TxPrepared :: string where "TxPrepared = ''PREPARED''"
definition TxCommitted :: string where "TxCommitted = ''COMMITTED''"
definition TxAborted :: string where "TxAborted = ''ABORTED''"

definition OpPut :: string where "OpPut = ''PUT''"
definition OpDelete :: string where "OpDelete = ''DELETE''"

definition StorageModeReplica :: string where "StorageModeReplica = ''REPLICA''"
definition StorageModeEC :: string where "StorageModeEC = ''EC''"

record ec_params =
  ec_k :: int
  ec_m :: int
  ec_shard_size :: int

record object_meta =
  om_content_type :: string
  om_content_length :: int
  om_etag :: string
  om_crc32 :: u32
  om_created_at :: int
  om_modified_at :: int
  om_user_metadata :: "(string \<times> string) list"
  om_storage_mode :: string
  om_ec_params :: ec_params
  om_ec_chunk_index :: int

text \<open>The zero value \<open>s3.ObjectMeta{}\<close>.\<close>

definition empty_meta :: object_meta where
  "empty_meta = \<lparr>om_content_type = [], om_content_length = 0, om_etag = [], om_crc32 = 0,
     om_created_at = 0, om_modified_at = 0, om_user_metadata = [], om_storage_mode = [],
     om_ec_params = \<lparr>ec_k = 0, ec_m = 0, ec_shard_size = 0\<rparr>, om_ec_chunk_index = 0\<rparr>"

definition is_ec :: "object_meta \<Rightarrow> bool" where
  "is_ec m \<longleftrightarrow> om_storage_mode m = StorageModeEC"

record transaction =
  tx_id :: string
  tx_operation :: string
  tx_bucket :: string
  tx_key :: string
  tx_state :: string
  tx_created_at :: int

record multipart_upload =
  mu_upload_id :: string
  mu_bucket :: string
  mu_key :: string
  mu_initiated :: int

record upload_part =
  up_part_number :: int
  up_size :: int
  up_etag :: string
  up_crc32 :: u32
  up_modified_at :: int

record object_info =
  oi_key :: string
  oi_last_modified :: int
  oi_etag :: string
  oi_size :: int
  oi_storage_class :: string

record list_result =
  lr_name :: string
  lr_prefix :: string
  lr_key_count :: int
  lr_max_keys :: int
  lr_is_truncated :: bool
  lr_next_token :: string
  lr_contents :: "object_info list"
  lr_common_prefixes :: "string list"

record complete_part =
  cp_part_number :: int
  cp_etag :: string

text \<open>\<open>(*Transaction).TransitionTo\<close>: the switch on the current state.\<close>

definition tx_transition_to :: "string \<Rightarrow> (transaction, gerror, unit) io" where
  "tx_transition_to new_state tx =
     (if tx_state tx = TxPrepared then
        (if new_state = TxCommitted \<or> new_state = TxAborted
         then (Inr (), tx\<lparr>tx_state := new_state\<rparr>)
         else (Inl (ErrMsg (''invalid transition from '' @ tx_state tx @ '' to '' @ new_state)), tx))
      else if tx_state tx = TxCommitted \<or> tx_state tx = TxAborted then
        (if tx_state tx = new_state then (Inr (), tx)
         else (Inl (ErrMsg (''cannot change state from '' @ tx_state tx @ '' to '' @ new_state)), tx))
      else (Inl (ErrMsg (''invalid transition from '' @ tx_state tx @ '' to '' @ new_state)), tx))"

text \<open>A transaction asked for a sequence of states, errors ignored.\<close>

fun tx_run :: "string list \<Rightarrow> transaction \<Rightarrow> transaction" where
  "tx_run [] tx = tx"
| "tx_run (s # ss) tx = tx_run ss (snd (tx_transition_to s tx))"

lemmas tx_state_names = TxPrepared_def TxCommitted_def TxAborted_def
lemmas op_names = OpPut_def OpDelete_def

lemma tx_states_distinct [simp]:
  "TxPrepared \<noteq> TxCommitted" "TxPrepared \<noteq> TxAborted" "TxCommitted \<noteq> TxAborted"
  "TxCommitted \<noteq> TxPrepared" "TxAborted \<noteq> TxPrepared" "TxAborted \<noteq> TxCommitted"
  by (simp_all add: tx_state_names)

lemma ops_distinct [simp]: "OpPut \<noteq> OpDelete" "OpDelete \<noteq> OpPut"
  by (simp_all add: op_names)

lemma is_ec_empty_meta [simp]: "\<not> is_ec empty_meta"
  by (simp add: is_ec_def empty_meta_def StorageModeEC_def)

lemma tx_transition_frame:
  "tx_transition_to s tx = (r, tx') \<Longrightarrow> tx'\<lparr>tx_state := x\<rparr> = tx\<lparr>tx_state := x\<rparr>"
  by (auto simp: tx_transition_to_def split: if_splits)

lemma tx_transition_terminal:
  "tx_state tx \<noteq> TxPrepared \<Longrightarrow> snd (tx_transition_to s tx) = tx"
  by (simp add: tx_transition_to_def)

lemma tx_run_terminal: "tx_state tx \<noteq> TxPrepared \<Longrightarrow> tx_run ss tx = tx"
  by (induction ss) (auto simp: tx_transition_terminal)

lemma tx_run_state:
  "tx_state tx = TxPrepared \<Longrightarrow>
   tx_state (tx_run ss tx) =
     (case filter (\<lambda>s. s = TxCommitted \<or> s = TxAborted) ss of
        [] \<Rightarrow> TxPrepared | s # _ \<Rightarrow> s)"
proof (induction ss)
  case Nil
  then show ?case by simp
next
  case (Cons s ss)
  show ?case
  proof (cases "s = TxCommitted \<or> s = TxAborted")
    case True
    then have "tx_run ss (tx\<lparr>tx_state := s\<rparr>) = tx\<lparr>tx_state := s\<rparr>"
      by (intro tx_run_terminal) auto
    with True Cons.prems show ?thesis by (auto simp: tx_transition_to_def)
  next
    case False
    with Cons show ?thesis by (simp add: tx_transition_to_def)
  qed
qed

section \<open>internal/domain/cluster/node.go\<close>

definition RoleLeader :: string where "RoleLeader = ''leader''"
definition RoleFollower :: string where "RoleFollower = ''follower''"

definition StatusOffline :: string where "StatusOffline = ''OFFLINE''"
definition StatusSyncing :: string where "StatusSyncing = ''SYNCING''"
definition StatusReady :: string where "StatusReady = ''READY''"
definition StatusError :: string where "StatusError = ''ERROR''"

lemmas status_names = StatusOffline_def StatusSyncing_def StatusReady_def StatusError_def

record node =
  nd_id :: string
  nd_internal_address :: string
  nd_role :: string
  nd_status :: string
  nd_last_seen :: int
  nd_objects_count :: int
  nd_storage_used :: int
  nd_uptime_seconds :: int

definition is_healthy :: "node \<Rightarrow> bool" where
  "is_healthy n \<longleftrightarrow> nd_status n = StatusReady \<or> nd_role n = RoleLeader"

text \<open>\<open>(*Node).TransitionTo\<close>: any status is allowed, the error is always nil.\<close>

definition node_transition_to :: "string \<Rightarrow> (node, gerror, unit) io" where
  "node_transition_to status n =
     (if nd_status n = status then (Inr (), n) else (Inr (), n\<lparr>nd_status := status\<rparr>))"

lemma statuses_distinct [simp]:
  "StatusOffline \<noteq> StatusReady" "StatusReady \<noteq> StatusOffline" "StatusSyncing \<noteq> StatusReady"
  "StatusReady \<noteq> StatusSyncing" "StatusOffline \<noteq> StatusSyncing" "StatusSyncing \<noteq> StatusOffline"
  by (simp_all add: status_names)

text \<open>Once a two-phase-commit transaction is committed or aborted, no sequence of requested
  transitions changes any of its fields.\<close>

theorem tx_final:
  assumes "tx_state tx = TxCommitted \<or> tx_state tx = TxAborted"
  shows "tx_run ss tx = tx"
  using assms by (intro tx_run_terminal) auto

end
