(* ===== verification/FsRepo.thy ===== *)
theory FsRepo
  imports Domain
begin

text \<open>
  \<open>internal/infrastructure/storage/fs/filesystem.go\<close>: the repository that keeps objects,
  their metadata, prepared transactions, erasure-coded shards and multipart uploads as files
  below one root directory.  One definition per Go function, in the order of the file; the
  receiver's only field, \<open>root\<close>, is the first argument, an absolute clean path.

  What a file holds is a value of \<open>content\<close>: the raw bytes of a body, shard or part, or the Go
  value a JSON file was written from.  Encoding a value and decoding it again gives the value
  back; decoding raw bytes, or a file another kind of value was written to, is an error of
  the model (keys that leave their directory with \<open>..\<close> are the only way to reach that case).

  What the code reads from the outside while an operation runs is an \<open>env\<close>: the clock
  and a fresh UUID.  A reader argument is a \<open>stream\<close>: the bytes it yields and the error it ends
  with, if any.
\<close>

section \<open>Files\<close>

datatype content =
    CData "byte list"
  | CTx transaction
  | CMeta object_meta
  | CUpload multipart_upload
  | CPart upload_part

type_synonym repo_fs = "content fsys"
type_synonym 'a repo_io = "(content, 'a) fs_io"

record env =
  ev_now :: int
  ev_uuid :: string

record stream =
  st_bytes :: "byte list"
  st_err :: "gerror option"

definition bytes_stream :: "byte list \<Rightarrow> stream" where
  "bytes_stream bs = \<lparr>st_bytes = bs, st_err = None\<rparr>"

text \<open>What reading an opened file yields; reading an opened directory fails.\<close>

fun node_stream :: "path \<Rightarrow> content fnode \<Rightarrow> stream" where
  "node_stream p (File m (CData bs)) = bytes_stream bs"
| "node_stream p Dir = \<lparr>st_bytes = [], st_err = Some (PathErr ''read'' p EISDIR)\<rparr>"
| "node_stream p (File m c) = \<lparr>st_bytes = [], st_err = Some (ErrMsg ''not raw bytes'')\<rparr>"

definition open_stream :: "path \<Rightarrow> stream repo_io" where
  "open_stream p = bindE (os_open p) (\<lambda>n. retE (node_stream p n))"

section \<open>Helpers\<close>

text \<open>\<open>if err != nil { return fmt.Errorf("...: %w", err) }\<close>\<close>

definition wrapE :: "string \<Rightarrow> ('s, gerror, 'a) io \<Rightarrow> ('s, gerror, 'a) io" where
  "wrapE msg m fs = (case m fs of (Inl e, fs') \<Rightarrow> (Inl (Wrapped msg e), fs') | (Inr a, fs') \<Rightarrow> (Inr a, fs'))"

text \<open>\<open>if err != nil && !os.IsNotExist(err) { return err }\<close>\<close>

definition tolerateE :: "unit repo_io \<Rightarrow> unit repo_io" where
  "tolerateE m fs =
     (case m fs of (Inl e, fs') \<Rightarrow> (if is_not_exist e then Inr () else Inl e, fs') | (Inr a, fs') \<Rightarrow> (Inr a, fs'))"

text \<open>String concatenation at the end of a path.\<close>

definition path_add :: "path \<Rightarrow> string \<Rightarrow> path" where
  "path_add p s = butlast p @ [last p @ s]"

definition write_json :: "env \<Rightarrow> path \<Rightarrow> content \<Rightarrow> unit repo_io" where
  "write_json ev p v =
     (let tmp = path_add p (''.tmp.'' @ itoa (ev_now ev)) in
      bindE (os_write tmp (ev_now ev) v) (\<lambda>_.
        finallyE (os_rename tmp p) (os_remove tmp)))"

fun as_tx :: "content \<Rightarrow> transaction option" where
  "as_tx (CTx t) = Some t" | "as_tx _ = None"

fun as_meta :: "content \<Rightarrow> object_meta option" where
  "as_meta (CMeta m) = Some m" | "as_meta _ = None"

fun as_upload :: "content \<Rightarrow> multipart_upload option" where
  "as_upload (CUpload u) = Some u" | "as_upload _ = None"

fun as_part :: "content \<Rightarrow> upload_part option" where
  "as_part (CPart u) = Some u" | "as_part _ = None"

definition read_json :: "(content \<Rightarrow> 'a option) \<Rightarrow> path \<Rightarrow> 'a repo_io" where
  "read_json dec p = bindE (os_open p) (\<lambda>n.
     case n of
       Dir \<Rightarrow> failE (PathErr ''read'' p EISDIR)
     | File _ c \<Rightarrow> (case dec c of None \<Rightarrow> failE (ErrMsg ''invalid json'') | Some v \<Rightarrow> retE v))"

definition is_dir_empty :: "path \<Rightarrow> bool repo_io" where
  "is_dir_empty p fs =
     (case os_open p fs of
        (Inl e, _) \<Rightarrow> (if is_not_exist e then Inr True else Inl e, fs)
      | (Inr (File _ _), _) \<Rightarrow> (Inl (PathErr ''readdirent'' p ENOTDIR), fs)
      | (Inr Dir, _) \<Rightarrow> (Inr (\<not> has_children fs p), fs))"

text \<open>\<open>cleanEmptyDirs\<close>: the loop climbs from the start towards the limit.\<close>

function clean_empty_dirs :: "path \<Rightarrow> path \<Rightarrow> repo_fs \<Rightarrow> repo_fs" where
  "clean_empty_dirs current limit fs =
     (if current = limit \<or> current = [] then fs
      else case is_dir_empty current fs of
        (Inr True, _) \<Rightarrow>
          (case os_remove current fs of
             (Inl _, _) \<Rightarrow> fs
           | (Inr _, fs') \<Rightarrow> clean_empty_dirs (path_dir current) limit fs')
      | _ \<Rightarrow> fs)"
  by pat_completeness auto
termination
  by (relation "measure (\<lambda>(current, limit, fs). length current)") (auto simp: path_dir_def)

declare clean_empty_dirs.simps [simp del]

definition clean_dirs :: "path \<Rightarrow> path \<Rightarrow> unit repo_io" where
  "clean_dirs start limit fs = (Inr (), clean_empty_dirs start limit fs)"

section \<open>Paths\<close>

definition data_dir :: "path \<Rightarrow> string \<Rightarrow> path" where
  "data_dir root bucket = path_join root [''data'', bucket]"

definition meta_dir :: "path \<Rightarrow> string \<Rightarrow> path" where
  "meta_dir root bucket = path_join root [''meta'', bucket]"

definition staging_dir :: "path \<Rightarrow> string \<Rightarrow> path" where
  "staging_dir root txid = path_join root [''staging'', txid]"

definition uploads_dir :: "path \<Rightarrow> string \<Rightarrow> path" where
  "uploads_dir root bucket = path_join root [''uploads'', bucket]"

definition upload_session_dir :: "path \<Rightarrow> string \<Rightarrow> string \<Rightarrow> path" where
  "upload_session_dir root bucket upload_id = path_join root [''uploads'', bucket, upload_id]"

definition ec_shard_dir :: "path \<Rightarrow> string \<Rightarrow> path" where
  "ec_shard_dir root bucket = path_join root [''ecdata'', bucket]"

definition ec_shard_path :: "path \<Rightarrow> string \<Rightarrow> string \<Rightarrow> int \<Rightarrow> path" where
  "ec_shard_path root bucket key i =
     path_join (ec_shard_dir root bucket) [key @ ''.shard.'' @ itoa i]"

text \<open>\<open>filepath.Join(r.dataDir(bucket), key)\<close> and \<open>filepath.Join(r.metaDir(bucket), key+".json")\<close>.\<close>

definition data_path :: "path \<Rightarrow> string \<Rightarrow> string \<Rightarrow> path" where
  "data_path root bucket key = path_join (data_dir root bucket) [key]"

definition meta_path :: "path \<Rightarrow> string \<Rightarrow> string \<Rightarrow> path" where
  "meta_path root bucket key = path_join (meta_dir root bucket) [key @ ''.json'']"

definition new_filesystem_repository :: "path \<Rightarrow> unit repo_io" where
  "new_filesystem_repository root =
     forE [''data'', ''meta'', ''staging'', ''uploads'', ''ecdata'']
       (\<lambda>dir. wrapE (''failed to create directory '' @ dir) (os_mkdir_all (path_join root [dir])))"

section \<open>Bucket operations\<close>

definition create_bucket :: "path \<Rightarrow> string \<Rightarrow> unit repo_io" where
  "create_bucket root bucket =
     bindE (os_mkdir_all (data_dir root bucket)) (\<lambda>_.
     bindE (os_mkdir_all (meta_dir root bucket)) (\<lambda>_. retE ()))"

definition delete_bucket :: "path \<Rightarrow> string \<Rightarrow> unit repo_io" where
  "delete_bucket root bucket =
     bindE (is_dir_empty (data_dir root bucket)) (\<lambda>empty.
     if \<not> empty then failE (ErrMsg ''bucket not empty'') else
     bindE (tolerateE (os_remove (data_dir root bucket))) (\<lambda>_.
     bindE (os_remove_all (meta_dir root bucket)) (\<lambda>_. retE ())))"

definition has_bucket :: "path \<Rightarrow> string \<Rightarrow> bool repo_io" where
  "has_bucket root bucket fs =
     (case os_stat (data_dir root bucket) fs of
        (Inr _, fs') \<Rightarrow> (Inr True, fs')
      | (Inl e, fs') \<Rightarrow> (if is_not_exist e then Inr False else Inl e, fs'))"

definition list_buckets :: "path \<Rightarrow> (string list) repo_io" where
  "list_buckets root =
     bindE (os_read_dir (path_join root [''data''])) (\<lambda>entries.
     retE (map fst (filter snd entries)))"

section \<open>EC shards\<close>

text \<open>\<open>DeleteAllECShards\<close>: only the bucket's shard directory itself is read.\<close>

definition remove_shard_entries :: "path \<Rightarrow> string \<Rightarrow> (string \<times> bool) list \<Rightarrow> unit repo_io" where
  "remove_shard_entries dir key entries =
     forE entries (\<lambda>(nm, isdir).
       if \<not> isdir \<and> prefix (key @ ''.shard.'') nm
       then ignoreE (os_remove (path_join dir [nm])) else retE ())"

definition delete_all_ec_shards :: "path \<Rightarrow> string \<Rightarrow> string \<Rightarrow> unit repo_io" where
  "delete_all_ec_shards root bucket key fs =
     (let dir = ec_shard_dir root bucket in
      case os_read_dir dir fs of
        (Inl e, fs') \<Rightarrow> (if is_not_exist e then Inr () else Inl e, fs')
      | (Inr entries, fs') \<Rightarrow>
          bindE (remove_shard_entries dir key entries) (\<lambda>_.
            clean_dirs dir (ec_shard_dir root bucket)) fs')"

text \<open>\<open>UpdateObjectMeta\<close>\<close>

definition update_object_meta :: "path \<Rightarrow> env \<Rightarrow> string \<Rightarrow> string \<Rightarrow> object_meta \<Rightarrow> unit repo_io" where
  "update_object_meta root ev bucket key meta =
     (let mp = meta_path root bucket key in
      bindE (os_mkdir_all (path_dir mp)) (\<lambda>_.
      bindE (write_json ev mp (CMeta meta)) (\<lambda>_.
      os_sync_dir (path_dir mp))))"

text \<open>
  The body every upload ends in: create the temporary file, copy the reader into it, and
  (whatever happens next) remove the temporary file when the function returns.  The copy
  leaves the bytes read before an error in the file.
\<close>

definition with_temp_file :: "env \<Rightarrow> path \<Rightarrow> stream \<Rightarrow> (byte list \<Rightarrow> 'a repo_io) \<Rightarrow> 'a repo_io" where
  "with_temp_file ev tmp st k =
     bindE (os_write tmp (ev_now ev) (CData (st_bytes st))) (\<lambda>_.
     finallyE
       (case st_err st of Some e \<Rightarrow> failE e | None \<Rightarrow> k (st_bytes st))
       (os_remove tmp))"

definition size_mismatch :: "string \<Rightarrow> int \<Rightarrow> byte list \<Rightarrow> gerror" where
  "size_mismatch msg sz bs =
     ErrMsg (msg @ '': expected '' @ itoa sz @ '', got '' @ itoa (int (length bs)))"

definition put_ec_shard ::
    "path \<Rightarrow> env \<Rightarrow> string \<Rightarrow> string \<Rightarrow> int \<Rightarrow> stream \<Rightarrow> int \<Rightarrow> object_meta \<Rightarrow> unit repo_io" where
  "put_ec_shard root ev bucket key i st sz meta =
     (let sp = ec_shard_path root bucket key i;
          tmp = path_add sp (''.shard.tmp.'' @ ev_uuid ev) in
      bindE (os_mkdir_all (path_dir sp)) (\<lambda>_.
      with_temp_file ev tmp st (\<lambda>bs.
        if 0 \<le> sz \<and> int (length bs) \<noteq> sz
        then failE (size_mismatch ''ec shard size mismatch'' sz bs) else
        bindE (os_rename tmp sp) (\<lambda>_.
        bindE (os_sync_dir (path_dir sp)) (\<lambda>_.
        update_object_meta root ev bucket key meta)))))"

definition get_ec_shard :: "path \<Rightarrow> string \<Rightarrow> string \<Rightarrow> int \<Rightarrow> stream repo_io" where
  "get_ec_shard root bucket key i = open_stream (ec_shard_path root bucket key i)"

definition has_ec_shard :: "path \<Rightarrow> string \<Rightarrow> string \<Rightarrow> int \<Rightarrow> bool repo_io" where
  "has_ec_shard root bucket key i fs =
     (case os_stat (ec_shard_path root bucket key i) fs of
        (Inr _, fs') \<Rightarrow> (Inr True, fs')
      | (Inl e, fs') \<Rightarrow> (if is_not_exist e then Inr False else Inl e, fs'))"

definition delete_ec_shard :: "path \<Rightarrow> string \<Rightarrow> string \<Rightarrow> int \<Rightarrow> unit repo_io" where
  "delete_ec_shard root bucket key i =
     (let sp = ec_shard_path root bucket key i in
      bindE (tolerateE (os_remove sp)) (\<lambda>_.
      clean_dirs (path_dir sp) (ec_shard_dir root bucket)))"

definition remove_replica_data :: "path \<Rightarrow> string \<Rightarrow> string \<Rightarrow> unit repo_io" where
  "remove_replica_data root bucket key =
     (let dp = data_path root bucket key in
      bindE (tolerateE (os_remove dp)) (\<lambda>_.
      clean_dirs (path_dir dp) (data_dir root bucket)))"

section \<open>Transactions\<close>

definition stage_file :: "path \<Rightarrow> string \<Rightarrow> string \<Rightarrow> path" where
  "stage_file root txid nm = path_join (staging_dir root txid) [nm]"

text \<open>The metadata fields \<open>StageObject\<close> computes while it copies.\<close>

definition staged_meta :: "object_meta \<Rightarrow> byte list \<Rightarrow> object_meta" where
  "staged_meta meta bs =
     (let m = meta\<lparr>om_content_length := int (length bs), om_crc32 := crc32 bs\<rparr> in
      if om_etag m = [] then m\<lparr>om_etag := quoted (hex_encode (md5 bs))\<rparr> else m)"

definition stage_object ::
    "path \<Rightarrow> env \<Rightarrow> string \<Rightarrow> stream \<Rightarrow> int \<Rightarrow> object_meta \<Rightarrow> transaction \<Rightarrow> object_meta repo_io" where
  "stage_object root ev txid st sz meta tx =
     (let sd = staging_dir root txid in
      bindE (os_mkdir_all sd) (\<lambda>_.
      bindE (write_json ev (stage_file root txid ''tx.json'') (CTx tx)) (\<lambda>_.
      if tx_operation tx = OpPut then
        (let tmp = stage_file root txid (''data.tmp.'' @ ev_uuid ev) in
         with_temp_file ev tmp st (\<lambda>bs.
           if 0 \<le> sz \<and> int (length bs) \<noteq> sz
           then failE (size_mismatch ''size mismatch'' sz bs) else
           (let meta' = staged_meta meta bs in
            bindE (os_rename tmp (stage_file root txid ''data'')) (\<lambda>_.
            bindE (write_json ev (stage_file root txid ''meta.json'') (CMeta meta')) (\<lambda>_.
            bindE (os_sync_dir sd) (\<lambda>_. retE meta'))))))
      else bindE (os_sync_dir sd) (\<lambda>_. retE meta))))"

text \<open>The two branches of \<open>CommitTransaction\<close>.\<close>

definition commit_put :: "path \<Rightarrow> string \<Rightarrow> string \<Rightarrow> string \<Rightarrow> object_meta repo_io" where
  "commit_put root txid bucket key =
     bindE (wrapE ''failed to read transaction meta''
       (read_json as_meta (stage_file root txid ''meta.json''))) (\<lambda>meta.
     (let td = data_path root bucket key; tm = meta_path root bucket key in
      bindE (os_mkdir_all (path_dir td)) (\<lambda>_.
      bindE (os_rename (stage_file root txid ''data'') td) (\<lambda>_.
      bindE (os_sync_dir (path_dir td)) (\<lambda>_.
      bindE (ignoreE (delete_all_ec_shards root bucket key)) (\<lambda>_.
      bindE (os_mkdir_all (path_dir tm)) (\<lambda>_.
      bindE (os_rename (stage_file root txid ''meta.json'') tm) (\<lambda>_.
      bindE (os_sync_dir (path_dir tm)) (\<lambda>_.
      retE meta)))))))))"

text \<open>The files of an object removed: the \<open>DELETE\<close> branch, and all of \<open>DeleteObject\<close>.\<close>

definition delete_object :: "path \<Rightarrow> string \<Rightarrow> string \<Rightarrow> unit repo_io" where
  "delete_object root bucket key =
     (let td = data_path root bucket key; tm = meta_path root bucket key in
      bindE (tolerateE (os_remove td)) (\<lambda>_.
      bindE (tolerateE (os_remove tm)) (\<lambda>_.
      bindE (ignoreE (delete_all_ec_shards root bucket key)) (\<lambda>_.
      bindE (clean_dirs (path_dir td) (data_dir root bucket)) (\<lambda>_.
      clean_dirs (path_dir tm) (meta_dir root bucket))))))"

definition tx_mismatch :: "string \<Rightarrow> transaction \<Rightarrow> string \<Rightarrow> string \<Rightarrow> gerror" where
  "tx_mismatch txid tx bucket key =
     ErrMsg (''transaction '' @ txid @ '' bucket/key mismatch: expected '' @ tx_bucket tx @ ''/'' @
       tx_key tx @ '', got '' @ bucket @ ''/'' @ key)"

definition commit_transaction :: "path \<Rightarrow> string \<Rightarrow> string \<Rightarrow> string \<Rightarrow> object_meta repo_io" where
  "commit_transaction root txid bucket key =
     bindE (wrapE ''failed to read transaction log''
       (read_json as_tx (stage_file root txid ''tx.json''))) (\<lambda>tx.
     if tx_bucket tx \<noteq> bucket \<or> tx_key tx \<noteq> key then failE (tx_mismatch txid tx bucket key) else
     bindE (if tx_operation tx = OpPut then commit_put root txid bucket key
            else if tx_operation tx = OpDelete
            then bindE (delete_object root bucket key) (\<lambda>_. retE empty_meta)
            else retE empty_meta) (\<lambda>meta.
     bindE (os_remove_all (staging_dir root txid)) (\<lambda>_. retE meta)))"

definition abort_transaction :: "path \<Rightarrow> string \<Rightarrow> unit repo_io" where
  "abort_transaction root txid = os_remove_all (staging_dir root txid)"

definition get_transaction :: "path \<Rightarrow> string \<Rightarrow> transaction repo_io" where
  "get_transaction root txid = read_json as_tx (stage_file root txid ''tx.json'')"

definition get_staged_object_reader :: "path \<Rightarrow> string \<Rightarrow> stream repo_io" where
  "get_staged_object_reader root txid = open_stream (stage_file root txid ''data'')"

section \<open>Objects\<close>

definition get_object_meta :: "path \<Rightarrow> string \<Rightarrow> string \<Rightarrow> object_meta repo_io" where
  "get_object_meta root bucket key fs =
     (case read_json as_meta (meta_path root bucket key) fs of
        (Inl e, fs') \<Rightarrow> (Inl (if is_not_exist e then ErrNotExist else e), fs')
      | (Inr meta, fs') \<Rightarrow> (Inr meta, fs'))"

definition get_object :: "path \<Rightarrow> string \<Rightarrow> string \<Rightarrow> (stream \<times> object_meta) repo_io" where
  "get_object root bucket key =
     bindE (get_object_meta root bucket key) (\<lambda>meta.
     bindE (open_stream (if is_ec meta then ec_shard_path root bucket key (om_ec_chunk_index meta)
                         else data_path root bucket key)) (\<lambda>st.
     retE (st, meta)))"

section \<open>Listing\<close>

text \<open>The keys \<open>WalkDir\<close> collects below the bucket's metadata directory, then sorted.\<close>

definition object_keys :: "path \<Rightarrow> string \<Rightarrow> repo_fs \<Rightarrow> string list" where
  "object_keys root bucket fs =
     sort (map (\<lambda>s. trim_suffix s ''.json'')
       (filter (suffix ''.json'') (map (join_with ''/'') (files_under (meta_dir root bucket) fs))))"

text \<open>\<open>sort.Search\<close>: the first key after the continuation token, from a sorted list.\<close>

definition list_start :: "string \<Rightarrow> string list \<Rightarrow> string list" where
  "list_start token keys = (if token = [] then keys else dropWhile (\<lambda>k. \<not> token < k) keys)"

text \<open>The common prefix a key is grouped under, if any.\<close>

definition common_prefix_of :: "string \<Rightarrow> string \<Rightarrow> string \<Rightarrow> string option" where
  "common_prefix_of pre delimiter key =
     (if delimiter = [] then None
      else (let rem = drop (length pre) key in
        map_option (\<lambda>idx. pre @ take (idx + length delimiter) rem) (str_index rem delimiter)))"

definition object_info_of :: "string \<Rightarrow> object_meta \<Rightarrow> object_info" where
  "object_info_of key meta =
     \<lparr>oi_key = key, oi_last_modified = om_modified_at meta, oi_etag = om_etag meta,
      oi_size = om_content_length meta, oi_storage_class = ''STANDARD''\<rparr>"

text \<open>
  The loop of \<open>ListObjectsV2\<close> from a key on: the objects, the common prefixes met (in the order
  met, each once) and the token of the next page when the loop stopped early.  \<open>count\<close> is the
  number of objects so far.
\<close>

fun list_loop ::
    "(string \<Rightarrow> object_meta option) \<Rightarrow> string \<Rightarrow> string \<Rightarrow> int \<Rightarrow> int \<Rightarrow> string list \<Rightarrow>
     object_info list \<times> string list \<times> string option" where
  "list_loop look pre delimiter max_keys count [] = ([], [], None)"
| "list_loop look pre delimiter max_keys count (key # rest) =
     (if pre \<noteq> [] \<and> \<not> prefix pre key
      then list_loop look pre delimiter max_keys count rest
      else (case common_prefix_of pre delimiter key of
        Some cp \<Rightarrow>
          (case list_loop look pre delimiter max_keys count rest of
             (os, cps, tok) \<Rightarrow> (os, List.insert cp cps, tok))
      | None \<Rightarrow>
          (case look key of
             None \<Rightarrow> list_loop look pre delimiter max_keys count rest
           | Some meta \<Rightarrow>
               if max_keys \<le> count + 1
               then ([object_info_of key meta], [], if rest \<noteq> [] then Some key else None)
               else (case list_loop look pre delimiter max_keys (count + 1) rest of
                  (os, cps, tok) \<Rightarrow> (object_info_of key meta # os, cps, tok)))))"

definition meta_lookup :: "path \<Rightarrow> string \<Rightarrow> repo_fs \<Rightarrow> string \<Rightarrow> object_meta option" where
  "meta_lookup root bucket fs key =
     (case fst (get_object_meta root bucket key fs) of Inl _ \<Rightarrow> None | Inr m \<Rightarrow> Some m)"

definition list_objects_v2 ::
    "path \<Rightarrow> string \<Rightarrow> string \<Rightarrow> string \<Rightarrow> string \<Rightarrow> int \<Rightarrow> list_result repo_io" where
  "list_objects_v2 root bucket pre delimiter token max_keys fs =
     (case os_stat (meta_dir root bucket) fs of
        (Inl e, _) \<Rightarrow> (Inl (if is_not_exist e then ErrNotExist else e), fs)
      | (Inr _, _) \<Rightarrow>
          (case list_loop (meta_lookup root bucket fs) pre delimiter max_keys 0
                  (list_start token (object_keys root bucket fs)) of
             (os, cps, tok) \<Rightarrow>
               (Inr \<lparr>lr_name = bucket, lr_prefix = pre,
                  lr_key_count = int (length os) + int (length cps), lr_max_keys = max_keys,
                  lr_is_truncated = (tok \<noteq> None),
                  lr_next_token = (case tok of None \<Rightarrow> [] | Some t \<Rightarrow> t),
                  lr_contents = os, lr_common_prefixes = sort cps\<rparr>, fs)))"

section \<open>Multipart uploads\<close>

definition create_multipart_upload :: "path \<Rightarrow> env \<Rightarrow> string \<Rightarrow> string \<Rightarrow> string repo_io" where
  "create_multipart_upload root ev bucket key =
     (let sd = upload_session_dir root bucket (ev_uuid ev) in
      bindE (os_mkdir_all sd) (\<lambda>_.
      bindE (write_json ev (path_join sd [''upload.json''])
        (CUpload \<lparr>mu_upload_id = ev_uuid ev, mu_bucket = bucket, mu_key = key,
           mu_initiated = ev_now ev\<rparr>)) (\<lambda>_.
      retE (ev_uuid ev))))"

definition part_path :: "path \<Rightarrow> string \<Rightarrow> string \<Rightarrow> int \<Rightarrow> path" where
  "part_path root bucket upload_id n =
     path_join (upload_session_dir root bucket upload_id) [itoa05 n]"

text \<open>\<open>if _, err := os.Stat(sessionDir); os.IsNotExist(err) { return ... not found }\<close>\<close>

definition upload_exists :: "path \<Rightarrow> string \<Rightarrow> string \<Rightarrow> unit repo_io" where
  "upload_exists root bucket upload_id fs =
     (case os_stat (upload_session_dir root bucket upload_id) fs of
        (Inl e, fs') \<Rightarrow>
          (if is_not_exist e then Inl (ErrMsg (''multipart upload '' @ upload_id @ '' not found''))
           else Inr (), fs')
      | (Inr _, fs') \<Rightarrow> (Inr (), fs'))"

definition part_meta :: "env \<Rightarrow> int \<Rightarrow> byte list \<Rightarrow> upload_part" where
  "part_meta ev n bs =
     \<lparr>up_part_number = n, up_size = int (length bs), up_etag = quoted (hex_encode (md5 bs)),
      up_crc32 = crc32 bs, up_modified_at = ev_now ev\<rparr>"

definition save_multipart_part ::
    "path \<Rightarrow> env \<Rightarrow> string \<Rightarrow> string \<Rightarrow> int \<Rightarrow> stream \<Rightarrow> upload_part repo_io" where
  "save_multipart_part root ev bucket upload_id n st =
     bindE (upload_exists root bucket upload_id) (\<lambda>_.
     (let pp = part_path root bucket upload_id n; tmp = path_add pp ''.tmp'' in
      with_temp_file ev tmp st (\<lambda>bs.
        bindE (os_rename tmp pp) (\<lambda>_.
        bindE (write_json ev (path_add pp ''.json'') (CPart (part_meta ev n bs))) (\<lambda>_.
        retE (part_meta ev n bs))))))"

definition get_multipart_part_reader :: "path \<Rightarrow> string \<Rightarrow> string \<Rightarrow> int \<Rightarrow> stream repo_io" where
  "get_multipart_part_reader root bucket upload_id n =
     open_stream (part_path root bucket upload_id n)"

definition delete_multipart_part :: "path \<Rightarrow> string \<Rightarrow> string \<Rightarrow> int \<Rightarrow> unit repo_io" where
  "delete_multipart_part root bucket upload_id n =
     (let pp = part_path root bucket upload_id n in
      bindE (tolerateE (os_remove pp)) (\<lambda>_.
      tolerateE (os_remove (path_add pp ''.json''))))"

text \<open>A file that cannot be decoded is skipped.\<close>

definition read_all :: "(content \<Rightarrow> 'a option) \<Rightarrow> path list \<Rightarrow> repo_fs \<Rightarrow> 'a list" where
  "read_all dec ps fs =
     concat (map (\<lambda>p. case fst (read_json dec p fs) of Inl _ \<Rightarrow> [] | Inr v \<Rightarrow> [v]) ps)"

definition is_part_meta_name :: "string \<Rightarrow> bool" where
  "is_part_meta_name nm \<longleftrightarrow> suffix ''.json'' nm \<and> nm \<noteq> ''upload.json''"

definition get_multipart_parts :: "path \<Rightarrow> string \<Rightarrow> string \<Rightarrow> (upload_part list) repo_io" where
  "get_multipart_parts root bucket upload_id =
     (let sd = upload_session_dir root bucket upload_id in
      bindE (upload_exists root bucket upload_id) (\<lambda>_.
      bindE (os_read_dir sd) (\<lambda>entries fs.
        (Inr (sort_key up_part_number
           (read_all as_part
              (map (\<lambda>e. path_join sd [fst e])
                 (filter (\<lambda>(nm, isdir). \<not> isdir \<and> is_part_meta_name nm) entries)) fs)), fs))))"

definition abort_multipart_upload :: "path \<Rightarrow> string \<Rightarrow> string \<Rightarrow> unit repo_io" where
  "abort_multipart_upload root bucket upload_id =
     os_remove_all (upload_session_dir root bucket upload_id)"

definition get_multipart_upload :: "path \<Rightarrow> string \<Rightarrow> string \<Rightarrow> multipart_upload repo_io" where
  "get_multipart_upload root bucket upload_id =
     read_json as_upload (path_join (upload_session_dir root bucket upload_id) [''upload.json''])"

definition list_multipart_uploads :: "path \<Rightarrow> string \<Rightarrow> (multipart_upload list) repo_io" where
  "list_multipart_uploads root bucket fs =
     (case os_read_dir (uploads_dir root bucket) fs of
        (Inl e, fs') \<Rightarrow> (if is_not_exist e then Inr [] else Inl e, fs')
      | (Inr entries, fs') \<Rightarrow>
          (Inr (read_all as_upload
             (map (\<lambda>e. path_join (uploads_dir root bucket) [fst e, ''upload.json''])
                (filter snd entries)) fs'), fs'))"

section \<open>Maintenance\<close>

text \<open>The loop over the staging directories; a directory with no readable transaction log is
  removed and not reported.\<close>

fun cleanup_tx_loop ::
    "path \<Rightarrow> env \<Rightarrow> int \<Rightarrow> (string \<times> bool) list \<Rightarrow> repo_fs \<Rightarrow> transaction list \<times> repo_fs" where
  "cleanup_tx_loop root ev max_age [] fs = ([], fs)"
| "cleanup_tx_loop root ev max_age ((txid, isdir) # es) fs =
     (if \<not> isdir then cleanup_tx_loop root ev max_age es fs
      else case fst (get_transaction root txid fs) of
        Inl _ \<Rightarrow> cleanup_tx_loop root ev max_age es (snd (abort_transaction root txid fs))
      | Inr tx \<Rightarrow>
          if tx_state tx = TxPrepared \<and> max_age < ev_now ev - tx_created_at tx
          then (case cleanup_tx_loop root ev max_age es (snd (abort_transaction root txid fs)) of
                  (txs, fs') \<Rightarrow> (tx # txs, fs'))
          else cleanup_tx_loop root ev max_age es fs)"

definition cleanup_expired_transactions ::
    "path \<Rightarrow> env \<Rightarrow> int \<Rightarrow> (transaction list) repo_io" where
  "cleanup_expired_transactions root ev max_age fs =
     (case os_read_dir (path_join root [''staging'']) fs of
        (Inl e, fs') \<Rightarrow> (if is_not_exist e then Inr [] else Inl e, fs')
      | (Inr entries, fs') \<Rightarrow>
          (case cleanup_tx_loop root ev max_age entries fs' of (txs, fs'') \<Rightarrow> (Inr txs, fs'')))"

text \<open>Go's \<open>len\<close> of the path as a string.\<close>

definition path_strlen :: "path \<Rightarrow> nat" where
  "path_strlen p = (if p = [] then 1 else sum_list (map (\<lambda>c. Suc (length c)) p))"

function climb_empty_dirs :: "path \<Rightarrow> path \<Rightarrow> path \<Rightarrow> repo_fs \<Rightarrow> repo_fs" where
  "climb_empty_dirs dir bucket_dir data_root fs =
     (if dir = [] \<or> \<not> (dir \<noteq> bucket_dir \<and> dir \<noteq> data_root \<and> path_strlen bucket_dir < path_strlen dir)
      then fs
      else case os_read_dir dir fs of
        (Inr [], _) \<Rightarrow>
          climb_empty_dirs (path_dir dir) bucket_dir data_root (snd (os_remove dir fs))
      | _ \<Rightarrow> fs)"
  by pat_completeness auto
termination
  by (relation "measure (\<lambda>(dir, b, d, fs). length dir)") (auto simp: path_dir_def)

declare climb_empty_dirs.simps [simp del]

text \<open>One regular file of the walk below \<open>data/\<close>, by its path there; the flag tells whether it
  was counted as removed.\<close>

definition orphan_visit :: "path \<Rightarrow> env \<Rightarrow> int \<Rightarrow> path \<Rightarrow> repo_fs \<Rightarrow> bool \<times> repo_fs" where
  "orphan_visit root ev min_age rel fs =
     (let dp = path_join root [''data'']; mp = path_join root [''meta'']; p = dp @ rel in
      case (fs_get fs p, split_n2 (CHR ''/'') (join_with ''/'' rel)) of
        (Some (File mtime _), [bucket, key]) \<Rightarrow>
          (case os_stat (path_join mp [bucket, key @ ''.json'']) fs of
             (Inl e, _) \<Rightarrow>
               if is_not_exist e \<and> min_age < ev_now ev - mtime
               then (True, climb_empty_dirs (path_dir p) (path_join dp [bucket]) dp
                       (snd (os_remove p fs)))
               else (False, fs)
           | (Inr _, _) \<Rightarrow> (False, fs))
      | _ \<Rightarrow> (False, fs))"

fun orphan_loop :: "path \<Rightarrow> env \<Rightarrow> int \<Rightarrow> path list \<Rightarrow> repo_fs \<Rightarrow> int \<times> repo_fs" where
  "orphan_loop root ev min_age [] fs = (0, fs)"
| "orphan_loop root ev min_age (rel # rels) fs =
     (case orphan_visit root ev min_age rel fs of
        (hit, fs') \<Rightarrow>
          (case orphan_loop root ev min_age rels fs' of
             (n, fs'') \<Rightarrow> (if hit then n + 1 else n, fs'')))"

text \<open>\<open>filepath.Walk\<close> visits the files in lexical order of their components; its callback never
  returns an error, so neither does the operation.\<close>

definition cleanup_orphaned_objects :: "path \<Rightarrow> env \<Rightarrow> int \<Rightarrow> int repo_io" where
  "cleanup_orphaned_objects root ev min_age fs =
     (case orphan_loop root ev min_age (sort (files_under (path_join root [''data'']) fs)) fs of
        (n, fs') \<Rightarrow> (Inr n, fs'))"

fun abort_old_uploads ::
    "path \<Rightarrow> env \<Rightarrow> int \<Rightarrow> string \<Rightarrow> multipart_upload list \<Rightarrow> repo_fs \<Rightarrow>
     multipart_upload list \<times> repo_fs" where
  "abort_old_uploads root ev max_age b [] fs = ([], fs)"
| "abort_old_uploads root ev max_age b (up # ups) fs =
     (if max_age < ev_now ev - mu_initiated up
      then (case abort_old_uploads root ev max_age b ups
                   (snd (abort_multipart_upload root b (mu_upload_id up) fs)) of
              (aborted, fs') \<Rightarrow> (up # aborted, fs'))
      else abort_old_uploads root ev max_age b ups fs)"

fun cleanup_uploads_loop ::
    "path \<Rightarrow> env \<Rightarrow> int \<Rightarrow> string list \<Rightarrow> repo_fs \<Rightarrow> multipart_upload list \<times> repo_fs" where
  "cleanup_uploads_loop root ev max_age [] fs = ([], fs)"
| "cleanup_uploads_loop root ev max_age (b # bs) fs =
     (case list_multipart_uploads root b fs of
        (Inl _, _) \<Rightarrow> cleanup_uploads_loop root ev max_age bs fs
      | (Inr ups, _) \<Rightarrow>
          (case abort_old_uploads root ev max_age b ups fs of
             (aborted, fs') \<Rightarrow>
               (case cleanup_uploads_loop root ev max_age bs fs' of
                  (rest, fs'') \<Rightarrow> (aborted @ rest, fs''))))"

definition cleanup_expired_multipart_uploads ::
    "path \<Rightarrow> env \<Rightarrow> int \<Rightarrow> (multipart_upload list) repo_io" where
  "cleanup_expired_multipart_uploads root ev max_age fs =
     (case list_buckets root fs of
        (Inl e, fs') \<Rightarrow> (Inl e, fs')
      | (Inr buckets, fs') \<Rightarrow>
          (case cleanup_uploads_loop root ev max_age buckets fs' of (ups, fs'') \<Rightarrow> (Inr ups, fs'')))"

end
