(* ===== verification/FsFacts.thy ===== *)
theory FsFacts
  imports FsRepo
begin

text \<open>
  Facts about the filesystem repository.  Where each file lives and that the areas are disjoint;
  that every operation keeps the tree well formed; which regular files an operation leaves
  alone (\<open>agrees\<close>, proved like any other invariant); the effect of the helpers; and what
  staging, committing and deleting do to the files.
\<close>

section \<open>Paths\<close>

lemma clean_step_plain: "list_all plain_comp acc \<Longrightarrow> list_all plain_comp (clean_step acc c)"
  by (auto simp: list_all_iff plain_comp_def dest: in_set_butlastD)

lemma clean_path_is_plain: "list_all plain_comp (clean_path cs)"
proof -
  have "list_all plain_comp acc \<Longrightarrow> list_all plain_comp (foldl clean_step acc cs)" for acc
    by (induction cs arbitrary: acc) (auto simp del: clean_step.simps intro: clean_step_plain)
  then show ?thesis by (simp add: clean_path_def)
qed

lemma path_join_is_plain [simp]: "list_all plain_comp (path_join r es)"
  by (simp add: path_join_def clean_path_is_plain)

lemma path_join_dir:
  "plain_seg nm \<Longrightarrow> path_join (path_join r es) [nm] = path_join r es @ [nm]"
  by (subst path_join_plain) auto

lemma plain_seg_consts [simp]:
  "plain_seg ''data''" "plain_seg ''meta''" "plain_seg ''staging''" "plain_seg ''uploads''"
  "plain_seg ''ecdata''" "plain_seg ''tx.json''" "plain_seg ''meta.json''" "plain_seg ''upload.json''"
  by (simp_all add: plain_seg_def plain_comp_def)

lemma plain_seg_append:
  "CHR ''/'' \<notin> set s \<Longrightarrow> CHR ''/'' \<notin> set t \<Longrightarrow> 3 \<le> length t \<Longrightarrow> plain_seg (s @ t)"
  "CHR ''/'' \<notin> set s \<Longrightarrow> CHR ''/'' \<notin> set t \<Longrightarrow> 3 \<le> length s \<Longrightarrow> plain_seg (s @ t)"
  by (auto simp: plain_seg_def plain_comp_def append_eq_Cons_conv dest!: arg_cong [where f = length])

text \<open>A root and an environment as the program has them.\<close>

definition good_env :: "env \<Rightarrow> bool" where
  "good_env ev \<longleftrightarrow> CHR ''/'' \<notin> set (ev_uuid ev) \<and> 3 \<le> length (ev_uuid ev)"

lemma stage_file_path:
  "plain_seg nm \<Longrightarrow> stage_file root txid nm = staging_dir root txid @ [nm]"
  by (simp add: stage_file_def staging_dir_def path_join_dir)

lemma stage_tmp_plain:
  assumes "good_env ev"
  shows "plain_seg (''data.tmp.'' @ ev_uuid ev)"
  using assms by (intro plain_seg_append(2)) (auto simp: good_env_def)

lemma path_add_plain: "p \<noteq> [] \<Longrightarrow> path_add p s = butlast p @ [last p @ s]"
  by (simp add: path_add_def)

lemma path_add_snoc [simp]: "path_add (d @ [nm]) s = d @ [nm @ s]"
  by (simp add: path_add_def)

lemma path_add_neq: "s \<noteq> [] \<Longrightarrow> path_add p s \<noteq> p"
  by (cases p rule: rev_cases) (auto simp: path_add_def)

lemma path_add_not_Nil [simp]: "path_add p s \<noteq> []"
  by (simp add: path_add_def)

lemma butlast_path_add [simp]: "butlast (path_add p s) = butlast p"
  by (simp add: path_add_def)

abbreviation good_root :: "path \<Rightarrow> bool" where
  "good_root root \<equiv> list_all plain_seg root"

definition good_dir :: "path \<Rightarrow> string \<Rightarrow> bool" where
  "good_dir root b \<longleftrightarrow> good_root root \<and> plain_seg b"

lemma good_root_plain: "good_root root \<Longrightarrow> list_all plain_comp root"
  by (auto simp: list_all_iff plain_seg_def)

lemma good_dirD: "good_dir root b \<Longrightarrow> good_root root" "good_dir root b \<Longrightarrow> plain_seg b"
  by (simp_all add: good_dir_def)

lemma clean_path_subset: "set (clean_path cs) \<subseteq> set cs"
proof -
  have "set (foldl clean_step acc cs) \<subseteq> set acc \<union> set cs" for acc
  proof (induction cs arbitrary: acc)
    case (Cons c cs)
    have "set (clean_step acc c) \<subseteq> insert c (set acc)"
      by (auto dest: in_set_butlastD)
    with Cons [of "clean_step acc c"] show ?case by auto
  qed simp
  from this [of "[]"] show ?thesis by (simp add: clean_path_def)
qed

lemma good_path_join [simp]:
  assumes "good_root root"
  shows "list_all plain_seg (path_join root es)"
proof -
  have "c \<in> set (path_join root es) \<Longrightarrow> CHR ''/'' \<notin> set c" for c
    using clean_path_subset [of "root @ concat (map (split_on (CHR ''/'')) es)"] assms
    by (fastforce simp: path_join_def list_all_iff plain_seg_def dest: split_on_no_sep)
  then show ?thesis
    using path_join_is_plain [of root es] by (simp add: list_all_iff plain_seg_def)
qed

lemma good_paths [simp]:
  assumes "good_root root"
  shows "list_all plain_seg (data_dir root b)" "list_all plain_seg (meta_dir root b)"
    "list_all plain_seg (staging_dir root b)" "list_all plain_seg (uploads_dir root b)"
    "list_all plain_seg (ec_shard_dir root b)" "list_all plain_seg (data_path root b k)"
    "list_all plain_seg (meta_path root b k)" "list_all plain_seg (ec_shard_path root b k i)"
    "list_all plain_seg (upload_session_dir root b u)" "list_all plain_seg (part_path root b u n)"
    "list_all plain_seg (stage_file root t nm)"
  using assms
  by (simp_all add: data_dir_def meta_dir_def staging_dir_def uploads_dir_def ec_shard_dir_def
      upload_session_dir_def data_path_def meta_path_def ec_shard_path_def part_path_def stage_file_def)

lemma good_path_dir [simp]: "list_all plain_seg p \<Longrightarrow> list_all plain_seg (path_dir p)"
  by (auto simp: path_dir_def list_all_iff dest: in_set_butlastD)

lemma good_path_add:
  assumes "list_all plain_seg p" "p \<noteq> []" "CHR ''/'' \<notin> set s" "3 \<le> length s"
  shows "list_all plain_seg (path_add p s)"
proof -
  obtain d nm where p: "p = d @ [nm]" using assms(2) by (cases p rule: rev_cases) auto
  have "plain_seg (nm @ s)"
    using assms p by (intro plain_seg_append(1)) (auto simp: plain_seg_def)
  with assms(1) p show ?thesis by (simp add: path_add_def)
qed

lemma dir_paths:
  assumes "good_dir root b"
  shows "data_dir root b = root @ [''data'', b]" "meta_dir root b = root @ [''meta'', b]"
  "staging_dir root b = root @ [''staging'', b]" "uploads_dir root b = root @ [''uploads'', b]"
  "ec_shard_dir root b = root @ [''ecdata'', b]"
  using assms
  by (simp_all add: data_dir_def meta_dir_def staging_dir_def uploads_dir_def ec_shard_dir_def
      path_join_plain good_root_plain good_dir_def)

lemma dir_plain:
  "good_dir root b \<Longrightarrow> plain_seg d \<Longrightarrow> list_all plain_comp (root @ [d, b])"
  by (auto simp: plain_seg_def plain_comp_def good_dir_def dest: good_root_plain)

lemma object_paths:
  assumes dir: "good_dir root b" and k: "plain_name k"
  shows "data_path root b k = root @ [''data'', b] @ split_on (CHR ''/'') k"
    and "meta_path root b k = root @ [''meta'', b] @ split_on (CHR ''/'') (k @ ''.json'')"
    and "ec_shard_path root b k i =
      root @ [''ecdata'', b] @ split_on (CHR ''/'') (k @ ''.shard.'' @ itoa i)"
proof -
  have "plain_name (k @ ''.json'')"
    by (rule plain_name_append_suffix [OF k]) auto
  moreover have "plain_name (k @ ''.shard.'' @ itoa i)"
    by (rule plain_name_append_suffix [OF k]) auto
  ultimately show
    "data_path root b k = root @ [''data'', b] @ split_on (CHR ''/'') k"
    "meta_path root b k = root @ [''meta'', b] @ split_on (CHR ''/'') (k @ ''.json'')"
    "ec_shard_path root b k i =
      root @ [''ecdata'', b] @ split_on (CHR ''/'') (k @ ''.shard.'' @ itoa i)"
    unfolding data_path_def meta_path_def ec_shard_path_def dir_paths [OF dir]
    using k by (simp_all add: path_join_plain [OF dir_plain [OF dir]])
qed

section \<open>Which files an operation leaves alone\<close>

text \<open>The regular files of the paths in \<open>P\<close> are those of \<open>f0\<close>.\<close>

definition agrees :: "(path \<Rightarrow> bool) \<Rightarrow> (path \<Rightarrow> (int \<times> content) option) \<Rightarrow> repo_fs \<Rightarrow> bool" where
  "agrees P f0 fs \<longleftrightarrow> (\<forall>q. P q \<longrightarrow> fs_file fs q = f0 q)"

lemma agreesD: "agrees P f0 fs \<Longrightarrow> P q \<Longrightarrow> fs_file fs q = f0 q"
  by (simp add: agrees_def)

lemma agrees_refl [simp]: "agrees P (fs_file fs) fs"
  by (simp add: agrees_def)

text \<open>An operation that keeps \<open>agrees P\<close> leaves every file in \<open>P\<close> as it was.\<close>

lemma leavesD:
  assumes "\<And>f0. pres (agrees P f0) m" and "m fs = (r, fs')" and "P q"
  shows "fs_file fs' q = fs_file fs q"
proof -
  from assms(1) have "pres (agrees P (fs_file fs)) m" .
  then have "agrees P (fs_file fs) (snd (m fs))" by (simp add: pres_def)
  then show ?thesis using assms(2,3) by (simp add: agrees_def)
qed

lemma agrees_mkdir_all [pres_intros]: "pres (agrees P f0) (os_mkdir_all p)"
  by (simp add: pres_def agrees_def)

lemma agrees_reads [pres_intros]:
  "pres (agrees P f0) (os_stat p)" "pres (agrees P f0) (os_open p)"
  "pres (agrees P f0) (os_read_dir p)" "pres (agrees P f0) (os_sync_dir p)"
  by (simp_all add: pres_def)

lemma agrees_write [pres_intros]: "\<not> P p \<Longrightarrow> pres (agrees P f0) (os_write p now c)"
  by (rule presI, rename_tac s r t, case_tac r) (auto simp: agrees_def dest: os_write_ok(3) os_write_err)

lemma agrees_remove [pres_intros]: "\<not> P p \<Longrightarrow> pres (agrees P f0) (os_remove p)"
  by (auto simp: pres_def agrees_def)

lemma agrees_remove_all [pres_intros]:
  "(\<And>q. P q \<Longrightarrow> \<not> prefix p q) \<Longrightarrow> pres (agrees P f0) (os_remove_all p)"
  by (rule presI, rename_tac s r t, case_tac r)
    (auto simp: agrees_def dest: os_remove_all_ok(1) os_remove_all_err)

lemma agrees_rename [pres_intros]:
  "\<not> P src \<Longrightarrow> \<not> P dst \<Longrightarrow> pres (agrees P f0) (os_rename src dst)"
  by (rule presI, rename_tac s r t, case_tac r) (auto simp: agrees_def dest: os_rename_err elim!: os_rename_ok)

lemma pres_wrapE [pres_intros]: "pres I m \<Longrightarrow> pres I (wrapE msg m)"
  by (auto simp: pres_def wrapE_def split: prod.split sum.split)

lemma pres_tolerateE [pres_intros]: "pres I m \<Longrightarrow> pres I (tolerateE m)"
  by (auto simp: pres_def tolerateE_def split: prod.split sum.split)

lemma pres_case_fnode [pres_intros]:
  "(n = Dir \<Longrightarrow> pres I m) \<Longrightarrow> (\<And>t c. n = File t c \<Longrightarrow> pres I (k t c)) \<Longrightarrow>
   pres I (case n of Dir \<Rightarrow> m | File t c \<Rightarrow> k t c)"
  by (cases n) auto

lemma read_json_state [simp]: "snd (read_json dec p fs) = fs"
  by (simp add: read_json_def bindE_def os_open_def split: option.split fnode.split prod.split sum.split)

lemma open_stream_state [simp]: "snd (open_stream p fs) = fs"
  by (simp add: open_stream_def bindE_def os_open_def split: option.split)

lemma pres_read_json [pres_intros]: "pres I (read_json dec p)"
  by (simp add: pres_def)

lemma pres_open_stream [pres_intros]: "pres I (open_stream p)"
  by (simp add: pres_def)

lemma is_dir_empty_state [simp]: "snd (is_dir_empty p fs) = fs"
  by (auto simp: is_dir_empty_def split: prod.split sum.split fnode.split)

lemma is_dir_empty_True:
  "is_dir_empty p fs = (Inr True, t) \<Longrightarrow> fs_get fs p = None \<or> fs_get fs p = Some Dir"
  by (auto simp: is_dir_empty_def os_open_def split: option.splits fnode.splits if_splits)

section \<open>Helpers\<close>

lemma clean_empty_dirs_file [simp]: "fs_file (clean_empty_dirs c l fs) = fs_file fs"
proof (induction c l fs rule: clean_empty_dirs.induct)
  case (1 c l fs)
  show ?case
  proof (cases "\<not> (c = l \<or> c = []) \<and> fst (is_dir_empty c fs) = Inr True")
    case False
    then show ?thesis
      by (subst clean_empty_dirs.simps) (auto split: prod.split sum.split bool.split)
  next
    case True
    then have empty: "is_dir_empty c fs = (Inr True, fs)" and c: "c \<noteq> l" "c \<noteq> []"
      by (auto intro: prod_eqI)
    then have none: "fs_file fs c = None"
      using is_dir_empty_True [OF empty] by (auto simp: fs_file_def)
    show ?thesis
    proof (cases "os_remove c fs")
      case (Pair r fs')
      have "fs_file fs' = fs_file fs"
        using fs_file_remove [of c fs] Pair none by (simp add: fun_upd_idem)
      with 1 [of "Inr True" fs True r fs'] Pair empty c show ?thesis
        by (subst clean_empty_dirs.simps) (auto split: sum.split)
    qed
  qed
qed

lemma agrees_clean_dirs [pres_intros]: "pres (agrees P f0) (clean_dirs c l)"
  by (simp add: pres_def agrees_def clean_dirs_def)

lemma wf_clean_empty_dirs: "wf_fs fs \<Longrightarrow> wf_fs (clean_empty_dirs c l fs)"
proof (induction c l fs rule: clean_empty_dirs.induct)
  case (1 c l fs)
  show ?case
  proof (cases "\<not> (c = l \<or> c = []) \<and> fst (is_dir_empty c fs) = Inr True")
    case False
    with 1(2) show ?thesis
      by (subst clean_empty_dirs.simps) (auto split: prod.split sum.split bool.split)
  next
    case True
    then have empty: "is_dir_empty c fs = (Inr True, fs)" and c: "c \<noteq> l" "c \<noteq> []"
      by (auto intro: prod_eqI)
    obtain r fs' where r: "os_remove c fs = (r, fs')" by (cases "os_remove c fs")
    then have "wf_fs fs'" using 1(2) presE [OF wf_os_remove] by blast
    with 1 r empty c show ?thesis
      by (subst clean_empty_dirs.simps) (auto split: sum.split)
  qed
qed

lemma wf_clean_dirs [pres_intros]: "pres wf_fs (clean_dirs c l)"
  by (simp add: pres_def clean_dirs_def wf_clean_empty_dirs)

lemma wrapE_okD: "wrapE msg m fs = (Inr a, t) \<Longrightarrow> m fs = (Inr a, t)"
  by (auto simp: wrapE_def split: prod.splits sum.splits)

lemma read_json_ok:
  "read_json dec p fs = (Inr v, t) \<longleftrightarrow>
     t = fs \<and> (\<exists>mt c. fs_file fs p = Some (mt, c) \<and> dec c = Some v)"
  by (auto simp: read_json_def bindE_def os_open_def fs_file_def
      split: option.splits fnode.splits)

lemma open_stream_file:
  "fs_file fs p = Some (mt, CData bs) \<Longrightarrow> open_stream p fs = (Inr (bytes_stream bs), fs)"
  by (simp add: open_stream_def bindE_def os_open_def fs_file_Some_iff)

lemma open_stream_ok:
  "open_stream p fs = (Inr st, t) \<longleftrightarrow>
     t = fs \<and> (\<exists>n. fs_get fs p = Some n \<and> st = node_stream p n)"
  by (auto simp: open_stream_def bindE_def os_open_def split: option.splits)

lemma tolerateE_okD: "tolerateE m fs = (r, t) \<Longrightarrow> t = snd (m fs)"
  by (auto simp: tolerateE_def split: prod.splits sum.splits if_splits)

lemma write_json_ok:
  assumes "write_json ev p v fs = (Inr u, fs')" "p \<noteq> []"
  shows "fs_get fs' = (fs_get fs)(path_add p (''.tmp.'' @ itoa (ev_now ev)) := None, p \<mapsto> File (ev_now ev) v)"
proof -
  let ?tmp = "path_add p (''.tmp.'' @ itoa (ev_now ev))"
  have ne: "?tmp \<noteq> p" by (simp add: path_add_neq)
  from assms(1) obtain u1 where w: "os_write ?tmp (ev_now ev) v fs = (Inr (), u1)"
    and fin: "finallyE (os_rename ?tmp p) (os_remove ?tmp) u1 = (Inr u, fs')"
    by (auto simp: write_json_def Let_def elim!: bindE_okE)
  from fin obtain u2 where mv: "os_rename ?tmp p u1 = (Inr u, u2)" and fs': "fs' = snd (os_remove ?tmp u2)"
    by (auto elim!: finallyE_cases)
  from mv have u2: "fs_get u2 = (fs_get u1)(?tmp := None, p \<mapsto> File (ev_now ev) v)"
  proof (rule os_rename_ok)
    fix m c
    assume "fs_file u1 ?tmp = Some (m, c)" and "fs_get u2 = (fs_get u1)(?tmp := None, p \<mapsto> File m c)"
    then show ?thesis using os_write_ok(3) [OF w] by simp
  qed
  then have "fs_get u2 ?tmp = None" using ne by simp
  then have "fs' = u2" unfolding fs' by (simp add: os_remove_def)
  with u2 os_write_ok(2) [OF w] show ?thesis by simp
qed

lemma write_json_succeeds:
  assumes "p \<noteq> []" "fs_get fs (butlast p) = Some Dir" "fs_get fs p \<noteq> Some Dir"
    "fs_get fs (path_add p (''.tmp.'' @ itoa (ev_now ev))) \<noteq> Some Dir"
  shows "\<exists>fs'. write_json ev p v fs = (Inr (), fs')"
proof -
  let ?tmp = "path_add p (''.tmp.'' @ itoa (ev_now ev))"
  have ne: "?tmp \<noteq> p" by (simp add: path_add_neq)
  have nb: "butlast p \<noteq> ?tmp"
    by (metis append_butlast_last_id butlast_path_add not_Cons_self2 path_add_not_Nil append_self_conv)
  let ?u = "AList.update ?tmp (File (ev_now ev) v) fs"
  have w: "os_write ?tmp (ev_now ev) v fs = (Inr (), ?u)"
    using assms by (intro os_write_succeeds) (auto simp: path_dir_def)
  have get: "fs_get ?u = (fs_get fs)(?tmp \<mapsto> File (ev_now ev) v)"
    by (simp add: fs_get_update)
  have "fs_get ?u ?tmp = Some (File (ev_now ev) v)" "fs_get ?u p \<noteq> Some Dir"
    "fs_get ?u (path_dir p) = Some Dir"
    using assms ne nb unfolding get by (auto simp: path_dir_def)
  from os_rename_succeeds [OF this] w show ?thesis
    by (simp add: write_json_def Let_def finallyE_def)
qed

lemma agrees_write_json [pres_intros]:
  "\<not> P p \<Longrightarrow> \<not> P (path_add p (''.tmp.'' @ itoa (ev_now ev))) \<Longrightarrow> pres (agrees P f0) (write_json ev p v)"
  by (auto simp: write_json_def Let_def intro!: pres_intros)

lemma wf_write_json [pres_intros]:
  "list_all plain_seg p \<Longrightarrow> p \<noteq> [] \<Longrightarrow> pres wf_fs (write_json ev p v)"
  by (auto simp: write_json_def Let_def good_path_add intro!: pres_intros)

lemma agrees_with_temp_file [pres_intros]:
  "\<not> P tmp \<Longrightarrow> (\<And>bs. pres (agrees P f0) (k bs)) \<Longrightarrow> pres (agrees P f0) (with_temp_file ev tmp st k)"
  by (auto simp: with_temp_file_def intro!: pres_intros)

lemma wf_with_temp_file [pres_intros]:
  "list_all plain_seg tmp \<Longrightarrow> (\<And>bs. pres wf_fs (k bs)) \<Longrightarrow> pres wf_fs (with_temp_file ev tmp st k)"
  by (auto simp: with_temp_file_def intro!: pres_intros)

lemma with_temp_file_ok:
  assumes "with_temp_file ev tmp st k fs = (Inr a, fs')"
  obtains u u' where "os_write tmp (ev_now ev) (CData (st_bytes st)) fs = (Inr (), u)"
    "st_err st = None" "k (st_bytes st) u = (Inr a, u')" "fs' = snd (os_remove tmp u')"
  using assms by (auto simp: with_temp_file_def elim!: bindE_okE finallyE_cases split: option.splits)

section \<open>Every operation keeps the tree well formed\<close>

text \<open>A path whose last name ends in a suffix of the program's own always has a last name.\<close>

lemma path_join_last:
  assumes "CHR ''/'' \<notin> set t" "3 \<le> length t"
  shows "path_join r [s @ t] =
    clean_path (r @ butlast (split_on (CHR ''/'') s)) @ [last (split_on (CHR ''/'') s) @ t]"
proof -
  have "plain_comp (last (split_on (CHR ''/'') s) @ t)"
    using assms(2) by (auto simp: plain_comp_def append_eq_Cons_conv dest!: arg_cong [where f = length])
  then show ?thesis
    using assms(1)
    by (simp add: path_join_def clean_path_def split_on_append plain_comp_def flip: append_assoc)
qed

lemma meta_path_not_Nil [simp]: "meta_path root b k \<noteq> []"
  by (simp add: meta_path_def path_join_last)

lemma ec_shard_path_last:
  "ec_shard_path root b k i =
     clean_path (ec_shard_dir root b @ butlast (split_on (CHR ''/'') k)) @
       [last (split_on (CHR ''/'') k) @ ''.shard.'' @ itoa i]"
  unfolding ec_shard_path_def by (rule path_join_last) auto

lemma ec_shard_path_not_Nil [simp]: "ec_shard_path root b k i \<noteq> []"
  by (simp add: ec_shard_path_last)

lemma itoa05_plain: "plain_seg (itoa05 n)"
proof -
  have "CHR ''/'' \<notin> set (itoa05 n)"
    using sign_not_digit by (auto simp: itoa05_def pad_digits_def nat_digits_no_sign)
  moreover have "3 \<le> length (itoa05 n)"
  proof -
    have "w \<le> length (pad_digits w ds)" for w ds by (simp add: pad_digits_def)
    from this [of 5 "nat_digits (nat n)"] this [of 4 "nat_digits (nat (- n))"] show ?thesis
      by (auto simp: itoa05_def)
  qed
  ultimately show ?thesis
    by (auto simp: plain_seg_def plain_comp_def dest!: arg_cong [where f = length])
qed

lemma part_path_eq: "part_path root b u n = upload_session_dir root b u @ [itoa05 n]"
  by (simp add: part_path_def upload_session_dir_def path_join_dir itoa05_plain)

lemma part_path_not_Nil [simp]: "part_path root b u n \<noteq> []"
  by (simp add: part_path_eq)

lemma remove_shard_entries_run: "fst (remove_shard_entries dir k es fs) = Inr ()"
  unfolding remove_shard_entries_def
  by (induction es arbitrary: fs) (auto simp: bindE_def)

lemma pres_remove_shard_entries [pres_intros]:
  "(\<And>nm. (nm, False) \<in> set es \<Longrightarrow> prefix (k @ ''.shard.'') nm \<Longrightarrow> pres I (os_remove (path_join dir [nm]))) \<Longrightarrow>
   pres I (remove_shard_entries dir k es)"
  unfolding remove_shard_entries_def
  by (auto intro!: pres_intros split: prod.split)

lemma delete_all_ec_shards_state:
  "snd (delete_all_ec_shards root b k fs) =
     (case fst (os_read_dir (ec_shard_dir root b) fs) of
        Inl _ \<Rightarrow> fs
      | Inr es \<Rightarrow> snd (remove_shard_entries (ec_shard_dir root b) k es fs))"
proof -
  let ?dir = "ec_shard_dir root b"
  obtain x where rd: "os_read_dir ?dir fs = (x, fs)"
    by (metis os_read_dir_state prod.collapse)
  have "snd (bindE (remove_shard_entries ?dir k es) (\<lambda>_. clean_dirs ?dir ?dir) fs) =
      snd (remove_shard_entries ?dir k es fs)" for es
    using remove_shard_entries_run [of ?dir k es fs]
    by (cases "remove_shard_entries ?dir k es fs")
      (auto simp: bindE_def clean_dirs_def clean_empty_dirs.simps)
  with rd show ?thesis
    by (auto simp: delete_all_ec_shards_def Let_def split: sum.split)
qed

lemma wf_delete_all_ec_shards [pres_intros]: "pres wf_fs (delete_all_ec_shards root b k)"
  unfolding pres_def delete_all_ec_shards_state
  by (auto split: sum.split intro!: presD [of wf_fs] pres_intros)

lemma plain_dirs [simp]: "good_root root \<Longrightarrow> list_all plain_seg (path_join root es)"
  by simp

lemma wf_update_object_meta [pres_intros]:
  "good_root root \<Longrightarrow> pres wf_fs (update_object_meta root ev b k m)"
  by (auto simp: update_object_meta_def Let_def intro!: pres_intros)

lemma wf_put_ec_shard [pres_intros]:
  "good_root root \<Longrightarrow> good_env ev \<Longrightarrow> pres wf_fs (put_ec_shard root ev b k i st sz m)"
  by (auto simp: put_ec_shard_def Let_def good_env_def intro!: pres_intros good_path_add)

lemma wf_delete_ec_shard [pres_intros]: "pres wf_fs (delete_ec_shard root b k i)"
  by (auto simp: delete_ec_shard_def Let_def intro!: pres_intros)

lemma wf_remove_replica_data [pres_intros]: "pres wf_fs (remove_replica_data root b k)"
  by (auto simp: remove_replica_data_def Let_def intro!: pres_intros)

lemma wf_delete_object [pres_intros]: "pres wf_fs (delete_object root b k)"
  by (auto simp: delete_object_def Let_def intro!: pres_intros)

lemma stage_file_not_Nil: "plain_seg nm \<Longrightarrow> stage_file root t nm \<noteq> []"
  by (simp add: stage_file_path)

lemma wf_stage_object [pres_intros]:
  "good_root root \<Longrightarrow> good_env ev \<Longrightarrow> pres wf_fs (stage_object root ev t st sz m tx)"
  by (auto simp: stage_object_def Let_def stage_file_not_Nil intro!: pres_intros)

lemma wf_commit_put [pres_intros]:
  "good_root root \<Longrightarrow> pres wf_fs (commit_put root t b k)"
  by (auto simp: commit_put_def Let_def intro!: pres_intros)

lemma wf_commit_transaction [pres_intros]:
  "good_root root \<Longrightarrow> pres wf_fs (commit_transaction root t b k)"
  by (auto simp: commit_transaction_def intro!: pres_intros)

lemma wf_abort_transaction [pres_intros]: "pres wf_fs (abort_transaction root t)"
  by (auto simp: abort_transaction_def intro!: pres_intros)

lemma wf_create_bucket [pres_intros]: "good_root root \<Longrightarrow> pres wf_fs (create_bucket root b)"
  by (auto simp: create_bucket_def intro!: pres_intros)

lemma pres_is_dir_empty [pres_intros]: "pres I (is_dir_empty p)"
  by (simp add: pres_def)

lemma wf_delete_bucket [pres_intros]: "pres wf_fs (delete_bucket root b)"
  by (auto simp: delete_bucket_def intro!: pres_intros)

lemma wf_create_multipart_upload [pres_intros]:
  "good_root root \<Longrightarrow> pres wf_fs (create_multipart_upload root ev b k)"
  by (auto simp: create_multipart_upload_def upload_session_dir_def Let_def path_join_dir intro!: pres_intros)

lemma pres_upload_exists [pres_intros]: "pres I (upload_exists root b u)"
  unfolding pres_def upload_exists_def by (simp add: os_stat_def split: option.split)

lemma wf_save_multipart_part [pres_intros]:
  "good_root root \<Longrightarrow> pres wf_fs (save_multipart_part root ev b u n st)"
  by (auto simp: save_multipart_part_def Let_def intro!: pres_intros good_path_add)

lemma wf_delete_multipart_part [pres_intros]: "pres wf_fs (delete_multipart_part root b u n)"
  by (auto simp: delete_multipart_part_def Let_def intro!: pres_intros)

lemma wf_abort_multipart_upload [pres_intros]: "pres wf_fs (abort_multipart_upload root b u)"
  by (auto simp: abort_multipart_upload_def intro!: pres_intros)

lemma wf_cleanup_tx_loop: "wf_fs fs \<Longrightarrow> wf_fs (snd (cleanup_tx_loop root ev age es fs))"
  by (induction root ev age es fs rule: cleanup_tx_loop.induct)
    (auto simp: presD [OF wf_abort_transaction] split: prod.split sum.split)

lemma wf_climb_empty_dirs: "wf_fs fs \<Longrightarrow> wf_fs (climb_empty_dirs d b r fs)"
proof (induction d b r fs rule: climb_empty_dirs.induct)
  case (1 d b r fs)
  have "wf_fs (snd (os_remove d fs))" using 1(2) by (rule presD [OF wf_os_remove])
  with 1 show ?case
    by (subst climb_empty_dirs.simps) (auto split: prod.split sum.split list.split)
qed

lemma wf_orphan_visit: "wf_fs fs \<Longrightarrow> wf_fs (snd (orphan_visit root ev age rel fs))"
  by (auto simp: orphan_visit_def Let_def wf_climb_empty_dirs presD [OF wf_os_remove]
      split: prod.split sum.split list.split option.split fnode.split)

lemma wf_orphan_loop: "wf_fs fs \<Longrightarrow> wf_fs (snd (orphan_loop root ev age rels fs))"
proof (induction rels arbitrary: fs)
  case (Cons rel rels)
  from wf_orphan_visit [OF Cons.prems, of root ev age rel] Cons.IH show ?case
    by (auto split: prod.split) (metis snd_conv)
qed simp

lemma wf_abort_old_uploads: "wf_fs fs \<Longrightarrow> wf_fs (snd (abort_old_uploads root ev age b ups fs))"
  by (induction root ev age b ups fs rule: abort_old_uploads.induct)
    (auto simp: presD [OF wf_abort_multipart_upload] split: prod.split)

lemma wf_cleanup_uploads_loop: "wf_fs fs \<Longrightarrow> wf_fs (snd (cleanup_uploads_loop root ev age bs fs))"
proof (induction bs arbitrary: fs)
  case (Cons b bs)
  have "wf_fs (snd (abort_old_uploads root ev age b ups fs))" for ups
    using Cons.prems by (rule wf_abort_old_uploads)
  with Cons show ?case
    by (auto split: prod.split sum.split) (metis snd_conv)+
qed simp


lemma os_read_dir_pair: "os_read_dir p fs = (r, t) \<Longrightarrow> t = fs"
  using os_read_dir_state [of p fs] by simp

lemma wf_cleanups [pres_intros]:
  "pres wf_fs (cleanup_expired_transactions root ev age)"
  "pres wf_fs (cleanup_orphaned_objects root ev age)"
  "pres wf_fs (cleanup_expired_multipart_uploads root ev age)"
proof -
  show "pres wf_fs (cleanup_expired_transactions root ev age)"
    by (auto simp: pres_def cleanup_expired_transactions_def wf_cleanup_tx_loop
        dest: os_read_dir_pair split: prod.split sum.split)
      (metis wf_cleanup_tx_loop os_read_dir_pair snd_conv)+
  show "pres wf_fs (cleanup_orphaned_objects root ev age)"
    by (auto simp: pres_def cleanup_orphaned_objects_def split: prod.split)
      (metis wf_orphan_loop snd_conv)
  show "pres wf_fs (cleanup_expired_multipart_uploads root ev age)"
    by (auto simp: pres_def cleanup_expired_multipart_uploads_def list_buckets_def
        split: prod.split sum.split elim!: bindE_cases dest!: os_read_dir_pair)
      (metis wf_cleanup_uploads_loop snd_conv)+
qed

end
