(* ===== verification/FsTx.thy ===== *)
theory FsTx
  imports FsFacts
begin

text \<open>
  What the transaction operations of the filesystem repository do to the files: the exact
  effect of removing shards, of staging, of committing a \<open>PUT\<close> and of deleting, and when they
  succeed.
\<close>

section \<open>Removing the shards of an object\<close>

text \<open>The shard files \<open>DeleteAllECShards\<close> looks for: in the bucket's shard directory itself.\<close>

definition is_shard_of :: "path \<Rightarrow> string \<Rightarrow> string \<Rightarrow> path \<Rightarrow> bool" where
  "is_shard_of root b k q \<longleftrightarrow>
     (\<exists>nm. q = ec_shard_dir root b @ [nm] \<and> prefix (k @ ''.shard.'') nm)"

lemma dir_names_iff:
  "nm \<in> set (dir_names fs p) \<longleftrightarrow> p @ [nm] \<in> fst ` set fs"
proof -
  have "p @ [nm] \<in> fst ` set fs" if "e \<in> set fs" "fst e \<noteq> []" "butlast (fst e) = p" "nm = last (fst e)" for e
  proof -
    have "p @ [nm] = fst e" using that by (metis append_butlast_last_id)
    with that(1) show ?thesis by simp
  qed
  then show ?thesis
    unfolding dir_names_def by (force simp: image_iff)
qed

lemma dir_names_get: "nm \<in> set (dir_names fs p) \<longleftrightarrow> fs_get fs (p @ [nm]) \<noteq> None"
  unfolding dir_names_iff fs_get_not_None_iff by simp

lemma os_read_dir_ok:
  "os_read_dir p fs = (Inr es, t) \<longleftrightarrow>
     t = fs \<and> fs_get fs p = Some Dir \<and> es = map (\<lambda>n. (n, is_dir (fs_get fs (p @ [n])))) (dir_names fs p)"
  by (auto simp: os_read_dir_def split: option.splits fnode.splits)

lemma remove_shard_entries_file:
  "fs_file (snd (remove_shard_entries dir k es fs)) =
   (\<lambda>q. if \<exists>nm. (nm, False) \<in> set es \<and> prefix (k @ ''.shard.'') nm \<and> q = path_join dir [nm]
        then None else fs_file fs q)"
  unfolding remove_shard_entries_def
proof (induction es arbitrary: fs)
  case (Cons e es)
  obtain nm isdir where e: "e = (nm, isdir)" by (cases e)
  show ?case
    by (auto simp: e Cons.IH bindE_def fun_eq_iff)
qed simp

lemma shard_dir_join: "plain_seg nm \<Longrightarrow> path_join (ec_shard_dir root b) [nm] = ec_shard_dir root b @ [nm]"
  by (simp add: ec_shard_dir_def path_join_dir)

lemma delete_shards_files:
  assumes "wf_fs fs"
  shows "fs_file (snd (delete_all_ec_shards root b k fs)) =
    (\<lambda>q. if is_shard_of root b k q then None else fs_file fs q)"
proof -
  let ?dir = "ec_shard_dir root b"
  have ex: "nm \<in> set (dir_names fs ?dir) \<and> \<not> is_dir (fs_get fs (?dir @ [nm])) \<and>
      fs_get fs ?dir = Some Dir \<and> plain_seg nm" if "fs_file fs (?dir @ [nm]) \<noteq> None" for nm
    using that wf_fs_parent [OF assms, of "?dir @ [nm]"] wf_fs_plain [OF assms, of "?dir @ [nm]"]
    by (auto simp: dir_names_get fs_file_def split: option.splits fnode.splits)
  have plain: "plain_seg nm" if "nm \<in> set (dir_names fs ?dir)" for nm
    using that wf_fs_plain [OF assms, of "?dir @ [nm]"] by (simp add: dir_names_get)
  show ?thesis
  proof (cases "fst (os_read_dir ?dir fs)")
    case (Inl e)
    then have "fs_get fs ?dir \<noteq> Some Dir"
      by (auto simp: os_read_dir_def)
    with ex have "fs_file fs (?dir @ [nm]) = None" for nm by blast
    with Inl show ?thesis
      by (auto simp: delete_all_ec_shards_state is_shard_of_def fun_eq_iff)
  next
    case (Inr es)
    then have "os_read_dir ?dir fs = (Inr es, fs)"
      using os_read_dir_state [of ?dir fs] by (metis prod.collapse)
    then have es: "es = map (\<lambda>n. (n, is_dir (fs_get fs (?dir @ [n])))) (dir_names fs ?dir)"
      by (auto simp: os_read_dir_ok)
    have "(\<exists>nm. (nm, False) \<in> set es \<and> prefix (k @ ''.shard.'') nm \<and> q = path_join ?dir [nm]) \<longleftrightarrow>
        is_shard_of root b k q" if "fs_file fs q \<noteq> None" for q
      using that ex plain unfolding es is_shard_of_def by (fastforce simp: shard_dir_join)
    note eq = this
    show ?thesis
    proof (rule ext)
      fix q
      show "fs_file (snd (delete_all_ec_shards root b k fs)) q =
          (if is_shard_of root b k q then None else fs_file fs q)"
        using eq [of q] Inr
        by (cases "fs_file fs q = None")
          (simp_all add: delete_all_ec_shards_state remove_shard_entries_file)
    qed
  qed
qed

text \<open>Outside the bucket's shard directory not even a directory changes.\<close>

lemma keeps_get_remove: "p \<noteq> q \<Longrightarrow> pres (\<lambda>fs. fs_get fs q = x) (os_remove p)"
  by (rule presI, rename_tac s r t, case_tac r) (auto dest: os_remove_ok(2) os_remove_err(1))

lemma delete_shards_get:
  assumes "\<not> prefix (ec_shard_dir root b) q" "wf_fs fs"
  shows "fs_get (snd (delete_all_ec_shards root b k fs)) q = fs_get fs q"
proof (cases "fst (os_read_dir (ec_shard_dir root b) fs)")
  case (Inr es)
  then have "os_read_dir (ec_shard_dir root b) fs = (Inr es, fs)"
    using os_read_dir_state [of "ec_shard_dir root b" fs] by (metis prod.collapse)
  then have "plain_seg nm" if "(nm, d) \<in> set es" for nm d
    using that wf_fs_plain [OF assms(2), of "ec_shard_dir root b @ [nm]"]
    by (auto simp: os_read_dir_ok dir_names_get)
  then have "pres (\<lambda>s. fs_get s q = fs_get fs q) (remove_shard_entries (ec_shard_dir root b) k es)"
    using assms(1) by (intro pres_intros keeps_get_remove) (auto simp: shard_dir_join)
  from presD [OF this] Inr show ?thesis
    by (simp add: delete_all_ec_shards_state)
qed (simp add: delete_all_ec_shards_state)


section \<open>Staging\<close>

lemma stage_names:
  assumes "good_env ev"
  shows "stage_file root t ''tx.json'' = staging_dir root t @ [''tx.json'']"
    "stage_file root t ''data'' = staging_dir root t @ [''data'']"
    "stage_file root t ''meta.json'' = staging_dir root t @ [''meta.json'']"
    "stage_file root t (''data.tmp.'' @ ev_uuid ev) = staging_dir root t @ [''data.tmp.'' @ ev_uuid ev]"
  using stage_tmp_plain [OF assms] by (simp_all add: stage_file_path)

text \<open>Staging touches only files in the transaction's own directory.\<close>

lemma agrees_stage_object:
  assumes "good_env ev" "\<And>q. P q \<Longrightarrow> \<not> prefix (staging_dir root t) q"
  shows "pres (agrees P f0) (stage_object root ev t st sz m tx)"
proof -
  have "\<not> P (staging_dir root t @ [nm])" for nm
    using assms(2) [of "staging_dir root t @ [nm]"] by (auto simp: prefix_def)
  then show ?thesis
    unfolding stage_object_def Let_def stage_names [OF assms(1)]
    by (intro pres_intros) auto
qed

lemma os_sync_dir_okD: "os_sync_dir p fs = (r, t) \<Longrightarrow> t = fs"
  using os_sync_dir_state [of p fs] by simp

text \<open>What a successful \<open>StageObject\<close> of a \<open>PUT\<close> leaves in the staging directory.\<close>

lemma stage_object_put_ok:
  assumes env: "good_env ev" and op: "tx_operation tx = OpPut"
    and run: "stage_object root ev t st sz m tx fs = (Inr m', fs')"
  shows "st_err st = None" "sz < 0 \<or> sz = int (length (st_bytes st))" "m' = staged_meta m (st_bytes st)"
    "fs_get fs' (stage_file root t ''tx.json'') = Some (File (ev_now ev) (CTx tx))"
    "fs_get fs' (stage_file root t ''data'') = Some (File (ev_now ev) (CData (st_bytes st)))"
    "fs_get fs' (stage_file root t ''meta.json'') = Some (File (ev_now ev) (CMeta m'))"
proof -
  let ?d = "staging_dir root t"
  let ?bs = "st_bytes st"
  let ?tmp = "?d @ [''data.tmp.'' @ ev_uuid ev]"
  from run op obtain u1 u2 where
    tx: "write_json ev (?d @ [''tx.json'']) (CTx tx) u1 = (Inr (), u2)" and
    body: "with_temp_file ev ?tmp st (\<lambda>bs.
        if 0 \<le> sz \<and> int (length bs) \<noteq> sz
        then failE (size_mismatch ''size mismatch'' sz bs)
        else bindE (os_rename ?tmp (?d @ [''data''])) (\<lambda>_.
          bindE (write_json ev (?d @ [''meta.json'']) (CMeta (staged_meta m bs))) (\<lambda>_.
          bindE (os_sync_dir ?d) (\<lambda>_. retE (staged_meta m bs))))) u2 = (Inr m', fs')"
    unfolding stage_object_def Let_def stage_names [OF env]
    by (auto elim!: bindE_okE)
  note g2 = write_json_ok [OF tx]
  from body obtain u3 u6 where
    w: "os_write ?tmp (ev_now ev) (CData ?bs) u2 = (Inr (), u3)" and
    err: "st_err st = None" and fin: "fs' = snd (os_remove ?tmp u6)" and
    rest: "(if 0 \<le> sz \<and> int (length ?bs) \<noteq> sz
        then failE (size_mismatch ''size mismatch'' sz ?bs)
        else bindE (os_rename ?tmp (?d @ [''data''])) (\<lambda>_.
          bindE (write_json ev (?d @ [''meta.json'']) (CMeta (staged_meta m ?bs))) (\<lambda>_.
          bindE (os_sync_dir ?d) (\<lambda>_. retE (staged_meta m ?bs))))) u3 = (Inr m', u6)"
    by (rule with_temp_file_ok)
  have sz: "sz < 0 \<or> sz = int (length ?bs)"
    using rest by (auto split: if_splits)
  with rest have "bindE (os_rename ?tmp (?d @ [''data''])) (\<lambda>_.
          bindE (write_json ev (?d @ [''meta.json'']) (CMeta (staged_meta m ?bs))) (\<lambda>_.
          bindE (os_sync_dir ?d) (\<lambda>_. retE (staged_meta m ?bs)))) u3 = (Inr m', u6)"
    by (simp split: if_splits)
  then obtain u4 u5 where
    mv: "os_rename ?tmp (?d @ [''data'']) u3 = (Inr (), u4)" and
    mj: "write_json ev (?d @ [''meta.json'']) (CMeta (staged_meta m ?bs)) u4 = (Inr (), u5)" and
    sync: "bindE (os_sync_dir ?d) (\<lambda>_. retE (staged_meta m ?bs)) u5 = (Inr m', u6)"
    by (elim bindE_okE) auto
  from sync have m': "m' = staged_meta m ?bs" and u6: "u6 = u5"
    by (auto elim!: bindE_okE dest: os_sync_dir_okD)
  note fin = fin [unfolded u6]
  note g3 = os_write_ok(2) [OF w]
  have g4: "fs_get u4 = (fs_get u3)(?tmp := None, ?d @ [''data''] \<mapsto> File (ev_now ev) (CData ?bs))"
    using mv by (rule os_rename_ok) (use g3 in \<open>auto simp: fs_file_def\<close>)
  note g5 = write_json_ok [OF mj]
  have "fs_get u5 ?tmp = None"
    by (simp add: g5 g4)
  then have g6: "fs_get fs' = fs_get u5"
    unfolding fin by (simp add: os_remove_def)
  show "st_err st = None" "sz < 0 \<or> sz = int (length ?bs)" "m' = staged_meta m ?bs"
    by (fact err sz m')+
  show "fs_get fs' (stage_file root t ''tx.json'') = Some (File (ev_now ev) (CTx tx))"
    "fs_get fs' (stage_file root t ''data'') = Some (File (ev_now ev) (CData ?bs))"
    "fs_get fs' (stage_file root t ''meta.json'') = Some (File (ev_now ev) (CMeta m'))"
    unfolding stage_names [OF env] by (simp_all add: g6 g5 g4 g3 g2 m')
qed

section \<open>Success and effect together\<close>

lemma os_mkdir_all_get:
  assumes "os_mkdir_all p fs = (Inr u, fs')"
  shows "fs_get fs' q = (if prefix q p \<and> fs_get fs q = None then Some Dir else fs_get fs q)"
proof -
  have fs': "fs' = mkdirs [1..<Suc (length p)] p fs"
    using assms by (auto simp: os_mkdir_all_def split: if_splits)
  have "q \<in> (\<lambda>i. take i p) ` {1..<Suc (length p)} \<longleftrightarrow> prefix q p" if "q \<noteq> []"
  proof
    assume "prefix q p"
    then have "q = take (length q) p" "length q \<le> length p"
      by (auto simp: prefix_def)
    with that show "q \<in> (\<lambda>i. take i p) ` {1..<Suc (length p)}"
      by (intro image_eqI [where x = "length q"]) (auto simp: Suc_le_eq)
  qed (auto simp: take_is_prefix)
  then show ?thesis
    by (cases "q = []") (auto simp: fs' mkdirs_get simp del: upt_Suc split: option.split)
qed

lemma os_mkdir_all_run:
  assumes "\<not> file_above fs p" "\<not> is_file (fs_get fs p)"
  obtains fs' where "os_mkdir_all p fs = (Inr (), fs')"
  using assms by (simp add: os_mkdir_all_def)

lemma os_write_run:
  assumes "p \<noteq> []" "fs_get fs p \<noteq> Some Dir" "fs_get fs (butlast p) = Some Dir"
  obtains u where "os_write p now c fs = (Inr (), u)" "fs_get u = (fs_get fs)(p \<mapsto> File now c)"
proof -
  from os_write_succeeds [of p fs now c] assms
  have "os_write p now c fs = (Inr (), AList.update p (File now c) fs)" by (simp add: path_dir_def)
  from that [OF this os_write_ok(2) [OF this]] show ?thesis .
qed

lemma write_json_run:
  assumes "p \<noteq> []" "fs_get fs (butlast p) = Some Dir" "fs_get fs p \<noteq> Some Dir"
    "fs_get fs (path_add p (''.tmp.'' @ itoa (ev_now ev))) \<noteq> Some Dir"
  obtains fs' where "write_json ev p v fs = (Inr (), fs')"
    "fs_get fs' = (fs_get fs)(path_add p (''.tmp.'' @ itoa (ev_now ev)) := None, p \<mapsto> File (ev_now ev) v)"
  using write_json_succeeds [OF assms] write_json_ok [OF _ assms(1)] by blast

lemma os_rename_run:
  assumes "fs_get fs src = Some (File m c)" "fs_get fs dst \<noteq> Some Dir"
    "fs_get fs (butlast dst) = Some Dir"
  obtains u where "os_rename src dst fs = (Inr (), u)"
    "fs_get u = (fs_get fs)(src := None, dst \<mapsto> File m c)"
proof -
  from os_rename_succeeds [OF assms(1,2)] assms(3)
  obtain u where run: "os_rename src dst fs = (Inr (), u)" by (auto simp: path_dir_def)
  moreover have "fs_get u = (fs_get fs)(src := None, dst \<mapsto> File m c)"
    using run by (rule os_rename_ok) (use assms(1) in \<open>auto simp: fs_file_def\<close>)
  ultimately show ?thesis using that by blast
qed

lemma bindE_run: "m s = (Inr a, t) \<Longrightarrow> k a t = (Inr b, u) \<Longrightarrow> bindE m k s = (Inr b, u)"
  by simp

lemma wf_fs_get_below:
  assumes "wf_fs fs" "fs_get fs p \<noteq> Some Dir"
  shows "fs_get fs (p @ x # xs) = None"
proof (rule ccontr)
  assume "fs_get fs (p @ x # xs) \<noteq> None"
  from wf_fs_take [OF assms(1) this, of "length p"] assms(2) show False by simp
qed

text \<open>
  Staging into a directory that is not there yet succeeds: the parent chain is free of regular
  files, the body arrives whole and has the announced size.
\<close>

lemma stage_object_put_run:
  assumes env: "good_env ev" and wf: "wf_fs fs" and op: "tx_operation tx = OpPut"
    and above: "\<not> file_above fs (staging_dir root t)" and new: "fs_get fs (staging_dir root t) = None"
    and err: "st_err st = None" and sz: "sz < 0 \<or> sz = int (length (st_bytes st))"
  obtains fs' where "stage_object root ev t st sz m tx fs = (Inr (staged_meta m (st_bytes st)), fs')"
    "fs_get fs' (staging_dir root t) = Some Dir"
    "\<And>q. \<not> prefix q (staging_dir root t) \<Longrightarrow> \<not> prefix (staging_dir root t) q \<Longrightarrow> fs_get fs' q = fs_get fs q"
    "\<And>q. strict_prefix q (staging_dir root t) \<Longrightarrow> fs_get fs' q = Some Dir"
proof -
  let ?d = "staging_dir root t"
  let ?bs = "st_bytes st"
  let ?m = "staged_meta m ?bs"
  let ?tmp = "?d @ [''data.tmp.'' @ ev_uuid ev]"
  have below: "fs_get fs (?d @ [nm]) = None" for nm
    using wf_fs_get_below [OF wf, of ?d nm "[]"] new by simp
  obtain u1 where r1: "os_mkdir_all ?d fs = (Inr (), u1)"
    using os_mkdir_all_run [of fs ?d] above new by auto
  note g1 = os_mkdir_all_get [OF r1]
  have d1: "fs_get u1 ?d = Some Dir" "\<And>nm. fs_get u1 (?d @ [nm]) = None"
    using new below by (auto simp: g1 not_prefix_length)
  obtain u2 where r2: "write_json ev (?d @ [''tx.json'']) (CTx tx) u1 = (Inr (), u2)"
    and g2: "fs_get u2 = (fs_get u1)(?d @ [''tx.json'' @ ''.tmp.'' @ itoa (ev_now ev)] := None,
      ?d @ [''tx.json''] \<mapsto> File (ev_now ev) (CTx tx))"
    by (rule write_json_run [of "?d @ [''tx.json'']" u1 ev "CTx tx"]) (use d1 in auto)
  obtain u3 where r3: "os_write ?tmp (ev_now ev) (CData ?bs) u2 = (Inr (), u3)"
    and g3: "fs_get u3 = (fs_get u2)(?tmp \<mapsto> File (ev_now ev) (CData ?bs))"
    by (rule os_write_run [of ?tmp u2 "ev_now ev" "CData ?bs"]) (use d1 in \<open>auto simp: g2\<close>)
  obtain u4 where r4: "os_rename ?tmp (?d @ [''data'']) u3 = (Inr (), u4)"
    and g4: "fs_get u4 = (fs_get u3)(?tmp := None, ?d @ [''data''] \<mapsto> File (ev_now ev) (CData ?bs))"
    by (rule os_rename_run [of u3 ?tmp "ev_now ev" "CData ?bs" "?d @ [''data'']"])
      (use d1 in \<open>auto simp: g2 g3\<close>)
  obtain u5 where r5: "write_json ev (?d @ [''meta.json'']) (CMeta ?m) u4 = (Inr (), u5)"
    and g5: "fs_get u5 = (fs_get u4)(?d @ [''meta.json'' @ ''.tmp.'' @ itoa (ev_now ev)] := None,
      ?d @ [''meta.json''] \<mapsto> File (ev_now ev) (CMeta ?m))"
    by (rule write_json_run [of "?d @ [''meta.json'']" u4 ev "CMeta ?m"])
      (use d1 in \<open>auto simp: g2 g3 g4\<close>)
  have r6: "os_sync_dir ?d u5 = (Inr (), u5)"
    by (rule os_sync_dir_ok) (use d1 in \<open>auto simp: g2 g3 g4 g5\<close>)
  have tmp: "fs_get u5 ?tmp = None" by (simp add: g5 g4)
  then have "snd (os_remove ?tmp u5) = u5" by (simp add: os_remove_def)
  then have body: "with_temp_file ev ?tmp st (\<lambda>bs.
      if 0 \<le> sz \<and> int (length bs) \<noteq> sz then failE (size_mismatch ''size mismatch'' sz bs)
      else bindE (os_rename ?tmp (?d @ [''data''])) (\<lambda>_.
        bindE (write_json ev (?d @ [''meta.json'']) (CMeta (staged_meta m bs))) (\<lambda>_.
        bindE (os_sync_dir ?d) (\<lambda>_. retE (staged_meta m bs))))) u2 = (Inr ?m, u5)"
    using r3 r4 r5 r6 err sz by (auto simp: with_temp_file_def finallyE_def)
  have run: "stage_object root ev t st sz m tx fs = (Inr ?m, u5)"
    unfolding stage_object_def Let_def stage_names [OF env]
    using r1 r2 body op by simp
  have get: "fs_get u5 q = fs_get u1 q" if "\<And>nm. q \<noteq> ?d @ [nm]" for q
    using that by (simp add: g5 g4 g3 g2)
  show ?thesis
  proof (rule that [OF run])
    show "fs_get u5 ?d = Some Dir" by (simp add: get d1)
    show "fs_get u5 q = fs_get fs q" if "\<not> prefix q ?d" "\<not> prefix ?d q" for q
      using that by (subst get) (auto simp: g1 prefix_def)
    show "fs_get u5 q = Some Dir" if q: "strict_prefix q ?d" for q
    proof -
      obtain x xs where d: "?d = q @ x # xs" using q by (auto elim: strict_prefixE')
      have "\<not> is_file (fs_get fs q)"
      proof
        assume "is_file (fs_get fs q)"
        with d have "file_above fs ?d"
          unfolding file_above_def list_ex_iff by (intro bexI [where x = "length q"]) auto
        with above show False by simp
      qed
      moreover have "q \<noteq> ?d @ [nm]" for nm using d by (auto dest!: arg_cong [where f = length])
      ultimately show ?thesis
        using d by (subst get) (auto simp: g1 is_file_def split: option.splits fnode.splits)
    qed
  qed
qed

end
