(* ===== verification/FsObjects.thy ===== *)
theory FsObjects
  imports FsTx
begin

text \<open>
  The object store the repository's files implement: \<open>object_at\<close> is the abstract map from a
  bucket and key to the body and metadata a \<open>GetObject\<close> returns, and the lemmas say what a commit
  of a \<open>PUT\<close>, a \<open>DELETE\<close>, staging, aborting and the maintenance operations do to it.
\<close>

section \<open>Files of different objects and areas differ\<close>

lemma split_key_inject [simp]:
  "split_on (CHR ''/'') k = split_on (CHR ''/'') k' \<longleftrightarrow> k = k'"
  by simp

lemma data_path_inject:
  "good_dir root b \<Longrightarrow> plain_name k \<Longrightarrow> good_dir root b' \<Longrightarrow> plain_name k' \<Longrightarrow>
   data_path root b k = data_path root b' k' \<longleftrightarrow> b = b' \<and> k = k'"
  by (simp add: object_paths)

lemma meta_path_inject:
  "good_dir root b \<Longrightarrow> plain_name k \<Longrightarrow> good_dir root b' \<Longrightarrow> plain_name k' \<Longrightarrow>
   meta_path root b k = meta_path root b' k' \<longleftrightarrow> b = b' \<and> k = k'"
  by (simp add: object_paths)

lemma area_paths_distinct:
  assumes "good_dir root b" "plain_name k" "good_dir root b'" "plain_name k'" "good_dir root t"
  shows "data_path root b k \<noteq> meta_path root b' k'"
    "\<not> prefix (staging_dir root t) (data_path root b k)"
    "\<not> prefix (staging_dir root t) (meta_path root b k)"
    "\<not> prefix (staging_dir root t) (ec_shard_path root b k i)"
    "\<not> is_shard_of root b' k' (data_path root b k)"
    "\<not> is_shard_of root b' k' (meta_path root b k)"
    "ec_shard_path root b k i \<noteq> data_path root b' k'"
    "ec_shard_path root b k i \<noteq> meta_path root b' k'"
    "\<not> prefix (ec_shard_dir root b') (data_path root b k)"
    "\<not> prefix (ec_shard_dir root b') (meta_path root b k)"
    "\<not> prefix (ec_shard_dir root b') (staging_dir root t @ xs)"
    "staging_dir root t @ xs \<noteq> data_path root b k"
    "staging_dir root t @ xs \<noteq> meta_path root b k"
    "staging_dir root t @ xs \<noteq> ec_shard_path root b k i"
    "\<not> is_shard_of root b' k' (staging_dir root t @ xs)"
  using assms by (auto simp: object_paths dir_paths is_shard_of_def prefix_def)

text \<open>
  The sweep of a key's shards goes by the prefix \<open>key.shard.\<close> of their names in the bucket's shard directory
  itself, so it takes the shards of another key with it when that key holds no \<open>/\<close> and is this one with \<open>.shard\<close>
  at its end, or begins with this one and \<open>.shard.\<close>.
\<close>

definition shard_clash :: "string \<Rightarrow> string \<Rightarrow> bool" where
  "shard_clash k k' \<longleftrightarrow> k' \<noteq> k \<and> CHR ''/'' \<notin> set k' \<and> prefix (k @ ''.shard.'') (k' @ ''.shard.'')"

lemma itoa_chars: "c \<in> set (itoa i) \<Longrightarrow> c \<noteq> CHR ''s'' \<and> c \<noteq> CHR ''.'' \<and> c \<noteq> CHR ''/''"
proof -
  have "\<not> is_digit (CHR ''s'')" "\<not> is_digit (CHR ''/'')" by (simp_all add: is_digit_def)
  then show "c \<in> set (itoa i) \<Longrightarrow> c \<noteq> CHR ''s'' \<and> c \<noteq> CHR ''.'' \<and> c \<noteq> CHR ''/''"
    using sign_not_digit by (auto simp: itoa_def nat_digits_no_sign split: if_splits)
qed

lemma itoa_not_Nil [simp]: "itoa i \<noteq> []"
  by (simp add: itoa_def)

lemma shard_prefix_cases:
  assumes "prefix (k @ ''.shard.'') (k' @ ''.shard.'' @ itoa i)" and flat: "CHR ''/'' \<notin> set k'"
  shows "k' = k \<or> shard_clash k k'"
proof -
  obtain r where r: "k @ ''.shard.'' @ r = k' @ ''.shard.'' @ itoa i"
    using assms(1) by (auto simp: prefix_def)
  have ns: "CHR ''s'' \<notin> set (itoa i)" "CHR ''.'' \<notin> set (itoa i)"
    using itoa_chars by blast+
  from r consider us where "k = k' @ us" "us @ ''.shard.'' @ r = ''.shard.'' @ itoa i"
    | us where "k' = k @ us" "''.shard.'' @ r = us @ ''.shard.'' @ itoa i"
    by (auto simp: append_eq_append_conv2)
  then show ?thesis
  proof cases
    case 1
    then show ?thesis
      using ns by (auto simp: append_eq_Cons_conv Cons_eq_append_conv dest!: sym [of _ "itoa i"])
  next
    case 2
    then show ?thesis
      using flat by (auto simp: shard_clash_def append_eq_Cons_conv Cons_eq_append_conv prefix_def)
  qed
qed

lemma is_shard_of_path:
  assumes "good_dir root b" "plain_name k" "good_dir root b'" "plain_name k'"
    "is_shard_of root b k (ec_shard_path root b' k' i)"
  shows "b' = b" and "k' = k \<or> shard_clash k k'"
proof -
  from assms(5) obtain nm where nm: "prefix (k @ ''.shard.'') nm"
    and eq: "root @ [''ecdata'', b'] @ split_on (CHR ''/'') (k' @ ''.shard.'' @ itoa i) =
      root @ [''ecdata'', b] @ [nm]"
    unfolding is_shard_of_def object_paths(3) [OF assms(3,4)] dir_paths(5) [OF assms(1)] by auto
  then show "b' = b" by simp
  have one: "split_on (CHR ''/'') (k' @ ''.shard.'' @ itoa i) = [nm]" using eq by simp
  then have "nm = k' @ ''.shard.'' @ itoa i"
    using join_split [of "CHR ''/''" "k' @ ''.shard.'' @ itoa i"] by simp
  moreover from this have "CHR ''/'' \<notin> set k'" using split_on_no_sep [of nm "CHR ''/''" "k' @ ''.shard.'' @ itoa i"] one by simp
  ultimately show "k' = k \<or> shard_clash k k'" using nm shard_prefix_cases by simp
qed

text \<open>The sweep reaches the shards of its own key exactly when that key names no directory.\<close>

lemma own_shards:
  assumes "good_dir root b" "plain_name k"
  shows "is_shard_of root b k (ec_shard_path root b k i) \<longleftrightarrow> CHR ''/'' \<notin> set k"
proof
  assume "is_shard_of root b k (ec_shard_path root b k i)"
  then obtain nm where nm: "split_on (CHR ''/'') (k @ ''.shard.'' @ itoa i) = [nm]"
    unfolding is_shard_of_def object_paths(3) [OF assms] dir_paths(5) [OF assms(1)] by auto
  then have "nm = k @ ''.shard.'' @ itoa i"
    using join_split [of "CHR ''/''" "k @ ''.shard.'' @ itoa i"] by simp
  with nm show "CHR ''/'' \<notin> set k"
    using split_on_no_sep [of nm "CHR ''/''" "k @ ''.shard.'' @ itoa i"] by simp
next
  assume "CHR ''/'' \<notin> set k"
  moreover have "CHR ''/'' \<notin> set (itoa i)" using itoa_chars by blast
  ultimately show "is_shard_of root b k (ec_shard_path root b k i)"
    by (simp add: is_shard_of_def object_paths(3) [OF assms] dir_paths(5) [OF assms(1)] split_on_plain)
qed

section \<open>The abstract store\<close>

definition object_at ::
    "path \<Rightarrow> repo_fs \<Rightarrow> string \<Rightarrow> string \<Rightarrow> (byte list \<times> object_meta) option" where
  "object_at root fs b k =
     (case fst (get_object root b k fs) of
        Inl _ \<Rightarrow> None
      | Inr (st, m) \<Rightarrow> (if st_err st = None then Some (st_bytes st, m) else None))"

text \<open>The file a \<open>GetObject\<close> reads the body from.\<close>

definition body_path :: "path \<Rightarrow> string \<Rightarrow> string \<Rightarrow> object_meta \<Rightarrow> path" where
  "body_path root b k m =
     (if is_ec m then ec_shard_path root b k (om_ec_chunk_index m) else data_path root b k)"

lemma get_object_meta_ok:
  "get_object_meta root b k fs = (Inr m, t) \<longleftrightarrow>
     t = fs \<and> (\<exists>mt. fs_file fs (meta_path root b k) = Some (mt, CMeta m))"
proof -
  have "as_meta c = Some m \<longleftrightarrow> c = CMeta m" for c by (cases c) auto
  moreover have "get_object_meta root b k fs = (Inr m, t) \<longleftrightarrow>
      read_json as_meta (meta_path root b k) fs = (Inr m, t)"
    by (auto simp: get_object_meta_def split: prod.split sum.split)
  ultimately show ?thesis by (auto simp: read_json_ok)
qed

lemma get_object_meta_state [simp]: "snd (get_object_meta root b k fs) = fs"
  using read_json_state [of as_meta "meta_path root b k" fs]
  by (cases "read_json as_meta (meta_path root b k) fs") (auto simp: get_object_meta_def split: sum.split)

lemma get_object_state [simp]: "snd (get_object root b k fs) = fs"
  by (cases "get_object_meta root b k fs"; cases "fst (get_object_meta root b k fs)")
    (auto simp: get_object_def bindE_def open_stream_def os_open_def get_object_meta_ok
      dest: arg_cong [where f = snd] split: option.split prod.split sum.split)

lemma bytes_stream_simps [simp]: "st_bytes (bytes_stream bs) = bs" "st_err (bytes_stream bs) = None"
  by (simp_all add: bytes_stream_def)

lemma node_stream_bytes:
  "st_err (node_stream p n) = None \<longleftrightarrow> (\<exists>mt bs. n = File mt (CData bs))"
  by (cases n; simp; rename_tac mt c; case_tac c; simp)

lemma object_at_iff:
  "object_at root fs b k = Some (bs, m) \<longleftrightarrow>
     (\<exists>mt. fs_file fs (meta_path root b k) = Some (mt, CMeta m)) \<and>
     (\<exists>mt. fs_file fs (body_path root b k m) = Some (mt, CData bs))"
proof -
  have run: "fst (get_object root b k fs) = Inr (st, m) \<longleftrightarrow>
      (\<exists>mt. fs_file fs (meta_path root b k) = Some (mt, CMeta m)) \<and>
      (\<exists>n. fs_get fs (body_path root b k m) = Some n \<and> st = node_stream (body_path root b k m) n)" for st
  proof -
    have "fst (get_object root b k fs) = Inr (st, m) \<longleftrightarrow> get_object root b k fs = (Inr (st, m), fs)"
      by (metis fst_conv get_object_state prod.collapse)
    also have "\<dots> \<longleftrightarrow> get_object_meta root b k fs = (Inr m, fs) \<and>
        open_stream (body_path root b k m) fs = (Inr st, fs)"
    proof
      assume "get_object root b k fs = (Inr (st, m), fs)"
      then obtain m' t where "get_object_meta root b k fs = (Inr m', t)"
        and rest: "bindE (open_stream (body_path root b k m')) (\<lambda>st. retE (st, m')) t = (Inr (st, m), fs)"
        by (auto simp: get_object_def body_path_def elim!: bindE_okE)
      moreover from this have "t = fs" by (simp add: get_object_meta_ok)
      ultimately show "get_object_meta root b k fs = (Inr m, fs) \<and>
          open_stream (body_path root b k m) fs = (Inr st, fs)"
        by (auto elim!: bindE_okE simp: open_stream_ok)
    next
      assume "get_object_meta root b k fs = (Inr m, fs) \<and>
          open_stream (body_path root b k m) fs = (Inr st, fs)"
      then show "get_object root b k fs = (Inr (st, m), fs)"
        by (simp add: get_object_def body_path_def)
    qed
    finally show ?thesis by (auto simp: get_object_meta_ok open_stream_ok)
  qed
  have "object_at root fs b k = Some (bs, m) \<longleftrightarrow>
      (\<exists>st. fst (get_object root b k fs) = Inr (st, m) \<and> st_err st = None \<and> st_bytes st = bs)"
    by (auto simp: object_at_def split: sum.splits prod.splits if_splits)
  also have "\<dots> \<longleftrightarrow> (\<exists>mt. fs_file fs (meta_path root b k) = Some (mt, CMeta m)) \<and>
     (\<exists>mt. fs_file fs (body_path root b k m) = Some (mt, CData bs))"
    unfolding run by (auto simp: fs_file_Some_iff node_stream_bytes)
  finally show ?thesis .
qed

text \<open>The object depends only on its own files.\<close>

lemma object_at_cong:
  assumes "fs_file fs (meta_path root b k) = fs_file fs' (meta_path root b k)"
    and "fs_file fs (data_path root b k) = fs_file fs' (data_path root b k)"
    and "\<And>i. fs_file fs (ec_shard_path root b k i) = fs_file fs' (ec_shard_path root b k i)"
  shows "object_at root fs b k = object_at root fs' b k"
proof -
  have "object_at root fs b k = Some x \<longleftrightarrow> object_at root fs' b k = Some x" for x
    using assms by (cases x) (simp add: object_at_iff body_path_def)
  then show ?thesis by (metis option.exhaust)
qed

text \<open>Whether an object is stored as shards; one that is not depends on its body and metadata files alone.\<close>

definition stored_ec :: "path \<Rightarrow> repo_fs \<Rightarrow> string \<Rightarrow> string \<Rightarrow> bool" where
  "stored_ec root fs b k \<longleftrightarrow>
     (case fs_file fs (meta_path root b k) of Some (_, CMeta m) \<Rightarrow> is_ec m | _ \<Rightarrow> False)"

lemma object_at_cong_plain:
  assumes "fs_file fs' (meta_path root b k) = fs_file fs (meta_path root b k)"
    and "fs_file fs' (data_path root b k) = fs_file fs (data_path root b k)"
    and "\<And>i. stored_ec root fs b k \<Longrightarrow> fs_file fs' (ec_shard_path root b k i) = fs_file fs (ec_shard_path root b k i)"
  shows "object_at root fs' b k = object_at root fs b k"
proof -
  have "object_at root fs' b k = Some x \<longleftrightarrow> object_at root fs b k = Some x" for x
  proof (cases x)
    case (Pair bs m)
    have "fs_file fs' (body_path root b k m) = fs_file fs (body_path root b k m)"
      if "fs_file fs (meta_path root b k) = Some (mt, CMeta m)" for mt
      using assms(2,3) that by (simp add: body_path_def stored_ec_def)
    then show ?thesis using assms(1) unfolding Pair object_at_iff by metis
  qed
  then show ?thesis by (metis option.exhaust)
qed

section \<open>Committing a PUT\<close>

text \<open>Paths whose parent directory is the one the code makes.\<close>

lemma mkdir_parent_run:
  assumes "\<not> file_above fs p" "p \<noteq> []"
  obtains u where "os_mkdir_all (path_dir p) fs = (Inr (), u)" "fs_get u (path_dir p) = Some Dir"
    "\<And>q. fs_get u q = (if strict_prefix q p \<and> fs_get fs q = None then Some Dir else fs_get fs q)"
proof -
  obtain d x where p: "p = d @ [x]" using assms(2) by (cases p rule: rev_cases) auto
  have at: "is_file (fs_get fs (take i p)) \<Longrightarrow> i < length p \<Longrightarrow> False" for i
    using assms(1) by (auto simp: file_above_def list_ex_iff)
  have "\<not> file_above fs d"
    using at p by (force simp: file_above_def list_ex_iff)
  moreover have "\<not> is_file (fs_get fs d)"
    using at [of "length d"] p by auto
  ultimately obtain u where run: "os_mkdir_all (path_dir p) fs = (Inr (), u)"
    using os_mkdir_all_run [of fs d] p by (auto simp: path_dir_def)
  moreover have "fs_get u (path_dir p) = Some Dir" using os_mkdir_all_ok(1) [OF run] .
  moreover have "fs_get u q = (if strict_prefix q p \<and> fs_get fs q = None then Some Dir else fs_get fs q)" for q
  proof -
    have "strict_prefix q (d @ [x]) \<longleftrightarrow> prefix q d"
      by (auto simp: strict_prefix_def dest: prefix_length_le)
    then show ?thesis
      using os_mkdir_all_get [OF run, of q] p by (auto simp: path_dir_def)
  qed
  ultimately show ?thesis using that by blast
qed

lemma file_aboveI:
  "is_file (fs_get fs q) \<Longrightarrow> strict_prefix q p \<Longrightarrow> file_above fs p"
  unfolding file_above_def list_ex_iff
  by (intro bexI [where x = "length q"]) (auto simp: strict_prefix_def prefix_def)

lemma file_above_iff: "file_above fs p \<longleftrightarrow> (\<exists>q. strict_prefix q p \<and> is_file (fs_get fs q))"
proof
  assume "file_above fs p"
  then obtain i where "i < length p" "is_file (fs_get fs (take i p))"
    by (auto simp: file_above_def list_ex_iff)
  then show "\<exists>q. strict_prefix q p \<and> is_file (fs_get fs q)"
    by (intro exI [of _ "take i p"]) (auto simp: strict_prefix_def take_is_prefix)
qed (auto intro: file_aboveI)

text \<open>A file can be put at a path: no regular file is on the way and no directory sits there.\<close>

definition can_place :: "repo_fs \<Rightarrow> path \<Rightarrow> bool" where
  "can_place fs p \<longleftrightarrow> \<not> file_above fs p \<and> fs_get fs p \<noteq> Some Dir"

lemma can_place_cong:
  "(\<And>q. prefix q p \<Longrightarrow> is_file (fs_get fs' q) \<Longrightarrow> is_file (fs_get fs q)) \<Longrightarrow>
   (fs_get fs' p = Some Dir \<Longrightarrow> fs_get fs p = Some Dir) \<Longrightarrow> can_place fs p \<Longrightarrow> can_place fs' p"
  by (auto simp: can_place_def file_above_iff)

text \<open>The whole effect of \<open>commit_put\<close> on the files, once it succeeds.\<close>

lemma commit_put_ok:
  assumes dir: "good_dir root b" and k: "plain_name k" and t: "good_dir root t" and wf: "wf_fs fs"
    and run: "commit_put root t b k fs = (Inr m, fs')"
  obtains mt1 mt2 c where
    "fs_file fs (stage_file root t ''meta.json'') = Some (mt1, CMeta m)"
    "fs_file fs (stage_file root t ''data'') = Some (mt2, c)"
    "fs_file fs' = (\<lambda>q. if is_shard_of root b k q then None else fs_file fs q)
       (stage_file root t ''data'' := None, data_path root b k \<mapsto> (mt2, c),
        stage_file root t ''meta.json'' := None, meta_path root b k \<mapsto> (mt1, CMeta m))"
proof -
  let ?td = "data_path root b k" and ?tm = "meta_path root b k"
  let ?sd = "stage_file root t ''data''" and ?sm = "stage_file root t ''meta.json''"
  have sf: "?sd = staging_dir root t @ [''data'']" "?sm = staging_dir root t @ [''meta.json'']"
    by (simp_all add: stage_file_path plain_seg_def plain_comp_def)
  from run obtain u1 u2 u3 u4 where
    rm: "read_json as_meta ?sm fs = (Inr m, fs)" and
    r1: "os_mkdir_all (path_dir ?td) fs = (Inr (), u1)" and
    r2: "os_rename ?sd ?td u1 = (Inr (), u2)" and
    r3: "os_mkdir_all (path_dir ?tm) (snd (delete_all_ec_shards root b k u2)) = (Inr (), u3)" and
    r4: "os_rename ?sm ?tm u3 = (Inr (), u4)" and fs': "fs' = u4"
    by (auto simp: commit_put_def Let_def read_json_ok elim!: bindE_okE dest!: wrapE_okD os_sync_dir_okD)
  have wf1: "wf_fs u1" using presE [OF wf_os_mkdir_all r1] wf dir by (simp add: good_dirD)
  have wf2: "wf_fs u2" using presE [OF wf_os_rename r2] wf1 dir by (simp add: good_dirD)
  have f1: "fs_file u1 = fs_file fs" by (rule os_mkdir_all_ok(2) [OF r1])
  from r2 obtain mt2 c where sd: "fs_file u1 ?sd = Some (mt2, c)"
    and f2: "fs_file u2 = (fs_file u1)(?sd := None, ?td \<mapsto> (mt2, c))"
    by (rule os_rename_ok)
  have f3: "fs_file u3 = (\<lambda>q. if is_shard_of root b k q then None else fs_file u2 q)"
    using os_mkdir_all_ok(2) [OF r3] delete_shards_files [OF wf2] by simp
  from r4 obtain mt1 c1 where sm: "fs_file u3 ?sm = Some (mt1, c1)"
    and f4: "fs_file u4 = (fs_file u3)(?sm := None, ?tm \<mapsto> (mt1, c1))"
    by (rule os_rename_ok)
  have ne: "?sm \<noteq> ?td" "?sd \<noteq> ?td" "?sm \<noteq> ?sd" "?sm \<noteq> ?tm" "?sd \<noteq> ?tm" "?td \<noteq> ?tm"
    using area_paths_distinct [OF dir k dir k t] unfolding sf by simp_all
  have nsh: "\<not> is_shard_of root b k ?sm" "\<not> is_shard_of root b k ?sd" "\<not> is_shard_of root b k ?td"
    using area_paths_distinct [OF dir k dir k t] unfolding sf by simp_all
  have "fs_file fs ?sm = Some (mt1, c1)"
    using sm ne nsh by (simp add: f3 f2 f1)
  moreover from this rm have "c1 = CMeta m"
    by (cases c1) (auto simp: read_json_ok)
  moreover have "fs_file fs' = (\<lambda>q. if is_shard_of root b k q then None else fs_file fs q)
       (?sd := None, ?td \<mapsto> (mt2, c), ?sm := None, ?tm \<mapsto> (mt1, c1))"
    using ne nsh by (auto simp: fs' f4 f3 f2 f1 fun_eq_iff)
  ultimately show ?thesis using that sd f1 by simp
qed

text \<open>When it succeeds.\<close>

lemma area_prefix_distinct:
  assumes "good_dir root b" "plain_name k" "good_dir root t"
  shows "\<not> prefix (data_path root b k) (meta_path root b k)"
    "\<not> prefix (staging_dir root t @ x # xs) (meta_path root b k)"
    "\<not> prefix (staging_dir root t @ x # xs) (data_path root b k)"
    "prefix (ec_shard_dir root b) q \<Longrightarrow> \<not> prefix q (meta_path root b k)"
    "prefix (ec_shard_dir root b) q \<Longrightarrow> \<not> prefix q (staging_dir root t @ ys)"
    "\<not> prefix (data_path root b k) (staging_dir root t @ ys)"
    "\<not> prefix (meta_path root b k) (staging_dir root t @ ys)"
  using assms by (auto simp: object_paths dir_paths prefix_def)

lemma commit_put_run:
  assumes dir: "good_dir root b" and k: "plain_name k" and t: "good_dir root t" and wf: "wf_fs fs"
    and d: "fs_get fs (staging_dir root t @ [''data'']) = Some (File mt2 c)"
    and m: "fs_get fs (staging_dir root t @ [''meta.json'']) = Some (File mt1 (CMeta m))"
    and placeable: "can_place fs (data_path root b k)" "can_place fs (meta_path root b k)"
  shows "\<exists>fs'. commit_put root t b k fs = (Inr m, fs') \<and> fs_get fs' (staging_dir root t) = Some Dir"
proof -
  let ?td = "data_path root b k" and ?tm = "meta_path root b k" and ?S = "staging_dir root t"
  note far = area_paths_distinct [OF dir k dir k t] area_prefix_distinct [OF dir k t]
  have sf: "stage_file root t ''data'' = ?S @ [''data'']" "stage_file root t ''meta.json'' = ?S @ [''meta.json'']"
    by (simp_all add: stage_file_path plain_seg_def plain_comp_def)
  have S: "fs_get fs ?S = Some Dir" using wf_fs_parent [OF wf, of "?S @ [''data'']"] d by simp
  have td: "?td \<noteq> []" using dir k by (simp add: object_paths)
  have r0: "wrapE ''failed to read transaction meta'' (read_json as_meta (?S @ [''meta.json''])) fs = (Inr m, fs)"
    using m by (auto simp: wrapE_def read_json_ok fs_file_Some_iff split: prod.split sum.split)
      (auto simp: read_json_def bindE_def os_open_def)
  obtain u1 where r1: "os_mkdir_all (path_dir ?td) fs = (Inr (), u1)" "fs_get u1 (path_dir ?td) = Some Dir"
    and g1: "\<And>q. fs_get u1 q = (if strict_prefix q ?td \<and> fs_get fs q = None then Some Dir else fs_get fs q)"
    by (rule mkdir_parent_run [of fs ?td]) (use placeable td in \<open>auto simp: can_place_def\<close>)
  obtain u2 where r2: "os_rename (?S @ [''data'']) ?td u1 = (Inr (), u2)"
    and g2: "fs_get u2 = (fs_get u1)(?S @ [''data''] := None, ?td \<mapsto> File mt2 c)"
    by (rule os_rename_run [of u1 "?S @ [''data'']" mt2 c ?td])
      (use d placeable r1(2) in \<open>auto simp: g1 can_place_def path_dir_def\<close>)
  have bn: "butlast p \<noteq> p" if "p \<noteq> []" for p :: path
    using that by (cases p rule: rev_cases) auto
  have r3: "os_sync_dir (path_dir ?td) u2 = (Inr (), u2)"
    by (rule os_sync_dir_ok) (use r1(2) td d bn [of ?td] in \<open>auto simp: g2 g1 path_dir_def\<close>)
  have wf2: "wf_fs u2"
    using wf dir presE [OF wf_os_mkdir_all r1(1)] presE [OF wf_os_rename r2] by (simp add: good_dirD)
  define u2' where "u2' = snd (delete_all_ec_shards root b k u2)"
  have g2': "fs_get u2' q = fs_get u2 q" if "\<not> prefix (ec_shard_dir root b) q" for q
    unfolding u2'_def using that wf2 by (rule delete_shards_get)
  have place: "can_place u2' ?tm"
    using placeable(2)
  proof (rule can_place_cong [rotated 2])
    show "is_file (fs_get fs q)" if "prefix q ?tm" "is_file (fs_get u2' q)" for q
    proof -
      have "\<not> prefix (ec_shard_dir root b) q" "q \<noteq> ?td" "q \<noteq> ?S @ [''data'']"
        using that(1) far by auto
      with that(2) show ?thesis by (auto simp: g2' g2 g1 split: if_splits)
    qed
    show "fs_get fs ?tm = Some Dir" if "fs_get u2' ?tm = Some Dir"
    proof -
      have "\<not> strict_prefix ?tm ?td" using dir k by (auto simp: object_paths strict_prefix_def prefix_def)
      with that far show ?thesis by (auto simp: g2' g2 g1 split: if_splits)
    qed
  qed
  obtain u3 where r4: "os_mkdir_all (path_dir ?tm) u2' = (Inr (), u3)" "fs_get u3 (path_dir ?tm) = Some Dir"
    and g3: "\<And>q. fs_get u3 q = (if strict_prefix q ?tm \<and> fs_get u2' q = None then Some Dir else fs_get u2' q)"
    by (rule mkdir_parent_run [of u2' ?tm]) (use place in \<open>auto simp: can_place_def\<close>)
  have keep: "fs_get u3 (?S @ ys) = fs_get fs (?S @ ys)" if "ys = [] \<or> ys = [''meta.json'']" for ys
    using that far S m by (auto simp: g3 g2' g2 g1)
  obtain u4 where r5: "os_rename (?S @ [''meta.json'']) ?tm u3 = (Inr (), u4)"
    and g4: "fs_get u4 = (fs_get u3)(?S @ [''meta.json''] := None, ?tm \<mapsto> File mt1 (CMeta m))"
    by (rule os_rename_run [of u3 "?S @ [''meta.json'']" mt1 "CMeta m" ?tm])
      (use keep [of "[''meta.json'']"] m place r4(2) in \<open>auto simp: g3 can_place_def path_dir_def\<close>)
  have r6: "os_sync_dir (path_dir ?tm) u4 = (Inr (), u4)"
    by (rule os_sync_dir_ok)
      (use r4(2) keep [of "[''meta.json'']"] m bn [of ?tm] in \<open>auto simp: g4 path_dir_def\<close>)
  have "commit_put root t b k fs = (Inr m, u4)"
    unfolding commit_put_def Let_def sf
    using r0 r1(1) r2 r3 r4(1) r5 r6 by (simp add: u2'_def)
  moreover have "fs_get u4 ?S = Some Dir"
    using keep [of "[]"] S far(13) [of "[]"] by (simp add: g4)
  ultimately show ?thesis by blast
qed

section \<open>A whole local PUT\<close>

text \<open>The files after a successful commit, the staging directory gone.\<close>

lemma commit_transaction_put_ok:
  assumes dir: "good_dir root b" and k: "plain_name k" and t: "good_dir root t" and wf: "wf_fs fs"
    and tx: "fs_file fs (stage_file root t ''tx.json'') = Some (mt0, CTx tx)" and op: "tx_operation tx = OpPut"
    and run: "commit_transaction root t b k fs = (Inr m, fs')"
  obtains mt1 mt2 c where
    "fs_file fs (stage_file root t ''meta.json'') = Some (mt1, CMeta m)"
    "fs_file fs (stage_file root t ''data'') = Some (mt2, c)"
    "fs_file fs' = (\<lambda>q. if prefix (staging_dir root t) q \<or> is_shard_of root b k q then None else fs_file fs q)
       (data_path root b k \<mapsto> (mt2, c), meta_path root b k \<mapsto> (mt1, CMeta m))"
    "tx_bucket tx = b" "tx_key tx = k"
proof -
  have rt: "wrapE ''failed to read transaction log''
       (read_json as_tx (stage_file root t ''tx.json'')) fs = (Inr tx, fs)"
    using tx by (auto simp: wrapE_def read_json_def bindE_def os_open_def fs_file_Some_iff)
  from run obtain u where mt: "tx_bucket tx = b" "tx_key tx = k"
    and r1: "commit_put root t b k fs = (Inr m, u)" and r2: "os_remove_all (staging_dir root t) u = (Inr (), fs')"
    unfolding commit_transaction_def using rt op
    by (auto elim!: bindE_okE split: if_splits)
  note far = area_paths_distinct [OF dir k dir k t]
  show ?thesis
  proof (rule commit_put_ok [OF dir k t wf r1])
    fix mt1 mt2 c
    assume meta: "fs_file fs (stage_file root t ''meta.json'') = Some (mt1, CMeta m)"
      and data: "fs_file fs (stage_file root t ''data'') = Some (mt2, c)"
      and u: "fs_file u = (\<lambda>q. if is_shard_of root b k q then None else fs_file fs q)
       (stage_file root t ''data'' := None, data_path root b k \<mapsto> (mt2, c),
        stage_file root t ''meta.json'' := None, meta_path root b k \<mapsto> (mt1, CMeta m))"
    have sf: "stage_file root t nm = staging_dir root t @ [nm]" if "nm \<in> {''data'', ''meta.json''}" for nm
      using that by (auto simp: stage_file_path plain_seg_def plain_comp_def)
    have "fs_file fs' = (\<lambda>q. if prefix (staging_dir root t) q \<or> is_shard_of root b k q then None else fs_file fs q)
       (data_path root b k \<mapsto> (mt2, c), meta_path root b k \<mapsto> (mt1, CMeta m))"
      using os_remove_all_ok(1) [OF r2] far by (auto simp: u sf fun_eq_iff)
    with meta data mt that show ?thesis by blast
  qed
qed

lemma stage_sf:
  "stage_file root t ''data'' = staging_dir root t @ [''data'']"
  "stage_file root t ''meta.json'' = staging_dir root t @ [''meta.json'']"
  "stage_file root t ''tx.json'' = staging_dir root t @ [''tx.json'']"
  by (simp_all add: stage_file_path plain_seg_def plain_comp_def)

lemma is_ec_staged [simp]: "is_ec (staged_meta m bs) = is_ec m"
  by (simp add: staged_meta_def is_ec_def Let_def)

lemma read_json_run: "fs_get fs p = Some (File mt c) \<Longrightarrow> dec c = Some v \<Longrightarrow> read_json dec p fs = (Inr v, fs)"
  by (simp add: read_json_def bindE_def os_open_def)

text \<open>The two phases, one after the other, succeed and leave exactly the staged object.\<close>

lemma put_run:
  assumes dir: "good_dir root b" and k: "plain_name k" and t: "good_dir root t" and env: "good_env ev"
    and wf: "wf_fs fs" and op: "tx_operation tx = OpPut" and tx: "tx_bucket tx = b" "tx_key tx = k"
    and above: "\<not> file_above fs (staging_dir root t)" and new: "fs_get fs (staging_dir root t) = None"
    and err: "st_err st = None" and sz: "sz < 0 \<or> sz = int (length (st_bytes st))"
    and place: "can_place fs (data_path root b k)" "can_place fs (meta_path root b k)"
  obtains fs1 fs2 where
    "stage_object root ev t st sz m tx fs = (Inr (staged_meta m (st_bytes st)), fs1)"
    "commit_transaction root t b k fs1 = (Inr (staged_meta m (st_bytes st)), fs2)"
    "fs_file fs2 = (\<lambda>q. if is_shard_of root b k q then None else fs_file fs q)
       (data_path root b k \<mapsto> (ev_now ev, CData (st_bytes st)),
        meta_path root b k \<mapsto> (ev_now ev, CMeta (staged_meta m (st_bytes st))))"
proof -
  let ?S = "staging_dir root t" and ?m = "staged_meta m (st_bytes st)"
  note far = area_paths_distinct [OF dir k dir k t] area_prefix_distinct [OF dir k t]
  obtain fs1 where r1: "stage_object root ev t st sz m tx fs = (Inr ?m, fs1)"
    and S1: "fs_get fs1 ?S = Some Dir"
    and out: "\<And>q. \<not> prefix q ?S \<Longrightarrow> \<not> prefix ?S q \<Longrightarrow> fs_get fs1 q = fs_get fs q"
    and up: "\<And>q. strict_prefix q ?S \<Longrightarrow> fs_get fs1 q = Some Dir"
    using stage_object_put_run [OF env wf op above new err sz, where m = m] by blast
  note st1 = stage_object_put_ok(4-6) [OF env op r1, unfolded stage_sf]
  have wf1: "wf_fs fs1"
    using presE [OF wf_stage_object r1 wf] env t by (simp add: good_dirD)
  have notprefix: "prefix (data_path root b k) ?S = False" "prefix (meta_path root b k) ?S = False"
    using area_prefix_distinct(6,7) [OF dir k t, of "[]"] by simp_all
  have place1: "can_place fs1 p" if p: "can_place fs p" "\<not> prefix ?S p" "\<not> prefix p ?S" for p
    using p(1)
  proof (rule can_place_cong [rotated 2])
    show "is_file (fs_get fs q)" if "prefix q p" "is_file (fs_get fs1 q)" for q
    proof (cases "prefix q ?S")
      case True
      then have "fs_get fs1 q = Some Dir"
        using S1 up by (cases "q = ?S") (auto simp: strict_prefix_def)
      with that show ?thesis by simp
    next
      case False
      moreover have "\<not> prefix ?S q" using that(1) p(2) prefix_order.trans by blast
      ultimately show ?thesis using out that by simp
    qed
    show "fs_get fs p = Some Dir" if "fs_get fs1 p = Some Dir"
      using that p(2,3) out by simp
  qed
  obtain u where r2: "commit_put root t b k fs1 = (Inr ?m, u)" and Su: "fs_get u ?S = Some Dir"
    using commit_put_run [OF dir k t wf1 st1(2,3)] place1 place far notprefix by auto
  have wfu: "wf_fs u" using presE [OF wf_commit_put r2 wf1] t by (simp add: good_dirD)
  have "\<not> file_above u ?S" using wf_fs_no_file_above [OF wfu] Su by simp
  then obtain fs2 where r3: "os_remove_all ?S u = (Inr (), fs2)"
    by (simp add: os_remove_all_def)
  have "wrapE ''failed to read transaction log''
       (read_json as_tx (?S @ [''tx.json''])) fs1 = (Inr tx, fs1)"
    using st1(1) by (simp add: wrapE_def read_json_run)
  then have run: "commit_transaction root t b k fs1 = (Inr ?m, fs2)"
    using r2 r3 op tx by (simp add: commit_transaction_def stage_sf)
  have tx1: "fs_file fs1 (stage_file root t ''tx.json'') = Some (ev_now ev, CTx tx)"
    using st1(1) by (simp add: fs_file_Some_iff stage_sf)
  have keep: "fs_file fs1 q = fs_file fs q" if "\<not> prefix ?S q" for q
    by (rule leavesD [OF agrees_stage_object [OF env] r1, where P = "\<lambda>q. \<not> prefix ?S q"])
      (use that in auto)
  have gone: "prefix ?S q \<Longrightarrow> fs_file fs q = None" for q
  proof -
    assume "prefix ?S q"
    then obtain zs where "q = ?S @ zs" by (auto simp: prefix_def)
    then show "fs_file fs q = None"
      using new wf_fs_get_below [OF wf, of ?S] by (cases zs) (auto simp: fs_file_def)
  qed
  from commit_transaction_put_ok [OF dir k t wf1 tx1 op run]
  obtain mt1 mt2 c where
    c: "fs_file fs1 (stage_file root t ''meta.json'') = Some (mt1, CMeta ?m)"
       "fs_file fs1 (stage_file root t ''data'') = Some (mt2, c)" and
    f2: "fs_file fs2 = (\<lambda>q. if prefix ?S q \<or> is_shard_of root b k q then None else fs_file fs1 q)
       (data_path root b k \<mapsto> (mt2, c), meta_path root b k \<mapsto> (mt1, CMeta ?m))"
    by blast
  have "mt1 = ev_now ev" "mt2 = ev_now ev" "c = CData (st_bytes st)"
    using c st1 by (auto simp: fs_file_Some_iff stage_sf)
  with f2 keep gone have "fs_file fs2 = (\<lambda>q. if is_shard_of root b k q then None else fs_file fs q)
       (data_path root b k \<mapsto> (ev_now ev, CData (st_bytes st)),
        meta_path root b k \<mapsto> (ev_now ev, CMeta ?m))"
    by (auto simp: fun_eq_iff)
  with r1 run that show ?thesis by blast
qed

text \<open>What an update of the files of one object means for the abstract store.\<close>

lemma object_at_put:
  assumes dir: "good_dir root b" and k: "plain_name k" and ec: "\<not> is_ec m"
    and f: "fs_file fs' = (\<lambda>q. if P q \<or> is_shard_of root b k q then None else fs_file fs q)
       (data_path root b k \<mapsto> (mt2, CData bs), meta_path root b k \<mapsto> (mt1, CMeta m))"
  shows "object_at root fs' b k = Some (bs, m)"
    and "good_dir root b' \<Longrightarrow> plain_name k' \<Longrightarrow> (b', k') \<noteq> (b, k) \<Longrightarrow>
      \<not> (b' = b \<and> shard_clash k k' \<and> stored_ec root fs b' k') \<Longrightarrow> \<not> P (data_path root b' k') \<Longrightarrow> \<not> P (meta_path root b' k') \<Longrightarrow> (\<And>i. \<not> P (ec_shard_path root b' k' i)) \<Longrightarrow>
      object_at root fs' b' k' = object_at root fs b' k'"
proof -
  have ne: "data_path root b k \<noteq> meta_path root b k"
    using dir k by (auto simp: object_paths)
  then show "object_at root fs' b k = Some (bs, m)"
    using ec by (simp add: object_at_iff body_path_def f)
  assume g: "good_dir root b'" "plain_name k'" and other: "(b', k') \<noteq> (b, k)"
    and clash: "\<not> (b' = b \<and> shard_clash k k' \<and> stored_ec root fs b' k')"
    and P: "\<not> P (data_path root b' k')" "\<not> P (meta_path root b' k')" "\<And>i. \<not> P (ec_shard_path root b' k' i)"
  have shard: "\<not> is_shard_of root b k (ec_shard_path root b' k' i)" if "stored_ec root fs b' k'" for i
    using is_shard_of_path [OF dir k g] clash other that by auto
  note far = area_paths_distinct [OF g dir k dir] area_paths_distinct [OF dir k g dir]
  show "object_at root fs' b' k' = object_at root fs b' k'"
    by (rule object_at_cong_plain)
      (use far P other shard g dir k in \<open>auto simp: f data_path_inject meta_path_inject\<close>)
qed

end
