(* ===== verification/FsProps.thy ===== *)
theory FsProps
  imports FsObjects
begin

text \<open>
  The properties of the filesystem repository: a local \<open>PUT\<close> and \<open>DELETE\<close> against the abstract
  store, prepared transactions, the frame of a commit whatever its outcome, shards, multipart
  parts, the maintenance operations, and the invariant of the file tree over any history.
\<close>

section \<open>Any outcome\<close>

abbreviation safe :: "(path \<Rightarrow> bool) \<Rightarrow> (path \<Rightarrow> (int \<times> content) option) \<Rightarrow> repo_fs \<Rightarrow> bool" where
  "safe P f0 \<equiv> \<lambda>fs. wf_fs fs \<and> agrees P f0 fs"

lemma pres_conjI: "pres I m \<Longrightarrow> pres J m \<Longrightarrow> pres (\<lambda>s. I s \<and> J s) m"
  by (simp add: pres_def)

lemma safe_delete_shards:
  "(\<And>q. P q \<Longrightarrow> \<not> is_shard_of root b k q) \<Longrightarrow> pres (safe P f0) (delete_all_ec_shards root b k)"
  by (rule presI) (metis (no_types, lifting) agrees_def delete_shards_files presE snd_conv wf_delete_all_ec_shards)

lemma safe_delete_object:
  assumes "\<And>q. P q \<Longrightarrow> q \<noteq> data_path root b k \<and> q \<noteq> meta_path root b k \<and> \<not> is_shard_of root b k q"
  shows "pres (safe P f0) (delete_object root b k)"
  unfolding delete_object_def Let_def
  by (intro pres_bindE pres_tolerateE pres_ignoreE safe_delete_shards)
    (use assms in \<open>auto intro!: pres_conjI pres_intros\<close>)

lemma safe_commit:
  assumes "good_root root"
    "\<And>q. P q \<Longrightarrow> q \<noteq> data_path root b k \<and> q \<noteq> meta_path root b k \<and> \<not> is_shard_of root b k q \<and>
      \<not> prefix (staging_dir root t) q"
  shows "pres (safe P f0) (commit_transaction root t b k)"
proof -
  have P: "\<not> P (staging_dir root t @ xs)" for xs
    using assms(2) [of "staging_dir root t @ xs"] by auto
  have "pres (safe P f0) (commit_put root t b k)"
    unfolding commit_put_def Let_def stage_sf
    by (intro pres_bindE pres_ignoreE pres_wrapE pres_read_json safe_delete_shards pres_retE)
      (use assms P in \<open>auto intro!: pres_conjI pres_intros\<close>)
  moreover have "pres (safe P f0) (delete_object root b k)"
    by (rule safe_delete_object) (use assms(2) in blast)
  moreover have "pres (safe P f0) (os_remove_all (staging_dir root t))"
    by (intro pres_conjI pres_intros) (use assms(2) in blast)
  ultimately show ?thesis
    unfolding commit_transaction_def
    by (intro pres_bindE pres_wrapE pres_read_json pres_If pres_failE pres_retE) simp_all
qed

lemma commit_leaves:
  assumes "good_root root" "wf_fs fs" "commit_transaction root t b k fs = (r, fs')"
    "q \<noteq> data_path root b k" "q \<noteq> meta_path root b k" "\<not> is_shard_of root b k q"
    "\<not> prefix (staging_dir root t) q"
  shows "fs_file fs' q = fs_file fs q"
proof -
  let ?P = "\<lambda>q. q \<noteq> data_path root b k \<and> q \<noteq> meta_path root b k \<and> \<not> is_shard_of root b k q \<and>
      \<not> prefix (staging_dir root t) q"
  have "safe ?P (fs_file fs) fs'"
    by (rule presE [OF safe_commit assms(3)]) (use assms(1,2) in auto)
  with assms(4-) show ?thesis by (auto dest: agreesD)
qed

lemma get_object_run:
  "fs_file fs (meta_path root b k) = Some (mt1, CMeta m) \<Longrightarrow>
   fs_file fs (body_path root b k m) = Some (mt2, CData bs) \<Longrightarrow>
   get_object root b k fs = (Inr (bytes_stream bs, m), fs)"
proof -
  assume "fs_file fs (meta_path root b k) = Some (mt1, CMeta m)"
    and body: "fs_file fs (body_path root b k m) = Some (mt2, CData bs)"
  then have "get_object_meta root b k fs = (Inr m, fs)" by (simp add: get_object_meta_ok)
  moreover have "open_stream (body_path root b k m) fs = (Inr (bytes_stream bs), fs)"
    using body by (rule open_stream_file)
  ultimately show ?thesis by (simp add: get_object_def body_path_def)
qed

lemma staging_leaves_object:
  assumes g: "good_dir root b" "plain_name k" and t: "good_dir root t"
    and keep: "\<And>q. \<not> prefix (staging_dir root t) q \<Longrightarrow> fs_file fs' q = fs_file fs q"
  shows "object_at root fs' b k = object_at root fs b k"
  using area_paths_distinct [OF g g t] by (intro object_at_cong keep) auto

section \<open>Example state\<close>

text \<open>A repository with one bucket, as \<open>NewFilesystemRepository\<close> and \<open>CreateBucket\<close> make it.\<close>

definition demo_root :: path where "demo_root = [''srv'']"

definition demo_fs :: repo_fs where
  "demo_fs = snd (bindE (new_filesystem_repository demo_root) (\<lambda>_. create_bucket demo_root ''b'') [])"

definition demo_env :: env where "demo_env = \<lparr>ev_now = 7, ev_uuid = ''u-1''\<rparr>"

definition demo_tx :: transaction where
  "demo_tx = \<lparr>tx_id = ''t1'', tx_operation = OpPut, tx_bucket = ''b'', tx_key = ''a/k'',
     tx_state = TxPrepared, tx_created_at = 0\<rparr>"

lemmas demo_simps = demo_root_def demo_env_def demo_tx_def

lemma demo_good [simp]:
  "good_dir demo_root ''b''" "good_dir demo_root ''t1''" "good_env demo_env" "plain_name ''a/k''" "plain_name ''a''"
  "good_root demo_root"
  by code_simp+

lemma demo_wf [simp]: "wf_fs demo_fs"
  by code_simp

section \<open>Objects\<close>

text \<open>
  C16. On a well-formed repository with no file in the way, staging a \<open>PUT\<close> under a fresh
  transaction id and committing it both succeed, and \<open>GetObject\<close> then returns exactly the bytes
  of the body with the staged metadata (length, checksum and ETag of that body).
\<close>

theorem put_commit_get:
  assumes "good_dir root b" "plain_name k" "good_dir root t" "good_env ev" "wf_fs fs"
    and "tx_operation tx = OpPut" "tx_bucket tx = b" "tx_key tx = k"
    and "\<not> file_above fs (staging_dir root t)" "fs_get fs (staging_dir root t) = None"
    and "sz < 0 \<or> sz = int (length bs)" "\<not> is_ec m"
    and "can_place fs (data_path root b k)" "can_place fs (meta_path root b k)"
  shows "\<exists>fs1 fs2. stage_object root ev t (bytes_stream bs) sz m tx fs = (Inr (staged_meta m bs), fs1) \<and>
    commit_transaction root t b k fs1 = (Inr (staged_meta m bs), fs2) \<and>
    get_object root b k fs2 = (Inr (bytes_stream bs, staged_meta m bs), fs2)"
proof -
  from assms(11) have sz: "sz < 0 \<or> sz = int (length (st_bytes (bytes_stream bs)))" by simp
  obtain fs1 fs2 where
    r: "stage_object root ev t (bytes_stream bs) sz m tx fs = (Inr (staged_meta m bs), fs1)"
       "commit_transaction root t b k fs1 = (Inr (staged_meta m bs), fs2)" and
    f: "fs_file fs2 = (\<lambda>q. if is_shard_of root b k q then None else fs_file fs q)
       (data_path root b k \<mapsto> (ev_now ev, CData bs),
        meta_path root b k \<mapsto> (ev_now ev, CMeta (staged_meta m bs)))"
    using put_run [OF assms(1-10) _ sz assms(13,14), of m] by auto
  have "data_path root b k \<noteq> meta_path root b k"
    using area_paths_distinct(1) [OF assms(1,2,1,2,3)] .
  with f have "get_object root b k fs2 = (Inr (bytes_stream bs, staged_meta m bs), fs2)"
    using assms(12) by (intro get_object_run) (auto simp: body_path_def)
  with r show ?thesis by blast
qed

theorem put_commit_get_witness:
  "\<exists>fs1 fs2. stage_object demo_root demo_env ''t1'' (bytes_stream [104, 105]) 2 empty_meta demo_tx demo_fs =
      (Inr (staged_meta empty_meta [104, 105]), fs1) \<and>
    commit_transaction demo_root ''t1'' ''b'' ''a/k'' fs1 = (Inr (staged_meta empty_meta [104, 105]), fs2) \<and>
    get_object demo_root ''b'' ''a/k'' fs2 =
      (Inr (bytes_stream [104, 105], staged_meta empty_meta [104, 105]), fs2)"
  by (rule put_commit_get) (simp_all, (code_simp | simp add: demo_tx_def)+)

lemma commit_put_object:
  assumes "good_dir root b" "plain_name k" "good_dir root t" "wf_fs fs"
    and tx: "fs_file fs (stage_file root t ''tx.json'') = Some (mt0, CTx tx)" "tx_operation tx = OpPut"
    and data: "fs_file fs (stage_file root t ''data'') = Some (mt, CData bs)"
    and run: "commit_transaction root t b k fs = (Inr m, fs')" and ec: "\<not> is_ec m"
    and other: "good_dir root b'" "plain_name k'" "\<not> (b' = b \<and> shard_clash k k' \<and> stored_ec root fs b' k')"
  shows "object_at root fs' b' k' = (if (b', k') = (b, k) then Some (bs, m) else object_at root fs b' k')"
  using assms(1-4) tx run
proof (rule commit_transaction_put_ok)
  fix mt1 mt2 c
  assume "fs_file fs (stage_file root t ''data'') = Some (mt2, c)"
    and f: "fs_file fs' = (\<lambda>q. if prefix (staging_dir root t) q \<or> is_shard_of root b k q then None else fs_file fs q)
       (data_path root b k \<mapsto> (mt2, c), meta_path root b k \<mapsto> (mt1, CMeta m))"
  with data have f': "fs_file fs' =
      (\<lambda>q. if prefix (staging_dir root t) q \<or> is_shard_of root b k q then None else fs_file fs q)
       (data_path root b k \<mapsto> (mt2, CData bs), meta_path root b k \<mapsto> (mt1, CMeta m))" by simp
  show ?thesis
    using object_at_put [OF assms(1,2) ec f'] other
      area_paths_distinct [OF other(1,2) assms(1,2,3)] by auto
qed


definition demo_meta :: object_meta where
  "demo_meta = empty_meta\<lparr>om_content_length := 2, om_etag := ''e''\<rparr>"

definition demo_staged :: repo_fs where
  "demo_staged =
     [(stage_file demo_root ''t1'' ''tx.json'', File 7 (CTx demo_tx)),
      (stage_file demo_root ''t1'' ''data'', File 7 (CData [104, 105])),
      (stage_file demo_root ''t1'' ''meta.json'', File 7 (CMeta demo_meta)),
      (staging_dir demo_root ''t1'', Dir)] @ demo_fs"


lemma demo_run: "m s = (fst (m s), snd (m s))"
  by simp

lemma commit_keeps_object:
  assumes "good_dir root b" "plain_name k" "good_dir root t" "wf_fs fs"
    and run: "commit_transaction root t b k fs = (r, fs')"
    and other: "good_dir root b'" "plain_name k'" "(b', k') \<noteq> (b, k)" "\<not> (b' = b \<and> shard_clash k k' \<and> stored_ec root fs b' k')"
  shows "object_at root fs' b' k' = object_at root fs b' k'"
proof -
  note far = area_paths_distinct [OF other(1,2) assms(1,2,3)]
  have shard: "\<not> is_shard_of root b k (ec_shard_path root b' k' i)" if "stored_ec root fs b' k'" for i
    using is_shard_of_path [OF assms(1,2) other(1,2)] other(3,4) that by auto
  note leaves = commit_leaves [OF _ assms(4) run]
  show ?thesis
    by (rule object_at_cong_plain; rule leaves)
      (use far shard other assms(1,2) area_paths_distinct(1) [OF assms(1,2) other(1,2) assms(3)]
        in \<open>auto simp: data_path_inject meta_path_inject good_dirD\<close>)
qed



text \<open>
  C28. Preparing is invisible and abort undoes it: whatever \<open>StageObject\<close> returns, every object
  reads as before; aborting then succeeds, leaves nothing in the staging directory and every
  object still as it was.
\<close>

theorem prepare_abort:
  assumes "good_dir root t" "good_env ev" "wf_fs fs"
    and staging: "fs_get fs (path_join root [''staging'']) = Some Dir"
    and run: "stage_object root ev t st sz m tx fs = (r, fs1)"
    and obj: "good_dir root b" "plain_name k"
  shows "object_at root fs1 b k = object_at root fs b k \<and>
    (\<exists>fs2. abort_transaction root t fs1 = (Inr (), fs2) \<and>
       (\<forall>xs. fs_get fs2 (staging_dir root t @ xs) = None) \<and>
       object_at root fs2 b k = object_at root fs b k)"
proof -
  let ?S = "staging_dir root t"
  have S: "?S = root @ [''staging'', t]" using assms(1) by (simp add: dir_paths)
  have keep: "fs_file fs1 q = fs_file fs q" if "\<not> prefix ?S q" for q
    by (rule leavesD [OF agrees_stage_object [OF assms(2)] run, where P = "\<lambda>q. \<not> prefix ?S q"])
      (use that in auto)
  have wf1: "wf_fs fs1"
    using presE [OF wf_stage_object run assms(3)] assms(1,2) by (simp add: good_dirD)
  have st: "path_join root [''staging''] = root @ [''staging'']"
    using assms(1) by (subst path_join_plain) (auto simp: good_dir_def good_root_plain)
  have "fs_file fs q = None" if "strict_prefix q ?S" for q
  proof -
    from that have "prefix q (root @ [''staging''])"
      unfolding S by (auto simp: strict_prefix_def prefix_snoc [of q "root @ [''staging'']" t, simplified])
    then obtain xs where xs: "root @ [''staging''] = q @ xs" by (auto simp: prefix_def)
    have "fs_get fs q = Some Dir"
      using staging wf_fs_take [OF assms(3), of "q @ xs" "length q"] unfolding st xs
      by (cases xs) auto
    then show ?thesis by (simp add: fs_file_def)
  qed
  moreover have "\<not> prefix ?S q" if "strict_prefix q ?S" for q
    using that by (auto simp: strict_prefix_def)
  ultimately have "\<not> file_above fs1 ?S"
    using keep by (auto simp: file_above_iff is_file_iff fs_file_Some_iff [symmetric])
  then obtain fs2 where ab: "abort_transaction root t fs1 = (Inr (), fs2)"
    by (simp add: abort_transaction_def os_remove_all_def)
  note eff = os_remove_all_ok [OF ab [unfolded abort_transaction_def]]
  have "fs_get fs2 (?S @ xs) = None" for xs
    by (simp add: eff(2) S)
  moreover have "fs_file fs2 q = fs_file fs q" if "\<not> prefix ?S q" for q
    using that keep by (simp add: eff(1))
  ultimately show ?thesis
    using ab keep staging_leaves_object [OF obj assms(1)] by blast
qed

theorem prepare_abort_witness:
  "object_at demo_root (snd (stage_object demo_root demo_env ''t2'' \<lparr>st_bytes = [1], st_err = Some ErrNotExist\<rparr>
      (-1) empty_meta demo_tx demo_staged)) ''b'' ''a/k'' = object_at demo_root demo_staged ''b'' ''a/k''"
proof -
  have "good_dir demo_root ''t2''" "wf_fs demo_staged"
    "fs_get demo_staged (path_join demo_root [''staging'']) = Some Dir"
    by code_simp+
  note hyps = this
  show ?thesis
    using prepare_abort [OF hyps(1) demo_good(3) hyps(2,3) demo_run
        [of "stage_object demo_root demo_env ''t2'' \<lparr>st_bytes = [1], st_err = Some ErrNotExist\<rparr>
           (-1) empty_meta demo_tx"] demo_good(1) demo_good(4)] by blast
qed

text \<open>What a deletion does to the files.\<close>

lemma delete_object_ok:
  assumes "wf_fs fs" "delete_object root b k fs = (Inr u, fs')"
  shows "fs_file fs' = (\<lambda>q. if q = data_path root b k \<or> q = meta_path root b k \<or> is_shard_of root b k q
    then None else fs_file fs q)"
proof -
  let ?td = "data_path root b k" and ?tm = "meta_path root b k"
  from assms(2) obtain u1 u2 where r1: "tolerateE (os_remove ?td) fs = (Inr (), u1)"
    and r2: "tolerateE (os_remove ?tm) u1 = (Inr (), u2)"
    and fs': "fs' = clean_empty_dirs (path_dir ?tm) (meta_dir root b)
      (clean_empty_dirs (path_dir ?td) (data_dir root b) (snd (delete_all_ec_shards root b k u2)))"
    by (auto simp: delete_object_def Let_def clean_dirs_def elim!: bindE_okE)
  have u: "u1 = snd (os_remove ?td fs)" "u2 = snd (os_remove ?tm u1)"
    using tolerateE_okD [OF r1] tolerateE_okD [OF r2] by simp_all
  have "wf_fs u1" unfolding u(1) using assms(1) by (rule presD [OF wf_os_remove])
  then have "wf_fs u2" unfolding u(2) by (rule presD [OF wf_os_remove])
  then show ?thesis
    by (auto simp: fs' delete_shards_files u fun_eq_iff)
qed

text \<open>The files after a successful deletion.\<close>

lemma commit_delete_files:
  assumes "wf_fs fs"
    and tx: "fs_file fs (stage_file root t ''tx.json'') = Some (mt0, CTx tx)" "tx_operation tx = OpDelete"
    and run: "commit_transaction root t b k fs = (Inr m, fs')"
  shows "fs_file fs' = (\<lambda>q. if q = data_path root b k \<or> q = meta_path root b k \<or> is_shard_of root b k q \<or>
      prefix (staging_dir root t) q then None else fs_file fs q)"
    and "staging_dir root t \<noteq> [] \<Longrightarrow> fs_get fs' (staging_dir root t @ xs) = None"
proof -
  have "wrapE ''failed to read transaction log''
       (read_json as_tx (stage_file root t ''tx.json'')) fs = (Inr tx, fs)"
    using tx by (auto simp: wrapE_def fs_file_Some_iff read_json_run)
  with run tx(2) obtain u where r1: "delete_object root b k fs = (Inr (), u)"
    and r2: "os_remove_all (staging_dir root t) u = (Inr (), fs')"
    unfolding commit_transaction_def by (auto elim!: bindE_okE split: if_splits)
  note eff = os_remove_all_ok [OF r2]
  show "fs_file fs' = (\<lambda>q. if q = data_path root b k \<or> q = meta_path root b k \<or> is_shard_of root b k q \<or>
      prefix (staging_dir root t) q then None else fs_file fs q)"
    by (auto simp: eff(1) delete_object_ok [OF assms(1) r1] fun_eq_iff)
  show "fs_get fs' (staging_dir root t @ xs) = None" if "staging_dir root t \<noteq> []"
    using that by (simp add: eff(2))
qed

lemma commit_delete_object:
  assumes "good_dir root b" "plain_name k" "good_dir root t" "wf_fs fs"
    and tx: "fs_file fs (stage_file root t ''tx.json'') = Some (mt0, CTx tx)" "tx_operation tx = OpDelete"
    and run: "commit_transaction root t b k fs = (Inr m, fs')"
    and other: "good_dir root b'" "plain_name k'" "\<not> (b' = b \<and> shard_clash k k' \<and> stored_ec root fs b' k')"
  shows "object_at root fs' b' k' = (if (b', k') = (b, k) then None else object_at root fs b' k')"
proof (cases "(b', k') = (b, k)")
  case True
  have "fs_file fs' (meta_path root b k) = None"
    by (simp add: commit_delete_files(1) [OF assms(4) tx run])
  then have "object_at root fs' b k = None"
    using object_at_iff [of root fs' b k] by (metis option.distinct(1) option.exhaust surj_pair)
  with True show ?thesis by auto
next
  case False
  then show ?thesis using commit_keeps_object [OF assms(1-4) run other(1,2) False other(3)] by auto
qed


definition demo_full :: repo_fs where
  "demo_full =
     [(stage_file demo_root ''t1'' ''tx.json'', File 7 (CTx (demo_tx\<lparr>tx_operation := OpDelete\<rparr>))),
      (staging_dir demo_root ''t1'', Dir),
      (data_path demo_root ''b'' ''a/k'', File 3 (CData [104, 105])),
      (meta_path demo_root ''b'' ''a/k'', File 3 (CMeta demo_meta)),
      (data_dir demo_root ''b'' @ [''a''], Dir), (meta_dir demo_root ''b'' @ [''a''], Dir)] @ demo_fs"



section \<open>Any history\<close>

text \<open>One operation of the repository, with any arguments and whatever it returns.\<close>

inductive repo_step :: "path \<Rightarrow> repo_fs \<Rightarrow> repo_fs \<Rightarrow> bool" for root where
  bucket_new: "repo_step root fs (snd (create_bucket root b fs))"
| bucket_del: "repo_step root fs (snd (delete_bucket root b fs))"
| stage: "good_env ev \<Longrightarrow> repo_step root fs (snd (stage_object root ev t st sz m tx fs))"
| commit: "repo_step root fs (snd (commit_transaction root t b k fs))"
| abort: "repo_step root fs (snd (abort_transaction root t fs))"
| object_del: "repo_step root fs (snd (delete_object root b k fs))"
| shard_put: "good_env ev \<Longrightarrow> repo_step root fs (snd (put_ec_shard root ev b k i st sz m fs))"
| shard_del: "repo_step root fs (snd (delete_ec_shard root b k i fs))"
| shards_del: "repo_step root fs (snd (delete_all_ec_shards root b k fs))"
| meta_put: "repo_step root fs (snd (update_object_meta root ev b k m fs))"
| replica_del: "repo_step root fs (snd (remove_replica_data root b k fs))"
| upload_new: "repo_step root fs (snd (create_multipart_upload root ev b k fs))"
| part_put: "repo_step root fs (snd (save_multipart_part root ev b u n st fs))"
| part_del: "repo_step root fs (snd (delete_multipart_part root b u n fs))"
| upload_del: "repo_step root fs (snd (abort_multipart_upload root b u fs))"
| clean_tx: "repo_step root fs (snd (cleanup_expired_transactions root ev age fs))"
| clean_orphans: "repo_step root fs (snd (cleanup_orphaned_objects root ev age fs))"
| clean_uploads: "repo_step root fs (snd (cleanup_expired_multipart_uploads root ev age fs))"

definition new_repo :: "path \<Rightarrow> repo_fs" where
  "new_repo root = snd (new_filesystem_repository root [])"

lemma wf_new_repo: "good_root root \<Longrightarrow> wf_fs (new_repo root)"
  unfolding new_repo_def new_filesystem_repository_def
  by (rule presD) (auto intro!: pres_intros simp del: forE.simps)

lemma repo_step_wf: "good_root root \<Longrightarrow> repo_step root fs fs' \<Longrightarrow> wf_fs fs \<Longrightarrow> wf_fs fs'"
  by (erule repo_step.cases) (auto intro!: presD [of wf_fs] pres_intros)

text \<open>
  After any sequence of repository operations, failed ones included, the tree is well formed: the
  hypothesis of the properties above and below holds in every state a repository can be in.
\<close>

lemma repository_wf:
  assumes "good_root root" "(repo_step root)\<^sup>*\<^sup>* (new_repo root) fs"
  shows "wf_fs fs"
  using assms(2) by (induction rule: rtranclp_induct) (auto simp: assms(1) wf_new_repo intro: repo_step_wf [OF assms(1)])

section \<open>Erasure-coded shards\<close>

lemma update_object_meta_ok:
  assumes "update_object_meta root ev b k m fs = (Inr u, fs')"
  shows "fs_file fs' = (fs_file fs)(path_add (meta_path root b k) (''.tmp.'' @ itoa (ev_now ev)) := None,
    meta_path root b k \<mapsto> (ev_now ev, CMeta m))"
proof -
  from assms obtain u1 where r1: "os_mkdir_all (path_dir (meta_path root b k)) fs = (Inr (), u1)"
    and r2: "write_json ev (meta_path root b k) (CMeta m) u1 = (Inr (), fs')"
    by (auto simp: update_object_meta_def Let_def elim!: bindE_okE dest!: os_sync_dir_okD)
  have f1: "fs_get fs' = (fs_get u1)(path_add (meta_path root b k) (''.tmp.'' @ itoa (ev_now ev)) := None,
    meta_path root b k \<mapsto> File (ev_now ev) (CMeta m))"
    by (rule write_json_ok [OF r2]) simp
  show ?thesis
    unfolding os_mkdir_all_ok(2) [OF r1, symmetric] by (rule ext) (simp add: fs_file_def f1)
qed

lemma put_ec_shard_ok:
  assumes dir: "good_dir root b" and k: "plain_name k" and env: "good_env ev"
    and run: "put_ec_shard root ev b k i st sz m fs = (Inr (), fs')"
  shows "st_err st = None" "sz < 0 \<or> sz = int (length (st_bytes st))"
    "fs_file fs' (ec_shard_path root b k i) = Some (ev_now ev, CData (st_bytes st))"
    "fs_file fs' (meta_path root b k) = Some (ev_now ev, CMeta m)"
proof -
  let ?sp = "ec_shard_path root b k i" and ?bs = "st_bytes st"
  let ?tmp = "path_add ?sp (''.shard.tmp.'' @ ev_uuid ev)"
  have "\<exists>u1. with_temp_file ev ?tmp st (\<lambda>bs.
        if 0 \<le> sz \<and> int (length bs) \<noteq> sz
        then failE (size_mismatch ''ec shard size mismatch'' sz bs) else
        bindE (os_rename ?tmp ?sp) (\<lambda>_.
        bindE (os_sync_dir (path_dir ?sp)) (\<lambda>_.
        update_object_meta root ev b k m))) u1 = (Inr (), fs')"
    using run unfolding put_ec_shard_def Let_def by (elim bindE_okE) blast
  then obtain u1 where
    body: "with_temp_file ev ?tmp st (\<lambda>bs.
        if 0 \<le> sz \<and> int (length bs) \<noteq> sz
        then failE (size_mismatch ''ec shard size mismatch'' sz bs) else
        bindE (os_rename ?tmp ?sp) (\<lambda>_.
        bindE (os_sync_dir (path_dir ?sp)) (\<lambda>_.
        update_object_meta root ev b k m))) u1 = (Inr (), fs')"
    ..
  from body obtain u2 u4 where
    w: "os_write ?tmp (ev_now ev) (CData ?bs) u1 = (Inr (), u2)" and
    err: "st_err st = None" and fin: "fs' = snd (os_remove ?tmp u4)" and
    rest: "(if 0 \<le> sz \<and> int (length ?bs) \<noteq> sz
        then failE (size_mismatch ''ec shard size mismatch'' sz ?bs) else
        bindE (os_rename ?tmp ?sp) (\<lambda>_.
        bindE (os_sync_dir (path_dir ?sp)) (\<lambda>_.
        update_object_meta root ev b k m))) u2 = (Inr (), u4)"
    by (rule with_temp_file_ok)
  show "st_err st = None" by fact
  show sz: "sz < 0 \<or> sz = int (length ?bs)" using rest by (auto split: if_splits)
  with rest obtain u3 where mv: "os_rename ?tmp ?sp u2 = (Inr (), u3)"
    and um: "update_object_meta root ev b k m u3 = (Inr (), u4)"
    by (auto elim!: bindE_okE dest!: os_sync_dir_okD split: if_splits)
  have ne: "?tmp \<noteq> ?sp" by (simp add: path_add_neq)
  have f3: "fs_file u3 = (fs_file u2)(?tmp := None, ?sp \<mapsto> (ev_now ev, CData ?bs))"
    using mv by (rule os_rename_ok) (use os_write_ok(3) [OF w] in simp)
  have area: "butlast (meta_path root b k) \<noteq> butlast ?sp"
    "?sp \<noteq> meta_path root b k"
    using dir k by (auto simp: object_paths butlast_append)
  then have far: "?sp \<noteq> path_add (meta_path root b k) s" "?tmp \<noteq> path_add (meta_path root b k) s"
      "?tmp \<noteq> meta_path root b k" for s
    by (metis butlast_path_add)+
  show "fs_file fs' ?sp = Some (ev_now ev, CData ?bs)" "fs_file fs' (meta_path root b k) = Some (ev_now ev, CMeta m)"
    using ne far area by (simp_all add: fin update_object_meta_ok [OF um] f3)
qed

text \<open>
  C29. Once \<open>PutECShard\<close> reports success the shard was complete, reading that shard back gives exactly
  its bytes, and the object's metadata is the one passed; when that metadata names this shard in
  EC mode, \<open>GetObject\<close> serves the shard.
\<close>

theorem ec_shard_roundtrip:
  assumes "good_dir root b" "plain_name k" "good_env ev"
    and run: "put_ec_shard root ev b k i st sz m fs = (Inr (), fs')"
  shows "get_ec_shard root b k i fs' = (Inr (bytes_stream (st_bytes st)), fs') \<and>
    has_ec_shard root b k i fs' = (Inr True, fs') \<and> get_object_meta root b k fs' = (Inr m, fs') \<and>
    (if is_ec m \<and> om_ec_chunk_index m = i then object_at root fs' b k = Some (st_bytes st, m) else True)"
proof -
  note eff = put_ec_shard_ok [OF assms]
  show ?thesis
    using eff(3,4) by (auto simp: get_ec_shard_def open_stream_file has_ec_shard_def os_stat_def fs_file_Some_iff
        get_object_meta_ok object_at_iff body_path_def)
qed

definition demo_ec_meta :: object_meta where
  "demo_ec_meta = demo_meta\<lparr>om_storage_mode := StorageModeEC, om_ec_chunk_index := 1\<rparr>"

theorem ec_shard_roundtrip_witness:
  "object_at demo_root (snd (put_ec_shard demo_root demo_env ''b'' ''a/k'' 1 (bytes_stream [5]) 1 demo_ec_meta demo_fs))
     ''b'' ''a/k'' = Some ([5], demo_ec_meta)"
proof -
  let ?m = "put_ec_shard demo_root demo_env ''b'' ''a/k'' 1 (bytes_stream [5]) 1 demo_ec_meta"
  have "?m demo_fs = (Inr (), snd (?m demo_fs))" by code_simp
  from ec_shard_roundtrip [OF demo_good(1,4,3) this]
  show ?thesis by (simp add: demo_ec_meta_def is_ec_def)
qed

end
