(* ===== verification/Listing.thy ===== *)
theory Listing
  imports FsProps
begin

text \<open>
  \<open>ListObjectsV2\<close> as a client sees it: one page is sound and bounded, and following the
  continuation tokens to the end reports every matching key exactly once, as an object or under
  its common prefix.
\<close>

section \<open>The keys of a bucket\<close>

text \<open>What a listing without limit returns, key by key.\<close>

definition matches :: "string \<Rightarrow> string \<Rightarrow> bool" where
  "matches pre key \<longleftrightarrow> prefix pre key"

fun listed_objects :: "(string \<Rightarrow> object_meta option) \<Rightarrow> string \<Rightarrow> string \<Rightarrow> string list \<Rightarrow> object_info list" where
  "listed_objects look pre d [] = []"
| "listed_objects look pre d (key # keys) =
     (if prefix pre key \<and> common_prefix_of pre d key = None
      then (case look key of None \<Rightarrow> [] | Some m \<Rightarrow> [object_info_of key m]) else [])
     @ listed_objects look pre d keys"

definition listed_prefixes :: "string \<Rightarrow> string \<Rightarrow> string list \<Rightarrow> string set" where
  "listed_prefixes pre d keys = {cp. \<exists>key \<in> set keys. prefix pre key \<and> common_prefix_of pre d key = Some cp}"

lemma listed_objects_append:
  "listed_objects look pre d (xs @ ys) = listed_objects look pre d xs @ listed_objects look pre d ys"
  by (induction xs) auto

lemma listed_prefixes_append:
  "listed_prefixes pre d (xs @ ys) = listed_prefixes pre d xs \<union> listed_prefixes pre d ys"
  by (auto simp: listed_prefixes_def)

lemma pre_test [simp]: "(pre \<noteq> [] \<and> \<not> prefix pre key) \<longleftrightarrow> \<not> prefix pre key"
  by auto

text \<open>One page is the listing of an initial segment of the keys, the token its last key.\<close>

lemma list_loop_segment:
  assumes "list_loop look pre d mx n keys = (os, cps, tok)"
  shows "\<exists>seg rest. keys = seg @ rest \<and> os = listed_objects look pre d seg \<and>
     set cps = listed_prefixes pre d seg \<and> distinct cps \<and>
     (case tok of None \<Rightarrow> rest = []
      | Some t \<Rightarrow> rest \<noteq> [] \<and> seg \<noteq> [] \<and> last seg = t \<and> prefix pre t \<and> common_prefix_of pre d t = None \<and> os \<noteq> []) "
  using assms
proof (induction look pre d mx n keys arbitrary: os cps tok rule: list_loop.induct)
  case (1 look pre d mx n)
  then show ?case by (auto simp: listed_prefixes_def)
next
  case (2 look pre d mx n key rest)
  let ?out = "\<lambda>os cps tok keys. \<exists>seg rest. keys = seg @ rest \<and> os = listed_objects look pre d seg \<and>
     set cps = listed_prefixes pre d seg \<and> distinct cps \<and>
     (case tok of None \<Rightarrow> rest = []
      | Some t \<Rightarrow> rest \<noteq> [] \<and> seg \<noteq> [] \<and> last seg = t \<and> prefix pre t \<and> common_prefix_of pre d t = None \<and> os \<noteq> [])"
  have step: "?out (os1 @ os) (cps1) tok (key # rest)"
    if "?out os cps tok rest"
      and "os1 = listed_objects look pre d [key]" "distinct cps1"
        "set cps1 = listed_prefixes pre d [key] \<union> set cps" for os1 os cps1 cps tok
  proof -
    from that(1) obtain seg r where "rest = seg @ r" "os = listed_objects look pre d seg"
      "set cps = listed_prefixes pre d seg"
      "case tok of None \<Rightarrow> r = []
       | Some t \<Rightarrow> r \<noteq> [] \<and> seg \<noteq> [] \<and> last seg = t \<and> prefix pre t \<and> common_prefix_of pre d t = None \<and> os \<noteq> []"
      by blast
    then show ?thesis
      using that(2-4) listed_objects_append [of look pre d "[key]" seg]
        listed_prefixes_append [of pre d "[key]" seg]
      by (intro exI [of _ "key # seg"] exI [of _ r]) (auto split: option.splits)
  qed
  show ?case
  proof (cases "prefix pre key")
    case False
    then have ne: "pre \<noteq> []" by auto
    with False 2(5) have "list_loop look pre d mx n rest = (os, cps, tok)" by simp
    with 2(1) False ne have out: "?out os cps tok rest" by simp
    then have "distinct cps" "set cps = listed_prefixes pre d [key] \<union> set cps"
      using False by (auto simp: listed_prefixes_def)
    with step [OF out, of "[]" cps, unfolded append_Nil] False show ?thesis by simp
  next
    case pre: True
    show ?thesis
    proof (cases "common_prefix_of pre d key")
      case (Some cp)
      obtain os' cps' tok' where rec: "list_loop look pre d mx n rest = (os', cps', tok')"
        by (cases "list_loop look pre d mx n rest") auto
      with 2(5) pre Some have eq: "os = os'" "cps = List.insert cp cps'" "tok = tok'" by auto
      from 2(4) pre Some rec have out: "?out os' cps' tok' rest" by simp
      then have "distinct (List.insert cp cps')"
          "set (List.insert cp cps') = listed_prefixes pre d [key] \<union> set cps'"
        using pre Some by (auto simp: listed_prefixes_def)
      with step [OF out, of "[]" "List.insert cp cps'", unfolded append_Nil] pre Some show ?thesis
        unfolding eq by simp
    next
      case None
      show ?thesis
      proof (cases "look key")
        case nolook: None
        with 2(5) pre None have rec: "list_loop look pre d mx n rest = (os, cps, tok)" by simp
        with 2(2) pre None nolook have out: "?out os cps tok rest" by simp
        then have "distinct cps" "set cps = listed_prefixes pre d [key] \<union> set cps"
          using None by (auto simp: listed_prefixes_def)
        with step [OF out, of "[]" cps, unfolded append_Nil] pre None nolook show ?thesis by simp
      next
        case (Some m)
        show ?thesis
        proof (cases "mx \<le> n + 1")
          case True
          with 2(5) pre None Some have "os = [object_info_of key m]" "cps = []"
            "tok = (if rest \<noteq> [] then Some key else None)" by auto
          with pre None Some show ?thesis
            by (intro exI [of _ "[key]"] exI [of _ rest]) (auto simp: listed_prefixes_def)
        next
          case False
          obtain os' cps' tok' where rec: "list_loop look pre d mx (n + 1) rest = (os', cps', tok')"
            by (cases "list_loop look pre d mx (n + 1) rest") auto
          with 2(5) pre None Some False have eq: "os = object_info_of key m # os'" "cps = cps'" "tok = tok'"
            by auto
          from 2(3) pre None Some False rec have out: "?out os' cps' tok' rest" by simp
          then have "distinct cps'" "set cps' = listed_prefixes pre d [key] \<union> set cps'"
            using None by (auto simp: listed_prefixes_def)
          with step [OF out, of "[object_info_of key m]" cps', unfolded append_Cons append_Nil] pre None Some show ?thesis
            unfolding eq by simp
        qed
      qed
    qed
  qed
qed

lemma list_loop_bound:
  "list_loop look pre d mx n keys = (os, cps, tok) \<Longrightarrow> n < max 1 mx \<Longrightarrow> 0 \<le> n \<Longrightarrow>
   n + int (length os) \<le> max 1 mx"
proof (induction look pre d mx n keys arbitrary: os cps tok rule: list_loop.induct)
  case (2 look pre d mx n key rest)
  show ?case
  proof (cases "(pre \<noteq> [] \<and> \<not> prefix pre key) \<or> common_prefix_of pre d key \<noteq> None \<or> look key = None \<or> mx \<le> n + 1")
    case True
    with 2 show ?thesis
      by (auto split: if_splits option.splits prod.splits)
  next
    case False
    then obtain m where m: "look key = Some m" by auto
    obtain os' cps' tok' where rec: "list_loop look pre d mx (n + 1) rest = (os', cps', tok')"
      by (cases "list_loop look pre d mx (n + 1) rest") auto
    with False m 2(5) have "os = object_info_of key m # os'" by auto
    moreover have "(n + 1) + int (length os') \<le> max 1 mx"
      by (rule 2(3) [OF _ _ m _ rec]) (use False 2(6,7) in auto)
    ultimately show ?thesis by simp
  qed
qed simp

text \<open>A token is set only when the page is full, and it names the last object.\<close>

lemma list_loop_token:
  "list_loop look pre d mx n keys = (os, cps, Some t) \<Longrightarrow> n < max 1 mx \<Longrightarrow> 0 \<le> n \<Longrightarrow>
   n + int (length os) = max 1 mx \<and> os \<noteq> [] \<and> oi_key (last os) = t"
proof (induction look pre d mx n keys arbitrary: os cps rule: list_loop.induct)
  case (2 look pre d mx n key rest)
  show ?case
  proof (cases "(pre \<noteq> [] \<and> \<not> prefix pre key) \<or> common_prefix_of pre d key \<noteq> None \<or> look key = None \<or> mx \<le> n + 1")
    case True
    with 2 show ?thesis
      by (auto simp: object_info_of_def split: if_splits option.splits prod.splits)
  next
    case False
    then obtain m where m: "look key = Some m" by auto
    obtain os' cps' tok' where rec: "list_loop look pre d mx (n + 1) rest = (os', cps', tok')"
      by (cases "list_loop look pre d mx (n + 1) rest") auto
    with False m 2(5) have os: "os = object_info_of key m # os'" and "tok' = Some t" by auto
    then have "n + 1 + int (length os') = max 1 mx \<and> os' \<noteq> [] \<and> oi_key (last os') = t"
      using 2(3) [OF _ _ m _ rec [unfolded \<open>tok' = Some t\<close>]] False 2(6,7) by auto
    then show ?thesis by (simp add: os)
  qed
qed simp

section \<open>Order and common prefixes\<close>

lemma prefix_convex:
  "prefix c x \<Longrightarrow> prefix c y \<Longrightarrow> x \<le> t \<Longrightarrow> t \<le> y \<Longrightarrow> prefix c (t :: string)"
proof (induction c arbitrary: x t y)
  case (Cons a c)
  from Cons.prems(1) obtain x' where x: "x = a # x'" "prefix c x'" by (cases x) auto
  from Cons.prems(2) obtain y' where y: "y = a # y'" "prefix c y'" by (cases y) auto
  obtain e t' where t: "t = e # t'"
    using Cons.prems(3) x(1) by (cases t) simp_all
  have "a < e \<or> a = e \<and> x' \<le> t'" using Cons.prems(3) unfolding x(1) t by (simp only: Cons_le_Cons)
  moreover have "e < a \<or> e = a \<and> t' \<le> y'" using Cons.prems(4) unfolding y(1) t by (simp only: Cons_le_Cons)
  ultimately have "e = a" "x' \<le> t'" "t' \<le> y'" by (meson less_asym less_irrefl)+
  with Cons.IH [OF x(2) y(2)] t show ?case by simp
qed simp

lemma str_index_Some: "str_index s d = Some i \<Longrightarrow> \<exists>v. s = take i s @ d @ v"
proof (induction s arbitrary: i)
  case (Cons c s)
  then show ?case by (auto simp: prefix_def split: if_splits)
qed (auto split: if_splits)

lemma str_index_le: "str_index s d = Some i \<Longrightarrow> i \<le> length s"
  by (induction s arbitrary: i) (auto split: if_splits)

lemma str_index_occurs: "d \<noteq> [] \<Longrightarrow> str_index (u @ d @ v) d \<noteq> None"
proof (induction u)
  case Nil
  then obtain a as where "d = a # as" by (cases d) auto
  then show ?case by (simp add: prefix_def)
qed (auto)

lemma common_prefix_of_Some:
  assumes "common_prefix_of pre d key = Some c" "prefix pre key"
  shows "prefix c key" and "prefix c t \<Longrightarrow> common_prefix_of pre d t \<noteq> None"
proof -
  let ?rem = "drop (length pre) key"
  from assms(1) have d: "d \<noteq> []" by (auto simp: common_prefix_of_def split: if_splits)
  with assms(1) obtain i where i: "str_index ?rem d = Some i" and c: "c = pre @ take (i + length d) ?rem"
    by (auto simp: common_prefix_of_def Let_def)
  from assms(2) have key: "key = pre @ ?rem" by (auto simp: prefix_def)
  have "prefix (take (i + length d) ?rem) ?rem" by (rule take_is_prefix)
  with c key show "prefix c key" by (metis same_prefix_prefix)
  obtain v where v: "?rem = take i ?rem @ d @ v" using str_index_Some [OF i] by blast
  have "i \<le> length ?rem" by (rule str_index_le [OF i])
  then have "take (i + length d) ?rem = take i ?rem @ d"
    using arg_cong [OF v, where f = "take (i + length d)"] by simp
  with c have c': "c = pre @ take i ?rem @ d" by simp
  assume "prefix c t"
  then obtain z where "t = pre @ take i ?rem @ d @ z" by (auto simp: c' prefix_def)
  then show "common_prefix_of pre d t \<noteq> None"
    using d str_index_occurs [OF d, of "take i ?rem" z] by (auto simp: common_prefix_of_def Let_def)
qed

text \<open>A page ends at an object, so no common prefix has keys on both sides of the break.\<close>

lemma listed_prefixes_split:
  assumes sorted: "sorted_wrt (<) (seg @ rest)" and t: "seg \<noteq> []" "last seg = t"
    "common_prefix_of pre d t = None"
  shows "listed_prefixes pre d seg \<inter> listed_prefixes pre d rest = {}"
proof (rule ccontr)
  assume "listed_prefixes pre d seg \<inter> listed_prefixes pre d rest \<noteq> {}"
  then obtain c x y where x: "x \<in> set seg" "prefix pre x" "common_prefix_of pre d x = Some c"
    and y: "y \<in> set rest" "prefix pre y" "common_prefix_of pre d y = Some c"
    by (auto simp: listed_prefixes_def)
  obtain s where s: "seg = s @ [t]" using t(1,2) by (metis append_butlast_last_id)
  have "x \<le> t" using sorted x(1) s by (auto simp: sorted_wrt_append intro: less_imp_le)
  moreover have "t \<le> y" using sorted y(1) s by (auto simp: sorted_wrt_append intro: less_imp_le)
  ultimately have "prefix c t"
    using prefix_convex [of c x y t] common_prefix_of_Some(1) x y by blast
  with common_prefix_of_Some(2) [OF x(3,2)] t(3) show False by blast
qed

lemma list_start_rest:
  assumes "sorted_wrt (<) (seg @ rest)" "seg \<noteq> []" "last seg \<noteq> []"
  shows "list_start (last seg) (seg @ rest) = rest"
proof -
  obtain s t where s: "seg = s @ [t]" using assms(2) by (metis append_butlast_last_id)
  have "\<forall>k \<in> set seg. \<not> t < k"
    using assms(1) s by (auto simp: sorted_wrt_append dest: less_asym)
  moreover have "\<forall>k \<in> set rest. t < k" using assms(1) s by (auto simp: sorted_wrt_append)
  ultimately have "dropWhile (\<lambda>k. \<not> t < k) (seg @ rest) = rest"
    by (cases rest) (auto simp: dropWhile_append)
  with assms(3) s show ?thesis by (simp add: list_start_def)
qed

section \<open>The keys a bucket has\<close>

lemma files_under_iff:
  assumes "wf_fs fs"
  shows "rel \<in> set (files_under p fs) \<longleftrightarrow> fs_file fs (p @ rel) \<noteq> None"
proof -
  have dist: "distinct (map fst fs)" and ne: "[] \<notin> fst ` set fs" using assms by (auto simp: wf_fs_iff)
  have "(p @ rel, File m c) \<in> set fs \<longleftrightarrow> fs_get fs (p @ rel) = Some (File m c)" for m c
    using map_of_eq_Some_iff [OF dist, of "p @ rel" "File m c"] ne
    by (auto simp: fs_get_def) (metis fst_conv image_eqI ne)
  then have "fs_file fs (p @ rel) \<noteq> None \<longleftrightarrow> (\<exists>m c. (p @ rel, File m c) \<in> set fs)"
    by (auto simp: fs_file_Some_iff)
  also have "\<dots> \<longleftrightarrow> rel \<in> set (files_under p fs)"
    by (force simp: files_under_def image_iff is_file_iff prefix_def)
  finally show ?thesis by simp
qed

lemma split_on_sep: "d \<notin> set s \<Longrightarrow> split_on d (s @ d # x) = s # split_on d x"
  by (induction s) auto

lemma split_join: "cs \<noteq> [] \<Longrightarrow> \<forall>c \<in> set cs. d \<notin> set c \<Longrightarrow> split_on d (join_with [d] cs) = cs"
proof (induction cs)
  case (Cons c cs)
  then show ?case by (cases cs) (simp_all add: split_on_plain split_on_sep)
qed simp

lemma trim_json: "suffix j s \<and> k = trim_suffix s j \<longleftrightarrow> s = k @ j"
  by (auto simp: suffix_def suffix_imp_trim)

lemma object_keys_iff:
  assumes wf: "wf_fs fs" and dir: "good_dir root b"
  shows "k \<in> set (object_keys root b fs) \<longleftrightarrow>
    plain_name (k @ ''.json'') \<and> fs_file fs (meta_path root b k) \<noteq> None"
proof -
  let ?M = "root @ [''meta'', b]"
  have path: "meta_path root b k = ?M @ split_on (CHR ''/'') (k @ ''.json'')" if "plain_name (k @ ''.json'')"
    using that dir dir_plain [OF dir, of "''meta''"]
    by (simp add: meta_path_def dir_paths path_join_plain)
  have "k \<in> set (object_keys root b fs) \<longleftrightarrow>
      (\<exists>rel \<in> set (files_under ?M fs). suffix ''.json'' (join_with ''/'' rel) \<and>
         k = trim_suffix (join_with ''/'' rel) ''.json'')"
    using dir by (auto simp: object_keys_def dir_paths)
  also have "\<dots> \<longleftrightarrow> (\<exists>rel. fs_file fs (?M @ rel) \<noteq> None \<and> join_with ''/'' rel = k @ ''.json'')"
    unfolding trim_json files_under_iff [OF wf] Bex_def ..
  also have "\<dots> \<longleftrightarrow> plain_name (k @ ''.json'') \<and> fs_file fs (meta_path root b k) \<noteq> None"
  proof
    assume "\<exists>rel. fs_file fs (?M @ rel) \<noteq> None \<and> join_with ''/'' rel = k @ ''.json''"
    then obtain rel where rel: "fs_file fs (?M @ rel) \<noteq> None" "join_with ''/'' rel = k @ ''.json''" by blast
    have "list_all plain_seg (?M @ rel)"
      using rel(1) by (intro wf_fs_plain [OF wf]) (auto simp: fs_file_def split: option.splits)
    moreover have "rel \<noteq> []" using rel(2) by (cases rel) auto
    ultimately have sp: "split_on (CHR ''/'') (k @ ''.json'') = rel"
      using split_join [of rel "CHR ''/''"] rel(2) by (auto simp: list_all_iff plain_seg_def)
    with \<open>list_all plain_seg (?M @ rel)\<close> have "plain_name (k @ ''.json'')"
      by (auto simp: plain_name_def list_all_iff plain_seg_def)
    with path rel(1) sp show "plain_name (k @ ''.json'') \<and> fs_file fs (meta_path root b k) \<noteq> None" by simp
  next
    assume "plain_name (k @ ''.json'') \<and> fs_file fs (meta_path root b k) \<noteq> None"
    with path show "\<exists>rel. fs_file fs (?M @ rel) \<noteq> None \<and> join_with ''/'' rel = k @ ''.json''"
      by (intro exI [of _ "split_on (CHR ''/'') (k @ ''.json'')"]) simp
  qed
  finally show ?thesis .
qed

lemma filter_json:
  "filter (suffix ''.json'') (map (join_with ''/'') rels) =
   filter (suffix ''.json'') (map (join_with ''/'') (filter (\<lambda>r. r \<noteq> []) rels))"
  by (induction rels) auto

lemma object_keys_sorted:
  assumes wf: "wf_fs fs" and dir: "good_dir root b"
  shows "sorted_wrt (<) (object_keys root b fs)"
proof -
  let ?rels = "files_under (meta_dir root b) fs"
  have "inj_on (\<lambda>e. drop n (fst e)) {e \<in> set fs. prefix p (fst e)}"
    if "distinct (map fst fs)" "n = length p" for p n
  proof (rule inj_onI)
    fix e e' assume "e \<in> {e \<in> set fs. prefix p (fst e)}"
      "e' \<in> {e \<in> set fs. prefix p (fst e)}" "drop n (fst e) = drop n (fst e')"
    then have "fst e = fst e'" "e \<in> set fs" "e' \<in> set fs" using that(2) by (auto simp: prefix_def)
    with that(1) show "e = e'" by (metis eq_key_imp_eq_value prod.collapse)
  qed
  then have "inj_on (\<lambda>e. drop (length (meta_dir root b)) (fst e)) {e \<in> set fs. prefix (meta_dir root b) (fst e)}"
    using wf by (simp add: wf_fs_iff)
  then have "inj_on (\<lambda>e. drop (length (meta_dir root b)) (fst e))
      (set (filter (\<lambda>e. is_file (Some (snd e)) \<and> prefix (meta_dir root b) (fst e)) fs))"
    by (rule inj_on_subset) auto
  then have d1: "distinct ?rels"
    using wf unfolding files_under_def by (simp add: distinct_map wf_fs_iff del: set_filter)
  have names: "\<forall>c \<in> set rel. CHR ''/'' \<notin> set c" if "rel \<in> set ?rels" for rel
  proof -
    have "list_all plain_seg (meta_dir root b @ rel)"
      using that by (intro wf_fs_plain [OF wf]) (auto simp: files_under_iff [OF wf] fs_file_def split: option.splits)
    then show ?thesis by (auto simp: list_all_iff plain_seg_def)
  qed
  let ?js = "filter (suffix ''.json'') (map (join_with ''/'') ?rels)"
  have "inj_on (join_with ''/'') {rel \<in> set ?rels. rel \<noteq> []}"
    using split_join names by (intro inj_on_inverseI [of _ "split_on (CHR ''/'')"]) auto
  then have "distinct (map (join_with ''/'') (filter (\<lambda>r. r \<noteq> []) ?rels))"
    using d1 by (simp add: distinct_map)
  moreover have "?js = filter (suffix ''.json'') (map (join_with ''/'') (filter (\<lambda>r. r \<noteq> []) ?rels))"
    by (rule filter_json)
  ultimately have d2: "distinct ?js" by simp
  have "inj_on (\<lambda>s. trim_suffix s ''.json'') (set ?js)"
    by (rule inj_on_inverseI [of _ "\<lambda>s. s @ ''.json''"]) (auto simp: suffix_def suffix_imp_trim trim_suffix_def)
  then have "distinct (object_keys root b fs)"
    using d2 by (simp add: object_keys_def distinct_map)
  moreover have "sorted (object_keys root b fs)" by (simp add: object_keys_def)
  ultimately show ?thesis by (simp add: strict_sorted_iff)
qed

section \<open>Following the continuation tokens\<close>

text \<open>A client's loop: ask for a page, follow its token while it says there is more.\<close>

fun follow_pages :: "nat \<Rightarrow> (string \<Rightarrow> list_result option) \<Rightarrow> string \<Rightarrow> list_result list option" where
  "follow_pages 0 page token = None"
| "follow_pages (Suc n) page token =
     (case page token of None \<Rightarrow> None
      | Some r \<Rightarrow> (if lr_is_truncated r then map_option ((#) r) (follow_pages n page (lr_next_token r))
                   else Some [r]))"

definition list_page ::
    "path \<Rightarrow> repo_fs \<Rightarrow> string \<Rightarrow> string \<Rightarrow> string \<Rightarrow> int \<Rightarrow> string \<Rightarrow> list_result option" where
  "list_page root fs b pre d mx token =
     (case fst (list_objects_v2 root b pre d token mx fs) of Inl _ \<Rightarrow> None | Inr r \<Rightarrow> Some r)"

lemma list_page_eq:
  assumes "fs_get fs (meta_dir root b) = Some Dir"
    and "list_loop (meta_lookup root b fs) pre d mx 0 (list_start token (object_keys root b fs)) = (os, cps, tok)"
  shows "list_page root fs b pre d mx token = Some \<lparr>lr_name = b, lr_prefix = pre,
    lr_key_count = int (length os) + int (length cps), lr_max_keys = mx,
    lr_is_truncated = (tok \<noteq> None), lr_next_token = (case tok of None \<Rightarrow> [] | Some t \<Rightarrow> t),
    lr_contents = os, lr_common_prefixes = sort cps\<rparr>"
  using assms by (simp add: list_page_def list_objects_v2_def os_stat_def)

lemma follow_pages_from:
  assumes dir: "fs_get fs (meta_dir root b) = Some Dir"
    and keys: "object_keys root b fs = past @ todo" and sorted: "sorted_wrt (<) (past @ todo)"
    and ne: "[] \<notin> set (past @ todo)"
    and token: "token = (if past = [] then [] else last past)"
    and fuel: "length todo < n"
  shows "\<exists>pages. follow_pages n (list_page root fs b pre d mx) token = Some pages \<and>
     concat (map lr_contents pages) = listed_objects (meta_lookup root b fs) pre d todo \<and>
     set (concat (map lr_common_prefixes pages)) = listed_prefixes pre d todo \<and>
     distinct (concat (map lr_common_prefixes pages))"
  using keys sorted ne token fuel
proof (induction n arbitrary: past todo token)
  case 0
  then show ?case by simp
next
  case (Suc n)
  let ?look = "meta_lookup root b fs"
  have start: "list_start token (object_keys root b fs) = todo"
  proof (cases "past = []")
    case True
    with Suc.prems show ?thesis by (simp add: list_start_def)
  next
    case False
    with Suc.prems(3) have "last past \<noteq> []" by (metis UnCI last_in_set set_append)
    with list_start_rest [of past todo] Suc.prems False show ?thesis by simp
  qed
  obtain os cps tok where run: "list_loop ?look pre d mx 0 todo = (os, cps, tok)"
    by (cases "list_loop ?look pre d mx 0 todo") auto
  note page = list_page_eq [OF dir, of pre d mx token os cps tok, unfolded start, OF run]
  from list_loop_segment [OF run] obtain seg rest where
    seg: "todo = seg @ rest" "os = listed_objects ?look pre d seg" "set cps = listed_prefixes pre d seg" "distinct cps"
    and tok: "case tok of None \<Rightarrow> rest = []
      | Some t \<Rightarrow> rest \<noteq> [] \<and> seg \<noteq> [] \<and> last seg = t \<and> prefix pre t \<and> common_prefix_of pre d t = None \<and> os \<noteq> []"
    by blast
  show ?case
  proof (cases tok)
    case None
    with tok seg page show ?thesis by simp
  next
    case (Some t)
    with tok have t: "seg \<noteq> []" "last seg = t" "common_prefix_of pre d t = None" by auto
    have "\<exists>pages. follow_pages n (list_page root fs b pre d mx) t = Some pages \<and>
       concat (map lr_contents pages) = listed_objects ?look pre d rest \<and>
       set (concat (map lr_common_prefixes pages)) = listed_prefixes pre d rest \<and>
       distinct (concat (map lr_common_prefixes pages))"
    proof (rule Suc.IH)
      show "object_keys root b fs = (past @ seg) @ rest" "sorted_wrt (<) ((past @ seg) @ rest)"
        "[] \<notin> set ((past @ seg) @ rest)"
        using Suc.prems seg(1) by simp_all
      show "t = (if past @ seg = [] then [] else last (past @ seg))" using t by simp
      show "length rest < n" using Suc.prems(5) seg(1) t(1) by (cases seg) auto
    qed
    then obtain pages where
      "follow_pages n (list_page root fs b pre d mx) t = Some pages"
      "concat (map lr_contents pages) = listed_objects ?look pre d rest"
      "set (concat (map lr_common_prefixes pages)) = listed_prefixes pre d rest"
      "distinct (concat (map lr_common_prefixes pages))"
      by blast
    moreover have "listed_prefixes pre d seg \<inter> listed_prefixes pre d rest = {}"
      using Suc.prems(2) seg(1) t by (intro listed_prefixes_split) (auto simp: sorted_wrt_append)
    ultimately show ?thesis
      using page Some seg by (auto simp: listed_objects_append listed_prefixes_append)
  qed
qed

lemma set_concat_option:
  "y \<in> set (concat (map (\<lambda>k. if P k then (case look k of None \<Rightarrow> [] | Some m \<Rightarrow> [f k m]) else []) keys)) \<longleftrightarrow>
   (\<exists>k m. k \<in> set keys \<and> P k \<and> look k = Some m \<and> y = f k m)"
proof -
  have "y \<in> set (if P k then (case look k of None \<Rightarrow> [] | Some m \<Rightarrow> [f k m]) else []) \<longleftrightarrow>
      (\<exists>m. P k \<and> look k = Some m \<and> y = f k m)" for k
    by (cases "P k"; cases "look k"; simp only: if_True if_False option.case list.set; blast)
  then show ?thesis by (simp only: set_concat set_map UN_iff bex_simps image_iff Bex_def) blast
qed

lemma listed_objects_concat:
  "listed_objects look pre d keys = concat (map (\<lambda>k. if prefix pre k \<and> common_prefix_of pre d k = None
     then (case look k of None \<Rightarrow> [] | Some m \<Rightarrow> [object_info_of k m]) else []) keys)"
  by (induction keys) simp_all

lemma listed_objects_set:
  "oi \<in> set (listed_objects look pre d keys) \<longleftrightarrow>
     (\<exists>k m. k \<in> set keys \<and> (prefix pre k \<and> common_prefix_of pre d k = None) \<and> look k = Some m \<and>
        oi = object_info_of k m)"
  unfolding listed_objects_concat by (rule set_concat_option)

lemma listed_objects_sorted:
  "sorted_wrt (<) keys \<Longrightarrow> sorted_wrt (<) (map oi_key (listed_objects look pre d keys))"
  by (induction keys)
    (auto simp: listed_objects_set object_info_of_def split: option.splits)

lemma meta_lookup_iff:
  "meta_lookup root b fs k = Some m \<longleftrightarrow> (\<exists>mt. fs_file fs (meta_path root b k) = Some (mt, CMeta m))"
proof -
  have "meta_lookup root b fs k = Some m \<longleftrightarrow> get_object_meta root b k fs = (Inr m, fs)"
    by (auto simp: meta_lookup_def split: sum.splits) (metis get_object_meta_state prod.collapse)
  then show ?thesis by (simp add: get_object_meta_ok)
qed

text \<open>
  C20. A client that follows the continuation tokens of \<open>ListObjectsV2\<close>, with any page size, prefix and
  delimiter, comes to an end; the objects of its pages, in order, are in strictly increasing key
  order and are exactly the objects with metadata whose key has the prefix and is not grouped by the
  delimiter; and every common prefix of the other keys is reported on exactly one page.
\<close>

theorem listing_complete:
  assumes "wf_fs fs" "good_dir root b" "fs_get fs (meta_dir root b) = Some Dir"
    and "[] \<notin> set (object_keys root b fs)"
  shows "\<exists>pages. follow_pages (Suc (length (object_keys root b fs))) (list_page root fs b pre d mx) [] = Some pages \<and>
    sorted_wrt (<) (map oi_key (concat (map lr_contents pages))) \<and>
    (\<forall>oi. oi \<in> set (concat (map lr_contents pages)) \<longleftrightarrow>
       (\<exists>k m mt. plain_name (k @ ''.json'') \<and> fs_file fs (meta_path root b k) = Some (mt, CMeta m) \<and>
          prefix pre k \<and> common_prefix_of pre d k = None \<and> oi = object_info_of k m)) \<and>
    distinct (concat (map lr_common_prefixes pages)) \<and>
    (\<forall>cp. cp \<in> set (concat (map lr_common_prefixes pages)) \<longleftrightarrow>
       (\<exists>k. plain_name (k @ ''.json'') \<and> fs_file fs (meta_path root b k) \<noteq> None \<and>
          prefix pre k \<and> common_prefix_of pre d k = Some cp))"
proof -
  let ?keys = "object_keys root b fs" and ?look = "meta_lookup root b fs"
  note sorted = object_keys_sorted [OF assms(1,2)] and iff = object_keys_iff [OF assms(1,2)]
  obtain pages where pages: "follow_pages (Suc (length ?keys)) (list_page root fs b pre d mx) [] = Some pages"
    "concat (map lr_contents pages) = listed_objects ?look pre d ?keys"
    "set (concat (map lr_common_prefixes pages)) = listed_prefixes pre d ?keys"
    "distinct (concat (map lr_common_prefixes pages))"
    using follow_pages_from [OF assms(3), of "[]" ?keys "[]" "Suc (length ?keys)" pre d mx] sorted assms(4)
    by auto
  have contents: "oi \<in> set (listed_objects ?look pre d ?keys) \<longleftrightarrow>
      (\<exists>k m mt. plain_name (k @ ''.json'') \<and> fs_file fs (meta_path root b k) = Some (mt, CMeta m) \<and>
          prefix pre k \<and> common_prefix_of pre d k = None \<and> oi = object_info_of k m)" for oi
    unfolding listed_objects_set meta_lookup_iff iff by auto
  have prefixes: "cp \<in> listed_prefixes pre d ?keys \<longleftrightarrow>
      (\<exists>k. plain_name (k @ ''.json'') \<and> fs_file fs (meta_path root b k) \<noteq> None \<and>
          prefix pre k \<and> common_prefix_of pre d k = Some cp)" for cp
    by (auto simp: listed_prefixes_def iff)
  show ?thesis
    by (intro exI [of _ pages] conjI allI; (rule pages(1,4))?;
        (unfold pages(2,3)); (rule contents prefixes listed_objects_sorted [OF sorted])?)
qed

theorem listing_complete_witness:
  "\<exists>pages. follow_pages 2 (list_page demo_root demo_full ''b'' [] ''/'' 1) [] = Some pages \<and>
     ''a/'' \<in> set (concat (map lr_common_prefixes pages))"
proof -
  have hyps: "wf_fs demo_full" "fs_get demo_full (meta_dir demo_root ''b'') = Some Dir"
    "[] \<notin> set (object_keys demo_root ''b'' demo_full)" "object_keys demo_root ''b'' demo_full = [''a/k'']"
    "plain_name (''a/k'' @ ''.json'')" "fs_file demo_full (meta_path demo_root ''b'' ''a/k'') \<noteq> None"
    "common_prefix_of [] ''/'' ''a/k'' = Some ''a/''"
    by code_simp+
  show ?thesis
    using listing_complete [OF hyps(1) demo_good(1) hyps(2,3), of "[]" "''/''" 1] hyps(4-7)
    by (metis (no_types, lifting) One_nat_def Suc_1 length_Cons list.size(3) prefix_bot.bot_least)
qed

text \<open>
  C30. A page has at most \<open>maxKeys\<close> objects (one when \<open>maxKeys\<close> is not positive).  When it is truncated
  it has exactly that many, its token is the key of its last object, and more keys of the bucket come
  after it; its objects are those of the keys from the requested token to its own, and those of all the
  keys that were left when it is not truncated.
\<close>

theorem page_bound:
  assumes "list_objects_v2 root b pre d token mx fs = (Inr r, fs')"
  shows "int (length (lr_contents r)) \<le> max 1 mx \<and> fs' = fs \<and>
    lr_key_count r = int (length (lr_contents r)) + int (length (lr_common_prefixes r)) \<and>
    (if lr_is_truncated r
     then int (length (lr_contents r)) = max 1 mx \<and> lr_next_token r = oi_key (last (lr_contents r)) \<and>
       (\<exists>seg rest. list_start token (object_keys root b fs) = seg @ lr_next_token r # rest \<and> rest \<noteq> [] \<and>
          lr_contents r = listed_objects (meta_lookup root b fs) pre d (seg @ [lr_next_token r]))
     else lr_contents r = listed_objects (meta_lookup root b fs) pre d (list_start token (object_keys root b fs)))"
proof -
  let ?look = "meta_lookup root b fs" and ?keys = "list_start token (object_keys root b fs)"
  obtain os cps tok where run: "list_loop ?look pre d mx 0 ?keys = (os, cps, tok)"
    by (cases "list_loop ?look pre d mx 0 ?keys") auto
  with assms have r: "r = \<lparr>lr_name = b, lr_prefix = pre,
      lr_key_count = int (length os) + int (length cps), lr_max_keys = mx,
      lr_is_truncated = (tok \<noteq> None), lr_next_token = (case tok of None \<Rightarrow> [] | Some t \<Rightarrow> t),
      lr_contents = os, lr_common_prefixes = sort cps\<rparr>" "fs' = fs"
    by (auto simp: list_objects_v2_def split: prod.splits sum.splits if_splits)
  from list_loop_segment [OF run] obtain seg rest where
    seg: "?keys = seg @ rest" "os = listed_objects ?look pre d seg"
    and tok: "case tok of None \<Rightarrow> rest = []
      | Some t \<Rightarrow> rest \<noteq> [] \<and> seg \<noteq> [] \<and> last seg = t \<and> prefix pre t \<and> common_prefix_of pre d t = None \<and> os \<noteq> []"
    by blast
  have seg': "seg = butlast seg @ [t]" if "tok = Some t" for t
    using tok that by auto
  have bound: "int (length os) \<le> max 1 mx" using list_loop_bound [OF run] by simp
  show ?thesis
  proof (cases tok)
    case None
    with r seg tok bound show ?thesis by simp
  next
    case (Some t)
    have "?keys = butlast seg @ t # rest" "os = listed_objects ?look pre d (butlast seg @ [t])" "rest \<noteq> []"
      using seg seg' [OF Some] tok Some by (auto simp: append_assoc [symmetric] simp del: append_assoc)
    moreover have "int (length os) = max 1 mx" "oi_key (last os) = t"
      using list_loop_token [OF run [unfolded Some]] by simp_all
    ultimately show ?thesis using r bound Some by auto
  qed
qed

text \<open>Two keys and a page of one.\<close>

definition demo_two :: repo_fs where
  "demo_two = (meta_path demo_root ''b'' ''z'', File 3 (CMeta demo_meta)) # demo_full"

theorem page_bound_witness:
  "\<exists>r. list_objects_v2 demo_root ''b'' [] [] [] 1 demo_two = (Inr r, demo_two) \<and> lr_is_truncated r \<and>
     length (lr_contents r) = 1 \<and> lr_next_token r = oi_key (last (lr_contents r)) \<and> lr_next_token r = ''a/k''"
proof -
  have run: "list_objects_v2 demo_root ''b'' [] [] [] 1 demo_two =
    (Inr \<lparr>lr_name = ''b'', lr_prefix = [], lr_key_count = 1, lr_max_keys = 1, lr_is_truncated = True,
       lr_next_token = ''a/k'', lr_contents = [object_info_of ''a/k'' demo_meta], lr_common_prefixes = []\<rparr>, demo_two)"
    by code_simp
  from page_bound [OF run] show ?thesis by (auto simp: run)
qed

end
