(* ===== verification/Cluster.thy ===== *)
theory Cluster
  imports Domain
begin

text \<open>
  The cluster managers of \<open>internal/cluster\<close>: who leads, which followers take part in a commit,
  and how heartbeats, discovery, failed transactions and finished syncs change that.

  Go maps are association lists with distinct keys (a Go map has no order, and no theorem here
  depends on the list's).  A method under the manager's mutex is a function on the manager; the
  goroutines of a health check are one operation per answer, applied in any order.  What an
  operation sends to the network (the order to resync) is returned beside the state.
\<close>

section \<open>Shared by the managers\<close>

record node_state =
  ns_node :: node
  ns_failures :: int

text \<open>The fields of a follower's answer to \<open>/health\<close> the leader uses.\<close>

record health_resp =
  hr_state :: string
  hr_uptime :: int
  hr_objects :: int
  hr_storage :: int

definition ns_addr :: "node_state \<Rightarrow> string" where
  "ns_addr ns = nd_internal_address (ns_node ns)"

definition ns_status :: "node_state \<Rightarrow> string" where
  "ns_status ns = nd_status (ns_node ns)"

definition set_status :: "string \<Rightarrow> node_state \<Rightarrow> node_state" where
  "set_status st ns = ns\<lparr>ns_node := (ns_node ns)\<lparr>nd_status := st\<rparr>\<rparr>"

definition set_addr :: "string \<Rightarrow> node_state \<Rightarrow> node_state" where
  "set_addr a ns = ns\<lparr>ns_node := (ns_node ns)\<lparr>nd_internal_address := a\<rparr>\<rparr>"

definition fresh_node :: "string \<Rightarrow> string \<Rightarrow> string \<Rightarrow> string \<Rightarrow> int \<Rightarrow> node_state" where
  "fresh_node nid addr role status seen =
     \<lparr>ns_node = \<lparr>nd_id = nid, nd_internal_address = addr, nd_role = role, nd_status = status,
        nd_last_seen = seen, nd_objects_count = 0, nd_storage_used = 0, nd_uptime_seconds = 0\<rparr>,
      ns_failures = 0\<rparr>"

type_synonym states = "(string \<times> node_state) list"

text \<open>The update of one entry in place.\<close>

definition update_state :: "string \<Rightarrow> (node_state \<Rightarrow> node_state) \<Rightarrow> states \<Rightarrow> states" where
  "update_state nid f sts = map (\<lambda>(i, ns). if i = nid then (i, f ns) else (i, ns)) sts"

text \<open>\<open>MarkDead\<close>: the first node with the address goes \<open>OFFLINE\<close>.\<close>

fun mark_dead_states :: "int \<Rightarrow> string \<Rightarrow> states \<Rightarrow> states" where
  "mark_dead_states max_failures addr [] = []"
| "mark_dead_states max_failures addr ((i, ns) # sts) =
     (if ns_addr ns = addr then (i, (set_status StatusOffline ns)\<lparr>ns_failures := max_failures\<rparr>) # sts
      else (i, ns) # mark_dead_states max_failures addr sts)"

text \<open>The answer of one health check applied to the node's state, and whether the leader orders
  the node to resync.\<close>

definition health_update :: "int \<Rightarrow> (gerror + health_resp) \<Rightarrow> node_state \<Rightarrow> node_state \<times> bool" where
  "health_update max_failures answer ns =
     (case answer of
        Inl _ \<Rightarrow>
          (let ns1 = ns\<lparr>ns_failures := ns_failures ns + 1\<rparr> in
           (if max_failures \<le> ns_failures ns1 \<and> ns_status ns1 \<noteq> StatusOffline
            then set_status StatusOffline ns1 else ns1, False))
      | Inr h \<Rightarrow>
          (let ns1 = ns\<lparr>ns_failures := 0, ns_node := (ns_node ns)\<lparr>nd_uptime_seconds := hr_uptime h,
                   nd_objects_count := hr_objects h, nd_storage_used := hr_storage h\<rparr>\<rparr> in
           if ns_status ns1 = StatusOffline then (ns1, True)
           else (if hr_state h = StatusReady \<and> ns_status ns1 \<noteq> StatusReady
                 then set_status StatusReady ns1 else ns1, False)))"

section \<open>The standalone manager\<close>

record standalone_manager =
  sa_node_id :: string

definition new_standalone_manager :: "string \<Rightarrow> standalone_manager" where
  "new_standalone_manager node_id =
     \<lparr>sa_node_id = (if node_id = [] then ''standalone-node'' else node_id)\<rparr>"

definition sa_is_leader :: "standalone_manager \<Rightarrow> bool" where
  "sa_is_leader m = True"

definition sa_alive_followers :: "standalone_manager \<Rightarrow> string list" where
  "sa_alive_followers m = []"

definition sa_mark_dead :: "string \<Rightarrow> standalone_manager \<Rightarrow> standalone_manager" where
  "sa_mark_dead addr m = m"

section \<open>The static manager\<close>

record static_manager =
  sm_local_id :: string
  sm_static_nodes :: "(string \<times> string) list"   \<comment> \<open>id and internal address\<close>
  sm_force_leader :: string
  sm_max_failures :: int
  sm_states :: states
  sm_local_status :: string

definition new_static_manager ::
    "string \<Rightarrow> (string \<times> string) list \<Rightarrow> string \<Rightarrow> int \<Rightarrow> int \<Rightarrow> static_manager" where
  "new_static_manager local_id nodes force_leader max_failures now =
     \<lparr>sm_local_id = local_id, sm_static_nodes = nodes, sm_force_leader = force_leader,
      sm_max_failures = max_failures,
      sm_states = foldl (\<lambda>sts (nid, addr). AList.update nid
         (fresh_node nid addr (if nid = force_leader then RoleLeader else RoleFollower)
            (if nid = local_id then StatusReady else StatusOffline) now) sts) [] nodes,
      sm_local_status = StatusReady\<rparr>"

definition sm_is_leader :: "static_manager \<Rightarrow> bool" where
  "sm_is_leader m = (if sm_force_leader m = [] then True else sm_local_id m = sm_force_leader m)"

definition sm_leader_internal_address :: "static_manager \<Rightarrow> string" where
  "sm_leader_internal_address m =
     (if sm_force_leader m = [] then []
      else case find (\<lambda>(nid, addr). nid = sm_force_leader m) (sm_static_nodes m) of
        None \<Rightarrow> [] | Some (nid, addr) \<Rightarrow> addr)"

definition sm_alive_followers :: "static_manager \<Rightarrow> string list" where
  "sm_alive_followers m =
     map (ns_addr \<circ> snd) (filter (\<lambda>(nid, ns). nid \<noteq> sm_local_id m \<and> ns_status ns = StatusReady) (sm_states m))"

definition sm_known_followers :: "static_manager \<Rightarrow> string list" where
  "sm_known_followers m =
     map (ns_addr \<circ> snd) (filter (\<lambda>(nid, ns). nid \<noteq> sm_local_id m) (sm_states m))"

definition sm_mark_dead :: "string \<Rightarrow> static_manager \<Rightarrow> static_manager" where
  "sm_mark_dead addr m = m\<lparr>sm_states := mark_dead_states (sm_max_failures m) addr (sm_states m)\<rparr>"

definition sm_mark_alive :: "string \<Rightarrow> string \<Rightarrow> static_manager \<Rightarrow> static_manager" where
  "sm_mark_alive nid addr m =
     m\<lparr>sm_states := update_state nid (\<lambda>ns. set_status StatusReady (ns\<lparr>ns_failures := 0\<rparr>)) (sm_states m)\<rparr>"

definition sm_register_follower :: "string \<Rightarrow> string \<Rightarrow> static_manager \<Rightarrow> static_manager" where
  "sm_register_follower nid addr m =
     (if nid = [] \<or> nid = sm_local_id m then m
      else case map_of (sm_states m) nid of
        Some ns \<Rightarrow>
          (if addr \<noteq> [] \<and> ns_addr ns \<noteq> addr
           then m\<lparr>sm_states := update_state nid (set_addr addr) (sm_states m)\<rparr> else m)
      | None \<Rightarrow> m\<lparr>sm_states := sm_states m @ [(nid, fresh_node nid addr RoleFollower StatusSyncing 0)]\<rparr>)"

definition sm_set_local_status :: "string \<Rightarrow> static_manager \<Rightarrow> static_manager" where
  "sm_set_local_status st m = m\<lparr>sm_local_status := st\<rparr>"

text \<open>One goroutine of \<open>checkFollowers\<close>: the answer of node \<open>nid\<close>, at time \<open>now\<close>.\<close>

definition sm_health_answer ::
    "string \<Rightarrow> (gerror + health_resp) \<Rightarrow> int \<Rightarrow> static_manager \<Rightarrow> static_manager \<times> string list" where
  "sm_health_answer nid answer now m =
     (if nid = sm_local_id m then (m, [])
      else case map_of (sm_states m) nid of
        None \<Rightarrow> (m, [])
      | Some ns \<Rightarrow>
          (case health_update (sm_max_failures m) answer ns of
             (ns1, resync) \<Rightarrow>
               (let ns2 = (case answer of Inl _ \<Rightarrow> ns1
                           | Inr _ \<Rightarrow> ns1\<lparr>ns_node := (ns_node ns1)\<lparr>nd_last_seen := now\<rparr>\<rparr>) in
                (m\<lparr>sm_states := update_state nid (\<lambda>_. ns2) (sm_states m)\<rparr>,
                 if resync then [ns_addr ns] else []))))"

section \<open>The Kubernetes manager\<close>

record k8s_manager =
  km_local_id :: string
  km_namespace :: string
  km_service_name :: string
  km_internal_port :: int
  km_max_failures :: int
  km_is_leader_flag :: bool
  km_leader_address :: string
  km_followers :: "string list"
  km_local_status :: string
  km_states :: states
  km_last_renewal :: int
  km_lease_duration :: int
  km_last_role :: string

definition second :: int where "second = 1000000000"

definition guard_window :: int where "guard_window = 2 * second"

definition km_is_leader :: "int \<Rightarrow> k8s_manager \<Rightarrow> bool" where
  "km_is_leader now m =
     (if \<not> km_is_leader_flag m then False
      else if guard_window < km_lease_duration m \<and>
              km_lease_duration m - guard_window < now - km_last_renewal m then False
      else True)"

definition km_alive_followers :: "k8s_manager \<Rightarrow> string list" where
  "km_alive_followers m = km_followers m"

definition km_known_followers :: "k8s_manager \<Rightarrow> string list" where
  "km_known_followers m = map (ns_addr \<circ> snd) (km_states m)"

definition rebuild_alive_followers :: "k8s_manager \<Rightarrow> k8s_manager" where
  "rebuild_alive_followers m =
     m\<lparr>km_followers := map (ns_addr \<circ> snd) (filter (\<lambda>(nid, ns). ns_status ns = StatusReady) (km_states m))\<rparr>"

definition km_mark_dead :: "string \<Rightarrow> k8s_manager \<Rightarrow> k8s_manager" where
  "km_mark_dead addr m =
     (if list_ex (\<lambda>(nid, ns). ns_addr ns = addr) (km_states m)
      then rebuild_alive_followers
             (m\<lparr>km_states := mark_dead_states (km_max_failures m) addr (km_states m)\<rparr>)
      else m)"

definition km_mark_alive :: "string \<Rightarrow> string \<Rightarrow> k8s_manager \<Rightarrow> k8s_manager" where
  "km_mark_alive nid addr m =
     (case map_of (km_states m) nid of
        None \<Rightarrow> m
      | Some ns \<Rightarrow>
          (let ns1 = ns\<lparr>ns_failures := 0\<rparr>;
               ns2 = (if addr \<noteq> [] \<and> ns_addr ns1 \<noteq> addr then set_addr addr ns1 else ns1);
               ns3 = (if ns_status ns2 \<noteq> StatusReady then set_status StatusReady ns2 else ns2)
           in rebuild_alive_followers (m\<lparr>km_states := update_state nid (\<lambda>_. ns3) (km_states m)\<rparr>)))"

definition km_register_follower :: "string \<Rightarrow> string \<Rightarrow> k8s_manager \<Rightarrow> k8s_manager" where
  "km_register_follower nid addr m =
     (if nid = [] \<or> nid = km_local_id m then m
      else case map_of (km_states m) nid of
        Some ns \<Rightarrow>
          (if addr \<noteq> [] \<and> ns_addr ns \<noteq> addr
           then m\<lparr>km_states := update_state nid (set_addr addr) (km_states m)\<rparr> else m)
      | None \<Rightarrow> m\<lparr>km_states := km_states m @ [(nid, fresh_node nid addr RoleFollower StatusSyncing 0)]\<rparr>)"

definition km_set_local_status :: "string \<Rightarrow> k8s_manager \<Rightarrow> k8s_manager" where
  "km_set_local_status st m = m\<lparr>km_local_status := st\<rparr>"

text \<open>An address of the endpoints answer: IP and pod name.\<close>

definition discovered_nodes :: "k8s_manager \<Rightarrow> (string \<times> string) list \<Rightarrow> (string \<times> string) list" where
  "discovered_nodes m addrs =
     foldl (\<lambda>d (ip, nm). if nm \<noteq> [] \<and> nm \<noteq> km_local_id m
        then AList.update nm (''http://'' @ ip @ '':'' @ itoa (km_internal_port m)) d else d) [] addrs"

text \<open>The locked part of \<open>discoverAndCheckFollowers\<close>, once the endpoints are decoded.\<close>

definition km_discover :: "int \<Rightarrow> (string \<times> string) list \<Rightarrow> k8s_manager \<Rightarrow> k8s_manager" where
  "km_discover now addrs m =
     (if \<not> km_is_leader now m then m
      else (let d = discovered_nodes m addrs;
                kept = filter (\<lambda>(nid, ns). nid \<in> fst ` set d) (km_states m);
                added = map (\<lambda>(nid, addr). (nid, fresh_node nid addr RoleFollower StatusOffline 0))
                          (filter (\<lambda>(nid, addr). nid \<notin> fst ` set kept) d)
            in m\<lparr>km_states := kept @ added\<rparr>))"

text \<open>One goroutine of \<open>checkFollowersHealth\<close>: the answer for the task's node id and address.\<close>

definition km_health_answer ::
    "string \<Rightarrow> string \<Rightarrow> (gerror + health_resp) \<Rightarrow> k8s_manager \<Rightarrow> k8s_manager \<times> string list" where
  "km_health_answer nid addr answer m =
     (case map_of (km_states m) nid of
        None \<Rightarrow> (m, [])
      | Some ns \<Rightarrow>
          (case health_update (km_max_failures m) answer ns of
             (ns1, resync) \<Rightarrow>
               (m\<lparr>km_states := update_state nid (\<lambda>_. ns1) (km_states m)\<rparr>,
                if resync then [addr] else [])))"

section \<open>The contract of a failed transaction\<close>

text \<open>
  What the application service relies on when it reports a follower that failed in a commit: that
  follower is no longer in the list of followers of the next commit, and no other one is lost.
\<close>

locale membership =
  fixes inv :: "'s \<Rightarrow> bool"
    and alive :: "'s \<Rightarrow> string list"
    and mark_dead :: "string \<Rightarrow> 's \<Rightarrow> 's"
  assumes dead_inv: "inv s \<Longrightarrow> inv (mark_dead a s)"
    and dead_alive: "inv s \<Longrightarrow> set (alive (mark_dead a s)) = set (alive s) - {a}"
begin

lemma all_dead_inv: "inv s \<Longrightarrow> inv (fold mark_dead as s)"
  by (induction as arbitrary: s) (auto simp: dead_inv)

lemma all_dead_alive: "inv s \<Longrightarrow> set (alive (fold mark_dead as s)) = set (alive s) - set as"
  by (induction as arbitrary: s) (auto simp: dead_inv dead_alive)

lemma dead_idem: "inv s \<Longrightarrow> set (alive (mark_dead a (mark_dead a s))) = set (alive (mark_dead a s))"
  by (auto simp: dead_inv dead_alive)

end

section \<open>Facts about the node states\<close>

lemma ns_simps [simp]:
  "ns_status (set_status st ns) = st" "ns_addr (set_status st ns) = ns_addr ns"
  "ns_addr (set_addr a ns) = a" "ns_status (set_addr a ns) = ns_status ns"
  "ns_status (ns\<lparr>ns_failures := n\<rparr>) = ns_status ns" "ns_addr (ns\<lparr>ns_failures := n\<rparr>) = ns_addr ns"
  "ns_failures (set_status st ns) = ns_failures ns"
  "ns_status (fresh_node nid a r st now) = st" "ns_addr (fresh_node nid a r st now) = a"
  "ns_status (ns\<lparr>ns_node := (ns_node ns)\<lparr>nd_last_seen := now\<rparr>\<rparr>) = ns_status ns"
  "ns_addr (ns\<lparr>ns_node := (ns_node ns)\<lparr>nd_last_seen := now\<rparr>\<rparr>) = ns_addr ns"
  by (simp_all add: ns_status_def ns_addr_def set_status_def set_addr_def fresh_node_def)

definition addrs :: "states \<Rightarrow> string list" where
  "addrs sts = map (ns_addr \<circ> snd) sts"

definition wf_states :: "states \<Rightarrow> bool" where
  "wf_states sts \<longleftrightarrow> distinct (map fst sts) \<and> distinct (addrs sts)"

text \<open>With distinct addresses the first node that matches is the only one.\<close>

lemma mark_dead_map:
  "distinct (addrs sts) \<Longrightarrow> mark_dead_states mx a sts =
     map (\<lambda>(i, ns). if ns_addr ns = a then (i, (set_status StatusOffline ns)\<lparr>ns_failures := mx\<rparr>) else (i, ns)) sts"
proof (induction sts)
  case (Cons e sts)
  obtain i ns where e: "e = (i, ns)" by (cases e)
  have "ns_addr ns' \<noteq> ns_addr ns" if "(j, ns') \<in> set sts" for j ns'
    using that Cons.prems e by (force simp: addrs_def)
  then have "map (\<lambda>(j, n). if ns_addr n = ns_addr ns then (j, (set_status StatusOffline n)\<lparr>ns_failures := mx\<rparr>)
      else (j, n)) sts = sts"
    by (intro map_idI) auto
  with Cons e show ?case by (auto simp: addrs_def)
qed simp

lemma mark_dead_keys [simp]: "map fst (mark_dead_states mx a sts) = map fst sts"
  by (induction mx a sts rule: mark_dead_states.induct) auto

lemma mark_dead_addrs [simp]: "addrs (mark_dead_states mx a sts) = addrs sts"
  by (induction mx a sts rule: mark_dead_states.induct) (auto simp: addrs_def)

lemma wf_mark_dead: "wf_states sts \<Longrightarrow> wf_states (mark_dead_states mx a sts)"
  by (simp add: wf_states_def)

lemma mark_dead_mem:
  assumes "distinct (addrs sts)" "ns_status ns = StatusReady"
  shows "(i, ns) \<in> set (mark_dead_states mx a sts) \<longleftrightarrow> (i, ns) \<in> set sts \<and> ns_addr ns \<noteq> a"
proof
  let ?f = "\<lambda>(i, ns). if ns_addr ns = a then (i, (set_status StatusOffline ns)\<lparr>ns_failures := mx\<rparr>) else (i, ns)"
  assume "(i, ns) \<in> set (mark_dead_states mx a sts)"
  then obtain j n where jn: "(j, n) \<in> set sts" "(i, ns) = ?f (j, n)"
    unfolding mark_dead_map [OF assms(1)] by auto
  show "(i, ns) \<in> set sts \<and> ns_addr ns \<noteq> a"
  proof (cases "ns_addr n = a")
    case True
    with jn(2) have "ns_status ns = StatusOffline" by simp
    with assms(2) show ?thesis by simp
  next
    case False
    with jn show ?thesis by simp
  qed
next
  assume "(i, ns) \<in> set sts \<and> ns_addr ns \<noteq> a"
  then show "(i, ns) \<in> set (mark_dead_states mx a sts)"
    unfolding mark_dead_map [OF assms(1)] by (auto intro!: image_eqI [of _ _ "(i, ns)"])
qed

lemma mark_dead_ready:
  assumes "wf_states sts"
  shows "{ns_addr ns |i ns. (i, ns) \<in> set (mark_dead_states mx a sts) \<and> P i \<and> ns_status ns = StatusReady} =
    {ns_addr ns |i ns. (i, ns) \<in> set sts \<and> P i \<and> ns_status ns = StatusReady} - {a}"
proof -
  have "(i, ns) \<in> set (mark_dead_states mx a sts) \<and> P i \<and> ns_status ns = StatusReady \<longleftrightarrow>
      ((i, ns) \<in> set sts \<and> P i \<and> ns_status ns = StatusReady) \<and> ns_addr ns \<noteq> a" for i ns
    using mark_dead_mem [of sts ns i mx a] assms unfolding wf_states_def by blast
  then show ?thesis by blast
qed

lemma ready_addrs_set:
  "set (map (ns_addr \<circ> snd) (filter (\<lambda>(i, ns). P i \<and> ns_status ns = StatusReady) sts)) =
   {ns_addr ns |i ns. (i, ns) \<in> set sts \<and> P i \<and> ns_status ns = StatusReady}"
  by force

section \<open>The three managers keep it\<close>

definition sm_inv :: "static_manager \<Rightarrow> bool" where
  "sm_inv m \<longleftrightarrow> wf_states (sm_states m)"

text \<open>The Kubernetes manager answers from a list it rebuilds; the contract holds while that list is
  the one a rebuild would give.\<close>

definition km_inv :: "k8s_manager \<Rightarrow> bool" where
  "km_inv m \<longleftrightarrow> wf_states (km_states m) \<and> km_followers (rebuild_alive_followers m) = km_followers m"

lemma sm_alive_set:
  "set (sm_alive_followers m) =
     {ns_addr ns |i ns. (i, ns) \<in> set (sm_states m) \<and> i \<noteq> sm_local_id m \<and> ns_status ns = StatusReady}"
  unfolding sm_alive_followers_def by (rule ready_addrs_set)

lemma rebuild_alive_set:
  "set (km_followers (rebuild_alive_followers m)) =
     {ns_addr ns |i ns. (i, ns) \<in> set (km_states m) \<and> True \<and> ns_status ns = StatusReady}"
  unfolding rebuild_alive_followers_def using ready_addrs_set [of "\<lambda>_. True" "km_states m"] by simp

interpretation sa: membership "\<lambda>_. True" sa_alive_followers sa_mark_dead
  by unfold_locales (simp_all add: sa_alive_followers_def)

interpretation sm: membership sm_inv sm_alive_followers sm_mark_dead
proof
  fix m a assume inv: "sm_inv m"
  then show "sm_inv (sm_mark_dead a m)" by (simp add: sm_inv_def sm_mark_dead_def wf_mark_dead)
  show "set (sm_alive_followers (sm_mark_dead a m)) = set (sm_alive_followers m) - {a}"
    using inv unfolding sm_alive_set sm_inv_def
    by (simp add: sm_mark_dead_def mark_dead_ready)
qed

lemma rebuild_simps [simp]:
  "km_states (rebuild_alive_followers m) = km_states m"
  "km_followers (rebuild_alive_followers (rebuild_alive_followers m)) = km_followers (rebuild_alive_followers m)"
  by (simp_all add: rebuild_alive_followers_def)

interpretation km: membership km_inv km_alive_followers km_mark_dead
proof
  fix m a assume inv: "km_inv m"
  then show "km_inv (km_mark_dead a m)"
    by (simp add: km_inv_def km_mark_dead_def wf_mark_dead)
  show "set (km_alive_followers (km_mark_dead a m)) = set (km_alive_followers m) - {a}"
  proof (cases "list_ex (\<lambda>(nid, ns). ns_addr ns = a) (km_states m)")
    case True
    then have "set (km_alive_followers (km_mark_dead a m)) =
        {ns_addr ns |i ns. (i, ns) \<in> set (mark_dead_states (km_max_failures m) a (km_states m)) \<and> True \<and>
           ns_status ns = StatusReady}"
      unfolding km_alive_followers_def km_mark_dead_def by (simp only: if_True rebuild_alive_set) simp
    also have "\<dots> = set (km_followers (rebuild_alive_followers m)) - {a}"
      using inv unfolding rebuild_alive_set km_inv_def by (simp only: mark_dead_ready)
    finally show ?thesis using inv by (simp add: km_inv_def km_alive_followers_def)
  next
    case False
    then have "a \<notin> set (km_followers (rebuild_alive_followers m))"
      unfolding rebuild_alive_set by (auto simp: list_ex_iff)
    with False inv show ?thesis by (simp add: km_mark_dead_def km_alive_followers_def km_inv_def)
  qed
qed

section \<open>The contract of a follower that comes back\<close>

text \<open>
  What the leader relies on when it brings a follower up to date: registering it before and marking
  it alive after puts its address into the list of followers of the next commit, also when it had
  been marked dead.
\<close>

locale readmission = membership inv alive mark_dead
  for inv :: "'s \<Rightarrow> bool" and alive :: "'s \<Rightarrow> string list" and mark_dead :: "string \<Rightarrow> 's \<Rightarrow> 's" +
  fixes admits_node :: "string \<Rightarrow> 's \<Rightarrow> bool"
    and register :: "string \<Rightarrow> string \<Rightarrow> 's \<Rightarrow> 's"
    and revive :: "string \<Rightarrow> string \<Rightarrow> 's \<Rightarrow> 's"
  assumes revive_alive: "admits_node n s \<Longrightarrow> a \<noteq> [] \<Longrightarrow> a \<in> set (alive (revive n a (register n a s)))"
    and admits_dead: "admits_node n (mark_dead a s) \<longleftrightarrow> admits_node n s"
begin

lemma admits_all_dead: "admits_node n (fold mark_dead as s) \<longleftrightarrow> admits_node n s"
  by (induction as arbitrary: s) (simp_all add: admits_dead)

lemma dead_then_revived:
  "admits_node n s \<Longrightarrow> a \<noteq> [] \<Longrightarrow> a \<in> set (alive (revive n a (register n a (fold mark_dead as s))))"
  by (simp add: revive_alive admits_all_dead)

end

lemma map_of_update_state:
  "map_of (update_state nid f sts) j = (if j = nid then map_option f (map_of sts j) else map_of sts j)"
  unfolding update_state_def by (induction sts) auto

lemma ready_entry:
  "map_of sts n = Some ns \<Longrightarrow> P n \<Longrightarrow> ns_status ns = StatusReady \<Longrightarrow>
     ns_addr ns \<in> {ns_addr ns |i ns. (i, ns) \<in> set sts \<and> P i \<and> ns_status ns = StatusReady}"
  by (auto dest: map_of_SomeD)

definition sm_admits :: "string \<Rightarrow> static_manager \<Rightarrow> bool" where
  "sm_admits n m \<longleftrightarrow> n \<noteq> [] \<and> n \<noteq> sm_local_id m"

definition km_admits :: "string \<Rightarrow> k8s_manager \<Rightarrow> bool" where
  "km_admits n m \<longleftrightarrow> n \<noteq> [] \<and> n \<noteq> km_local_id m"

lemma sm_registered:
  "sm_admits n m \<Longrightarrow> a \<noteq> [] \<Longrightarrow> \<exists>ns. map_of (sm_states (sm_register_follower n a m)) n = Some ns \<and> ns_addr ns = a"
  "sm_local_id (sm_register_follower n a m) = sm_local_id m"
  by (auto simp: sm_register_follower_def sm_admits_def map_of_update_state map_add_def split: option.split)

lemma km_registered:
  "km_admits n m \<Longrightarrow> a \<noteq> [] \<Longrightarrow> \<exists>ns. map_of (km_states (km_register_follower n a m)) n = Some ns \<and> ns_addr ns = a"
  by (auto simp: km_register_follower_def km_admits_def map_of_update_state map_add_def split: option.split)

interpretation sr: readmission sm_inv sm_alive_followers sm_mark_dead sm_admits sm_register_follower sm_mark_alive
proof
  fix n m and a :: string assume n: "sm_admits n m" "a \<noteq> []"
  obtain ns where ns: "map_of (sm_states (sm_register_follower n a m)) n = Some ns" "ns_addr ns = a"
    using sm_registered(1) [OF n] by blast
  have "map_of (sm_states (sm_mark_alive n a (sm_register_follower n a m))) n = Some (set_status StatusReady (ns\<lparr>ns_failures := 0\<rparr>))"
    by (simp add: sm_mark_alive_def map_of_update_state ns)
  from ready_entry [OF this, of "\<lambda>i. i \<noteq> sm_local_id m"] n ns
  show "a \<in> set (sm_alive_followers (sm_mark_alive n a (sm_register_follower n a m)))"
    by (auto simp: sm_alive_set sm_admits_def sm_mark_alive_def sm_registered(2))
qed (simp add: sm_admits_def sm_mark_dead_def)

interpretation kr: readmission km_inv km_alive_followers km_mark_dead km_admits km_register_follower km_mark_alive
proof
  fix n m and a :: string assume n: "km_admits n m" "a \<noteq> []"
  obtain ns where ns: "map_of (km_states (km_register_follower n a m)) n = Some ns" "ns_addr ns = a"
    using km_registered [OF n] by blast
  let ?f = "\<lambda>ns. if ns_status ns \<noteq> StatusReady then set_status StatusReady ns else ns"
  let ?ns = "?f (ns\<lparr>ns_failures := 0\<rparr>)" and ?m = "km_register_follower n a m"
  have r: "km_mark_alive n a ?m = rebuild_alive_followers (?m\<lparr>km_states := update_state n (\<lambda>_. ?ns) (km_states ?m)\<rparr>)"
    by (simp add: km_mark_alive_def ns)
  have "map_of (update_state n (\<lambda>_. ?ns) (km_states ?m)) n = Some ?ns" by (simp add: map_of_update_state ns)
  from ready_entry [OF this, of "\<lambda>_. True"] ns
  show "a \<in> set (km_alive_followers (km_mark_alive n a ?m))"
    by (auto simp: r km_alive_followers_def rebuild_alive_set)
qed (simp add: km_admits_def km_mark_dead_def rebuild_alive_followers_def)

section \<open>Histories\<close>

text \<open>Everything that reaches a manager: failed transactions, finished syncs, syncs that start, health
  answers, and for Kubernetes the endpoints of a discovery and the rebuild that ends a health check.\<close>

datatype member_event =
    EvDead string
  | EvAlive string string
  | EvRegister string string
  | EvHealth string string "gerror + health_resp" int
  | EvLocal string
  | EvDiscover int "(string \<times> string) list"
  | EvRebuild

fun sm_event :: "member_event \<Rightarrow> static_manager \<Rightarrow> static_manager" where
  "sm_event (EvDead a) m = sm_mark_dead a m"
| "sm_event (EvAlive nid a) m = sm_mark_alive nid a m"
| "sm_event (EvRegister nid a) m = sm_register_follower nid a m"
| "sm_event (EvHealth nid a answer now) m = fst (sm_health_answer nid answer now m)"
| "sm_event (EvLocal st) m = sm_set_local_status st m"
| "sm_event (EvDiscover now as) m = m"
| "sm_event EvRebuild m = m"

fun km_event :: "member_event \<Rightarrow> k8s_manager \<Rightarrow> k8s_manager" where
  "km_event (EvDead a) m = km_mark_dead a m"
| "km_event (EvAlive nid a) m = km_mark_alive nid a m"
| "km_event (EvRegister nid a) m = km_register_follower nid a m"
| "km_event (EvHealth nid a answer now) m = fst (km_health_answer nid a answer m)"
| "km_event (EvLocal st) m = km_set_local_status st m"
| "km_event (EvDiscover now as) m = km_discover now as m"
| "km_event EvRebuild m = rebuild_alive_followers m"

definition status_in :: "states \<Rightarrow> string \<Rightarrow> string option" where
  "status_in sts nid = map_option ns_status (map_of sts nid)"

lemma map_of_mark_dead:
  "map_of (mark_dead_states mx a sts) j = map_of sts j \<or>
   status_in (mark_dead_states mx a sts) j = Some StatusOffline"
  by (induction mx a sts rule: mark_dead_states.induct) (auto simp: status_in_def)

lemma health_update_offline:
  "ns_status ns = StatusOffline \<Longrightarrow> ns_status (fst (health_update mx answer ns)) = StatusOffline"
  by (auto simp: health_update_def Let_def ns_status_def set_status_def split: sum.split)

text \<open>A node that is known to be out, or not known at all.\<close>

definition out_of_service :: "states \<Rightarrow> string \<Rightarrow> bool" where
  "out_of_service sts nid \<longleftrightarrow> status_in sts nid = None \<or> status_in sts nid = Some StatusOffline"

lemma out_update_state:
  "out_of_service sts nid \<Longrightarrow> (j = nid \<Longrightarrow> \<forall>ns. ns_status ns = StatusOffline \<longrightarrow> ns_status (f ns) = StatusOffline) \<Longrightarrow>
   out_of_service (update_state j f sts) nid"
  by (auto simp: out_of_service_def status_in_def map_of_update_state)

lemma out_update_const:
  "out_of_service sts nid \<Longrightarrow> (\<And>ns. j = nid \<Longrightarrow> map_of sts nid = Some ns \<Longrightarrow> ns_status n = StatusOffline) \<Longrightarrow>
   out_of_service (update_state j (\<lambda>_. n) sts) nid"
  by (auto simp: out_of_service_def status_in_def map_of_update_state)

lemma out_mark_dead: "out_of_service sts nid \<Longrightarrow> out_of_service (mark_dead_states mx a sts) nid"
  using map_of_mark_dead [of mx a sts nid] by (auto simp: out_of_service_def status_in_def)

lemma out_append:
  "out_of_service sts nid \<Longrightarrow> j \<noteq> nid \<or> ns_status ns = StatusOffline \<Longrightarrow> out_of_service (sts @ [(j, ns)]) nid"
  by (auto simp: out_of_service_def status_in_def map_add_def split: option.split)

text \<open>The events that may bring a node back: it finished a sync, or (unknown so far) it asked for one.\<close>

fun readmits :: "string \<Rightarrow> member_event \<Rightarrow> bool" where
  "readmits nid (EvAlive j a) = (j = nid)"
| "readmits nid (EvRegister j a) = (j = nid)"
| "readmits nid _ = False"

lemma sm_event_out:
  assumes "out_of_service (sm_states m) nid" "\<not> readmits nid ev"
  shows "out_of_service (sm_states (sm_event ev m)) nid"
proof (cases ev)
  case (EvHealth j a answer now)
  show ?thesis
  proof (cases "j = sm_local_id m \<or> map_of (sm_states m) j = None")
    case False
    then obtain ns where ns: "map_of (sm_states m) j = Some ns" by auto
    obtain n r where hu: "health_update (sm_max_failures m) answer ns = (n, r)" by (cases "health_update (sm_max_failures m) answer ns")
    have "ns_status n = StatusOffline" if "j = nid"
      using that assms(1) ns health_update_offline [of ns "sm_max_failures m" answer] hu
      by (simp add: out_of_service_def status_in_def)
    then show ?thesis
      using assms(1) EvHealth False ns hu
      by (auto simp: sm_health_answer_def Let_def intro!: out_update_const split: sum.split)
  qed (use assms EvHealth in \<open>auto simp: sm_health_answer_def\<close>)
qed (use assms in \<open>auto simp: sm_mark_dead_def sm_mark_alive_def sm_register_follower_def sm_set_local_status_def
      intro!: out_mark_dead out_update_state out_append split: option.split\<close>)

lemma out_filter:
  "out_of_service sts nid \<Longrightarrow> out_of_service (filter (\<lambda>(i, ns). i \<in> A) sts) nid"
proof -
  have "map_of (filter (\<lambda>(i, ns). i \<in> A) sts) nid = (if nid \<in> A then map_of sts nid else None)"
    using map_of_filter_keys [of "\<lambda>i. i \<in> A" sts nid] by (simp add: case_prod_beta')
  then show "out_of_service sts nid \<Longrightarrow> ?thesis"
    by (auto simp: out_of_service_def status_in_def)
qed

lemma out_added:
  assumes "out_of_service sts nid" "\<forall>(i, ns) \<in> set more_nodes. ns_status ns = StatusOffline"
  shows "out_of_service (sts @ more_nodes) nid"
proof -
  have "ns_status ns = StatusOffline" if "map_of more_nodes nid = Some ns" for ns
    using assms(2) map_of_SomeD [OF that] by auto
  with assms(1) show ?thesis
    by (auto simp: out_of_service_def status_in_def map_add_def split: option.split)
qed

lemma km_event_out:
  assumes "out_of_service (km_states m) nid" "\<not> readmits nid ev"
  shows "out_of_service (km_states (km_event ev m)) nid"
proof (cases ev)
  case (EvHealth j a answer now)
  show ?thesis
  proof (cases "map_of (km_states m) j")
    case (Some ns)
    obtain n r where hu: "health_update (km_max_failures m) answer ns = (n, r)" by (cases "health_update (km_max_failures m) answer ns")
    have "ns_status n = StatusOffline" if "j = nid"
      using that assms(1) Some health_update_offline [of ns "km_max_failures m" answer] hu
      by (simp add: out_of_service_def status_in_def)
    then show ?thesis
      using assms(1) EvHealth Some hu by (auto simp: km_health_answer_def intro!: out_update_const)
  qed (use assms EvHealth in \<open>auto simp: km_health_answer_def\<close>)
next
  case (EvDiscover now as)
  then show ?thesis
    using assms(1) by (auto simp: km_discover_def Let_def intro!: out_added out_filter)
qed (use assms in \<open>auto simp: km_mark_dead_def km_mark_alive_def km_register_follower_def
      km_set_local_status_def Let_def
      intro!: out_mark_dead out_update_state out_update_const out_append split: option.split\<close>)

section \<open>Failed health checks\<close>

text \<open>Between two changes of the membership: answers to health checks, failed transactions, the node's
  own status and rebuilds of the list.\<close>

fun health_event :: "member_event \<Rightarrow> bool" where
  "health_event (EvHealth nid a answer now) = True"
| "health_event (EvDead a) = True"
| "health_event (EvLocal st) = True"
| "health_event EvRebuild = True"
| "health_event _ = False"

fun fails_check :: "string \<Rightarrow> member_event \<Rightarrow> bool" where
  "fails_check nid (EvHealth j a (Inl e) now) = (j = nid)"
| "fails_check nid _ = False"

fun passes_check :: "string \<Rightarrow> member_event \<Rightarrow> bool" where
  "passes_check nid (EvHealth j a (Inr h) now) = (j = nid)"
| "passes_check nid _ = False"

definition failed_checks :: "string \<Rightarrow> member_event list \<Rightarrow> nat" where
  "failed_checks nid evs = length (filter (fails_check nid) evs)"

text \<open>After \<open>c\<close> failures: the node is out, or has at least that many on its counter.\<close>

definition failed_by :: "int \<Rightarrow> int \<Rightarrow> string \<Rightarrow> string \<Rightarrow> states \<Rightarrow> bool" where
  "failed_by mx c nid a sts \<longleftrightarrow> wf_states sts \<and> (\<exists>ns. map_of sts nid = Some ns \<and> ns_addr ns = a \<and>
     (ns_status ns = StatusOffline \<or> c \<le> ns_failures ns \<and> c < max 1 mx))"

lemma health_update_addr: "ns_addr (fst (health_update mx answer ns)) = ns_addr ns"
  by (auto simp: health_update_def Let_def ns_addr_def set_status_def split: sum.split)

lemma wf_update_entry:
  assumes "wf_states sts" "map_of sts j = Some ns" "ns_addr n = ns_addr ns"
  shows "wf_states (update_state j (\<lambda>_. n) sts)"
proof -
  have d: "distinct (map fst sts)" using assms(1) by (simp add: wf_states_def)
  have "ns_addr n = ns_addr x" if "(j, x) \<in> set sts" for x
    using map_of_is_SomeI [OF d that] assms(2,3) by simp
  then have "addrs (update_state j (\<lambda>_. n) sts) = addrs sts"
    by (auto simp: addrs_def update_state_def)
  moreover have "map fst (update_state j (\<lambda>_. n) sts) = map fst sts"
    by (auto simp: update_state_def)
  ultimately show ?thesis using assms(1) by (simp add: wf_states_def)
qed

lemma failed_health:
  assumes "failed_by mx c nid a sts" "map_of sts j = Some ns" "ns_addr n = ns_addr ns"
    and "j = nid \<Longrightarrow> ns_status ns = StatusOffline \<Longrightarrow> ns_status n = StatusOffline"
    and "j = nid \<Longrightarrow> ns_status n = StatusOffline \<or> ns_failures n = ns_failures ns + 1 \<and> ns_failures n < mx"
  shows "failed_by mx (if j = nid then c + 1 else c) nid a (update_state j (\<lambda>_. n) sts)"
  using assms wf_update_entry [OF _ assms(2,3)]
  by (auto simp: failed_by_def map_of_update_state)

lemma failed_dead:
  assumes "failed_by mx c nid a sts"
  shows "failed_by mx c nid a (mark_dead_states mx' a' sts)"
proof -
  obtain ns where ns: "wf_states sts" "map_of sts nid = Some ns" "ns_addr ns = a"
    "ns_status ns = StatusOffline \<or> c \<le> ns_failures ns \<and> c < max 1 mx"
    using assms by (auto simp: failed_by_def)
  then have "(nid, ns) \<in> set sts" by (simp add: map_of_SomeD)
  then have "(nid, if ns_addr ns = a' then (set_status StatusOffline ns)\<lparr>ns_failures := mx'\<rparr> else ns) \<in>
      set (mark_dead_states mx' a' sts)"
    using mark_dead_map [of sts mx' a'] ns(1) by (force simp: wf_states_def)
  moreover have "wf_states (mark_dead_states mx' a' sts)" by (rule wf_mark_dead [OF ns(1)])
  ultimately show ?thesis
    using ns(3,4) by (auto simp: failed_by_def wf_states_def ns_addr_def ns_status_def set_status_def split: if_splits)
qed

lemma health_update_failed:
  "ns_status (fst (health_update mx (Inl e) ns)) = StatusOffline \<or>
   ns_failures (fst (health_update mx (Inl e) ns)) = ns_failures ns + 1 \<and> ns_failures (fst (health_update mx (Inl e) ns)) < mx"
  by (auto simp: health_update_def Let_def)

lemma sm_failed_step:
  assumes "failed_by (sm_max_failures m) c nid a (sm_states m)" "nid \<noteq> sm_local_id m" "health_event ev" "\<not> passes_check nid ev"
  shows "failed_by (sm_max_failures m) (if fails_check nid ev then c + 1 else c) nid a (sm_states (sm_event ev m)) \<and>
    sm_max_failures (sm_event ev m) = sm_max_failures m \<and> sm_local_id (sm_event ev m) = sm_local_id m"
proof (cases ev)
  case (EvHealth j b answer now)
  show ?thesis
  proof (cases "j = sm_local_id m \<or> map_of (sm_states m) j = None")
    case True
    then show ?thesis
      using assms EvHealth by (cases answer) (auto simp: sm_health_answer_def failed_by_def)
  next
    case False
    then obtain ns where ns: "map_of (sm_states m) j = Some ns" by auto
    obtain n r where hu: "health_update (sm_max_failures m) answer ns = (n, r)"
      by (cases "health_update (sm_max_failures m) answer ns")
    have addr: "ns_addr n = ns_addr ns" using health_update_addr [of "sm_max_failures m" answer ns] hu by simp
    have off: "ns_status ns = StatusOffline \<Longrightarrow> ns_status n = StatusOffline"
      using health_update_offline [of ns "sm_max_failures m" answer] hu by simp
    show ?thesis
    proof (cases answer)
      case (Inl e)
      from failed_health [OF assms(1) ns addr off] health_update_failed [of "sm_max_failures m" e ns]
      show ?thesis using EvHealth Inl False ns hu by (auto simp: sm_health_answer_def)
    next
      case (Inr h)
      then have ne: "j \<noteq> nid" using assms(4) EvHealth by auto
      have "failed_by (sm_max_failures m) (if j = nid then c + 1 else c) nid a
          (update_state j (\<lambda>_. n\<lparr>ns_node := (ns_node n)\<lparr>nd_last_seen := now\<rparr>\<rparr>) (sm_states m))"
        by (rule failed_health [OF assms(1) ns]) (use addr ne in simp_all)
      then show ?thesis using EvHealth Inr False ns hu ne by (simp add: sm_health_answer_def)
    qed
  qed
qed (use assms in \<open>auto simp: sm_mark_dead_def sm_set_local_status_def intro: failed_dead\<close>)

lemma km_failed_step:
  assumes "failed_by (km_max_failures m) c nid a (km_states m)" "health_event ev" "\<not> passes_check nid ev"
  shows "failed_by (km_max_failures m) (if fails_check nid ev then c + 1 else c) nid a (km_states (km_event ev m)) \<and>
    km_max_failures (km_event ev m) = km_max_failures m"
proof (cases ev)
  case (EvHealth j b answer now)
  show ?thesis
  proof (cases "map_of (km_states m) j")
    case None
    then show ?thesis
      using assms EvHealth by (cases answer) (auto simp: km_health_answer_def failed_by_def)
  next
    case (Some ns)
    obtain n r where hu: "health_update (km_max_failures m) answer ns = (n, r)"
      by (cases "health_update (km_max_failures m) answer ns")
    have addr: "ns_addr n = ns_addr ns" using health_update_addr [of "km_max_failures m" answer ns] hu by simp
    have off: "ns_status ns = StatusOffline \<Longrightarrow> ns_status n = StatusOffline"
      using health_update_offline [of ns "km_max_failures m" answer] hu by simp
    have "failed_by (km_max_failures m) (if j = nid then c + 1 else c) nid a (update_state j (\<lambda>_. n) (km_states m))"
      if e: "j = nid \<Longrightarrow> \<exists>e. answer = Inl e"
    proof (rule failed_health [OF assms(1) Some addr off])
      assume "j = nid"
      then obtain e where "answer = Inl e" using e by blast
      then show "ns_status n = StatusOffline \<or> ns_failures n = ns_failures ns + 1 \<and> ns_failures n < km_max_failures m"
        using health_update_failed [of "km_max_failures m" e ns] hu by simp
    qed
    then show ?thesis using assms(3) EvHealth Some hu by (cases answer) (auto simp: km_health_answer_def)
  qed
qed (use assms in \<open>auto simp: km_mark_dead_def km_set_local_status_def rebuild_alive_followers_def intro: failed_dead\<close>)

lemma failed_out:
  assumes "failed_by mx c nid a sts" "max 1 mx \<le> c"
  shows "a \<notin> {ns_addr ns |i ns. (i, ns) \<in> set sts \<and> P i \<and> ns_status ns = StatusReady}"
proof -
  obtain n where n: "wf_states sts" "map_of sts nid = Some n" "ns_addr n = a" "ns_status n = StatusOffline"
    using assms by (auto simp: failed_by_def)
  have "inj_on (ns_addr \<circ> snd) (set sts)" using n(1) by (simp add: wf_states_def addrs_def distinct_map)
  from inj_onD [OF this _ _ map_of_SomeD [OF n(2)]] n(3,4) show ?thesis by force
qed

lemma sm_failed_fold:
  "failed_by (sm_max_failures m) c nid a (sm_states m) \<Longrightarrow> nid \<noteq> sm_local_id m \<Longrightarrow>
   list_all (\<lambda>ev. health_event ev \<and> \<not> passes_check nid ev) evs \<Longrightarrow>
   failed_by (sm_max_failures m) (c + int (failed_checks nid evs)) nid a (sm_states (fold sm_event evs m))"
proof (induction evs arbitrary: c m)
  case (Cons ev evs)
  then have s: "failed_by (sm_max_failures m) (if fails_check nid ev then c + 1 else c) nid a (sm_states (sm_event ev m))"
    "sm_max_failures (sm_event ev m) = sm_max_failures m" "sm_local_id (sm_event ev m) = sm_local_id m"
    using sm_failed_step [OF Cons.prems(1,2)] by simp_all
  with Cons.IH [of "sm_event ev m"] Cons.prems(2,3) show ?case
    by (cases "fails_check nid ev") (fastforce simp: failed_checks_def algebra_simps)+
qed (simp add: failed_checks_def)

lemma km_failed_fold:
  "failed_by (km_max_failures m) c nid a (km_states m) \<Longrightarrow>
   list_all (\<lambda>ev. health_event ev \<and> \<not> passes_check nid ev) evs \<Longrightarrow>
   failed_by (km_max_failures m) (c + int (failed_checks nid evs)) nid a (km_states (fold km_event evs m))"
proof (induction evs arbitrary: c m)
  case (Cons ev evs)
  then have s: "failed_by (km_max_failures m) (if fails_check nid ev then c + 1 else c) nid a (km_states (km_event ev m))"
    "km_max_failures (km_event ev m) = km_max_failures m"
    using km_failed_step [OF Cons.prems(1)] by simp_all
  with Cons.IH [of "km_event ev m"] Cons.prems(2) show ?case
    by (cases "fails_check nid ev") (fastforce simp: failed_checks_def algebra_simps)+
qed (simp add: failed_checks_def)

section \<open>Properties\<close>

definition demo_node :: "string \<Rightarrow> string \<Rightarrow> string \<times> node_state" where
  "demo_node nid st = (nid, fresh_node nid (''http://'' @ nid) RoleFollower st 0)"

definition demo_static :: static_manager where
  "demo_static = \<lparr>sm_local_id = ''n0'', sm_static_nodes = [], sm_force_leader = ''n0'', sm_max_failures = 3,
     sm_states = [demo_node ''n0'' StatusReady, demo_node ''n1'' StatusReady, demo_node ''n2'' StatusOffline],
     sm_local_status = StatusReady\<rparr>"

definition demo_k8s :: k8s_manager where
  "demo_k8s = rebuild_alive_followers
     \<lparr>km_local_id = ''n0'', km_namespace = ''d'', km_service_name = ''s'', km_internal_port = 9000,
      km_max_failures = 3, km_is_leader_flag = True, km_leader_address = [], km_followers = [],
      km_local_status = StatusReady, km_states = [demo_node ''n1'' StatusReady, demo_node ''n2'' StatusOffline],
      km_last_renewal = 0, km_lease_duration = 15 * second, km_last_role = ''leader''\<rparr>"

lemma demo_members: "sm_inv demo_static" "km_inv demo_k8s"
  by code_simp+



text \<open>
  C26. A node that is \<open>OFFLINE\<close>, or unknown, stays so through every history of health answers (healthy
  ones too), failed transactions, discoveries and changes to other nodes: only its own finished
  sync (\<open>MarkAlive\<close>) or sync request brings it back into service.
\<close>

theorem offline_until_sync:
  assumes "list_all (\<lambda>ev. \<not> readmits nid ev) evs"
    and "out_of_service (sm_states s) nid" "out_of_service (km_states k) nid"
  shows "out_of_service (sm_states (fold sm_event evs s)) nid \<and> out_of_service (km_states (fold km_event evs k)) nid"
  using assms by (induction evs arbitrary: s k) (auto simp: sm_event_out km_event_out)

theorem offline_until_sync_witness:
  "status_in (km_states (fold km_event [EvHealth ''n2'' ''http://n2''
     (Inr \<lparr>hr_state = StatusReady, hr_uptime = 5, hr_objects = 0, hr_storage = 0\<rparr>) 9, EvRebuild] demo_k8s)) ''n2''
     \<noteq> Some StatusReady"
proof -
  have "list_all (\<lambda>ev. \<not> readmits ''n2'' ev) [EvHealth ''n2'' ''http://n2''
     (Inr \<lparr>hr_state = StatusReady, hr_uptime = 5, hr_objects = 0, hr_storage = 0\<rparr>) 9, EvRebuild]"
    "out_of_service (sm_states demo_static) ''n2''" "out_of_service (km_states demo_k8s) ''n2''"
    by code_simp+
  from offline_until_sync [OF this] show ?thesis by (auto simp: out_of_service_def)
qed

text \<open>
  C31. A follower whose health checks fail \<open>MaxFailures\<close> times with no healthy answer of it in between is
  out of the followers the next commit uses, under the static and under the Kubernetes manager (there
  once the list is rebuilt, which ends each round of checks): whatever its status was, and however the
  answers of the other nodes and reports of failed transactions come in between, as long as nobody
  registers or finishes a sync.
\<close>

theorem failures_take_offline:
  assumes "sm_inv s" "km_inv k" "list_all (\<lambda>ev. health_event ev \<and> \<not> passes_check nid ev) evs"
    and "nid \<noteq> sm_local_id s" "map_of (sm_states s) nid = Some ns" "0 \<le> ns_failures ns" "ns_addr ns = a"
    and "map_of (km_states k) nid = Some nk" "0 \<le> ns_failures nk" "ns_addr nk = a"
    and "max 1 (max (sm_max_failures s) (km_max_failures k)) \<le> int (failed_checks nid evs)"
  shows "a \<notin> set (sm_alive_followers (fold sm_event evs s)) \<and>
    a \<notin> set (km_alive_followers (km_event EvRebuild (fold km_event evs k)))"
proof -
  have "failed_by (sm_max_failures s) 0 nid a (sm_states s)" "failed_by (km_max_failures k) 0 nid a (km_states k)"
    using assms by (simp_all add: failed_by_def sm_inv_def km_inv_def less_max_iff_disj)
  then have "failed_by (sm_max_failures s) (int (failed_checks nid evs)) nid a (sm_states (fold sm_event evs s))"
    "failed_by (km_max_failures k) (int (failed_checks nid evs)) nid a (km_states (fold km_event evs k))"
    using sm_failed_fold [OF _ assms(4,3)] km_failed_fold [OF _ assms(3)] by fastforce+
  note this [THEN failed_out]
  then show ?thesis
    using assms(11) by (simp add: sm_alive_set km_alive_followers_def rebuild_alive_set)
qed

text \<open>One failed transaction takes the first follower out and one healthy answer of another node changes
  nothing: three failed checks are enough.\<close>

definition failing_checks :: "member_event list" where
  "failing_checks = [EvHealth ''n1'' ''http://n1'' (Inl ErrNotExist) 1,
     EvHealth ''n2'' ''http://n2'' (Inr \<lparr>hr_state = StatusReady, hr_uptime = 5, hr_objects = 0, hr_storage = 0\<rparr>) 2,
     EvHealth ''n1'' ''http://n1'' (Inl ErrNotExist) 3, EvHealth ''n1'' ''http://n1'' (Inl ErrNotExist) 4]"

theorem failures_take_offline_witness:
  "''http://n1'' \<notin> set (sm_alive_followers (fold sm_event failing_checks demo_static)) \<and>
   ''http://n1'' \<notin> set (km_alive_followers (km_event EvRebuild (fold km_event failing_checks demo_k8s)))"
  by (rule failures_take_offline [OF demo_members, where nid = "''n1''"
        and ns = "snd (demo_node ''n1'' StatusReady)" and nk = "snd (demo_node ''n1'' StatusReady)"])
    code_simp+

text \<open>
  Under Kubernetes a follower that registers from a new address (a rescheduled pod) leaves its
  old address in the list commits use, and reporting that old address dead does not remove it.
\<close>

theorem stale_follower_address:
  assumes "km_inv k" "map_of (km_states k) nid = Some ns" "ns_status ns = StatusReady"
    and "nid \<noteq> []" "nid \<noteq> km_local_id k" "addr \<noteq> []" "addr \<noteq> ns_addr ns"
  shows "ns_addr ns \<in> set (km_alive_followers (km_mark_dead (ns_addr ns) (km_register_follower nid addr k)))"
proof -
  let ?k = "km_register_follower nid addr k"
  have k: "?k = k\<lparr>km_states := update_state nid (set_addr addr) (km_states k)\<rparr>"
    using assms by (auto simp: km_register_follower_def)
  have mem: "(nid, ns) \<in> set (km_states k)" using assms(2) by (rule map_of_SomeD)
  have "ns_addr n \<noteq> ns_addr ns" if "(i, n) \<in> set (km_states ?k)" for i n
  proof -
    from that obtain n' where n': "(i, n') \<in> set (km_states k)" "n = (if i = nid then set_addr addr n' else n')"
      by (auto simp: k update_state_def split: if_splits)
    show ?thesis
    proof (cases "i = nid")
      case True
      then show ?thesis using n'(2) assms(7) by simp
    next
      case False
      have "inj_on (ns_addr \<circ> snd) (set (km_states k))"
        using assms(1) by (simp add: km_inv_def wf_states_def addrs_def distinct_map)
      from inj_onD [OF this _ n'(1) mem] False n'(2) show ?thesis by auto
    qed
  qed
  then have "\<not> list_ex (\<lambda>(nid, n). ns_addr n = ns_addr ns) (km_states ?k)"
    by (auto simp: list_ex_iff)
  then have "km_mark_dead (ns_addr ns) ?k = ?k" by (simp add: km_mark_dead_def)
  moreover have "ns_addr ns \<in> set (km_followers (rebuild_alive_followers k))"
    unfolding rebuild_alive_set using mem assms(3) by blast
  ultimately show ?thesis
    using assms(1) by (simp add: km_alive_followers_def k km_inv_def)
qed

theorem stale_follower_address_witness:
  "''http://n1'' \<in> set (km_alive_followers (km_mark_dead ''http://n1'' (km_register_follower ''n1'' ''http://new'' demo_k8s)))"
proof -
  let ?ns = "fresh_node ''n1'' ''http://n1'' RoleFollower StatusReady 0"
  have "map_of (km_states demo_k8s) ''n1'' = Some ?ns" "ns_status ?ns = StatusReady" "''n1'' \<noteq> []"
    "''n1'' \<noteq> km_local_id demo_k8s" "''http://new'' \<noteq> []" "''http://new'' \<noteq> ns_addr ?ns"
    by code_simp+
  from stale_follower_address [OF demo_members(2) this] show ?thesis by simp
qed

end
