(* ===== verification/Election.thy ===== *)
theory Election
  imports Cluster
begin

text \<open>
  Leader election of the Kubernetes manager (\<open>internal/cluster/k8s_manager.go\<close>): each node runs
  \<open>tryAcquireOrRenewLease\<close> against one Lease object of the API server.

  An attempt is cut where time passes or other nodes act: the answer to the fetch, the expiry test,
  the time stamp of the new lease, the server's handling of the request and the node's handling of
  the answer.  The attempts of all nodes run as the step relation \<open>election_step\<close>.

  The API server is an argument: \<open>lease_api_ok\<close> says what the code relies on, the optimistic
  concurrency of the object (a create fails when it exists, an update fails when the object has
  changed since it was read).  Times are nanoseconds.
\<close>

section \<open>The lease and the API server\<close>

record lease =
  le_holder :: string
  le_seconds :: int
  le_acquire :: int
  le_renew :: int
  le_version :: string

datatype lease_request = CreateLease lease | PutLease lease

text \<open>No answer at all, an answer with another status than 200, one that does not decode, a lease.\<close>

datatype lease_answer = LeaseUnreachable | LeaseStatus int | LeaseUndecodable | LeaseIs lease

fun request_lease :: "lease_request \<Rightarrow> lease" where
  "request_lease (CreateLease l) = l"
| "request_lease (PutLease l) = l"

text \<open>201 for a create, 200 for an update.\<close>

fun lease_accepted :: "lease_request \<Rightarrow> int \<Rightarrow> bool" where
  "lease_accepted (CreateLease l) st \<longleftrightarrow> st = 201"
| "lease_accepted (PutLease l) st \<longleftrightarrow> st = 200"

record 's lease_api =
  la_get :: "'s \<Rightarrow> lease_answer"
  la_exec :: "lease_request \<Rightarrow> 's \<Rightarrow> int \<times> 's"
  la_stored :: "'s \<Rightarrow> lease option"
  la_history :: "'s \<Rightarrow> string \<Rightarrow> lease option"   \<comment> \<open>the object at each version it has had\<close>

fun request_applies :: "lease_request \<Rightarrow> lease option \<Rightarrow> bool" where
  "request_applies (CreateLease l) stored \<longleftrightarrow> stored = None"
| "request_applies (PutLease l) stored \<longleftrightarrow> (\<exists>l0. stored = Some l0 \<and> le_version l0 = le_version l)"

definition lease_api_ok :: "('s, 'z) lease_api_scheme \<Rightarrow> bool" where
  "lease_api_ok api \<longleftrightarrow>
     (\<forall>s l. la_stored api s = Some l \<longrightarrow> la_history api s (le_version l) = Some l) \<and>
     (\<forall>s l. la_get api s = LeaseIs l \<longrightarrow> la_stored api s = Some l) \<and>
     (\<forall>rq s st s'. la_exec api rq s = (st, s') \<longrightarrow>
        \<not> lease_accepted rq st \<and> la_stored api s' = la_stored api s \<and> la_history api s' = la_history api s \<or>
        request_applies rq (la_stored api s) \<and>
        (\<exists>v. la_history api s v = None \<and> la_stored api s' = Some ((request_lease rq)\<lparr>le_version := v\<rparr>) \<and>
           la_history api s' = (la_history api s)(v \<mapsto> (request_lease rq)\<lparr>le_version := v\<rparr>)))"

section \<open>One attempt\<close>

text \<open>\<open>MicroTime\<close>: what is left of a time once it has been written and read back.\<close>

definition micro_time :: "int \<Rightarrow> int" where
  "micro_time t = t - t mod 1000"

text \<open>The duration the election loop runs with.\<close>

definition election_duration :: "k8s_manager \<Rightarrow> int" where
  "election_duration m = (if 0 < km_lease_duration m then km_lease_duration m else 15 * second)"

definition lease_expired :: "int \<Rightarrow> lease \<Rightarrow> bool" where
  "lease_expired now l \<longleftrightarrow> le_renew l + le_seconds l * second < now"

definition leader_dns :: "string \<Rightarrow> k8s_manager \<Rightarrow> string" where
  "leader_dns holder m = ''http://'' @ holder @ ''.'' @ km_service_name m @ ''.'' @ km_namespace m @
     ''.svc.cluster.local:'' @ itoa (km_internal_port m)"

text \<open>What the fetched answer leads to: nothing, a new lease, or this lease taken over or renewed;
  the last component is the label a goroutine is started for.\<close>

datatype lease_plan = GiveUp | PlanCreate | PlanPut lease

definition election_decide :: "int \<Rightarrow> lease_answer \<Rightarrow> k8s_manager \<Rightarrow> lease_plan \<times> k8s_manager \<times> bool option" where
  "election_decide now a m =
     (case a of
        LeaseStatus st \<Rightarrow> (if st = 404 then PlanCreate else GiveUp, m, None)
      | LeaseIs l \<Rightarrow>
          (if le_holder l = km_local_id m \<or> lease_expired now l then (PlanPut l, m, None)
           else (GiveUp, m\<lparr>km_is_leader_flag := False, km_leader_address := leader_dns (le_holder l) m\<rparr>, Some False))
      | _ \<Rightarrow> (GiveUp, m, None))"

definition created_lease :: "int \<Rightarrow> k8s_manager \<Rightarrow> lease" where
  "created_lease now m =
     \<lparr>le_holder = km_local_id m, le_seconds = election_duration m div second,
      le_acquire = micro_time now, le_renew = micro_time now, le_version = []\<rparr>"

definition renewed_lease :: "int \<Rightarrow> k8s_manager \<Rightarrow> lease \<Rightarrow> lease" where
  "renewed_lease now m l =
     l\<lparr>le_holder := km_local_id m, le_seconds := election_duration m div second,
       le_acquire := (if le_holder l = km_local_id m then le_acquire l else micro_time now),
       le_renew := micro_time now\<rparr>"

definition election_request :: "int \<Rightarrow> k8s_manager \<Rightarrow> lease_plan \<Rightarrow> lease_request option" where
  "election_request now m p =
     (case p of GiveUp \<Rightarrow> None
      | PlanCreate \<Rightarrow> Some (CreateLease (created_lease now m))
      | PlanPut l \<Rightarrow> Some (PutLease (renewed_lease now m l)))"

text \<open>The answer to the create or update.\<close>

definition election_answer :: "int \<Rightarrow> lease_request \<Rightarrow> int \<Rightarrow> k8s_manager \<Rightarrow> k8s_manager \<times> bool option" where
  "election_answer now rq st m =
     (if lease_accepted rq st
      then (m\<lparr>km_is_leader_flag := True, km_leader_address := [], km_last_renewal := now\<rparr>,
            if km_is_leader_flag m then None else Some True)
      else (m, None))"

definition role_label :: "bool \<Rightarrow> string" where
  "role_label is_leader = (if is_leader then ''leader'' else ''follower'')"

text \<open>\<open>updatePodLabel\<close>: whether a patch is sent, and what its answer changes.\<close>

definition label_needed :: "bool \<Rightarrow> k8s_manager \<Rightarrow> bool" where
  "label_needed is_leader m \<longleftrightarrow> km_last_role m \<noteq> role_label is_leader"

definition update_pod_label :: "bool \<Rightarrow> int option \<Rightarrow> k8s_manager \<Rightarrow> k8s_manager" where
  "update_pod_label is_leader answer m =
     (if label_needed is_leader m \<and> answer = Some 200 then m\<lparr>km_last_role := role_label is_leader\<rparr> else m)"

text \<open>A whole attempt when nothing interleaves and time stands still.\<close>

definition try_acquire ::
    "('s, 'z) lease_api_scheme \<Rightarrow> int \<Rightarrow> k8s_manager \<Rightarrow> 's \<Rightarrow> (k8s_manager \<times> bool option) \<times> 's" where
  "try_acquire api now m s =
     (case election_decide now (la_get api s) m of
        (p, m1, lab) \<Rightarrow>
          (case election_request now m1 p of
             None \<Rightarrow> ((m1, lab), s)
           | Some rq \<Rightarrow> (case la_exec api rq s of (st, s') \<Rightarrow> (election_answer now rq st m1, s'))))"

section \<open>All nodes\<close>

text \<open>Where a node is in its attempt.\<close>

datatype attempt =
    Idle
  | Got lease_answer
  | Cleared lease_plan
  | Waiting lease_request
  | Answered lease_request int

record 's election =
  el_api :: 's
  el_now :: int
  el_mgr :: "string \<Rightarrow> k8s_manager"
  el_phase :: "string \<Rightarrow> attempt"
  el_flight :: "(string \<times> lease_request) list"   \<comment> \<open>sent, not yet handled by the server\<close>

text \<open>
  The steps, for clocks that are off by \<open>skew\<close> and round trips of at most \<open>lim\<close> from the time stamp
  of a lease to the handling of its answer.  A node may give an attempt up at any point; its request
  may still reach the server.
\<close>

definition node_clock :: "(string \<Rightarrow> int) \<Rightarrow> 's election \<Rightarrow> string \<Rightarrow> int" where
  "node_clock skew s n = el_now s + skew n"

inductive election_step :: "('s, 'z) lease_api_scheme \<Rightarrow> (string \<Rightarrow> int) \<Rightarrow> int \<Rightarrow> 's election \<Rightarrow> 's election \<Rightarrow> bool"
  for api skew lim where
  time: "0 \<le> d \<Longrightarrow> election_step api skew lim s (s\<lparr>el_now := el_now s + d\<rparr>)"
| fetch: "el_phase s n = Idle \<Longrightarrow> a = la_get api (el_api s) \<or> a = LeaseUnreachable \<Longrightarrow>
    election_step api skew lim s (s\<lparr>el_phase := (el_phase s)(n := Got a)\<rparr>)"
| decide: "el_phase s n = Got a \<Longrightarrow> election_decide (node_clock skew s n) a (el_mgr s n) = (p, m, lab) \<Longrightarrow>
    election_step api skew lim s (s\<lparr>el_phase := (el_phase s)(n := Cleared p), el_mgr := (el_mgr s)(n := m)\<rparr>)"
| send: "el_phase s n = Cleared p \<Longrightarrow> election_request (node_clock skew s n) (el_mgr s n) p = Some rq \<Longrightarrow>
    election_step api skew lim s (s\<lparr>el_phase := (el_phase s)(n := Waiting rq), el_flight := (n, rq) # el_flight s\<rparr>)"
| handle: "el_flight s = fl1 @ (n, rq) # fl2 \<Longrightarrow> la_exec api rq (el_api s) = (st, a') \<Longrightarrow>
    ph = el_phase s \<or> el_phase s n = Waiting rq \<and> ph = (el_phase s)(n := Answered rq st) \<Longrightarrow>
    election_step api skew lim s (s\<lparr>el_api := a', el_flight := fl1 @ fl2, el_phase := ph\<rparr>)"
| answer: "el_phase s n = Answered rq st \<Longrightarrow> election_answer (node_clock skew s n) rq st (el_mgr s n) = (m, lab) \<Longrightarrow>
    lease_accepted rq st \<longrightarrow> node_clock skew s n - le_renew (request_lease rq) \<le> lim \<Longrightarrow>
    election_step api skew lim s (s\<lparr>el_phase := (el_phase s)(n := Idle), el_mgr := (el_mgr s)(n := m)\<rparr>)"
| give_up: "election_step api skew lim s (s\<lparr>el_phase := (el_phase s)(n := Idle)\<rparr>)"

definition leads :: "(string \<Rightarrow> int) \<Rightarrow> 's election \<Rightarrow> string \<Rightarrow> bool" where
  "leads skew s n \<longleftrightarrow> km_is_leader (node_clock skew s n) (el_mgr s n)"

text \<open>No lease yet, no node leader, no attempt in progress.\<close>

definition election_init :: "('s, 'z) lease_api_scheme \<Rightarrow> 's election \<Rightarrow> bool" where
  "election_init api s \<longleftrightarrow> la_stored api (el_api s) = None \<and> la_history api (el_api s) = Map.empty \<and>
     (\<forall>n. \<not> km_is_leader_flag (el_mgr s n) \<and> km_local_id (el_mgr s n) = n \<and> el_phase s n = Idle) \<and> el_flight s = []"

section \<open>The invariant\<close>

text \<open>
  A lease the node \<open>n\<close> renewed at \<open>r\<close> is either still the stored one, perhaps renewed again, or so
  old that every node's clock says it has run out.
\<close>

definition holds ::
    "('s, 'z) lease_api_scheme \<Rightarrow> (string \<Rightarrow> int) \<Rightarrow> (string \<Rightarrow> int) \<Rightarrow> int \<Rightarrow> 's election \<Rightarrow> string \<Rightarrow> int \<Rightarrow> bool" where
  "holds api skew D eps s n r \<longleftrightarrow>
     (\<exists>l. la_stored api (el_api s) = Some l \<and> le_holder l = n \<and> le_seconds l = D n div second \<and> r \<le> le_renew l) \<or>
     r + D n div second * second - eps < node_clock skew s n"

definition known_lease :: "('s, 'z) lease_api_scheme \<Rightarrow> 's election \<Rightarrow> lease \<Rightarrow> bool" where
  "known_lease api s l \<longleftrightarrow> la_history api (el_api s) (le_version l) = Some l"

definition free_lease :: "int \<Rightarrow> string \<Rightarrow> lease \<Rightarrow> bool" where
  "free_lease now n l \<longleftrightarrow> le_holder l = n \<or> lease_expired now l"

definition request_ok ::
    "('s, 'z) lease_api_scheme \<Rightarrow> (string \<Rightarrow> int) \<Rightarrow> (string \<Rightarrow> int) \<Rightarrow> 's election \<Rightarrow> string \<Rightarrow> lease_request \<Rightarrow> bool" where
  "request_ok api skew D s n rq \<longleftrightarrow>
     le_holder (request_lease rq) = n \<and> le_seconds (request_lease rq) = D n div second \<and>
     le_renew (request_lease rq) \<le> node_clock skew s n \<and> 1000 dvd le_renew (request_lease rq) \<and>
     (\<forall>l'. rq = PutLease l' \<longrightarrow> (\<exists>l. la_history api (el_api s) (le_version l') = Some l \<and>
        free_lease (node_clock skew s n) n l \<and> (le_holder l = n \<longrightarrow> le_renew l \<le> le_renew l')))"

definition attempt_ok ::
    "('s, 'z) lease_api_scheme \<Rightarrow> (string \<Rightarrow> int) \<Rightarrow> (string \<Rightarrow> int) \<Rightarrow> int \<Rightarrow> 's election \<Rightarrow> string \<Rightarrow> bool" where
  "attempt_ok api skew D eps s n \<longleftrightarrow>
     (case el_phase s n of
        Idle \<Rightarrow> True
      | Got a \<Rightarrow> (\<forall>l. a = LeaseIs l \<longrightarrow> known_lease api s l)
      | Cleared p \<Rightarrow> (\<forall>l. p = PlanPut l \<longrightarrow> known_lease api s l \<and> free_lease (node_clock skew s n) n l)
      | Waiting rq \<Rightarrow> request_ok api skew D s n rq
      | Answered rq st \<Rightarrow> request_ok api skew D s n rq \<and>
          (lease_accepted rq st \<longrightarrow> holds api skew D eps s n (le_renew (request_lease rq))))"

definition election_inv ::
    "('s, 'z) lease_api_scheme \<Rightarrow> (string \<Rightarrow> int) \<Rightarrow> (string \<Rightarrow> int) \<Rightarrow> int \<Rightarrow> int \<Rightarrow> 's election \<Rightarrow> bool" where
  "election_inv api skew D eps lim s \<longleftrightarrow>
     (\<forall>n. km_local_id (el_mgr s n) = n \<and> km_lease_duration (el_mgr s n) = D n) \<and>
     (\<forall>v l. la_history api (el_api s) v = Some l \<longrightarrow>
        le_renew l \<le> node_clock skew s (le_holder l) \<and> 1000 dvd le_renew l) \<and>
     (\<forall>n. km_is_leader_flag (el_mgr s n) \<longrightarrow> holds api skew D eps s n (km_last_renewal (el_mgr s n) - lim)) \<and>
     (\<forall>n. attempt_ok api skew D eps s n) \<and>
     (\<forall>(n, rq) \<in> set (el_flight s). request_ok api skew D s n rq)"

lemma election_invD:
  assumes "election_inv api skew D eps lim s"
  shows "km_local_id (el_mgr s n) = n" "km_lease_duration (el_mgr s n) = D n"
    "la_history api (el_api s) v = Some l \<Longrightarrow> le_renew l \<le> node_clock skew s (le_holder l)"
    "la_history api (el_api s) v = Some l \<Longrightarrow> 1000 dvd le_renew l"
    "km_is_leader_flag (el_mgr s n) \<Longrightarrow> holds api skew D eps s n (km_last_renewal (el_mgr s n) - lim)"
    "attempt_ok api skew D eps s n"
    "(n, rq) \<in> set (el_flight s) \<Longrightarrow> request_ok api skew D s n rq"
  using assms by (auto simp: election_inv_def)

text \<open>Time passing and the server moving on keep what is known.\<close>

definition later :: "('s, 'z) lease_api_scheme \<Rightarrow> 's election \<Rightarrow> 's election \<Rightarrow> bool" where
  "later api s s' \<longleftrightarrow> el_now s \<le> el_now s' \<and>
     (\<forall>v l. la_history api (el_api s) v = Some l \<longrightarrow> la_history api (el_api s') v = Some l)"

lemma later_clock: "later api s s' \<Longrightarrow> node_clock skew s n \<le> node_clock skew s' n"
  by (simp add: later_def node_clock_def)

lemma later_known: "later api s s' \<Longrightarrow> known_lease api s l \<Longrightarrow> known_lease api s' l"
  by (simp add: later_def known_lease_def)

lemma later_free: "later api s s' \<Longrightarrow> free_lease (node_clock skew s n) n l \<Longrightarrow> free_lease (node_clock skew s' n) n l"
  using later_clock [of api s s' skew n] by (auto simp: free_lease_def lease_expired_def)

lemma later_request:
  assumes "later api s s'" "request_ok api skew D s n rq"
  shows "request_ok api skew D s' n rq"
proof -
  note rq = assms(2) [unfolded request_ok_def]
  have "\<exists>l. la_history api (el_api s') (le_version l') = Some l \<and> free_lease (node_clock skew s' n) n l \<and>
      (le_holder l = n \<longrightarrow> le_renew l \<le> le_renew l')" if "rq = PutLease l'" for l'
    using rq that assms(1) later_free [OF assms(1), of skew n] by (auto simp: later_def)
  with rq later_clock [OF assms(1), of skew n] show ?thesis unfolding request_ok_def by auto
qed

lemma later_attempt:
  assumes "later api s s'" "attempt_ok api skew D eps s n" "el_phase s' n = el_phase s n"
    and "\<And>r. holds api skew D eps s n r \<Longrightarrow> holds api skew D eps s' n r"
  shows "attempt_ok api skew D eps s' n"
  using assms(2-) later_known [OF assms(1)] later_free [OF assms(1)] later_request [OF assms(1)]
  by (auto simp: attempt_ok_def split: attempt.splits)

lemma holds_time: "0 \<le> d \<Longrightarrow> holds api skew D eps s n r \<Longrightarrow> holds api skew D eps (s\<lparr>el_now := el_now s + d\<rparr>) n r"
  by (auto simp: holds_def node_clock_def)

lemma holds_le: "holds api skew D eps s n r \<Longrightarrow> r' \<le> r \<Longrightarrow> holds api skew D eps s n r'"
  unfolding holds_def by fastforce

lemma holds_cong: "el_api s' = el_api s \<Longrightarrow> el_now s' = el_now s \<Longrightarrow>
  holds api skew D eps s' n r = holds api skew D eps s n r"
  by (simp add: holds_def node_clock_def)

text \<open>The server's answer to a request, one of two ways.\<close>

lemma exec_cases:
  assumes "lease_api_ok api" "la_exec api rq a = (st, a')"
  obtains (kept) "\<not> lease_accepted rq st" "la_stored api a' = la_stored api a" "la_history api a' = la_history api a"
  | (applied) v where "request_applies rq (la_stored api a)" "la_history api a v = None"
      "la_stored api a' = Some ((request_lease rq)\<lparr>le_version := v\<rparr>)"
      "la_history api a' = (la_history api a)(v \<mapsto> (request_lease rq)\<lparr>le_version := v\<rparr>)"
proof -
  from assms have "\<not> lease_accepted rq st \<and> la_stored api a' = la_stored api a \<and> la_history api a' = la_history api a \<or>
      request_applies rq (la_stored api a) \<and>
      (\<exists>v. la_history api a v = None \<and> la_stored api a' = Some ((request_lease rq)\<lparr>le_version := v\<rparr>) \<and>
         la_history api a' = (la_history api a)(v \<mapsto> (request_lease rq)\<lparr>le_version := v\<rparr>))"
    by (simp add: lease_api_ok_def)
  then show thesis using kept applied by (elim disjE exE conjE) simp_all
qed

lemma holds_exec:
  assumes api: "lease_api_ok api" and ex: "la_exec api rq (el_api s) = (st, a')"
    and ok: "request_ok api skew D s n' rq" and skew: "\<And>a b. skew a - skew b \<le> eps"
    and h: "holds api skew D eps s n r" and s': "el_api s' = a'" "el_now s' = el_now s"
  shows "holds api skew D eps s' n r"
proof (cases "r + D n div second * second - eps < node_clock skew s n")
  case True
  then show ?thesis by (simp add: holds_def node_clock_def s')
next
  case False
  with h obtain l where l: "la_stored api (el_api s) = Some l" "le_holder l = n" "le_seconds l = D n div second"
    "r \<le> le_renew l" by (auto simp: holds_def)
  from api ex show ?thesis
  proof (cases rule: exec_cases)
    case kept
    with l show ?thesis by (auto simp: holds_def s')
  next
    case (applied v)
    then obtain l' where rq: "rq = PutLease l'" "le_version l = le_version l'"
      using l(1) by (cases rq) auto
    have "la_history api (el_api s) (le_version l) = Some l"
      using api l(1) by (auto simp: lease_api_ok_def)
    with ok rq have "free_lease (node_clock skew s n') n' l" "le_holder l = n' \<longrightarrow> le_renew l \<le> le_renew l'"
      by (auto simp: request_ok_def)
    moreover have "le_holder l' = n'" "le_seconds l' = D n' div second" using ok rq(1) by (simp_all add: request_ok_def)
    moreover have "node_clock skew s n' \<le> node_clock skew s n + eps" using skew [of n' n] by (simp add: node_clock_def)
    ultimately show ?thesis
      using l applied(3) rq(1) False by (auto simp: holds_def s' free_lease_def lease_expired_def node_clock_def)
  qed
qed

lemma exec_later:
  assumes "lease_api_ok api" "la_exec api rq (el_api s) = (st, a')" "el_api s' = a'" "el_now s' = el_now s"
  shows "later api s s'"
  using assms(1,2)
proof (cases rule: exec_cases)
  case kept
  then show ?thesis by (simp add: later_def assms(3,4))
next
  case (applied v)
  then show ?thesis by (auto simp: later_def assms(3,4))
qed

lemma exec_holds_own:
  assumes "lease_api_ok api" "la_exec api rq (el_api s) = (st, a')" "request_ok api skew D s n rq"
    "lease_accepted rq st" "el_api s' = a'"
  shows "holds api skew D eps s' n (le_renew (request_lease rq))"
  using assms(1,2)
proof (cases rule: exec_cases)
  case kept
  with assms(4) show ?thesis by simp
next
  case (applied v)
  with assms(3) show ?thesis by (auto simp: holds_def request_ok_def assms(5))
qed

lemma election_invI:
  assumes inv: "election_inv api skew D eps lim s" and lat: "later api s s'"
    and h: "\<And>n r. holds api skew D eps s n r \<Longrightarrow> holds api skew D eps s' n r"
    and hist: "la_history api (el_api s') = la_history api (el_api s)"
    and others: "\<And>n. n \<noteq> own_id \<Longrightarrow> el_mgr s' n = el_mgr s n \<and> el_phase s' n = el_phase s n"
    and own: "km_local_id (el_mgr s' own_id) = own_id" "km_lease_duration (el_mgr s' own_id) = D own_id"
      "km_is_leader_flag (el_mgr s' own_id) \<Longrightarrow> holds api skew D eps s' own_id (km_last_renewal (el_mgr s' own_id) - lim)"
      "attempt_ok api skew D eps s' own_id"
    and flight: "\<And>n rq. (n, rq) \<in> set (el_flight s') \<Longrightarrow> request_ok api skew D s' n rq"
  shows "election_inv api skew D eps lim s'"
proof -
  note d = election_invD [OF inv]
  have "km_local_id (el_mgr s' n) = n \<and> km_lease_duration (el_mgr s' n) = D n" for n
    using others [of n] own(1,2) d(1,2) [of n] by (cases "n = own_id") simp_all
  moreover have "le_renew l \<le> node_clock skew s' (le_holder l) \<and> 1000 dvd le_renew l"
    if "la_history api (el_api s') v = Some l" for v l
    using that d(3,4) [of v l] later_clock [OF lat, of skew "le_holder l"] by (auto simp: hist)
  moreover have "holds api skew D eps s' n (km_last_renewal (el_mgr s' n) - lim)"
    if "km_is_leader_flag (el_mgr s' n)" for n
    using that others [of n] own(3) h [OF d(5) [of n]] by (cases "n = own_id") simp_all
  moreover have "attempt_ok api skew D eps s' n" for n
    using own(4) others [of n] later_attempt [OF lat d(6) [of n] _ h] by (cases "n = own_id") simp_all
  ultimately show ?thesis using flight unfolding election_inv_def by blast
qed

lemma election_inv_local:
  assumes inv: "election_inv api skew D eps lim s" and same: "el_api s' = el_api s" "el_now s' = el_now s"
    and others: "\<And>n. n \<noteq> own_id \<Longrightarrow> el_mgr s' n = el_mgr s n \<and> el_phase s' n = el_phase s n"
    and own: "km_local_id (el_mgr s' own_id) = own_id" "km_lease_duration (el_mgr s' own_id) = D own_id"
      "km_is_leader_flag (el_mgr s' own_id) \<Longrightarrow> holds api skew D eps s own_id (km_last_renewal (el_mgr s' own_id) - lim)"
      "attempt_ok api skew D eps s' own_id"
    and flight: "\<And>n rq. (n, rq) \<in> set (el_flight s') \<Longrightarrow> (n, rq) \<in> set (el_flight s) \<or> request_ok api skew D s n rq"
  shows "election_inv api skew D eps lim s'"
proof -
  have lat: "later api s s'" by (simp add: later_def same)
  have h: "holds api skew D eps s' n r = holds api skew D eps s n r" for n r
    by (rule holds_cong [OF same])
  have fl: "request_ok api skew D s' n rq" if "(n, rq) \<in> set (el_flight s')" for n rq
    using flight [OF that] later_request [OF lat] election_invD(7) [OF inv] by blast
  show ?thesis
    by (rule election_invI [OF inv lat, where own_id = own_id]) (use others own fl in \<open>auto simp: h same\<close>)
qed

lemma micro_time_facts: "micro_time t \<le> t" "1000 dvd micro_time t" "1000 dvd r \<Longrightarrow> r \<le> t \<Longrightarrow> r \<le> micro_time t"
proof -
  show "micro_time t \<le> t" by (simp add: micro_time_def)
  have eq: "micro_time t = 1000 * (t div 1000)"
    unfolding micro_time_def by (metis minus_mod_eq_mult_div)
  then show "1000 dvd micro_time t" by simp
  assume "1000 dvd r" "r \<le> t"
  then obtain q where "r = 1000 * q" by (elim dvdE)
  with \<open>r \<le> t\<close> have "q \<le> t div 1000" by linarith
  with eq \<open>r = 1000 * q\<close> show "r \<le> micro_time t" by linarith
qed

lemma exec_history:
  assumes "lease_api_ok api" "la_exec api rq a = (st, a')" "la_history api a' v = Some l"
  obtains (old) "la_history api a v = Some l" | (new) "l = (request_lease rq)\<lparr>le_version := v\<rparr>"
  using assms(1,2)
proof (cases rule: exec_cases)
  case kept
  with assms(3) that(1) show thesis by simp
next
  case (applied u)
  with assms(3) that show thesis by (auto split: if_splits)
qed

lemma election_inv_handle:
  assumes inv: "election_inv api skew D eps lim s" and api: "lease_api_ok api" and skew: "\<And>a b. skew a - skew b \<le> eps"
    and fl: "el_flight s = fl1 @ (n, rq) # fl2" and ex: "la_exec api rq (el_api s) = (st, a')"
    and ph: "ph = el_phase s \<or> el_phase s n = Waiting rq \<and> ph = (el_phase s)(n := Answered rq st)"
    and s': "s' = s\<lparr>el_api := a', el_flight := fl1 @ fl2, el_phase := ph\<rparr>"
  shows "election_inv api skew D eps lim s'"
proof -
  note d = election_invD [OF inv]
  have ok: "request_ok api skew D s n rq" using d(7) fl by simp
  have s'_simps: "el_api s' = a'" "el_now s' = el_now s" by (simp_all add: s')
  note lat = exec_later [OF api ex s'_simps]
  note h = holds_exec [OF api ex ok skew _ s'_simps]
  have "le_renew l \<le> node_clock skew s' (le_holder l) \<and> 1000 dvd le_renew l"
    if l: "la_history api (el_api s') v = Some l" for v l
    using api ex l [unfolded s'_simps]
  proof (cases rule: exec_history)
    case old
    with d(3,4) show ?thesis by (auto simp: s' node_clock_def)
  next
    case new
    with ok show ?thesis by (simp add: request_ok_def s' node_clock_def)
  qed
  moreover have "attempt_ok api skew D eps s' x" for x
  proof (cases "el_phase s' x = el_phase s x")
    case True
    show ?thesis by (rule later_attempt [OF lat d(6) True h])
  next
    case False
    with ph have x: "x = n" "el_phase s' n = Answered rq st" by (auto simp: s' split: if_splits)
    with exec_holds_own [OF api ex ok _ s'_simps(1)] later_request [OF lat ok] show ?thesis
      by (simp add: attempt_ok_def)
  qed
  moreover have "\<forall>(m, q) \<in> set (el_flight s'). request_ok api skew D s' m q"
    using d(7) fl later_request [OF lat] by (auto simp: s')
  ultimately show ?thesis using d(1,2) h [OF d(5)] unfolding election_inv_def by (auto simp: s')
qed

lemma election_inv_step:
  assumes step: "election_step api skew lim s s'" and inv: "election_inv api skew D eps lim s"
    and api: "lease_api_ok api" and skew: "\<And>a b. skew a - skew b \<le> eps" and pos: "\<And>n. 0 < D n"
  shows "election_inv api skew D eps lim s'"
  using step
proof cases
  case (time d)
  have lat: "later api s s'" using time by (simp add: later_def)
  have h: "holds api skew D eps s n r \<Longrightarrow> holds api skew D eps s' n r" for n r
    using holds_time time by simp
  note d = election_invD [OF inv]
  have same: "el_mgr s' = el_mgr s" "el_phase s' = el_phase s" "el_api s' = el_api s" "el_flight s' = el_flight s"
    using time by simp_all
  show ?thesis
    by (rule election_invI [OF inv lat h, where own_id = "[]"])
      (use d(1,2,7) h [OF d(5)] later_attempt [OF lat d(6) _ h] later_request [OF lat] in \<open>auto simp: same\<close>)
next
  case (fetch n a)
  have "attempt_ok api skew D eps s' n"
    using fetch api by (auto simp: attempt_ok_def known_lease_def lease_api_ok_def)
  then show ?thesis
    by (intro election_inv_local [OF inv, where own_id = n]) (use fetch election_invD [OF inv] in auto)
next
  case (decide n a p m lab)
  have m: "km_local_id m = km_local_id (el_mgr s n)" "km_lease_duration m = km_lease_duration (el_mgr s n)"
    "km_last_renewal m = km_last_renewal (el_mgr s n)" "km_is_leader_flag m \<Longrightarrow> km_is_leader_flag (el_mgr s n)"
    using decide(3) by (auto simp: election_decide_def split: lease_answer.splits if_splits)
  have "known_lease api s l \<and> free_lease (node_clock skew s n) n l" if "p = PlanPut l" for l
    using that decide(2,3) election_invD(1,6) [OF inv, of n]
    by (auto simp: election_decide_def attempt_ok_def free_lease_def split: lease_answer.splits if_splits)
  then have "attempt_ok api skew D eps s' n"
    using decide(1) by (auto simp: attempt_ok_def known_lease_def node_clock_def)
  then show ?thesis
    by (intro election_inv_local [OF inv, where own_id = n]) (use decide(1) m election_invD [OF inv] in auto)
next
  case (send n p rq)
  note d = election_invD [OF inv]
  have dur: "election_duration (el_mgr s n) = D n" using d(2) pos by (simp add: election_duration_def)
  note micro = micro_time_facts [where t = "node_clock skew s n"]
  have ok: "request_ok api skew D s n rq"
  proof (cases p)
    case GiveUp
    with send show ?thesis by (simp add: election_request_def)
  next
    case PlanCreate
    with send d(1) dur micro show ?thesis by (auto simp: request_ok_def election_request_def created_lease_def)
  next
    case (PlanPut l)
    then have rq: "rq = PutLease (renewed_lease (node_clock skew s n) (el_mgr s n) l)"
      using send by (simp add: election_request_def)
    have l: "known_lease api s l" "free_lease (node_clock skew s n) n l"
      using d(6) [of n] send PlanPut by (simp_all add: attempt_ok_def)
    have "le_holder l = n \<Longrightarrow> le_renew l \<le> micro_time (node_clock skew s n)"
      using l(1) d(3,4) micro(3) by (auto simp: known_lease_def)
    with l d(1) dur micro(1,2) show ?thesis
      by (auto simp: request_ok_def rq renewed_lease_def known_lease_def)
  qed
  have "later api s s'" using send(1) by (simp add: later_def)
  from later_request [OF this ok] have "attempt_ok api skew D eps s' n" using send by (simp add: attempt_ok_def)
  with ok show ?thesis
    by (intro election_inv_local [OF inv, where own_id = n]) (use send(1) d in auto)
next
  case (handle fl1 n rq fl2 st a' ph)
  from election_inv_handle [OF inv api skew handle(2,3,4,1)] show ?thesis .
next
  case (answer n rq st m lab)
  note d = election_invD [OF inv]
  have m: "km_local_id m = km_local_id (el_mgr s n)" "km_lease_duration m = km_lease_duration (el_mgr s n)"
    using answer(3) by (auto simp: election_answer_def split: if_splits)
  have "holds api skew D eps s n (km_last_renewal m - lim)" if "km_is_leader_flag m"
  proof (cases "lease_accepted rq st")
    case True
    then have "holds api skew D eps s n (le_renew (request_lease rq))"
      using d(6) [of n] answer(2) by (simp add: attempt_ok_def)
    moreover have "km_last_renewal m - lim \<le> le_renew (request_lease rq)"
      using True answer(3,4) by (auto simp: election_answer_def)
    ultimately show ?thesis by (rule holds_le)
  next
    case False
    then show ?thesis using that answer(3) d(5) by (auto simp: election_answer_def)
  qed
  moreover have "attempt_ok api skew D eps s' n" using answer(1) by (simp add: attempt_ok_def)
  ultimately show ?thesis
    by (intro election_inv_local [OF inv, where own_id = n]) (use answer(1) m d in auto)
next
  case (give_up n)
  have "attempt_ok api skew D eps s' n" using give_up by (simp add: attempt_ok_def)
  then show ?thesis
    by (intro election_inv_local [OF inv, where own_id = n]) (use give_up election_invD [OF inv] in auto)
qed

lemma election_inv_init:
  assumes "election_init api s" "\<And>n. km_lease_duration (el_mgr s n) = D n"
  shows "election_inv api skew D eps lim s"
  using assms by (simp add: election_inv_def election_init_def attempt_ok_def)

lemma election_run_inv:
  assumes "(election_step api skew lim)\<^sup>*\<^sup>* s0 s" "election_init api s0" "\<And>n. km_lease_duration (el_mgr s0 n) = D n"
    and "lease_api_ok api" "\<And>a b. skew a - skew b \<le> eps" "\<And>n. 0 < D n"
  shows "election_inv api skew D eps lim s"
  using assms(1)
  by (induction rule: rtranclp_induct)
    (auto intro: election_inv_init [OF assms(2,3)] election_inv_step [OF _ _ assms(4-6)])

lemma leader_holds:
  assumes inv: "election_inv api skew D eps lim s" and lead: "leads skew s n"
    and D: "guard_window < D n" "lim + eps + D n mod second \<le> guard_window"
  shows "\<exists>l. la_stored api (el_api s) = Some l \<and> le_holder l = n"
proof -
  note d = election_invD [OF inv]
  from lead d(2) D(1) have flag: "km_is_leader_flag (el_mgr s n)"
    and fresh: "node_clock skew s n - km_last_renewal (el_mgr s n) \<le> D n - guard_window"
    by (auto simp: leads_def km_is_leader_def split: if_splits)
  from d(5) [OF flag] have "holds api skew D eps s n (km_last_renewal (el_mgr s n) - lim)" .
  moreover have "D n div second * second = D n - D n mod second" by (simp add: minus_mod_eq_div_mult)
  ultimately show ?thesis using fresh D(2) by (auto simp: holds_def)
qed

section \<open>A concrete API server\<close>

text \<open>The object's values, newest first; the version of a value is its place.\<close>

definition place_version :: "nat \<Rightarrow> string" where
  "place_version n = replicate n (CHR ''v'')"

definition newest_lease :: "lease list \<Rightarrow> lease option" where
  "newest_lease ls = (case ls of [] \<Rightarrow> None | l # rest \<Rightarrow> Some (l\<lparr>le_version := place_version (length rest)\<rparr>))"

definition list_api :: "lease list lease_api" where
  "list_api =
     \<lparr>la_get = (\<lambda>ls. case newest_lease ls of None \<Rightarrow> LeaseStatus 404 | Some l \<Rightarrow> LeaseIs l),
      la_exec = (\<lambda>rq ls. if request_applies rq (newest_lease ls)
         then (case rq of CreateLease _ \<Rightarrow> 201 | PutLease _ \<Rightarrow> 200, request_lease rq # ls) else (409, ls)),
      la_stored = newest_lease,
      la_history = (\<lambda>ls v. if length v < length ls \<and> v = place_version (length v)
         then Some ((rev ls ! length v)\<lparr>le_version := v\<rparr>) else None)\<rparr>"

lemma length_place_version [simp]: "length (place_version n) = n"
  by (simp add: place_version_def)

lemma list_api_simps [simp]:
  "la_get list_api ls = (case newest_lease ls of None \<Rightarrow> LeaseStatus 404 | Some l \<Rightarrow> LeaseIs l)"
  "la_exec list_api rq ls = (if request_applies rq (newest_lease ls)
     then (case rq of CreateLease _ \<Rightarrow> 201 | PutLease _ \<Rightarrow> 200, request_lease rq # ls) else (409, ls))"
  "la_stored list_api ls = newest_lease ls"
  "la_history list_api ls v = (if length v < length ls \<and> v = place_version (length v)
     then Some ((rev ls ! length v)\<lparr>le_version := v\<rparr>) else None)"
  by (simp_all add: list_api_def)

lemma list_api_history_Cons:
  "la_history list_api (l # ls) = (la_history list_api ls)(place_version (length ls) \<mapsto> l\<lparr>le_version := place_version (length ls)\<rparr>)"
proof
  fix v :: string
  consider "length v < length ls" | "length v = length ls" | "length ls < length v" by linarith
  then show "la_history list_api (l # ls) v =
      ((la_history list_api ls)(place_version (length ls) \<mapsto> l\<lparr>le_version := place_version (length ls)\<rparr>)) v"
    by cases (auto simp: nth_append)
qed

lemma list_api_ok: "lease_api_ok list_api"
proof -
  have hist: "la_history list_api ls (le_version l) = Some l" if "la_stored list_api ls = Some l" for ls l
    using that by (cases ls) (auto simp: newest_lease_def nth_append)
  have ex: "\<not> lease_accepted rq st \<and> la_stored list_api s' = la_stored list_api s \<and> la_history list_api s' = la_history list_api s \<or>
      request_applies rq (la_stored list_api s) \<and>
      (\<exists>v. la_history list_api s v = None \<and> la_stored list_api s' = Some ((request_lease rq)\<lparr>le_version := v\<rparr>) \<and>
         la_history list_api s' = (la_history list_api s)(v \<mapsto> (request_lease rq)\<lparr>le_version := v\<rparr>))"
    if run: "la_exec list_api rq s = (st, s')" for rq s st s'
  proof (cases "request_applies rq (newest_lease s)")
    case True
    then have s': "s' = request_lease rq # s" using run by simp
    have "la_history list_api s (place_version (length s)) = None" by simp
    with True show ?thesis using list_api_history_Cons [of "request_lease rq" s]
      by (intro disjI2 conjI exI [of _ "place_version (length s)"]) (simp_all add: s' newest_lease_def del: list_api_simps(4))
  next
    case False
    with run have "st = 409" "s' = s" by simp_all
    then show ?thesis by (cases rq) simp_all
  qed
  show ?thesis
    unfolding lease_api_ok_def
  proof (intro conjI allI impI)
    fix s l
    assume "la_get list_api s = LeaseIs l"
    then show "la_stored list_api s = Some l" by (simp split: option.splits)
  qed (fact hist, fact ex)
qed

section \<open>A whole attempt as steps\<close>

text \<open>The attempt of one node, answered \<open>d\<close> after its time stamp, with nobody else acting.\<close>

lemma attempt_run:
  assumes idle: "el_phase s n = Idle" "el_flight s = []"
    and dec: "election_decide (el_now s + skew n) (la_get api (el_api s)) (el_mgr s n) = (p, m, lab)"
    and req: "election_request (el_now s + skew n) m p = Some rq"
    and ex: "la_exec api rq (el_api s) = (st, a')"
    and ans: "election_answer (el_now s + d + skew n) rq st m = (m', lab')" and d: "0 \<le> d"
    and lim: "lease_accepted rq st \<longrightarrow> el_now s + d + skew n - le_renew (request_lease rq) \<le> lim"
  shows "(election_step api skew lim)\<^sup>*\<^sup>* s (s\<lparr>el_api := a', el_now := el_now s + d, el_mgr := (el_mgr s)(n := m')\<rparr>)"
proof -
  let ?R = "election_step api skew lim"
  let ?s1 = "s\<lparr>el_phase := (el_phase s)(n := Got (la_get api (el_api s)))\<rparr>"
  let ?s2 = "?s1\<lparr>el_phase := (el_phase ?s1)(n := Cleared p), el_mgr := (el_mgr ?s1)(n := m)\<rparr>"
  let ?s3 = "?s2\<lparr>el_phase := (el_phase ?s2)(n := Waiting rq), el_flight := (n, rq) # el_flight ?s2\<rparr>"
  let ?s4 = "?s3\<lparr>el_api := a', el_flight := [], el_phase := (el_phase ?s3)(n := Answered rq st)\<rparr>"
  let ?s5 = "?s4\<lparr>el_now := el_now ?s4 + d\<rparr>"
  let ?s6 = "?s5\<lparr>el_phase := (el_phase ?s5)(n := Idle), el_mgr := (el_mgr ?s5)(n := m')\<rparr>"
  have 1: "?R s ?s1" by (rule election_step.fetch) (simp_all add: idle)
  have 2: "?R ?s1 ?s2" by (rule election_step.decide [where lab = lab]) (simp_all add: node_clock_def, rule dec)
  have 3: "?R ?s2 ?s3" by (rule election_step.send) (simp_all add: node_clock_def, rule req)
  have 4: "?R ?s3 ?s4"
    using election_step.handle [of ?s3 "[]" n rq "[]" api st a' "(el_phase ?s3)(n := Answered rq st)" skew lim]
    by (simp add: ex idle)
  have 5: "?R ?s4 ?s5" by (rule election_step.time [OF d])
  have 6: "?R ?s5 ?s6" by (rule election_step.answer [where lab = lab']) (simp_all add: node_clock_def, rule ans, rule lim)
  have "?R\<^sup>*\<^sup>* s ?s6"
    using 1 2 3 4 5 6 by (meson converse_rtranclp_into_rtranclp rtranclp.rtrancl_refl)
  moreover have "?s6 = s\<lparr>el_api := a', el_now := el_now s + d, el_mgr := (el_mgr s)(n := m')\<rparr>"
    using idle by (simp add: fun_upd_idem_iff)
  ultimately show ?thesis by simp
qed

section \<open>The properties\<close>

text \<open>
  C2. At most one node takes itself for the leader, at any time of any interleaving of the nodes'
  attempts: provided no lease is answered later than the guard window allows after its time stamp, less
  the difference of the clocks and the fraction of a second the lease's duration loses.
\<close>

theorem one_leader:
  assumes "lease_api_ok api" "election_init api s0" "(election_step api skew lim)\<^sup>*\<^sup>* s0 s"
    and "\<And>n. guard_window < km_lease_duration (el_mgr s0 n)" "\<And>a b. skew a - skew b \<le> eps"
    and "\<And>n. lim + eps + km_lease_duration (el_mgr s0 n) mod second \<le> guard_window"
    and "leads skew s a" "leads skew s b"
  shows "a = b"
proof -
  let ?D = "\<lambda>n. km_lease_duration (el_mgr s0 n)"
  have pos: "0 < ?D n" for n
    using assms(4) [of n] by (simp add: guard_window_def second_def)
  have inv: "election_inv api skew ?D eps lim s"
    by (rule election_run_inv [OF assms(3,2) refl assms(1,5) pos])
  from leader_holds [OF inv assms(7,4,6)] leader_holds [OF inv assms(8,4,6)] show ?thesis by auto
qed

text \<open>Two nodes and a lease of fifteen seconds.\<close>

definition demo_manager :: "string \<Rightarrow> k8s_manager" where
  "demo_manager n = demo_k8s\<lparr>km_local_id := n, km_is_leader_flag := False, km_lease_duration := 15 * second\<rparr>"

definition demo_election :: "lease list election" where
  "demo_election = \<lparr>el_api = [], el_now = 0, el_mgr = demo_manager, el_phase = (\<lambda>_. Idle), el_flight = []\<rparr>"

text \<open>The first node creates the lease and has its answer after \<open>d\<close>.\<close>

definition elected_after :: "int \<Rightarrow> lease list election" where
  "elected_after d = demo_election\<lparr>el_api := [created_lease 0 (demo_manager ''n1'')], el_now := d,
     el_mgr := demo_manager(''n1'' := fst (election_answer d
       (CreateLease (created_lease 0 (demo_manager ''n1''))) 201 (demo_manager ''n1'')))\<rparr>"

lemma demo_manager_simps [simp]:
  "km_local_id (demo_manager n) = n" "km_is_leader_flag (demo_manager n) = False"
  "km_lease_duration (demo_manager n) = 15 * second" "election_duration (demo_manager n) = 15 * second"
  by (simp_all add: demo_manager_def election_duration_def second_def)

lemma demo_election_init: "election_init list_api demo_election"
  by (auto simp: election_init_def demo_election_def newest_lease_def)

lemma elected_after_run:
  assumes "0 \<le> d" "d \<le> lim"
  shows "(election_step list_api (\<lambda>_. 0) lim)\<^sup>*\<^sup>* demo_election (elected_after d)"
proof -
  let ?m = "demo_manager ''n1''" and ?rq = "CreateLease (created_lease 0 (demo_manager ''n1''))"
  have "(election_step list_api (\<lambda>_. 0) lim)\<^sup>*\<^sup>* demo_election (demo_election\<lparr>el_api := [created_lease 0 ?m],
      el_now := el_now demo_election + d,
      el_mgr := (el_mgr demo_election)(''n1'' := fst (election_answer d ?rq 201 ?m))\<rparr>)"
    by (rule attempt_run [where p = PlanCreate and m = ?m and lab = None and rq = ?rq and st = 201
          and lab' = "Some True"])
      (use assms in \<open>auto simp: demo_election_def newest_lease_def election_decide_def election_request_def
         election_answer_def created_lease_def micro_time_def second_def\<close>)
  then show ?thesis by (simp add: elected_after_def demo_election_def)
qed

theorem one_leader_witness: "{a. leads (\<lambda>_. 0) (elected_after second) a} = {''n1''}"
proof -
  have lead: "leads (\<lambda>_. 0) (elected_after second) ''n1''"
    by (simp add: leads_def node_clock_def km_is_leader_def elected_after_def demo_election_def election_answer_def
        guard_window_def second_def)
  have "a = ''n1''" if "leads (\<lambda>_. 0) (elected_after second) a" for a
    by (rule one_leader [OF list_api_ok demo_election_init elected_after_run [of second "2 * second"] _ _ _ that lead,
          where eps = 0]) (simp_all add: demo_election_def guard_window_def second_def)
  with lead show ?thesis by blast
qed

lemma attempt_outcome:
  assumes "lease_api_ok api"
    and "la_get api s = (case la_stored api s of None \<Rightarrow> LeaseStatus 404 | Some l \<Rightarrow> LeaseIs l)"
    and "\<And>rq. request_applies rq (la_stored api s) \<Longrightarrow> lease_accepted rq (fst (la_exec api rq s))"
    and "try_acquire api now m s = ((m', lab), s')"
  shows "if \<exists>l. la_stored api s = Some l \<and> le_holder l \<noteq> km_local_id m \<and> \<not> lease_expired now l
    then \<not> km_is_leader now m' \<and> s' = s
    else km_is_leader now m' \<and> (\<exists>l. la_stored api s' = Some l \<and> le_holder l = km_local_id m \<and> le_renew l = micro_time now)"
proof -
  have takes: "km_is_leader now m' \<and> (\<exists>l. la_stored api s' = Some l \<and> le_holder l = km_local_id m \<and> le_renew l = micro_time now)"
    if rq: "request_applies rq (la_stored api s)" "le_holder (request_lease rq) = km_local_id m"
      "le_renew (request_lease rq) = micro_time now"
      and run: "(case la_exec api rq s of (st, s') \<Rightarrow> (election_answer now rq st m, s')) = ((m', lab), s')" for rq
  proof -
    obtain st where ex: "la_exec api rq s = (st, s')" and ans: "election_answer now rq st m = (m', lab)"
      using run by (auto split: prod.splits)
    have acc: "lease_accepted rq st" using assms(3) [OF rq(1)] ex by simp
    then have "km_is_leader now m'"
      using ans by (auto simp: election_answer_def km_is_leader_def guard_window_def second_def)
    moreover from assms(1) ex have "\<exists>l. la_stored api s' = Some l \<and> le_holder l = km_local_id m \<and> le_renew l = micro_time now"
      by (cases rule: exec_cases) (use acc rq in auto)
    ultimately show ?thesis by blast
  qed
  show ?thesis
  proof (cases "la_stored api s")
    case None
    then show ?thesis
      using assms(2,4) takes [of "CreateLease (created_lease now m)"]
      by (simp add: try_acquire_def election_decide_def election_request_def created_lease_def)
  next
    case (Some l)
    show ?thesis
    proof (cases "le_holder l \<noteq> km_local_id m \<and> \<not> lease_expired now l")
      case True
      then show ?thesis
        using assms(2,4) Some
        by (auto simp: try_acquire_def election_decide_def election_request_def km_is_leader_def)
    next
      case False
      then show ?thesis
        using assms(2,4) Some takes [of "PutLease (renewed_lease now m l)"]
        by (auto simp: try_acquire_def election_decide_def election_request_def renewed_lease_def)
    qed
  qed
qed

text \<open>
  C32. The guard window runs from the answer of a renewal, not from the time stamp the lease carries.  So
  when a node renews the lease it holds at \<open>t0\<close> and has the answer at \<open>ta\<close>, another node that attempts
  after the lease has run out, counted from \<open>t0\<close>, takes it while the first still leads, counted from \<open>ta\<close>:
  both lead at once although their clocks agree.  There is such a time as soon as the answer takes
  longer than the guard window of two seconds, which the client's timeout of five allows.  (The API server
  answers reads with what it stores and accepts every request that applies.)
\<close>

theorem slow_renewal_splits_leadership:
  assumes "lease_api_ok api"
    and "\<And>u. la_get api u = (case la_stored api u of None \<Rightarrow> LeaseStatus 404 | Some l \<Rightarrow> LeaseIs l)"
    and "\<And>rq u. request_applies rq (la_stored api u) \<Longrightarrow> lease_accepted rq (fst (la_exec api rq u))"
    and "la_stored api s = Some l" "le_holder l = km_local_id m1" "km_local_id m1 \<noteq> km_local_id m2"
    and "election_decide t0 (la_get api s) m1 = (p, m, lab)" "election_request t0 m p = Some rq"
    and "la_exec api rq s = (st, s1)" "election_answer ta rq st m = (m1', lab1)"
    and "try_acquire api t m2 s1 = ((m2', lab2), s2)"
    and "micro_time t0 + election_duration m1 div second * second < t" "t \<le> ta + (km_lease_duration m1 - guard_window)"
  shows "km_is_leader t m1' \<and> km_is_leader t m2'"
proof -
  have rq: "rq = PutLease (renewed_lease t0 m1 l)" "m = m1"
    using assms(2,4,5,7,8) by (auto simp: election_decide_def election_request_def)
  have "request_applies rq (la_stored api s)" using assms(4) by (simp add: rq renewed_lease_def)
  with assms(3,9) have acc: "lease_accepted rq st" by (metis fst_conv)
  then have "km_is_leader t m1'"
    using assms(10,13) by (auto simp: election_answer_def km_is_leader_def rq(2))
  moreover from assms(1,9) acc have "\<exists>v. la_stored api s1 = Some ((renewed_lease t0 m1 l)\<lparr>le_version := v\<rparr>)"
    by (cases rule: exec_cases) (auto simp: rq)
  then have "\<not> (\<exists>l. la_stored api s1 = Some l \<and> le_holder l \<noteq> km_local_id m2 \<and> \<not> lease_expired t l)"
    using assms(12) by (auto simp: lease_expired_def renewed_lease_def)
  then have "km_is_leader t m2'"
    using attempt_outcome [OF assms(1,2,3,11)] by simp
  ultimately show ?thesis ..
qed

text \<open>The first node renews its lease of fifteen seconds at second 5 and has the answer three seconds later;
  the second one attempts at second 20.\<close>

definition slow_state :: "lease list" where
  "slow_state = [created_lease 0 (demo_manager ''n1'')]"

definition slow_lease :: lease where
  "slow_lease = (created_lease 0 (demo_manager ''n1''))\<lparr>le_version := place_version 0\<rparr>"

definition slow_request :: lease_request where
  "slow_request = PutLease (renewed_lease (5 * second) (demo_manager ''n1'') slow_lease)"

theorem slow_renewal_splits_leadership_witness:
  "km_is_leader (20 * second + 1) (fst (election_answer (8 * second) slow_request 200 (demo_manager ''n1''))) \<and>
   km_is_leader (20 * second + 1)
     (fst (fst (try_acquire list_api (20 * second + 1) (demo_manager ''n2'') (snd (la_exec list_api slow_request slow_state)))))"
proof -
  let ?m1 = "demo_manager ''n1''" and ?t = "20 * second + 1"
  let ?att = "try_acquire list_api ?t (demo_manager ''n2'') (snd (la_exec list_api slow_request slow_state))"
  have st: "la_stored list_api slow_state = Some slow_lease" "le_holder slow_lease = km_local_id ?m1"
    by (simp_all add: slow_state_def slow_lease_def newest_lease_def) (simp add: created_lease_def)
  then have rq: "election_decide (5 * second) (la_get list_api slow_state) ?m1 = (PlanPut slow_lease, ?m1, None)"
    "election_request (5 * second) ?m1 (PlanPut slow_lease) = Some slow_request"
    by (simp_all add: election_decide_def election_request_def slow_request_def)
  have "fst (la_exec list_api slow_request slow_state) = 200"
    using st(1) by (simp add: slow_request_def renewed_lease_def)
  then have ex: "la_exec list_api slow_request slow_state = (200, snd (la_exec list_api slow_request slow_state))"
    by (metis prod.collapse)
  have ans: "election_answer (8 * second) slow_request 200 ?m1 = (fst (election_answer (8 * second) slow_request 200 ?m1),
      snd (election_answer (8 * second) slow_request 200 ?m1))" by simp
  have att: "?att = ((fst (fst ?att), snd (fst ?att)), snd ?att)" by simp
  have times: "micro_time (5 * second) + election_duration ?m1 div second * second < ?t"
    "?t \<le> 8 * second + (km_lease_duration ?m1 - guard_window)"
    by (simp_all add: micro_time_def second_def guard_window_def)
  show ?thesis
    by (rule slow_renewal_splits_leadership [OF list_api_ok _ _ st _ rq ex ans att times])
      (auto split: lease_request.split option.split)
qed

text \<open>
  C33. When the API server answers, an attempt made while the lease is missing, is the node's own or has
  run out makes the node the leader and the holder of the lease; any other attempt leaves it a follower
  and the lease as it was.
\<close>

theorem free_lease_is_taken:
  assumes "lease_api_ok api"
    and "la_get api s = (case la_stored api s of None \<Rightarrow> LeaseStatus 404 | Some l \<Rightarrow> LeaseIs l)"
    and "\<And>rq. request_applies rq (la_stored api s) \<Longrightarrow> lease_accepted rq (fst (la_exec api rq s))"
    and "try_acquire api now m s = ((m', lab), s')"
  shows "if \<exists>l. la_stored api s = Some l \<and> le_holder l \<noteq> km_local_id m \<and> \<not> lease_expired now l
    then \<not> km_is_leader now m' \<and> s' = s
    else km_is_leader now m' \<and> (\<exists>l. la_stored api s' = Some l \<and> le_holder l = km_local_id m \<and> le_renew l = micro_time now)"
  using assms by (rule attempt_outcome)

theorem free_lease_is_taken_witness:
  "km_is_leader 5 (fst (fst (try_acquire list_api 5 (demo_manager ''n1'') [])))"
proof -
  let ?r = "try_acquire list_api 5 (demo_manager ''n1'') []"
  have "?r = ((fst (fst ?r), snd (fst ?r)), snd ?r)" by simp
  from free_lease_is_taken [OF list_api_ok _ _ this] show ?thesis by (simp add: newest_lease_def split: lease_request.split)
qed

end
