(* ===== verification/Leases.thy ===== *)
theory Leases
  imports Cluster
begin

text \<open>
  The write gate and the sync leases of \<open>internal/application/s3app/service.go\<close>: the part of
  the service's state behind \<open>syncMutex\<close>, and how writers and follower syncs exclude each other.

  A method that takes the mutex once is a function on the state.  \<open>StartSyncLease\<close> gives the mutex
  up while it waits for the active writes, so it is two: the registration and, once no write is
  active, the grant.  The callers run as the step relation \<open>lease_step\<close>.

  The metrics the service emits are part of the state: gauges hold the value last set, counters
  the number of increments per label.
\<close>

section \<open>Metrics\<close>

record metrics =
  mt_buckets_total :: int
  mt_objects_total :: "(string \<times> int) list"
  mt_storage_used :: "(string \<times> int) list"
  mt_cluster_role :: int
  mt_cluster_status :: "(string \<times> int) list"
  mt_sync_lease_active :: int
  mt_writes_blocked :: int
  mt_active_writes :: int
  mt_prepare_total :: "(string \<times> int) list"
  mt_commit_total :: "(string \<times> int) list"
  mt_abort_total :: "(string \<times> int) list"

definition gauge :: "bool \<Rightarrow> int" where
  "gauge b = (if b then 1 else 0)"

definition label_value :: "(string \<times> int) list \<Rightarrow> string \<Rightarrow> int" where
  "label_value ls l = (case map_of ls l of None \<Rightarrow> 0 | Some n \<Rightarrow> n)"

definition inc_label :: "string \<Rightarrow> (string \<times> int) list \<Rightarrow> (string \<times> int) list" where
  "inc_label l ls = AList.update l (label_value ls l + 1) ls"

definition set_cluster_status :: "string \<Rightarrow> metrics \<Rightarrow> metrics" where
  "set_cluster_status status mt = mt\<lparr>mt_cluster_status :=
     foldl (\<lambda>ls s. AList.update s (gauge (s = status)) ls) (mt_cluster_status mt)
       [''OFFLINE'', ''SYNCING'', ''READY'', ''ERROR'']\<rparr>"

section \<open>State and operations\<close>

record svc =
  sv_syncing :: "(string \<times> int) list"   \<comment> \<open>node id and time of the lease's last renewal\<close>
  sv_active_writes :: int
  sv_behavior :: string
  sv_metrics :: metrics

definition new_service :: "metrics \<Rightarrow> svc" where
  "new_service mt = \<lparr>sv_syncing = [], sv_active_writes = 0, sv_behavior = ''reject'', sv_metrics = mt\<rparr>"

definition set_write_block_behavior :: "string \<Rightarrow> svc \<Rightarrow> svc" where
  "set_write_block_behavior b s = (if b = ''wait'' \<or> b = ''reject'' then s\<lparr>sv_behavior := b\<rparr> else s)"

definition lease_ttl :: int where "lease_ttl = 30 * second"

definition lease_node :: "string \<Rightarrow> string" where
  "lease_node nid = (if nid = [] then ''unknown'' else nid)"

definition set_blocked_metrics :: "bool \<Rightarrow> svc \<Rightarrow> svc" where
  "set_blocked_metrics b s =
     s\<lparr>sv_metrics := (sv_metrics s)\<lparr>mt_sync_lease_active := gauge b, mt_writes_blocked := gauge b\<rparr>\<rparr>"

definition set_active_writes :: "int \<Rightarrow> svc \<Rightarrow> svc" where
  "set_active_writes n s = s\<lparr>sv_active_writes := n, sv_metrics := (sv_metrics s)\<lparr>mt_active_writes := n\<rparr>\<rparr>"

text \<open>\<open>StartSyncLease\<close>: up to the wait, the condition it waits for, and the rest.\<close>

definition register_lease :: "int \<Rightarrow> string \<Rightarrow> svc \<Rightarrow> svc" where
  "register_lease now nid s = s\<lparr>sv_syncing := AList.update (lease_node nid) now (sv_syncing s)\<rparr>"

definition lease_drained :: "svc \<Rightarrow> bool" where
  "lease_drained s \<longleftrightarrow> \<not> 0 < sv_active_writes s"

definition grant_lease :: "svc \<Rightarrow> svc" where
  "grant_lease s = set_blocked_metrics True s"

text \<open>The call as a whole when nothing interleaves; the flag is false while it waits.\<close>

definition start_sync_lease :: "int \<Rightarrow> string \<Rightarrow> svc \<Rightarrow> bool \<times> svc" where
  "start_sync_lease now nid s =
     (let s1 = register_lease now nid s in
      if lease_drained s1 then (True, grant_lease s1) else (False, s1))"

definition heartbeat_sync_lease :: "int \<Rightarrow> string \<Rightarrow> svc \<Rightarrow> svc" where
  "heartbeat_sync_lease now nid s = s\<lparr>sv_syncing := AList.update (lease_node nid) now (sv_syncing s)\<rparr>"

definition end_sync_lease :: "string \<Rightarrow> svc \<Rightarrow> svc" where
  "end_sync_lease nid s =
     (let s1 = s\<lparr>sv_syncing := AList.delete (lease_node nid) (sv_syncing s)\<rparr> in
      if sv_syncing s1 = [] then set_blocked_metrics False s1 else s1)"

text \<open>\<open>isWritesBlockedLocked\<close>: expired leases are dropped on the way.\<close>

definition writes_blocked :: "int \<Rightarrow> svc \<Rightarrow> bool \<times> svc" where
  "writes_blocked now s =
     (let live = filter (\<lambda>(nid, seen). now - seen \<le> lease_ttl) (sv_syncing s);
          s1 = s\<lparr>sv_syncing := live\<rparr>
      in (live \<noteq> [],
          if live \<noteq> sv_syncing s \<and> live = [] then set_blocked_metrics False s1 else s1))"

text \<open>The loop a write starts with: it enters, is rejected, or waits and tries again.\<close>

datatype gate = Enter | Reject | Park

definition write_gate :: "int \<Rightarrow> svc \<Rightarrow> gate \<times> svc" where
  "write_gate now s =
     (case writes_blocked now s of
        (True, s1) \<Rightarrow> (if sv_behavior s1 = ''wait'' then Park else Reject, s1)
      | (False, s1) \<Rightarrow> (Enter, set_active_writes (sv_active_writes s1 + 1) s1))"

text \<open>The deferred end of a write.\<close>

definition leave_write :: "svc \<Rightarrow> svc" where
  "leave_write s = set_active_writes (sv_active_writes s - 1) s"

section \<open>Writers and syncs side by side\<close>

text \<open>A sync in progress on the leader: the node, the time its lease was registered, whether the lease
  has been granted, and (history, which no step looks at) whether somebody else ended the lease of
  that node since: the end of another sync of the same node, or a call of \<open>/internal/sync-done\<close>.\<close>

record sync_thread =
  th_node :: string
  th_since :: int
  th_granted :: bool
  th_dropped :: bool

definition drop_lease :: "string \<Rightarrow> sync_thread \<Rightarrow> sync_thread" where
  "drop_lease nid th = (if th_node th = nid then th\<lparr>th_dropped := True\<rparr> else th)"

record lease_sys =
  ls_svc :: svc
  ls_now :: int
  ls_threads :: "sync_thread list"

inductive lease_step :: "lease_sys \<Rightarrow> lease_sys \<Rightarrow> bool" where
  time_passes: "0 \<le> d \<Longrightarrow> lease_step s (s\<lparr>ls_now := ls_now s + d\<rparr>)"
| write_tries: "lease_step s (s\<lparr>ls_svc := snd (write_gate (ls_now s) (ls_svc s))\<rparr>)"
| write_ends: "0 < sv_active_writes (ls_svc s) \<Longrightarrow> lease_step s (s\<lparr>ls_svc := leave_write (ls_svc s)\<rparr>)"
| asked: "lease_step s (s\<lparr>ls_svc := snd (writes_blocked (ls_now s) (ls_svc s))\<rparr>)"
| heartbeat: "lease_step s (s\<lparr>ls_svc := heartbeat_sync_lease (ls_now s) nid (ls_svc s)\<rparr>)"
| sync_requested:
    "lease_step s (s\<lparr>ls_svc := register_lease (ls_now s) nid (ls_svc s),
       ls_threads := \<lparr>th_node = lease_node nid, th_since = ls_now s, th_granted = False, th_dropped = False\<rparr> #
         ls_threads s\<rparr>)"
| sync_granted:
    "ls_threads s = ths1 @ th # ths2 \<Longrightarrow> \<not> th_granted th \<Longrightarrow> lease_drained (ls_svc s) \<Longrightarrow>
     lease_step s (s\<lparr>ls_svc := grant_lease (ls_svc s), ls_threads := ths1 @ th\<lparr>th_granted := True\<rparr> # ths2\<rparr>)"
| sync_ends:
    "ls_threads s = ths1 @ th # ths2 \<Longrightarrow> th_granted th \<Longrightarrow>
     lease_step s (s\<lparr>ls_svc := end_sync_lease (th_node th) (ls_svc s),
       ls_threads := map (drop_lease (th_node th)) (ths1 @ ths2)\<rparr>)"
| sync_done:
    "lease_step s (s\<lparr>ls_svc := end_sync_lease nid (ls_svc s),
       ls_threads := map (drop_lease (lease_node nid)) (ls_threads s)\<rparr>)"

definition lease_init :: "metrics \<Rightarrow> int \<Rightarrow> lease_sys" where
  "lease_init mt now = \<lparr>ls_svc = new_service mt, ls_now = now, ls_threads = []\<rparr>"

section \<open>Facts\<close>

lemma metrics_only [simp]:
  "sv_syncing (set_blocked_metrics b s) = sv_syncing s"
  "sv_active_writes (set_blocked_metrics b s) = sv_active_writes s"
  "sv_behavior (set_blocked_metrics b s) = sv_behavior s"
  "sv_syncing (set_active_writes n s) = sv_syncing s"
  "sv_active_writes (set_active_writes n s) = n"
  "sv_behavior (set_active_writes n s) = sv_behavior s"
  by (simp_all add: set_blocked_metrics_def set_active_writes_def)

lemma lease_op_fields [simp]:
  "sv_syncing (register_lease now nid s) = AList.update (lease_node nid) now (sv_syncing s)"
  "sv_active_writes (register_lease now nid s) = sv_active_writes s"
  "sv_syncing (heartbeat_sync_lease now nid s) = AList.update (lease_node nid) now (sv_syncing s)"
  "sv_active_writes (heartbeat_sync_lease now nid s) = sv_active_writes s"
  "sv_syncing (end_sync_lease nid s) = AList.delete (lease_node nid) (sv_syncing s)"
  "sv_active_writes (end_sync_lease nid s) = sv_active_writes s"
  "sv_syncing (grant_lease s) = sv_syncing s"
  "sv_active_writes (grant_lease s) = sv_active_writes s"
  "sv_syncing (snd (writes_blocked now s)) = filter (\<lambda>(nid, seen). now - seen \<le> lease_ttl) (sv_syncing s)"
  "sv_active_writes (snd (writes_blocked now s)) = sv_active_writes s"
  "sv_behavior (snd (writes_blocked now s)) = sv_behavior s"
  "sv_syncing (leave_write s) = sv_syncing s"
  "sv_active_writes (leave_write s) = sv_active_writes s - 1"
  by (simp_all add: register_lease_def heartbeat_sync_lease_def end_sync_lease_def grant_lease_def
      writes_blocked_def leave_write_def Let_def)

lemma lease_node_idem [simp]: "lease_node (lease_node nid) = lease_node nid"
  by (simp add: lease_node_def)

lemma writes_blocked_iff:
  "fst (writes_blocked now s) \<longleftrightarrow> (\<exists>nid seen. (nid, seen) \<in> set (sv_syncing s) \<and> now - seen \<le> lease_ttl)"
  by (auto simp: writes_blocked_def Let_def filter_empty_conv)

lemma write_gate_cases:
  obtains (enter) "fst (write_gate now s) = Enter" "\<not> fst (writes_blocked now s)"
      "snd (write_gate now s) = set_active_writes (sv_active_writes s + 1) (snd (writes_blocked now s))"
  | (refused) "fst (write_gate now s) = (if sv_behavior s = ''wait'' then Park else Reject)"
      "fst (writes_blocked now s)" "snd (write_gate now s) = snd (writes_blocked now s)"
proof -
  obtain b s1 where w: "writes_blocked now s = (b, s1)" by (cases "writes_blocked now s")
  have "sv_active_writes s1 = sv_active_writes s" "sv_behavior s1 = sv_behavior s"
    using lease_op_fields(10,11) [of now s] w by simp_all
  with that w show thesis by (cases b) (auto simp: write_gate_def)
qed

lemma gate_open:
  "\<not> fst (writes_blocked now s) \<Longrightarrow> sv_active_writes (snd (write_gate now s)) = sv_active_writes s + 1"
  by (cases rule: write_gate_cases [of now s]) auto

text \<open>
  The invariant: the lease table has one entry a node, times lie in the past, and for each sync
  in progress whose lease nobody else ended, as long as no more than the lease's term has passed
  since it was registered, its entry is there and no older, and once it is granted no write is active.
\<close>

definition lease_inv :: "lease_sys \<Rightarrow> bool" where
  "lease_inv s \<longleftrightarrow> 0 \<le> sv_active_writes (ls_svc s) \<and> distinct (map fst (sv_syncing (ls_svc s))) \<and>
     (\<forall>th \<in> set (ls_threads s). th_since th \<le> ls_now s \<and> lease_node (th_node th) = th_node th \<and>
        (\<not> th_dropped th \<longrightarrow> ls_now s - th_since th \<le> lease_ttl \<longrightarrow>
           (\<exists>seen. map_of (sv_syncing (ls_svc s)) (th_node th) = Some seen \<and> th_since th \<le> seen) \<and>
           (th_granted th \<longrightarrow> sv_active_writes (ls_svc s) = 0)))"

lemma lease_invD:
  assumes "lease_inv s" "th \<in> set (ls_threads s)"
  shows "th_since th \<le> ls_now s" "lease_node (th_node th) = th_node th"
    "\<not> th_dropped th \<Longrightarrow> ls_now s - th_since th \<le> lease_ttl \<Longrightarrow>
       \<exists>seen. map_of (sv_syncing (ls_svc s)) (th_node th) = Some seen \<and> th_since th \<le> seen"
    "\<not> th_dropped th \<Longrightarrow> ls_now s - th_since th \<le> lease_ttl \<Longrightarrow> th_granted th \<Longrightarrow> sv_active_writes (ls_svc s) = 0"
  using assms by (auto simp: lease_inv_def)

lemma lease_inv_init: "lease_inv (lease_init mt now)"
  by (simp add: lease_inv_def lease_init_def new_service_def)

lemma lease_inv_threads:
  assumes "lease_inv s" "0 \<le> sv_active_writes v" "distinct (map fst (sv_syncing v))"
    and "ls_now s \<le> now"
    and "\<And>th seen. th \<in> set ths \<Longrightarrow> th \<in> set (ls_threads s) \<Longrightarrow> \<not> th_dropped th \<Longrightarrow>
      now - th_since th \<le> lease_ttl \<Longrightarrow> map_of (sv_syncing (ls_svc s)) (th_node th) = Some seen \<Longrightarrow> th_since th \<le> seen \<Longrightarrow>
      (\<exists>seen'. map_of (sv_syncing v) (th_node th) = Some seen' \<and> th_since th \<le> seen') \<and>
      (th_granted th \<longrightarrow> sv_active_writes v = 0)"
    and "set ths \<subseteq> set (ls_threads s)"
  shows "lease_inv (s\<lparr>ls_svc := v, ls_now := now, ls_threads := ths\<rparr>)"
  unfolding lease_inv_def
proof (intro conjI ballI impI; simp del: not_less)
  fix th
  assume th: "th \<in> set ths"
  with assms(6) have th': "th \<in> set (ls_threads s)" by blast
  note d = lease_invD [OF assms(1) th']
  show "th_since th \<le> now" "lease_node (th_node th) = th_node th"
    using d(1,2) assms(4) by simp_all
  assume "\<not> th_dropped th" "now - th_since th \<le> lease_ttl"
  with assms(4) d(3) assms(5) [OF th th']
  have r: "(\<exists>seen'. map_of (sv_syncing v) (th_node th) = Some seen' \<and> th_since th \<le> seen') \<and>
      (th_granted th \<longrightarrow> sv_active_writes v = 0)" by fastforce
  from r show "\<exists>seen. map_of (sv_syncing v) (th_node th) = Some seen \<and> th_since th \<le> seen" by blast
  from r show "th_granted th \<Longrightarrow> sv_active_writes v = 0" by blast
qed (use assms in auto)


lemma map_of_filter_live:
  "distinct (map fst xs) \<Longrightarrow> map_of xs a = Some t \<Longrightarrow> P (a, t) \<Longrightarrow> map_of (filter P xs) a = Some t"
  by (simp add: distinct_map_fst_filter map_of_eq_Some_iff)

lemma lease_inv_blocked:
  assumes inv: "lease_inv s"
  shows "lease_inv (s\<lparr>ls_svc := snd (writes_blocked (ls_now s) (ls_svc s))\<rparr>)"
proof -
  let ?v = "snd (writes_blocked (ls_now s) (ls_svc s))"
  have "lease_inv (s\<lparr>ls_svc := ?v, ls_now := ls_now s, ls_threads := ls_threads s\<rparr>)"
  proof (rule lease_inv_threads [OF inv])
    show "0 \<le> sv_active_writes ?v" "distinct (map fst (sv_syncing ?v))"
      using inv by (auto simp: lease_inv_def intro: distinct_map_fst_filter)
    fix th seen
    assume th: "th \<in> set (ls_threads s)" "\<not> th_dropped th" "ls_now s - th_since th \<le> lease_ttl"
      "map_of (sv_syncing (ls_svc s)) (th_node th) = Some seen" "th_since th \<le> seen"
    have "map_of (sv_syncing ?v) (th_node th) = Some seen"
      using th inv by (auto simp: lease_inv_def intro!: map_of_filter_live)
    with th lease_invD(4) [OF inv th(1-3)]
    show "(\<exists>seen'. map_of (sv_syncing ?v) (th_node th) = Some seen' \<and> th_since th \<le> seen') \<and>
        (th_granted th \<longrightarrow> sv_active_writes ?v = 0)" by auto
  qed simp_all
  then show ?thesis by simp
qed

text \<open>A write enters only when no lease is live, so no covered sync is running.\<close>

lemma lease_inv_gate:
  assumes inv: "lease_inv s"
  shows "lease_inv (s\<lparr>ls_svc := snd (write_gate (ls_now s) (ls_svc s))\<rparr>)"
proof (cases rule: write_gate_cases [of "ls_now s" "ls_svc s"])
  case enter
  have none: "\<not> ls_now s - th_since th \<le> lease_ttl" if "th \<in> set (ls_threads s)" "\<not> th_dropped th" for th
  proof
    assume live: "ls_now s - th_since th \<le> lease_ttl"
    with lease_invD(3) [OF inv that] obtain seen
      where "map_of (sv_syncing (ls_svc s)) (th_node th) = Some seen" "th_since th \<le> seen" by blast
    with live have "(th_node th, seen) \<in> set (sv_syncing (ls_svc s))" "ls_now s - seen \<le> lease_ttl"
      by (auto dest: map_of_SomeD)
    with enter(2) show False unfolding writes_blocked_iff by blast
  qed
  have "lease_inv (s\<lparr>ls_svc := snd (write_gate (ls_now s) (ls_svc s)), ls_now := ls_now s,
      ls_threads := ls_threads s\<rparr>)"
    by (rule lease_inv_threads [OF inv])
      (use none enter(3) inv in \<open>auto simp: lease_inv_def intro: distinct_map_fst_filter\<close>)
  then show ?thesis by simp
next
  case refused
  with lease_inv_blocked [OF inv] show ?thesis by simp
qed

lemma lease_inv_update:
  assumes inv: "lease_inv s" and "sv_syncing v = AList.update nid (ls_now s) (sv_syncing (ls_svc s))"
    and "sv_active_writes v = sv_active_writes (ls_svc s)"
  shows "lease_inv (s\<lparr>ls_svc := v\<rparr>)"
proof -
  have "lease_inv (s\<lparr>ls_svc := v, ls_now := ls_now s, ls_threads := ls_threads s\<rparr>)"
    by (rule lease_inv_threads [OF inv])
      (use assms lease_invD [OF inv] in \<open>auto simp: lease_inv_def distinct_update update_conv\<close>)
  then show ?thesis by simp
qed

text \<open>The end of a lease: the syncs of that node that go on are marked.\<close>

lemma drop_lease_simps [simp]:
  "th_node (drop_lease nid th) = th_node th" "th_since (drop_lease nid th) = th_since th"
  "th_granted (drop_lease nid th) = th_granted th" "th_dropped (drop_lease nid th) \<longleftrightarrow> th_dropped th \<or> th_node th = nid"
  by (simp_all add: drop_lease_def)

lemma lease_inv_end:
  assumes inv: "lease_inv s" and "set ths \<subseteq> set (ls_threads s)"
  shows "lease_inv (s\<lparr>ls_svc := end_sync_lease nid (ls_svc s), ls_threads := map (drop_lease (lease_node nid)) ths\<rparr>)"
  unfolding lease_inv_def
proof (intro conjI ballI impI; simp del: not_less)
  show "0 \<le> sv_active_writes (ls_svc s)" "distinct (map fst (AList.delete (lease_node nid) (sv_syncing (ls_svc s))))"
    using inv by (auto simp: lease_inv_def distinct_delete)
  fix th
  assume "th \<in> drop_lease (lease_node nid) ` set ths"
  then obtain th' where th: "th = drop_lease (lease_node nid) th'" "th' \<in> set (ls_threads s)" using assms(2) by auto
  note d = lease_invD [OF inv th(2)]
  show "th_since th \<le> ls_now s" "lease_node (th_node th) = th_node th" using d(1,2) th(1) by simp_all
  assume live: "\<not> th_dropped th" "ls_now s - th_since th \<le> lease_ttl"
  then show "\<exists>seen. map_of (AList.delete (lease_node nid) (sv_syncing (ls_svc s))) (th_node th) = Some seen \<and> th_since th \<le> seen"
    using d(3) th(1) by (simp add: delete_conv)
  show "th_granted th \<Longrightarrow> sv_active_writes (ls_svc s) = 0" using d(4) th(1) live by simp
qed

lemma lease_inv_step:
  assumes inv: "lease_inv s" and step: "lease_step s s'"
  shows "lease_inv s'"
  using step
proof (cases rule: lease_step.cases)
  case (time_passes d)
  have "lease_inv (s\<lparr>ls_svc := ls_svc s, ls_now := ls_now s + d, ls_threads := ls_threads s\<rparr>)"
    by (rule lease_inv_threads [OF inv])
      (use time_passes(2) lease_invD(4) [OF inv] inv in \<open>fastforce simp: lease_inv_def\<close>)+
  with time_passes show ?thesis by simp
next
  case write_tries
  with lease_inv_gate [OF inv] show ?thesis by simp
next
  case write_ends
  have "lease_inv (s\<lparr>ls_svc := leave_write (ls_svc s), ls_now := ls_now s, ls_threads := ls_threads s\<rparr>)"
    by (rule lease_inv_threads [OF inv])
      (use write_ends lease_invD(4) [OF inv] inv in \<open>fastforce simp: lease_inv_def\<close>)+
  with write_ends show ?thesis by simp
next
  case asked
  with lease_inv_blocked [OF inv] show ?thesis by simp
next
  case (heartbeat nid)
  with lease_inv_update [OF inv, of "heartbeat_sync_lease (ls_now s) nid (ls_svc s)" "lease_node nid"]
  show ?thesis by simp
next
  case (sync_requested nid)
  have "lease_inv (s\<lparr>ls_svc := register_lease (ls_now s) nid (ls_svc s)\<rparr>)"
    by (rule lease_inv_update [OF inv]) simp_all
  then show ?thesis
    unfolding sync_requested by (auto simp: lease_inv_def update_conv)
next
  case (sync_granted ths1 th ths2)
  then show ?thesis
    using inv by (auto simp: lease_inv_def lease_drained_def)
next
  case (sync_ends ths1 th ths2)
  have "lease_node (th_node th) = th_node th" using sync_ends lease_invD(2) [OF inv, of th] by simp
  with lease_inv_end [OF inv, of "ths1 @ ths2" "th_node th"] sync_ends show ?thesis by auto
next
  case (sync_done nid)
  with lease_inv_end [OF inv, of "ls_threads s" nid] show ?thesis by simp
qed

section \<open>Properties\<close>

lemma lease_run_inv: "lease_step\<^sup>*\<^sup>* s s' \<Longrightarrow> lease_inv s \<Longrightarrow> lease_inv s'"
  by (induction rule: rtranclp_induct) (auto intro: lease_inv_step)

text \<open>
  C21. While a follower is being synchronised, for the whole term of its lease (30 seconds counted from
  the request), no write is in progress on the leader, neither one that began before the sync nor a
  new one, however writes, expiry checks, heartbeats, calls of \<open>/internal/sync-done\<close> and other syncs
  interleave: unless somebody else ended the lease of that node in the meantime, as the end of an
  overlapping sync of the same node does, or a \<open>sync-done\<close> for it.
\<close>

theorem sync_excludes_writes:
  assumes "lease_step\<^sup>*\<^sup>* (lease_init mt start) s" "th \<in> set (ls_threads s)" "th_granted th" "\<not> th_dropped th"
    and "ls_now s \<le> th_since th + lease_ttl"
  shows "sv_active_writes (ls_svc s) = 0"
  using lease_invD(4) [OF lease_run_inv [OF assms(1) lease_inv_init] assms(2)] assms(3-5) by simp

definition no_metrics :: metrics where
  "no_metrics = \<lparr>mt_buckets_total = 0, mt_objects_total = [], mt_storage_used = [], mt_cluster_role = 0,
     mt_cluster_status = [], mt_sync_lease_active = 0, mt_writes_blocked = 0, mt_active_writes = 0,
     mt_prepare_total = [], mt_commit_total = [], mt_abort_total = []\<rparr>"

text \<open>A follower's sync, requested and granted at time 0.\<close>

definition demo_thread :: sync_thread where
  "demo_thread = \<lparr>th_node = ''n2'', th_since = 0, th_granted = False, th_dropped = False\<rparr>"

definition synced_sys :: "metrics \<Rightarrow> lease_sys" where
  "synced_sys mt =
     \<lparr>ls_svc = grant_lease (register_lease 0 ''n2'' (new_service mt)), ls_now = 0,
      ls_threads = [demo_thread\<lparr>th_granted := True\<rparr>]\<rparr>"

lemma synced_run: "lease_step\<^sup>*\<^sup>* (lease_init mt 0) (synced_sys mt)"
proof -
  let ?s1 = "\<lparr>ls_svc = register_lease 0 ''n2'' (new_service mt), ls_now = 0, ls_threads = [demo_thread]\<rparr>"
  have node: "lease_node ''n2'' = ''n2''" by (simp add: lease_node_def)
  have 1: "lease_step (lease_init mt 0) ?s1"
    using lease_step.sync_requested [of "lease_init mt 0" "''n2''"]
    by (simp add: lease_init_def demo_thread_def node)
  have 2: "lease_step ?s1 (synced_sys mt)"
    using lease_step.sync_granted [of ?s1 "[]" demo_thread "[]"]
    by (simp add: synced_sys_def demo_thread_def lease_drained_def new_service_def)
  from 1 2 show ?thesis by (meson converse_rtranclp_into_rtranclp rtranclp.rtrancl_refl)
qed

theorem sync_excludes_writes_witness: "sv_active_writes (ls_svc (synced_sys no_metrics)) = 0"
  by (rule sync_excludes_writes [OF synced_run, of "demo_thread\<lparr>th_granted := True\<rparr>"])
    (simp_all add: synced_sys_def demo_thread_def lease_ttl_def second_def)

text \<open>
  Nothing renews the lease of a sync the leader drives: once the term has passed a write enters
  while the follower is still being synchronised.
\<close>

theorem long_sync_admits_writes:
  "\<exists>s th. lease_step\<^sup>*\<^sup>* (lease_init mt 0) s \<and> th \<in> set (ls_threads s) \<and> th_granted th \<and> \<not> th_dropped th \<and>
     sv_active_writes (ls_svc s) = 1"
proof -
  let ?s1 = "synced_sys mt\<lparr>ls_now := ls_now (synced_sys mt) + (lease_ttl + 1)\<rparr>"
  let ?s2 = "?s1\<lparr>ls_svc := snd (write_gate (ls_now ?s1) (ls_svc ?s1))\<rparr>"
  have 1: "lease_step (synced_sys mt) ?s1"
    by (rule lease_step.time_passes) (simp add: lease_ttl_def second_def)
  have 2: "lease_step ?s1 ?s2" by (rule lease_step.write_tries)
  have blocked: "\<not> fst (writes_blocked (ls_now ?s1) (ls_svc ?s1))"
    by (auto simp: writes_blocked_iff synced_sys_def new_service_def)
  from gate_open [OF blocked] have "sv_active_writes (ls_svc ?s2) = 1"
    by (simp add: synced_sys_def new_service_def)
  moreover have "lease_step\<^sup>*\<^sup>* (lease_init mt 0) ?s2"
    by (rule rtranclp.rtrancl_into_rtrancl [OF rtranclp.rtrancl_into_rtrancl [OF synced_run 1] 2])
  moreover have "demo_thread\<lparr>th_granted := True\<rparr> \<in> set (ls_threads ?s2)" "\<not> th_dropped demo_thread"
    by (simp_all add: synced_sys_def demo_thread_def)
  ultimately show ?thesis
    by (intro exI [of _ ?s2] exI [of _ "demo_thread\<lparr>th_granted := True\<rparr>"]) simp
qed

text \<open>
  Leases are kept by node name, not by request: when a follower's second request overlaps its
  first, the end of the first removes the lease of the second, and a write enters within its term.
\<close>

theorem overlapping_sync_admits_writes:
  "\<exists>s th. lease_step\<^sup>*\<^sup>* (lease_init mt 0) s \<and> th \<in> set (ls_threads s) \<and> th_granted th \<and>
     ls_now s = th_since th \<and> sv_active_writes (ls_svc s) = 1"
proof -
  have node: "lease_node ''n2'' = ''n2''" by (simp add: lease_node_def)
  let ?th = "demo_thread\<lparr>th_granted := True\<rparr>"
  let ?v1 = "register_lease 0 ''n2'' (ls_svc (synced_sys mt))"
  let ?v2 = "end_sync_lease ''n2'' (grant_lease ?v1)"
  let ?s1 = "\<lparr>ls_svc = ?v1, ls_now = 0, ls_threads = [demo_thread, ?th]\<rparr>"
  let ?s2 = "\<lparr>ls_svc = grant_lease ?v1, ls_now = 0, ls_threads = [?th, ?th]\<rparr>"
  let ?s3 = "\<lparr>ls_svc = ?v2, ls_now = 0, ls_threads = [?th\<lparr>th_dropped := True\<rparr>]\<rparr>"
  let ?s4 = "\<lparr>ls_svc = snd (write_gate 0 ?v2), ls_now = 0, ls_threads = [?th\<lparr>th_dropped := True\<rparr>]\<rparr>"
  let ?th' = "?th\<lparr>th_dropped := True\<rparr>"
  have "lease_step\<^sup>*\<^sup>* (lease_init mt 0) (synced_sys mt)" by (rule synced_run)
  also have "lease_step (synced_sys mt) ?s1"
    using lease_step.sync_requested [of "synced_sys mt" "''n2''"]
    by (simp add: synced_sys_def demo_thread_def node)
  also have "lease_step ?s1 ?s2"
    using lease_step.sync_granted [of ?s1 "[]" demo_thread "[?th]"]
    by (simp add: demo_thread_def lease_drained_def synced_sys_def new_service_def)
  also have "lease_step ?s2 ?s3"
    using lease_step.sync_ends [of ?s2 "[]" ?th "[?th]"] by (simp add: demo_thread_def drop_lease_def)
  also have "lease_step ?s3 ?s4"
    using lease_step.write_tries [of ?s3] by simp
  finally have run: "lease_step\<^sup>*\<^sup>* (lease_init mt 0) ?s4" .
  have v2: "sv_syncing ?v2 = []" "sv_active_writes ?v2 = 0"
    by (simp_all add: synced_sys_def new_service_def node)
  then have "\<not> fst (writes_blocked 0 ?v2)" unfolding writes_blocked_iff by simp
  from gate_open [OF this] v2(2) have "sv_active_writes (snd (write_gate 0 ?v2)) = 1" by simp
  with run show ?thesis by (intro exI [of _ ?s4] exI [of _ ?th']) (simp add: demo_thread_def)
qed

end
