(* ===== verification/Node.thy ===== *)
theory Node
  imports FsRepo Leases
begin

text \<open>
  One running node and the internal API it serves to the others
  (\<open>internal/internal_api/handlers.go\<close>): its storage, its cluster manager and its service
  state, one definition per handler, and \<open>serve\<close>, the mux behind the token check.

  Requests and responses are what \<open>net/http\<close> hands over: method, path, decoded query, headers,
  body.  A JSON body or the base64 JSON metadata header is the value it decodes to, or the fact that
  it does not decode.
\<close>

section \<open>The cluster manager of a node\<close>

datatype cluster_manager =
    Standalone standalone_manager
  | Static static_manager
  | K8s k8s_manager

fun mgr_node_id :: "cluster_manager \<Rightarrow> string" where
  "mgr_node_id (Standalone m) = sa_node_id m"
| "mgr_node_id (Static m) = sm_local_id m"
| "mgr_node_id (K8s m) = km_local_id m"

fun mgr_is_leader :: "int \<Rightarrow> cluster_manager \<Rightarrow> bool" where
  "mgr_is_leader now (Standalone m) = sa_is_leader m"
| "mgr_is_leader now (Static m) = sm_is_leader m"
| "mgr_is_leader now (K8s m) = km_is_leader now m"

fun mgr_leader_address :: "cluster_manager \<Rightarrow> string" where
  "mgr_leader_address (Standalone m) = []"
| "mgr_leader_address (Static m) = sm_leader_internal_address m"
| "mgr_leader_address (K8s m) = km_leader_address m"

fun mgr_alive_followers :: "cluster_manager \<Rightarrow> string list" where
  "mgr_alive_followers (Standalone m) = sa_alive_followers m"
| "mgr_alive_followers (Static m) = sm_alive_followers m"
| "mgr_alive_followers (K8s m) = km_alive_followers m"

fun mgr_known_followers :: "cluster_manager \<Rightarrow> string list" where
  "mgr_known_followers (Standalone m) = []"
| "mgr_known_followers (Static m) = sm_known_followers m"
| "mgr_known_followers (K8s m) = km_known_followers m"

fun mgr_status :: "cluster_manager \<Rightarrow> string" where
  "mgr_status (Standalone m) = ''READY''"
| "mgr_status (Static m) = sm_local_status m"
| "mgr_status (K8s m) = km_local_status m"

fun mgr_set_local_status :: "string \<Rightarrow> cluster_manager \<Rightarrow> cluster_manager" where
  "mgr_set_local_status st (Standalone m) = Standalone m"
| "mgr_set_local_status st (Static m) = Static (sm_set_local_status st m)"
| "mgr_set_local_status st (K8s m) = K8s (km_set_local_status st m)"

fun mgr_mark_dead :: "string \<Rightarrow> cluster_manager \<Rightarrow> cluster_manager" where
  "mgr_mark_dead addr (Standalone m) = Standalone (sa_mark_dead addr m)"
| "mgr_mark_dead addr (Static m) = Static (sm_mark_dead addr m)"
| "mgr_mark_dead addr (K8s m) = K8s (km_mark_dead addr m)"

fun mgr_mark_alive :: "string \<Rightarrow> string \<Rightarrow> cluster_manager \<Rightarrow> cluster_manager" where
  "mgr_mark_alive nid addr (Standalone m) = Standalone m"
| "mgr_mark_alive nid addr (Static m) = Static (sm_mark_alive nid addr m)"
| "mgr_mark_alive nid addr (K8s m) = K8s (km_mark_alive nid addr m)"

fun mgr_register_follower :: "string \<Rightarrow> string \<Rightarrow> cluster_manager \<Rightarrow> cluster_manager" where
  "mgr_register_follower nid addr (Standalone m) = Standalone m"
| "mgr_register_follower nid addr (Static m) = Static (sm_register_follower nid addr m)"
| "mgr_register_follower nid addr (K8s m) = K8s (km_register_follower nid addr m)"

text \<open>Whatever kind it is, a manager honours the contract of a failed transaction.\<close>

fun mgr_inv :: "cluster_manager \<Rightarrow> bool" where
  "mgr_inv (Standalone m) = True"
| "mgr_inv (Static m) = sm_inv m"
| "mgr_inv (K8s m) = km_inv m"

interpretation mgr: membership mgr_inv mgr_alive_followers mgr_mark_dead
proof
  fix s a
  assume "mgr_inv s"
  then show "mgr_inv (mgr_mark_dead a s)"
    by (cases s) (auto intro: sm.dead_inv km.dead_inv)
  from \<open>mgr_inv s\<close> show "set (mgr_alive_followers (mgr_mark_dead a s)) = set (mgr_alive_followers s) - {a}"
    by (cases s) (auto simp: sa.dead_alive sm.dead_alive km.dead_alive)
qed

text \<open>The nodes a manager can take in as followers; the standalone one takes none.\<close>

fun mgr_admits :: "string \<Rightarrow> cluster_manager \<Rightarrow> bool" where
  "mgr_admits n (Standalone m) = False"
| "mgr_admits n (Static m) = sm_admits n m"
| "mgr_admits n (K8s m) = km_admits n m"

interpretation rejoin: readmission mgr_inv mgr_alive_followers mgr_mark_dead mgr_admits mgr_register_follower mgr_mark_alive
proof
  fix n s and a :: string
  show "mgr_admits n s \<Longrightarrow> a \<noteq> [] \<Longrightarrow> a \<in> set (mgr_alive_followers (mgr_mark_alive n a (mgr_register_follower n a s)))"
    by (cases s) (auto intro: sr.revive_alive kr.revive_alive)
  show "mgr_admits n (mgr_mark_dead a s) = mgr_admits n s"
    by (cases s) (auto simp: sr.admits_dead kr.admits_dead)
qed

section \<open>The node\<close>

record server =
  sr_root :: path
  sr_token :: string
  sr_fs :: repo_fs
  sr_mgr :: cluster_manager
  sr_svc :: svc

text \<open>A storage operation run on the node.\<close>

definition on_storage :: "(path \<Rightarrow> 'a repo_io) \<Rightarrow> (server, gerror, 'a) io" where
  "on_storage m sr = (case m (sr_root sr) (sr_fs sr) of (r, fs) \<Rightarrow> (r, sr\<lparr>sr_fs := fs\<rparr>))"

section \<open>Requests and responses\<close>

text \<open>An entry of \<open>KeysResponse\<close>.\<close>

record key_info =
  ki_bucket :: string
  ki_key :: string
  ki_crc32 :: u32
  ki_size :: int
  ki_modified_at :: int

record health_response = health_resp +
  hp_node_id :: string
  hp_role :: string
  hp_version :: string

datatype meta_header = NoMeta | BadBase64 | BadMetaJson | MetaOf object_meta

datatype req_body =
    RawBody stream
  | CommitBody string string string
  | AbortBody string
  | KeysBody "key_info list"
  | MetaBody object_meta
  | BadJson

record request =
  rq_method :: string
  rq_path :: string
  rq_query :: "(string \<times> string) list"
  rq_headers :: "(string \<times> string) list"
  rq_meta :: meta_header
  rq_body :: req_body
  rq_length :: int

datatype payload =
    NoPayload
  | ErrText string
  | StatusJson string
  | HealthJson health_response
  | TxStatusJson string string
  | KeysJson "key_info list" int int
  | MetaJson object_meta
  | ObjectBytes object_meta stream
  | ShardBytes stream

record response =
  rs_status :: int
  rs_payload :: payload

definition reply :: "int \<Rightarrow> payload \<Rightarrow> response" where
  "reply st p = \<lparr>rs_status = st, rs_payload = p\<rparr>"

definition lookup :: "(string \<times> string) list \<Rightarrow> string \<Rightarrow> string" where
  "lookup xs nm = (case map_of xs nm of None \<Rightarrow> [] | Some v \<Rightarrow> v)"

definition hget :: "request \<Rightarrow> string \<Rightarrow> string" where
  "hget rq nm = lookup (rq_headers rq) nm"

definition qget :: "request \<Rightarrow> string \<Rightarrow> string" where
  "qget rq nm = lookup (rq_query rq) nm"

text \<open>The body as a byte stream; only raw bodies are ever read as one.\<close>

fun raw_body :: "req_body \<Rightarrow> stream" where
  "raw_body (RawBody st) = st"
| "raw_body _ = bytes_stream []"

text \<open>\<open>err.Error()\<close>.  Of the two paths of a rename error only the one kept is named.\<close>

fun errno_text :: "errno \<Rightarrow> string" where
  "errno_text ENOENT = ''no such file or directory''"
| "errno_text ENOTDIR = ''not a directory''"
| "errno_text EISDIR = ''is a directory''"
| "errno_text EEXIST = ''file exists''"
| "errno_text ENOTEMPTY = ''directory not empty''"
| "errno_text EINVAL = ''invalid argument''"

fun err_text :: "gerror \<Rightarrow> string" where
  "err_text ErrNotExist = ''file does not exist''"
| "err_text (PathErr op p e) = op @ '' /'' @ join_with ''/'' p @ '': '' @ errno_text e"
| "err_text (ErrMsg s) = s"
| "err_text (Wrapped s e) = s @ '': '' @ err_text e"
| "err_text Panic = []"

section \<open>Handlers\<close>

type_synonym handler = "env \<Rightarrow> request \<Rightarrow> server \<Rightarrow> response \<times> server"

text \<open>\<open>if r.Method != m { w.WriteHeader(405); return }\<close>\<close>

definition only :: "string \<Rightarrow> handler \<Rightarrow> handler" where
  "only m h ev rq sr = (if rq_method rq \<noteq> m then (reply 405 NoPayload, sr) else h ev rq sr)"

definition bad_request :: "string \<Rightarrow> server \<Rightarrow> response \<times> server" where
  "bad_request msg sr = (reply 400 (ErrText msg), sr)"

text \<open>A storage call whose error becomes the response.\<close>

definition storage_reply ::
    "int \<Rightarrow> ('a \<Rightarrow> payload) \<Rightarrow> (path \<Rightarrow> 'a repo_io) \<Rightarrow> server \<Rightarrow> response \<times> server" where
  "storage_reply bad ok m sr =
     (case on_storage m sr of
        (Inl e, sr') \<Rightarrow> (reply bad (ErrText (err_text e)), sr')
      | (Inr a, sr') \<Rightarrow> (reply 200 (ok a), sr'))"

text \<open>Objects and bytes of one bucket, as \<open>ListObjectsV2\<close> reports them; nothing on an error.\<close>

definition bucket_contents :: "path \<Rightarrow> int \<Rightarrow> repo_fs \<Rightarrow> string \<Rightarrow> object_info list" where
  "bucket_contents root limit fs b =
     (case fst (list_objects_v2 root b [] [] [] limit fs) of
        Inl _ \<Rightarrow> [] | Inr res \<Rightarrow> lr_contents res)"

definition storage_totals :: "path \<Rightarrow> repo_fs \<Rightarrow> int \<times> int" where
  "storage_totals root fs =
     (case fst (list_buckets root fs) of
        Inl _ \<Rightarrow> (0, 0)
      | Inr bs \<Rightarrow>
          (let os = concat (map (bucket_contents root 100000 fs) bs)
           in (int (length os), sum_list (map oi_size os))))"

definition handle_health :: handler where
  "handle_health = only ''GET'' (\<lambda>ev rq sr.
     (reply 200 (HealthJson
        \<lparr>hr_state = mgr_status (sr_mgr sr), hr_uptime = ev_now ev div second,
         hr_objects = fst (storage_totals (sr_root sr) (sr_fs sr)),
         hr_storage = snd (storage_totals (sr_root sr) (sr_fs sr)),
         hp_node_id = mgr_node_id (sr_mgr sr),
         hp_role = (if mgr_is_leader (ev_now ev) (sr_mgr sr) then ''leader'' else ''follower''),
         hp_version = ''0.1.0''\<rparr>), sr))"

text \<open>\<open>strconv.ParseUint(s, 10, 32)\<close>\<close>

definition parse_u32 :: "string \<Rightarrow> u32 option" where
  "parse_u32 s =
     (case parse_udec s of None \<Rightarrow> None | Some n \<Rightarrow> if n < 2 ^ 32 then Some (word_of_int n) else None)"

definition prepare_meta :: "string \<Rightarrow> object_meta \<Rightarrow> object_meta" where
  "prepare_meta crc m = (case parse_u32 crc of None \<Rightarrow> m | Some c \<Rightarrow> m\<lparr>om_crc32 := c\<rparr>)"

definition handle_prepare :: handler where
  "handle_prepare = only ''POST'' (\<lambda>ev rq sr.
     (let txid = hget rq ''X-MicroS3-TxID''; op = hget rq ''X-MicroS3-Operation'';
          bucket = hget rq ''X-MicroS3-Bucket''; key = hget rq ''X-MicroS3-Key'';
          crc = hget rq ''X-MicroS3-CRC32'';
          go = (\<lambda>meta. storage_reply 500 (\<lambda>_. StatusJson ''PREPARED'')
            (\<lambda>root. stage_object root ev txid (raw_body (rq_body rq)) (rq_length rq) (prepare_meta crc meta)
               \<lparr>tx_id = txid, tx_operation = op, tx_bucket = bucket, tx_key = key,
                tx_state = TxPrepared, tx_created_at = ev_now ev\<rparr>) sr)
      in if txid = [] \<or> op = [] \<or> bucket = [] \<or> key = [] then bad_request ''Missing required headers'' sr
         else case rq_meta rq of
           BadBase64 \<Rightarrow> bad_request ''Invalid X-MicroS3-Meta base64'' sr
         | BadMetaJson \<Rightarrow> bad_request ''Invalid metadata JSON'' sr
         | NoMeta \<Rightarrow> go empty_meta
         | MetaOf m \<Rightarrow> go m))"

definition handle_commit :: handler where
  "handle_commit = only ''POST'' (\<lambda>ev rq sr.
     case rq_body rq of
       CommitBody txid bucket key \<Rightarrow>
         storage_reply 500 (\<lambda>_. StatusJson ''COMMITTED'') (\<lambda>root. commit_transaction root txid bucket key) sr
     | _ \<Rightarrow> bad_request ''Invalid JSON body'' sr)"

definition handle_abort :: handler where
  "handle_abort = only ''POST'' (\<lambda>ev rq sr.
     case rq_body rq of
       AbortBody txid \<Rightarrow>
         storage_reply 500 (\<lambda>_. StatusJson ''ABORTED'') (\<lambda>root. abort_transaction root txid) sr
     | _ \<Rightarrow> bad_request ''Invalid JSON body'' sr)"

definition handle_tx_status :: handler where
  "handle_tx_status = only ''GET'' (\<lambda>ev rq sr.
     (let txid = qget rq ''tx_id'' in
      if txid = [] then bad_request ''Missing tx_id query parameter'' sr
      else case on_storage (\<lambda>root. get_transaction root txid) sr of
        (Inl _, sr') \<Rightarrow> (reply 200 (TxStatusJson txid ''UNKNOWN''), sr')
      | (Inr tx, sr') \<Rightarrow> (reply 200 (TxStatusJson txid (tx_state tx)), sr')))"

text \<open>The keys of one bucket: a listed key whose metadata cannot be read is skipped.\<close>

definition bucket_keys :: "path \<Rightarrow> repo_fs \<Rightarrow> string \<Rightarrow> key_info list" where
  "bucket_keys root fs b =
     concat (map (\<lambda>c. case fst (get_object_meta root b (oi_key c) fs) of
         Inl _ \<Rightarrow> []
       | Inr m \<Rightarrow> [\<lparr>ki_bucket = b, ki_key = oi_key c, ki_crc32 = om_crc32 m, ki_size = oi_size c,
                     ki_modified_at = oi_last_modified c\<rparr>])
       (bucket_contents root 1000000 fs b))"

definition handle_keys :: handler where
  "handle_keys = only ''GET'' (\<lambda>ev rq sr.
     case on_storage list_buckets sr of
       (Inl e, sr') \<Rightarrow> (reply 500 (ErrText (err_text e)), sr')
     | (Inr bs, sr') \<Rightarrow>
         (let ks = concat (map (bucket_keys (sr_root sr') (sr_fs sr')) bs)
          in (reply 200 (KeysJson ks (int (length ks)) (sum_list (map ki_size ks))), sr')))"

text \<open>\<open>if bucket == "" || key == "" { http.Error(w, msg, 400); return }\<close>\<close>

definition with_object :: "string \<Rightarrow> (string \<Rightarrow> string \<Rightarrow> handler) \<Rightarrow> handler" where
  "with_object msg h ev rq sr =
     (let bucket = qget rq ''bucket''; key = qget rq ''key'' in
      if bucket = [] \<or> key = [] then bad_request msg sr else h bucket key ev rq sr)"

definition no_object_query :: string where
  "no_object_query = ''Missing bucket or key query parameter''"

definition handle_object :: handler where
  "handle_object = only ''GET'' (with_object no_object_query (\<lambda>bucket key ev rq sr.
     storage_reply 404 (\<lambda>(st, m). ObjectBytes m st) (\<lambda>root. get_object root bucket key) sr))"

definition handle_sync_done :: handler where
  "handle_sync_done = only ''POST'' (\<lambda>ev rq sr.
     (let nid = qget rq ''node_id''; addr = qget rq ''internal_addr'';
          sr1 = (if nid \<noteq> [] then sr\<lparr>sr_mgr := mgr_mark_alive nid addr (sr_mgr sr)\<rparr> else sr)
      in (reply 200 NoPayload, sr1\<lparr>sr_svc := end_sync_lease nid (sr_svc sr1)\<rparr>)))"

definition handle_sync_heartbeat :: handler where
  "handle_sync_heartbeat = only ''POST'' (\<lambda>ev rq sr.
     (reply 200 NoPayload,
      sr\<lparr>sr_svc := heartbeat_sync_lease (ev_now ev) (qget rq ''node_id'') (sr_svc sr)\<rparr>))"

text \<open>The deletions of a sync: errors are logged and dropped.\<close>

definition delete_keys :: "key_info list \<Rightarrow> path \<Rightarrow> unit repo_io" where
  "delete_keys ks root = forE ks (\<lambda>k. ignoreE (delete_object root (ki_bucket k) (ki_key k)))"

definition handle_sync_delete :: handler where
  "handle_sync_delete = only ''POST'' (\<lambda>ev rq sr.
     case rq_body rq of
       KeysBody ks \<Rightarrow> storage_reply 500 (\<lambda>_. StatusJson ''DELETED'') (delete_keys ks) sr
     | _ \<Rightarrow> bad_request ''Invalid JSON body'' sr)"

definition handle_set_status :: handler where
  "handle_set_status = only ''POST'' (\<lambda>ev rq sr.
     (let status = qget rq ''status'' in
      if status = [] then bad_request ''missing status parameter'' sr
      else (reply 200 NoPayload, sr\<lparr>sr_mgr := mgr_set_local_status status (sr_mgr sr)\<rparr>)))"

definition handle_ec_meta :: handler where
  "handle_ec_meta = only ''GET'' (with_object no_object_query (\<lambda>bucket key ev rq sr.
     storage_reply 404 MetaJson (\<lambda>root. get_object_meta root bucket key) sr))"

text \<open>The query of the two shard handlers.\<close>

definition with_shard :: "(string \<Rightarrow> string \<Rightarrow> int \<Rightarrow> handler) \<Rightarrow> handler" where
  "with_shard h ev rq sr =
     (let bucket = qget rq ''bucket''; key = qget rq ''key''; idx = qget rq ''shard_index'' in
      if bucket = [] \<or> key = [] \<or> idx = []
      then bad_request ''Missing bucket, key, or shard_index query parameter'' sr
      else case atoi idx of
        None \<Rightarrow> bad_request ''Invalid shard_index'' sr
      | Some i \<Rightarrow> h bucket key i ev rq sr)"

definition handle_ec_shard :: handler where
  "handle_ec_shard = only ''GET'' (with_shard (\<lambda>bucket key i ev rq sr.
     storage_reply 404 ShardBytes (\<lambda>root. get_ec_shard root bucket key i) sr))"

definition handle_ec_put_shard :: handler where
  "handle_ec_put_shard = only ''POST'' (with_shard (\<lambda>bucket key i ev rq sr.
     case rq_meta rq of
       NoMeta \<Rightarrow> bad_request ''Missing X-MicroS3-Meta header'' sr
     | BadBase64 \<Rightarrow> bad_request ''Invalid X-MicroS3-Meta base64'' sr
     | BadMetaJson \<Rightarrow> bad_request ''Invalid metadata JSON'' sr
     | MetaOf m \<Rightarrow>
         storage_reply 500 (\<lambda>_. StatusJson ''OK'')
           (\<lambda>root. put_ec_shard root ev bucket key i (raw_body (rq_body rq)) (rq_length rq) m) sr))"

definition handle_ec_remove_replica :: handler where
  "handle_ec_remove_replica = only ''POST'' (with_object no_object_query (\<lambda>bucket key ev rq sr.
     storage_reply 500 (\<lambda>_. StatusJson ''OK'') (\<lambda>root. remove_replica_data root bucket key) sr))"

definition handle_ec_update_meta :: handler where
  "handle_ec_update_meta = only ''POST'' (with_object no_object_query (\<lambda>bucket key ev rq sr.
     case rq_body rq of
       MetaBody m \<Rightarrow>
         storage_reply 500 (\<lambda>_. StatusJson ''OK'') (\<lambda>root. update_object_meta root ev bucket key m) sr
     | _ \<Rightarrow> bad_request ''Invalid metadata JSON'' sr))"

section \<open>The mux and the token check\<close>

text \<open>
  The routes one node answers on its own.  \<open>sync-start\<close> and \<open>sync-request\<close>, which wait for other
  activities, and \<open>s3-proxy\<close>, which enters the S3 handler, are not among them.
\<close>

definition routes :: "(string \<times> handler) list" where
  "routes =
     [(''/internal/health'', handle_health), (''/internal/prepare'', handle_prepare),
      (''/internal/commit'', handle_commit), (''/internal/abort'', handle_abort),
      (''/internal/tx-status'', handle_tx_status), (''/internal/keys'', handle_keys),
      (''/internal/object'', handle_object), (''/internal/sync-done'', handle_sync_done),
      (''/internal/sync-heartbeat'', handle_sync_heartbeat),
      (''/internal/sync-delete'', handle_sync_delete), (''/internal/set-status'', handle_set_status),
      (''/internal/ec-meta'', handle_ec_meta), (''/internal/ec-shard'', handle_ec_shard),
      (''/internal/ec-put-shard'', handle_ec_put_shard),
      (''/internal/ec-update-meta'', handle_ec_update_meta),
      (''/internal/ec-remove-replica'', handle_ec_remove_replica)]"

definition mux :: handler where
  "mux ev rq sr =
     (case map_of routes (rq_path rq) of
        None \<Rightarrow> (reply 404 (ErrText ''404 page not found''), sr)
      | Some h \<Rightarrow> h ev rq sr)"

definition serve :: handler where
  "serve ev rq sr =
     (if hget rq ''X-MicroS3-Token'' \<noteq> sr_token sr
      then (reply 401 (ErrText ''Unauthorized: Token mismatch''), sr)
      else mux ev rq sr)"

end
