(* ===== verification/Network.thy ===== *)
theory Network
  imports Node
begin

text \<open>
  The cluster as the node that runs the code sees it: itself, the peers it can reach by their
  internal address, and the client of \<open>internal/internal_api/client.go\<close>.

  The world outside is a parameter of the state: what the clock shows, which UUID is drawn and what
  becomes of a request at each tick of a counter that every use advances.  A request arrives and is
  answered, is lost, arrives with its reply lost, or arrives or is answered with the body cut short.
  Requests sent by parallel goroutines go to different peers and touch nothing else; they run one
  after the other here.
\<close>

section \<open>The world\<close>

datatype fate = Delivered | Lost | ReplyLost | Cut nat | ReplyCut nat

record world =
  w_self :: server
  w_peers :: "(string \<times> server) list"
  w_tick :: nat
  w_clock :: "nat \<Rightarrow> int"
  w_ids :: "nat \<Rightarrow> string"
  w_net :: "nat \<Rightarrow> fate"

type_synonym 'a world_io = "(world, gerror, 'a) io"

definition w_now :: "world \<Rightarrow> int" where
  "w_now w = w_clock w (w_tick w)"

definition now_env :: "world \<Rightarrow> env" where
  "now_env w = \<lparr>ev_now = w_now w, ev_uuid = w_ids w (w_tick w)\<rparr>"

definition tick :: "world \<Rightarrow> world" where
  "tick w = w\<lparr>w_tick := Suc (w_tick w)\<rparr>"

definition upd_self :: "(server \<Rightarrow> server) \<Rightarrow> world \<Rightarrow> world" where
  "upd_self f w = w\<lparr>w_self := f (w_self w)\<rparr>"

definition upd_svc :: "(svc \<Rightarrow> svc) \<Rightarrow> world \<Rightarrow> world" where
  "upd_svc f = upd_self (\<lambda>sr. sr\<lparr>sr_svc := f (sr_svc sr)\<rparr>)"

definition upd_mgr :: "(cluster_manager \<Rightarrow> cluster_manager) \<Rightarrow> world \<Rightarrow> world" where
  "upd_mgr f = upd_self (\<lambda>sr. sr\<lparr>sr_mgr := f (sr_mgr sr)\<rparr>)"

definition alive_followers :: "world \<Rightarrow> string list" where
  "alive_followers w = mgr_alive_followers (sr_mgr (w_self w))"

definition known_followers :: "world \<Rightarrow> string list" where
  "known_followers w = mgr_known_followers (sr_mgr (w_self w))"

text \<open>An operation on the node's own storage.\<close>

definition local :: "(path \<Rightarrow> env \<Rightarrow> 'a repo_io) \<Rightarrow> 'a world_io" where
  "local m w =
     (case on_storage (\<lambda>root. m root (now_env w)) (w_self w) of
        (r, sr) \<Rightarrow> (r, tick (w\<lparr>w_self := sr\<rparr>)))"

section \<open>HTTP\<close>

text \<open>What \<open>net/http\<close> does with a header value: a control character is an error, spaces around it
  are trimmed.\<close>

definition header_char_ok :: "char \<Rightarrow> bool" where
  "header_char_ok c \<longleftrightarrow> (let n = of_char c :: nat in n = 9 \<or> (32 \<le> n \<and> n \<noteq> 127))"

definition header_trim :: "string \<Rightarrow> string" where
  "header_trim = trim_chars [CHR '' '', char_of (9 :: nat), char_of (10 :: nat), char_of (13 :: nat)]"

definition headers_ok :: "request \<Rightarrow> bool" where
  "headers_ok rq \<longleftrightarrow> list_all (\<lambda>(nm, v). list_all header_char_ok v) (rq_headers rq)"

definition wire :: "request \<Rightarrow> request" where
  "wire rq = rq\<lparr>rq_headers := map (\<lambda>(nm, v). (nm, header_trim v)) (rq_headers rq)\<rparr>"

definition cut_stream :: "nat \<Rightarrow> stream \<Rightarrow> stream" where
  "cut_stream n st = \<lparr>st_bytes = take n (st_bytes st), st_err = Some (ErrMsg ''unexpected EOF'')\<rparr>"

fun cut_body :: "nat \<Rightarrow> req_body \<Rightarrow> req_body" where
  "cut_body n (RawBody st) = RawBody (cut_stream n st)"
| "cut_body n _ = BadJson"

fun cut_payload :: "nat \<Rightarrow> payload \<Rightarrow> payload" where
  "cut_payload n (ObjectBytes m st) = ObjectBytes m (cut_stream n st)"
| "cut_payload n (ShardBytes st) = ShardBytes (cut_stream n st)"
| "cut_payload n _ = NoPayload"

definition deliver :: "string \<Rightarrow> request \<Rightarrow> server \<Rightarrow> world \<Rightarrow> response \<times> world" where
  "deliver addr rq sr w =
     (case serve (now_env w) rq sr of
        (rs, sr') \<Rightarrow> (rs, tick (w\<lparr>w_peers := AList.update addr sr' (w_peers w)\<rparr>)))"

text \<open>One round trip.\<close>

definition call :: "string \<Rightarrow> request \<Rightarrow> response world_io" where
  "call addr rq w =
     (if \<not> headers_ok rq then (Inl (ErrMsg ''net/http: invalid header field value''), tick w)
      else case map_of (w_peers w) addr of
        None \<Rightarrow> (Inl (ErrMsg ''connection refused''), tick w)
      | Some sr \<Rightarrow>
          (case w_net w (w_tick w) of
             Delivered \<Rightarrow> (case deliver addr (wire rq) sr w of (rs, w') \<Rightarrow> (Inr rs, w'))
           | Lost \<Rightarrow> (Inl (ErrMsg ''connection refused''), tick w)
           | ReplyLost \<Rightarrow>
               (case deliver addr (wire rq) sr w of (rs, w') \<Rightarrow> (Inl (ErrMsg ''connection reset''), w'))
           | Cut n \<Rightarrow>
               (case deliver addr ((wire rq)\<lparr>rq_body := cut_body n (rq_body rq)\<rparr>) sr w of
                  (rs, w') \<Rightarrow> (Inl (ErrMsg ''connection reset''), w'))
           | ReplyCut n \<Rightarrow>
               (case deliver addr (wire rq) sr w of
                  (rs, w') \<Rightarrow> (Inr (rs\<lparr>rs_payload := cut_payload n (rs_payload rs)\<rparr>), w'))))"

text \<open>
  A request body of announced size \<open>sz\<close> (not positive: sent in chunks) as the server reads it, and
  whether the transport is content with it.
\<close>

definition wire_stream :: "int \<Rightarrow> stream \<Rightarrow> stream \<times> bool" where
  "wire_stream sz st =
     (let bs = st_bytes st in
      if 0 < sz \<and> sz \<le> int (length bs)
      then (bytes_stream (take (nat sz) bs), sz = int (length bs) \<and> st_err st = None)
      else if 0 < sz \<or> st_err st \<noteq> None then (cut_stream (length bs) st, False)
      else (bytes_stream bs, True))"

definition wire_length :: "int \<Rightarrow> int" where
  "wire_length sz = (if 0 < sz then sz else -1)"

section \<open>The client\<close>

definition base_request :: "string \<Rightarrow> string \<Rightarrow> string \<Rightarrow> (string \<times> string) list \<Rightarrow> request" where
  "base_request token meth path query =
     \<lparr>rq_method = meth, rq_path = path, rq_query = query, rq_headers = [(''X-MicroS3-Token'', token)],
      rq_meta = NoMeta, rq_body = RawBody (bytes_stream []), rq_length = 0\<rparr>"

text \<open>\<open>setHeaders\<close>: the request of the node's client, with its cluster token.\<close>

definition request :: "world \<Rightarrow> string \<Rightarrow> string \<Rightarrow> (string \<times> string) list \<Rightarrow> request" where
  "request w meth path query = base_request (sr_token (w_self w)) meth path query"

definition payload_text :: "payload \<Rightarrow> string" where
  "payload_text p = (case p of ErrText s \<Rightarrow> s @ [char_of (10 :: nat)] | _ \<Rightarrow> [])"

definition status_error :: "string \<Rightarrow> string \<Rightarrow> response \<Rightarrow> gerror" where
  "status_error what addr rs =
     ErrMsg (what @ '' failed on '' @ addr @ '' with status '' @ itoa (rs_status rs) @ '': '' @
       payload_text (rs_payload rs))"

definition short_error :: "string \<Rightarrow> response \<Rightarrow> gerror" where
  "short_error what rs = ErrMsg (what @ '' failed with status: '' @ itoa (rs_status rs))"

text \<open>\<open>if resp.StatusCode != http.StatusOK { return ... }\<close>\<close>

definition expect_ok :: "(response \<Rightarrow> gerror) \<Rightarrow> (response \<Rightarrow> 'a world_io) \<Rightarrow> response \<Rightarrow> 'a world_io" where
  "expect_ok err k rs = (if rs_status rs \<noteq> 200 then failE (err rs) else k rs)"

definition bad_json :: "'a world_io" where
  "bad_json = failE (ErrMsg ''invalid json'')"

definition client_health :: "string \<Rightarrow> health_resp world_io" where
  "client_health addr w =
     bindE (call addr (request w ''GET'' ''/internal/health'' []))
       (expect_ok (short_error ''health check'')
         (\<lambda>rs. case rs_payload rs of HealthJson h \<Rightarrow> retE (health_resp.truncate h) | _ \<Rightarrow> bad_json)) w"

definition prepare_request :: "world \<Rightarrow> transaction \<Rightarrow> object_meta \<Rightarrow> stream option \<Rightarrow> int \<Rightarrow> request" where
  "prepare_request w tx meta body sz =
     (let rq = request w ''POST'' ''/internal/prepare'' [] in
      rq\<lparr>rq_headers := rq_headers rq @
           [(''X-MicroS3-TxID'', tx_id tx), (''X-MicroS3-Operation'', tx_operation tx),
            (''X-MicroS3-Bucket'', tx_bucket tx), (''X-MicroS3-Key'', tx_key tx),
            (''X-MicroS3-CRC32'', itoa (uint (om_crc32 meta)))],
         rq_meta := MetaOf meta,
         rq_body := RawBody (case body of None \<Rightarrow> bytes_stream [] | Some st \<Rightarrow> fst (wire_stream sz st)),
         rq_length := (case body of None \<Rightarrow> 0 | Some _ \<Rightarrow> wire_length sz)\<rparr>)"

definition body_sent :: "stream option \<Rightarrow> int \<Rightarrow> bool" where
  "body_sent body sz = (case body of None \<Rightarrow> True | Some st \<Rightarrow> snd (wire_stream sz st))"

definition body_error :: gerror where
  "body_error = ErrMsg ''http: request body''"

definition client_prepare ::
    "string \<Rightarrow> transaction \<Rightarrow> object_meta \<Rightarrow> stream option \<Rightarrow> int \<Rightarrow> unit world_io" where
  "client_prepare addr tx meta body sz w =
     bindE (call addr (prepare_request w tx meta body sz)) (\<lambda>rs.
       if \<not> body_sent body sz then failE body_error
       else expect_ok (status_error ''prepare'' addr) (\<lambda>_. retE ()) rs) w"

definition client_commit :: "string \<Rightarrow> string \<Rightarrow> string \<Rightarrow> string \<Rightarrow> unit world_io" where
  "client_commit addr txid bucket key w =
     bindE (call addr ((request w ''POST'' ''/internal/commit'' [])\<lparr>rq_body := CommitBody txid bucket key\<rparr>))
       (expect_ok (status_error ''commit'' addr) (\<lambda>_. retE ())) w"

definition client_abort :: "string \<Rightarrow> string \<Rightarrow> unit world_io" where
  "client_abort addr txid w =
     bindE (call addr ((request w ''POST'' ''/internal/abort'' [])\<lparr>rq_body := AbortBody txid\<rparr>))
       (expect_ok (status_error ''abort'' addr) (\<lambda>_. retE ())) w"

definition client_tx_status :: "string \<Rightarrow> string \<Rightarrow> (string \<times> string) world_io" where
  "client_tx_status addr txid w =
     bindE (call addr (request w ''GET'' ''/internal/tx-status'' [(''tx_id'', txid)]))
       (expect_ok (short_error ''tx-status request'')
         (\<lambda>rs. case rs_payload rs of TxStatusJson t s \<Rightarrow> retE (t, s) | _ \<Rightarrow> bad_json)) w"

definition client_get_keys :: "string \<Rightarrow> (key_info list) world_io" where
  "client_get_keys addr w =
     bindE (call addr (request w ''GET'' ''/internal/keys'' []))
       (expect_ok (short_error ''get keys'')
         (\<lambda>rs. case rs_payload rs of KeysJson ks n sz \<Rightarrow> retE ks | _ \<Rightarrow> bad_json)) w"

definition object_query :: "string \<Rightarrow> string \<Rightarrow> (string \<times> string) list" where
  "object_query bucket key = [(''bucket'', bucket), (''key'', key)]"

definition client_get_object :: "string \<Rightarrow> string \<Rightarrow> string \<Rightarrow> (stream \<times> object_meta) world_io" where
  "client_get_object addr bucket key w =
     bindE (call addr (request w ''GET'' ''/internal/object'' (object_query bucket key)))
       (expect_ok (short_error ''get object'')
         (\<lambda>rs. case rs_payload rs of ObjectBytes m st \<Rightarrow> retE (st, m) | _ \<Rightarrow> bad_json)) w"

definition client_sync_done :: "string \<Rightarrow> string \<Rightarrow> string \<Rightarrow> unit world_io" where
  "client_sync_done addr nid internal_addr w =
     bindE (call addr (request w ''POST'' ''/internal/sync-done''
         ((''node_id'', nid) # (if internal_addr \<noteq> [] then [(''internal_addr'', internal_addr)] else []))))
       (expect_ok (short_error ''sync-done'') (\<lambda>_. retE ())) w"

definition client_sync_heartbeat :: "string \<Rightarrow> string \<Rightarrow> unit world_io" where
  "client_sync_heartbeat addr nid w =
     bindE (call addr (request w ''POST'' ''/internal/sync-heartbeat'' [(''node_id'', nid)]))
       (expect_ok (short_error ''sync-heartbeat'') (\<lambda>_. retE ())) w"

definition client_sync_delete :: "string \<Rightarrow> key_info list \<Rightarrow> unit world_io" where
  "client_sync_delete addr ks w =
     bindE (call addr ((request w ''POST'' ''/internal/sync-delete'' [])\<lparr>rq_body := KeysBody ks\<rparr>))
       (expect_ok (status_error ''sync-delete'' addr) (\<lambda>_. retE ())) w"

definition client_set_status :: "string \<Rightarrow> string \<Rightarrow> unit world_io" where
  "client_set_status addr status w =
     bindE (call addr (request w ''POST'' ''/internal/set-status'' [(''status'', status)]))
       (expect_ok (short_error ''set-status'') (\<lambda>_. retE ())) w"

definition client_get_ec_meta :: "string \<Rightarrow> string \<Rightarrow> string \<Rightarrow> object_meta world_io" where
  "client_get_ec_meta addr bucket key w =
     bindE (call addr (request w ''GET'' ''/internal/ec-meta'' (object_query bucket key)))
       (expect_ok (status_error ''ec-meta'' addr)
         (\<lambda>rs. case rs_payload rs of MetaJson m \<Rightarrow> retE m | _ \<Rightarrow> bad_json)) w"

definition shard_query :: "string \<Rightarrow> string \<Rightarrow> int \<Rightarrow> (string \<times> string) list" where
  "shard_query bucket key i = object_query bucket key @ [(''shard_index'', itoa i)]"

definition client_get_ec_shard :: "string \<Rightarrow> string \<Rightarrow> string \<Rightarrow> int \<Rightarrow> stream world_io" where
  "client_get_ec_shard addr bucket key i w =
     bindE (call addr (request w ''GET'' ''/internal/ec-shard'' (shard_query bucket key i)))
       (expect_ok (status_error ''ec-shard'' addr)
         (\<lambda>rs. case rs_payload rs of ShardBytes st \<Rightarrow> retE st | _ \<Rightarrow> bad_json)) w"

definition client_put_ec_shard ::
    "string \<Rightarrow> string \<Rightarrow> string \<Rightarrow> int \<Rightarrow> object_meta \<Rightarrow> stream \<Rightarrow> int \<Rightarrow> unit world_io" where
  "client_put_ec_shard addr bucket key i meta st sz w =
     bindE (call addr ((request w ''POST'' ''/internal/ec-put-shard'' (shard_query bucket key i))
         \<lparr>rq_meta := MetaOf meta, rq_body := RawBody (fst (wire_stream sz st)),
          rq_length := wire_length sz\<rparr>)) (\<lambda>rs.
       if \<not> body_sent (Some st) sz then failE body_error
       else expect_ok (status_error ''ec-put-shard'' addr) (\<lambda>_. retE ()) rs) w"

definition client_remove_replica_data :: "string \<Rightarrow> string \<Rightarrow> string \<Rightarrow> unit world_io" where
  "client_remove_replica_data addr bucket key w =
     bindE (call addr (request w ''POST'' ''/internal/ec-remove-replica'' (object_query bucket key)))
       (expect_ok (status_error ''ec-remove-replica'' addr) (\<lambda>_. retE ())) w"

definition client_update_ec_meta :: "string \<Rightarrow> string \<Rightarrow> string \<Rightarrow> object_meta \<Rightarrow> unit world_io" where
  "client_update_ec_meta addr bucket key meta w =
     bindE (call addr ((request w ''POST'' ''/internal/ec-update-meta'' (object_query bucket key))
         \<lparr>rq_body := MetaBody meta\<rparr>))
       (expect_ok (status_error ''ec-update-meta'' addr) (\<lambda>_. retE ())) w"

end
