(* ===== verification/Service.thy ===== *)
theory Service
  imports Network
begin

text \<open>
  The application service (\<open>internal/application/s3app/service.go\<close>) and the replicator it drives
  (\<open>internal/replication/replicator.go\<close>): the two-phase commit of a write from the leader to every
  live follower, behind the write gate of \<open>Leases\<close>.
\<close>

section \<open>The replicator\<close>

text \<open>One goroutine per follower; the map of the errors, by address.\<close>

fun broadcast :: "(string \<Rightarrow> unit world_io) \<Rightarrow> string list \<Rightarrow> world \<Rightarrow> (string \<times> gerror) list \<times> world" where
  "broadcast f [] w = ([], w)"
| "broadcast f (addr # rest) w =
     (case f addr w of
        (r, w1) \<Rightarrow>
          (case broadcast f rest w1 of
             (errs, w2) \<Rightarrow> ((case r of Inl e \<Rightarrow> [(addr, e)] | Inr _ \<Rightarrow> []) @ errs, w2)))"

definition prepare_one :: "transaction \<Rightarrow> object_meta \<Rightarrow> string \<Rightarrow> unit world_io" where
  "prepare_one tx meta addr =
     (if tx_operation tx = OpPut
      then bindE (local (\<lambda>root ev. get_staged_object_reader root (tx_id tx))) (\<lambda>st.
             client_prepare addr tx meta (Some st) (om_content_length meta))
      else client_prepare addr tx meta None (om_content_length meta))"

definition prepare_all :: "transaction \<Rightarrow> object_meta \<Rightarrow> world \<Rightarrow> (string \<times> gerror) list \<times> world" where
  "prepare_all tx meta w = broadcast (prepare_one tx meta) (alive_followers w) w"

definition commit_all :: "string \<Rightarrow> string \<Rightarrow> string \<Rightarrow> world \<Rightarrow> (string \<times> gerror) list \<times> world" where
  "commit_all txid bucket key w =
     broadcast (\<lambda>addr. client_commit addr txid bucket key) (alive_followers w) w"

definition abort_all :: "string \<Rightarrow> world \<Rightarrow> (string \<times> gerror) list \<times> world" where
  "abort_all txid w = broadcast (\<lambda>addr. client_abort addr txid) (alive_followers w) w"

section \<open>Metrics and failures\<close>

definition upd_metrics :: "(metrics \<Rightarrow> metrics) \<Rightarrow> world \<Rightarrow> world" where
  "upd_metrics f = upd_svc (\<lambda>s. s\<lparr>sv_metrics := f (sv_metrics s)\<rparr>)"

definition inc_prepare :: "string \<Rightarrow> metrics \<Rightarrow> metrics" where
  "inc_prepare l mt = mt\<lparr>mt_prepare_total := inc_label l (mt_prepare_total mt)\<rparr>"

definition inc_commit :: "string \<Rightarrow> metrics \<Rightarrow> metrics" where
  "inc_commit l mt = mt\<lparr>mt_commit_total := inc_label l (mt_commit_total mt)\<rparr>"

definition inc_abort :: "string \<Rightarrow> metrics \<Rightarrow> metrics" where
  "inc_abort l mt = mt\<lparr>mt_abort_total := inc_label l (mt_abort_total mt)\<rparr>"

text \<open>The loop over the error map; every entry of the map is an error.\<close>

definition report_failures :: "(string \<Rightarrow> metrics \<Rightarrow> metrics) \<Rightarrow> (string \<times> gerror) list \<Rightarrow> world \<Rightarrow> world" where
  "report_failures inc errs w =
     fold (\<lambda>(addr, e) w. upd_metrics (inc ''fail'') (upd_mgr (mgr_mark_dead addr) w)) errs w"

section \<open>Two-phase commit\<close>

text \<open>Step 2 of a write: prepare on the replicas, if there are any.\<close>

definition prepare_phase :: "transaction \<Rightarrow> object_meta \<Rightarrow> world \<Rightarrow> bool \<times> world" where
  "prepare_phase tx staged w =
     (if alive_followers w = [] then (True, w)
      else case prepare_all tx staged w of
        (errs, w1) \<Rightarrow> (errs = [], report_failures inc_prepare errs w1))"

definition abort_phase :: "string \<Rightarrow> string \<Rightarrow> world \<Rightarrow> world" where
  "abort_phase reason txid w = upd_metrics (inc_abort reason) (snd (abort_all txid w))"

definition commit_phase :: "transaction \<Rightarrow> world \<Rightarrow> world" where
  "commit_phase tx w =
     (case commit_all (tx_id tx) (tx_bucket tx) (tx_key tx) w of
        (errs, w1) \<Rightarrow> report_failures inc_commit errs w1)"

text \<open>Steps 2 to 4, the same for \<open>PutObject\<close> and \<open>DeleteObject\<close>: prepare, commit here, commit there.\<close>

definition two_phase :: "transaction \<Rightarrow> object_meta \<Rightarrow> object_meta world_io" where
  "two_phase tx staged w =
     (let has_followers = (alive_followers w \<noteq> []) in
      case prepare_phase tx staged w of
        (False, w1) \<Rightarrow>
          (Inl (ErrMsg ''replication prepare failed, transaction aborted''),
           abort_phase ''prepare_failed'' (tx_id tx)
             (snd (local (\<lambda>root ev. abort_transaction root (tx_id tx)) w1)))
      | (True, w1) \<Rightarrow>
          (case local (\<lambda>root ev. commit_transaction root (tx_id tx) (tx_bucket tx) (tx_key tx)) w1 of
             (Inl e, w2) \<Rightarrow>
               (Inl e, if has_followers then abort_phase ''local_commit_failed'' (tx_id tx) w2 else w2)
           | (Inr m, w2) \<Rightarrow> (Inr m, if has_followers then commit_phase tx w2 else w2)))"

section \<open>Buckets and writes\<close>

definition ensure_bucket :: "string \<Rightarrow> path \<Rightarrow> unit repo_io" where
  "ensure_bucket bucket root =
     bindE (has_bucket root bucket) (\<lambda>exists.
       if exists then retE () else create_bucket root bucket)"

text \<open>
  A reader that works on the node's files while it is read: a plain stream does not, the reader of
  a multipart upload deletes each part it has passed on.
\<close>

type_synonym reader = "path \<Rightarrow> repo_fs \<Rightarrow> stream \<times> repo_fs"

definition const_reader :: "stream \<Rightarrow> reader" where
  "const_reader st root fs = (st, fs)"

text \<open>\<open>StageObject\<close> reads its argument only once the staging files are open.\<close>

definition stage_opens :: "path \<Rightarrow> env \<Rightarrow> string \<Rightarrow> transaction \<Rightarrow> repo_fs \<Rightarrow> bool" where
  "stage_opens root ev txid tx fs =
     (case bindE (os_mkdir_all (staging_dir root txid)) (\<lambda>_.
           bindE (write_json ev (stage_file root txid ''tx.json'') (CTx tx)) (\<lambda>_.
           os_write (stage_file root txid (''data.tmp.'' @ ev_uuid ev)) (ev_now ev) (CData []))) fs of
        (Inl _, _) \<Rightarrow> False | (Inr _, _) \<Rightarrow> True)"

definition stage_reader ::
    "path \<Rightarrow> env \<Rightarrow> string \<Rightarrow> reader \<Rightarrow> int \<Rightarrow> object_meta \<Rightarrow> transaction \<Rightarrow> object_meta repo_io" where
  "stage_reader root ev txid rd sz meta tx fs =
     (if stage_opens root ev txid tx fs
      then (case rd root fs of (st, fs1) \<Rightarrow> stage_object root ev txid st sz meta tx fs1)
      else stage_object root ev txid (bytes_stream []) sz meta tx fs)"

text \<open>A write waits at the gate (\<open>None\<close>), is rejected there, or runs and leaves.\<close>

definition unavailable :: gerror where
  "unavailable = ErrMsg ''ServiceUnavailable: writes are blocked during synchronization''"

definition gated :: "'a world_io \<Rightarrow> world \<Rightarrow> (gerror + 'a) option \<times> world" where
  "gated body w =
     (case write_gate (w_now w) (sr_svc (w_self w)) of
        (Park, s) \<Rightarrow> (None, upd_svc (\<lambda>_. s) w)
      | (Reject, s) \<Rightarrow> (Some (Inl unavailable), upd_svc (\<lambda>_. s) w)
      | (Enter, s) \<Rightarrow>
          (case body (tick (upd_svc (\<lambda>_. s) w)) of (r, w1) \<Rightarrow> (Some r, upd_svc leave_write w1)))"

definition new_tx :: "string \<Rightarrow> string \<Rightarrow> string \<Rightarrow> world \<Rightarrow> transaction" where
  "new_tx op bucket key w =
     \<lparr>tx_id = w_ids w (w_tick w), tx_operation = op, tx_bucket = bucket, tx_key = key,
      tx_state = TxPrepared, tx_created_at = w_now w\<rparr>"

definition put_2pc :: "string \<Rightarrow> string \<Rightarrow> reader \<Rightarrow> int \<Rightarrow> object_meta \<Rightarrow> object_meta world_io" where
  "put_2pc bucket key rd sz meta w =
     (let tx = new_tx OpPut bucket key w in
      bindE (local (\<lambda>root ev. stage_reader root ev (tx_id tx) rd sz meta tx)) (\<lambda>staged.
      two_phase tx staged) (tick w))"

definition put_object ::
    "string \<Rightarrow> string \<Rightarrow> reader \<Rightarrow> int \<Rightarrow> object_meta \<Rightarrow> world \<Rightarrow> (gerror + object_meta) option \<times> world" where
  "put_object bucket key rd sz meta w =
     (case local (\<lambda>root ev. ensure_bucket bucket root) w of
        (Inl e, w1) \<Rightarrow> (Some (Inl e), w1)
      | (Inr _, w1) \<Rightarrow> gated (put_2pc bucket key rd sz meta) w1)"

definition delete_2pc :: "string \<Rightarrow> string \<Rightarrow> unit world_io" where
  "delete_2pc bucket key w =
     (let tx = new_tx OpDelete bucket key w in
      bindE (local (\<lambda>root ev. stage_object root ev (tx_id tx) (bytes_stream []) 0 empty_meta tx)) (\<lambda>_.
      bindE (two_phase tx empty_meta) (\<lambda>_. retE ())) (tick w))"

definition remove_object :: "string \<Rightarrow> string \<Rightarrow> world \<Rightarrow> (gerror + unit) option \<times> world" where
  "remove_object bucket key w = gated (delete_2pc bucket key) w"

section \<open>Reads\<close>

text \<open>The erasure-code reader of the replication layer is an argument: \<open>None\<close> when none is set.\<close>

type_synonym ec_reader = "string \<Rightarrow> string \<Rightarrow> (stream \<times> object_meta) world_io"

definition read_object :: "ec_reader option \<Rightarrow> string \<Rightarrow> string \<Rightarrow> (stream \<times> object_meta) world_io" where
  "read_object ecr bucket key =
     bindE (local (\<lambda>root ev. get_object_meta root bucket key)) (\<lambda>meta.
       case (is_ec meta, ecr) of
         (True, Some rd) \<Rightarrow> rd bucket key
       | _ \<Rightarrow> local (\<lambda>root ev. get_object root bucket key))"

definition list_objects :: "string \<Rightarrow> string \<Rightarrow> string \<Rightarrow> string \<Rightarrow> int \<Rightarrow> list_result world_io" where
  "list_objects bucket pre delimiter token max_keys =
     local (\<lambda>root ev. list_objects_v2 root bucket pre delimiter token
       (if max_keys \<le> 0 then 1000 else max_keys))"

definition should_proxy :: "int \<Rightarrow> string \<Rightarrow> bool \<Rightarrow> server \<Rightarrow> bool" where
  "should_proxy now meth allow_local_reads sr =
     (if mgr_is_leader now (sr_mgr sr) then False
      else if allow_local_reads \<and> mgr_status (sr_mgr sr) = ''READY'' \<and> (meth = ''GET'' \<or> meth = ''HEAD'')
      then False else True)"

definition copy_object ::
    "ec_reader option \<Rightarrow> string \<Rightarrow> string \<Rightarrow> string \<Rightarrow> string \<Rightarrow> world \<Rightarrow>
     (gerror + object_meta) option \<times> world" where
  "copy_object ecr src_bucket src_key dst_bucket dst_key w =
     (case read_object ecr src_bucket src_key w of
        (Inl e, w1) \<Rightarrow> (Some (Inl (Wrapped ''failed to get source object'' e)), w1)
      | (Inr (st, meta), w1) \<Rightarrow>
          put_object dst_bucket dst_key (const_reader st) (om_content_length meta)
            (empty_meta\<lparr>om_content_type := om_content_type meta,
               om_user_metadata := om_user_metadata meta,
               om_created_at := w_now w1, om_modified_at := w_now w1\<rparr>) w1)"

section \<open>Multipart uploads\<close>

definition create_upload :: "string \<Rightarrow> string \<Rightarrow> string world_io" where
  "create_upload bucket key =
     bindE (local (\<lambda>root ev. ensure_bucket bucket root)) (\<lambda>_.
     local (\<lambda>root ev. create_multipart_upload root ev bucket key))"

text \<open>\<open>multipartPartsReader\<close>: the parts in order, each deleted once it has been read.\<close>

fun parts_reader :: "string \<Rightarrow> string \<Rightarrow> upload_part list \<Rightarrow> reader" where
  "parts_reader bucket upload_id [] root fs = (bytes_stream [], fs)"
| "parts_reader bucket upload_id (p # ps) root fs =
     (let n = up_part_number p in
      case get_multipart_part_reader root bucket upload_id n fs of
        (Inl e, fs1) \<Rightarrow>
          (\<lparr>st_bytes = [], st_err = Some (Wrapped (''failed to open reader for part '' @ itoa n) e)\<rparr>, fs1)
      | (Inr st, fs1) \<Rightarrow>
          (case st_err st of
             Some e \<Rightarrow> (st, fs1)
           | None \<Rightarrow>
               (case delete_multipart_part root bucket upload_id n fs1 of
                  (Inl e, fs2) \<Rightarrow>
                    (st\<lparr>st_err := Some (Wrapped (''failed to delete part '' @ itoa n) e)\<rparr>, fs2)
                | (Inr _, fs2) \<Rightarrow>
                    (case parts_reader bucket upload_id ps root fs2 of
                       (st', fs3) \<Rightarrow> (\<lparr>st_bytes = st_bytes st @ st_bytes st', st_err = st_err st'\<rparr>, fs3)))))"

definition strip_quotes :: "string \<Rightarrow> string" where
  "strip_quotes s = trim_chars [quote_char] s"

text \<open>The requested parts, each found among the stored ones (the last of a number wins, as in the
  Go map) with the same ETag.\<close>

fun match_parts :: "upload_part list \<Rightarrow> complete_part list \<Rightarrow> gerror + upload_part list" where
  "match_parts stored [] = Inr []"
| "match_parts stored (rp # rps) =
     (case find (\<lambda>p. up_part_number p = cp_part_number rp) (rev stored) of
        None \<Rightarrow> Inl (ErrMsg (''requested part '' @ itoa (cp_part_number rp) @ '' does not exist''))
      | Some p \<Rightarrow>
          if strip_quotes (cp_etag rp) \<noteq> strip_quotes (up_etag p)
          then Inl (ErrMsg (''part '' @ itoa (cp_part_number rp) @ '' ETag mismatch: requested '' @
                 strip_quotes (cp_etag rp) @ '', stored '' @ strip_quotes (up_etag p)))
          else (case match_parts stored rps of Inl e \<Rightarrow> Inl e | Inr ps \<Rightarrow> Inr (p # ps)))"

text \<open>The MD5 sums of the parts, joined; an ETag that is not hexadecimal is an error.\<close>

fun part_digests :: "upload_part list \<Rightarrow> gerror + byte list" where
  "part_digests [] = Inr []"
| "part_digests (p # ps) =
     (case hex_decode (strip_quotes (up_etag p)) of
        None \<Rightarrow> Inl (Wrapped (''failed to decode part '' @ itoa (up_part_number p) @ '' etag'')
                  (ErrMsg ''encoding/hex: invalid byte''))
      | Some bs \<Rightarrow> (case part_digests ps of Inl e \<Rightarrow> Inl e | Inr cs \<Rightarrow> Inr (bs @ cs)))"

definition multipart_etag :: "byte list \<Rightarrow> nat \<Rightarrow> string" where
  "multipart_etag digests n = quoted (hex_encode (md5 digests) @ ''-'' @ itoa (int n))"

definition multipart_meta :: "string \<Rightarrow> int \<Rightarrow> object_meta" where
  "multipart_meta etag now =
     empty_meta\<lparr>om_content_type := ''application/octet-stream'', om_etag := etag,
       om_created_at := now, om_modified_at := now\<rparr>"

text \<open>Everything before the object is put: what to put, read from the upload's files.\<close>

definition plan_multipart ::
    "string \<Rightarrow> string \<Rightarrow> complete_part list \<Rightarrow> path \<Rightarrow> (upload_part list \<times> string \<times> multipart_upload) repo_io" where
  "plan_multipart bucket upload_id requested root =
     bindE (get_multipart_parts root bucket upload_id) (\<lambda>stored.
     case match_parts stored requested of
       Inl e \<Rightarrow> failE e
     | Inr matched \<Rightarrow>
         (let parts = sort_key up_part_number matched in
          case part_digests parts of
            Inl e \<Rightarrow> failE e
          | Inr ds \<Rightarrow>
              bindE (wrapE ''failed to get multipart session details''
                (get_multipart_upload root bucket upload_id)) (\<lambda>up.
              retE (parts, multipart_etag ds (length parts), up))))"

definition complete_multipart_upload ::
    "string \<Rightarrow> string \<Rightarrow> complete_part list \<Rightarrow> world \<Rightarrow> (gerror + object_meta) option \<times> world" where
  "complete_multipart_upload bucket upload_id requested w =
     (case local (\<lambda>root ev. plan_multipart bucket upload_id requested root) w of
        (Inl e, w1) \<Rightarrow> (Some (Inl e), w1)
      | (Inr (parts, etag, up), w1) \<Rightarrow>
          (case put_object (mu_bucket up) (mu_key up) (parts_reader bucket upload_id parts)
                  (sum_list (map up_size parts)) (multipart_meta etag (w_now w1)) w1 of
             (None, w2) \<Rightarrow> (None, w2)
           | (Some (Inl e), w2) \<Rightarrow>
               (Some (Inl (Wrapped ''failed to commit completed multipart object'' e)), w2)
           | (Some (Inr m), w2) \<Rightarrow>
               (Some (Inr m), snd (local (\<lambda>root ev. abort_multipart_upload root bucket upload_id) w2))))"

section \<open>Metrics of the node\<close>

definition update_storage_metrics :: "world \<Rightarrow> world" where
  "update_storage_metrics w =
     (let sr = w_self w in
      case fst (list_buckets (sr_root sr) (sr_fs sr)) of
        Inl _ \<Rightarrow> w
      | Inr bs \<Rightarrow>
          upd_metrics (\<lambda>mt. fold (\<lambda>b mt.
              (let os = bucket_contents (sr_root sr) 100000 (sr_fs sr) b in
               mt\<lparr>mt_objects_total := AList.update b (int (length os)) (mt_objects_total mt),
                  mt_storage_used := AList.update b (sum_list (map oi_size os)) (mt_storage_used mt)\<rparr>)) bs
            (mt\<lparr>mt_buckets_total := int (length bs),
                mt_objects_total := fold (\<lambda>b. AList.update b 0) bs (mt_objects_total mt),
                mt_storage_used := fold (\<lambda>b. AList.update b 0) bs (mt_storage_used mt)\<rparr>)) w)"

definition update_cluster_metrics :: "world \<Rightarrow> world" where
  "update_cluster_metrics w =
     upd_metrics (\<lambda>mt. set_cluster_status (mgr_status (sr_mgr (w_self w)))
       (mt\<lparr>mt_cluster_role := gauge (mgr_is_leader (w_now w) (sr_mgr (w_self w)))\<rparr>)) w"

end
