(* ===== verification/TxnStore.thy ===== *)
theory TxnStore
  imports FsProps
begin

text \<open>
  What the two-phase commit relies on in a storage: the contract \<open>txn_store\<close> of the three
  transaction operations over an abstract store of objects, what follows from it for any history of
  one transaction's messages, and the filesystem repository as a model of it.
\<close>

section \<open>Histories of one transaction\<close>

text \<open>
  The messages of one transaction that reach a store: prepare (with whatever body and whatever
  fate), commit of one of the objects \<open>C\<close>, abort; each in any number and order.
\<close>

inductive tx_step ::
    "(env \<Rightarrow> stream \<Rightarrow> int \<Rightarrow> object_meta \<Rightarrow> transaction \<Rightarrow> ('s, 'e, 'a) io) \<Rightarrow>
     (string \<Rightarrow> string \<Rightarrow> ('s, 'e, 'b) io) \<Rightarrow> ('s, 'e, 'c) io \<Rightarrow> (string \<times> string) set \<Rightarrow> 's \<Rightarrow> 's \<Rightarrow> bool"
  for stage commit abort C where
  prepares: "good_env ev \<Longrightarrow> tx_step stage commit abort C s (snd (stage ev st sz m tx s))"
| commits: "(b, k) \<in> C \<Longrightarrow> tx_step stage commit abort C s (snd (commit b k s))"
| aborts: "tx_step stage commit abort C s (snd (abort s))"

lemma tx_step_mono: "tx_step stage commit abort C s s' \<Longrightarrow> C \<subseteq> D \<Longrightarrow> tx_step stage commit abort D s s'"
  by (induction rule: tx_step.induct) (auto intro: tx_step.intros)

lemma tx_steps_mono:
  "(tx_step stage commit abort C)\<^sup>*\<^sup>* s s' \<Longrightarrow> C \<subseteq> D \<Longrightarrow> (tx_step stage commit abort D)\<^sup>*\<^sup>* s s'"
  by (induction rule: rtranclp_induct) (auto intro: tx_step_mono rtranclp.rtrancl_into_rtrancl)

section \<open>The contract\<close>

text \<open>
  \<open>obj\<close> is what a reader of the store sees, \<open>logged\<close> and \<open>body\<close> what a prepared transaction keeps.
  \<open>apart b k b' k'\<close>: committing the first object cannot reach the second.
\<close>

locale txn_store =
  fixes inv :: "'s \<Rightarrow> bool"
    and good_tx :: "string \<Rightarrow> bool"
    and good_key :: "string \<Rightarrow> string \<Rightarrow> bool"
    and apart :: "string \<Rightarrow> string \<Rightarrow> string \<Rightarrow> string \<Rightarrow> bool"
    and obj :: "'s \<Rightarrow> string \<Rightarrow> string \<Rightarrow> (byte list \<times> object_meta) option"
    and logged :: "'s \<Rightarrow> string \<Rightarrow> transaction option"
    and body :: "'s \<Rightarrow> string \<Rightarrow> (byte list \<times> object_meta) option"
    and stage :: "env \<Rightarrow> string \<Rightarrow> stream \<Rightarrow> int \<Rightarrow> object_meta \<Rightarrow> transaction \<Rightarrow> ('s, 'e, object_meta) io"
    and commit :: "string \<Rightarrow> string \<Rightarrow> string \<Rightarrow> ('s, 'e, object_meta) io"
    and abort :: "string \<Rightarrow> ('s, 'e, unit) io"
  assumes stage_inv: "good_tx t \<Longrightarrow> good_env ev \<Longrightarrow> pres inv (stage ev t st sz m tx)"
    and commit_inv: "good_tx t \<Longrightarrow> pres inv (commit t b k)"
    and abort_inv: "good_tx t \<Longrightarrow> pres inv (abort t)"
    and stage_obj: "good_tx t \<Longrightarrow> good_env ev \<Longrightarrow> good_key b k \<Longrightarrow>
      obj (snd (stage ev t st sz m tx s)) b k = obj s b k"
    and stage_log: "good_tx t \<Longrightarrow> good_env ev \<Longrightarrow> stage ev t st sz m tx s = (Inr m', s') \<Longrightarrow>
      logged s' t = Some tx"
    and stage_body: "good_tx t \<Longrightarrow> good_env ev \<Longrightarrow> tx_operation tx = OpPut \<Longrightarrow>
      stage ev t st sz m tx s = (Inr m', s') \<Longrightarrow>
      m' = staged_meta m (st_bytes st) \<and> st_err st = None \<and> body s' t = Some (st_bytes st, m')"
    and commit_put: "good_tx t \<Longrightarrow> good_key b k \<Longrightarrow> inv s \<Longrightarrow> logged s t = Some tx \<Longrightarrow>
      tx_operation tx = OpPut \<Longrightarrow> body s t = Some (bs, m) \<Longrightarrow> \<not> is_ec m \<Longrightarrow>
      commit t b k s = (Inr m', s') \<Longrightarrow> m' = m \<and> obj s' b k = Some (bs, m)"
    and commit_delete: "good_tx t \<Longrightarrow> good_key b k \<Longrightarrow> inv s \<Longrightarrow> logged s t = Some tx \<Longrightarrow>
      tx_operation tx = OpDelete \<Longrightarrow> commit t b k s = (Inr m', s') \<Longrightarrow> obj s' b k = None"
    and commit_mismatch: "logged s t = Some tx \<Longrightarrow> (tx_bucket tx, tx_key tx) \<noteq> (b, k) \<Longrightarrow>
      \<exists>e. commit t b k s = (Inl e, s)"
    and commit_frame: "good_tx t \<Longrightarrow> good_key b k \<Longrightarrow> good_key b' k' \<Longrightarrow> apart b k b' k' \<Longrightarrow> inv s \<Longrightarrow>
      obj (snd (commit t b k s)) b' k' = obj s b' k'"
    and abort_obj: "good_tx t \<Longrightarrow> good_key b k \<Longrightarrow> obj (snd (abort t s)) b k = obj s b k"
begin

text \<open>Whatever becomes of the messages, objects the transaction does not commit stay as they are.\<close>

lemma history_inv:
  "(tx_step (\<lambda>ev. stage ev t) (commit t) (abort t) C)\<^sup>*\<^sup>* s s' \<Longrightarrow> good_tx t \<Longrightarrow> inv s \<Longrightarrow> inv s'"
  by (induction rule: rtranclp_induct)
    (auto elim!: tx_step.cases dest: presD [OF stage_inv] presD [OF commit_inv] presD [OF abort_inv])

lemma history_frame:
  assumes "(tx_step (\<lambda>ev. stage ev t) (commit t) (abort t) C)\<^sup>*\<^sup>* s s'" "good_tx t" "inv s" "good_key b' k'"
    and "\<And>b k. (b, k) \<in> C \<Longrightarrow> good_key b k \<and> apart b k b' k'"
  shows "obj s' b' k' = obj s b' k'"
  using assms(1)
proof (induction rule: rtranclp_induct)
  case (step u v)
  have "inv u" using step(1) assms(2,3) by (rule history_inv)
  from step(2) have "obj v b' k' = obj u b' k'"
    by (cases rule: tx_step.cases)
      (use assms \<open>inv u\<close> in \<open>auto simp: stage_obj abort_obj intro: commit_frame\<close>)
  with step.IH show ?case by simp
qed simp

lemma committed_matches:
  assumes "logged s t = Some tx" "commit t b k s = (Inr m, s')"
  shows "(tx_bucket tx, tx_key tx) = (b, k)"
proof (rule ccontr)
  assume "(tx_bucket tx, tx_key tx) \<noteq> (b, k)"
  from commit_mismatch [OF assms(1) this] assms(2) show False by auto
qed

text \<open>Preparing and then committing a \<open>PUT\<close>, both answered with success.\<close>

lemma prepare_commit_put:
  assumes "good_tx t" "good_env ev" "good_key b k" "inv s" "tx_operation tx = OpPut"
    and "stage ev t st sz m tx s = (Inr m1, s1)" "commit t b k s1 = (Inr m2, s2)" "\<not> is_ec m"
  shows "m1 = staged_meta m (st_bytes st)" "m2 = m1" "obj s2 b k = Some (st_bytes st, m1)"
    "(tx_bucket tx, tx_key tx) = (b, k)"
proof -
  note body = stage_body [OF assms(1,2,5,6)]
  note log = stage_log [OF assms(1,2,6)]
  have inv: "inv s1" using presE [OF stage_inv assms(6,4)] assms(1,2) by simp
  have ec: "\<not> is_ec m1" using body assms(8) by (simp add: is_ec_def staged_meta_def Let_def)
  from body show "m1 = staged_meta m (st_bytes st)" by simp
  from commit_put [OF assms(1,3) inv log assms(5) _ ec assms(7)] body
  show "m2 = m1" "obj s2 b k = Some (st_bytes st, m1)" by simp_all
  show "(tx_bucket tx, tx_key tx) = (b, k)"
    by (rule committed_matches [OF log assms(7)])
qed

lemma prepare_commit_delete:
  assumes "good_tx t" "good_env ev" "good_key b k" "inv s" "tx_operation tx = OpDelete"
    and "stage ev t st sz m tx s = (Inr m1, s1)" "commit t b k s1 = (Inr m2, s2)"
  shows "obj s2 b k = None" "(tx_bucket tx, tx_key tx) = (b, k)"
proof -
  note log = stage_log [OF assms(1,2,6)]
  have inv: "inv s1" using presE [OF stage_inv assms(6,4)] assms(1,2) by simp
  from commit_delete [OF assms(1,3) inv log assms(5,7)] show "obj s2 b k = None" .
  show "(tx_bucket tx, tx_key tx) = (b, k)"
    by (rule committed_matches [OF log assms(7)])
qed

end

section \<open>The filesystem repository keeps it\<close>

definition logged_tx :: "path \<Rightarrow> repo_fs \<Rightarrow> string \<Rightarrow> transaction option" where
  "logged_tx root fs t =
     (case fs_file fs (stage_file root t ''tx.json'') of Some (mt, CTx tx) \<Rightarrow> Some tx | _ \<Rightarrow> None)"

definition staged_body :: "path \<Rightarrow> repo_fs \<Rightarrow> string \<Rightarrow> (byte list \<times> object_meta) option" where
  "staged_body root fs t =
     (case (fs_file fs (stage_file root t ''data''), fs_file fs (stage_file root t ''meta.json'')) of
        (Some (mt, CData bs), Some (mt', CMeta m)) \<Rightarrow> Some (bs, m)
      | _ \<Rightarrow> None)"

definition good_object :: "path \<Rightarrow> string \<Rightarrow> string \<Rightarrow> bool" where
  "good_object root b k \<longleftrightarrow> good_dir root b \<and> plain_name k"

definition objects_apart :: "string \<Rightarrow> string \<Rightarrow> string \<Rightarrow> string \<Rightarrow> bool" where
  "objects_apart b k b' k' \<longleftrightarrow> (b', k') \<noteq> (b, k) \<and> \<not> (b' = b \<and> shard_clash k k')"

lemma logged_tx_Some:
  "logged_tx root fs t = Some tx \<longleftrightarrow> (\<exists>mt. fs_file fs (stage_file root t ''tx.json'') = Some (mt, CTx tx))"
  by (auto simp: logged_tx_def split: option.splits content.splits)

lemma staged_body_Some:
  "staged_body root fs t = Some (bs, m) \<longleftrightarrow>
     (\<exists>mt mt'. fs_file fs (stage_file root t ''data'') = Some (mt, CData bs) \<and>
        fs_file fs (stage_file root t ''meta.json'') = Some (mt', CMeta m))"
  by (auto simp: staged_body_def split: option.splits content.splits)

lemma not_shard_clash_self [simp]: "\<not> shard_clash k k"
  by (simp add: shard_clash_def)

lemma read_log_run:
  "logged_tx root fs t = Some tx \<Longrightarrow>
   wrapE ''failed to read transaction log'' (read_json as_tx (stage_file root t ''tx.json'')) fs = (Inr tx, fs)"
  by (auto simp: logged_tx_Some wrapE_def fs_file_Some_iff read_json_run)

lemma commit_transaction_log_ok:
  assumes "logged_tx root fs t = Some tx" "tx_operation tx = OpPut"
    and run: "commit_transaction root t b k fs = (Inr m', fs')" and body: "staged_body root fs t = Some (bs, m)"
  shows "m' = m"
proof -
  from run assms(2) read_log_run [OF assms(1)] obtain u where "commit_put root t b k fs = (Inr m', u)"
    unfolding commit_transaction_def by (auto elim!: bindE_okE split: if_splits)
  then have "read_json as_meta (stage_file root t ''meta.json'') fs = (Inr m', fs)"
    unfolding commit_put_def Let_def by (auto elim!: bindE_okE dest!: wrapE_okD simp: read_json_ok)
  with body show ?thesis by (auto simp: staged_body_Some fs_file_Some_iff read_json_run)
qed

lemma stage_object_log:
  assumes env: "good_env ev" and run: "stage_object root ev t st sz m tx fs = (Inr m', fs')"
  shows "logged_tx root fs' t = Some tx"
proof (cases "tx_operation tx = OpPut")
  case True
  with stage_object_put_ok(4) [OF env _ run] show ?thesis
    by (auto simp: logged_tx_Some fs_file_Some_iff)
next
  case False
  let ?d = "staging_dir root t"
  from run False obtain u1 where "write_json ev (?d @ [''tx.json'']) (CTx tx) u1 = (Inr (), fs')"
    unfolding stage_object_def Let_def stage_names [OF env]
    by (auto elim!: bindE_okE dest: os_sync_dir_okD)
  from write_json_ok [OF this] show ?thesis
    by (auto simp: logged_tx_Some stage_names [OF env] fs_file_Some_iff)
qed

interpretation fs: txn_store wf_fs "good_dir root" "good_object root" objects_apart "object_at root"
  "logged_tx root" "staged_body root" "stage_object root" "commit_transaction root" "abort_transaction root"
  for root :: path
proof
  fix t ev st sz m tx b k m' s' bs b' k' and s :: repo_fs
  show "pres wf_fs (stage_object root ev t st sz m tx)" if "good_dir root t" "good_env ev"
    using that by (intro wf_stage_object) (auto simp: good_dir_def)
  show "pres wf_fs (commit_transaction root t b k)" if "good_dir root t"
    using that by (intro wf_commit_transaction) (simp add: good_dir_def)
  show "pres wf_fs (abort_transaction root t)" if "good_dir root t"
    by (rule wf_abort_transaction)
  show "object_at root (snd (stage_object root ev t st sz m tx s)) b k = object_at root s b k"
    if "good_dir root t" "good_env ev" "good_object root b k"
  proof (rule staging_leaves_object [OF _ _ that(1)])
    show "fs_file (snd (stage_object root ev t st sz m tx s)) q = fs_file s q"
      if "\<not> prefix (staging_dir root t) q" for q
      by (rule leavesD [OF agrees_stage_object [OF \<open>good_env ev\<close>] surjective_pairing,
          where P = "\<lambda>q. \<not> prefix (staging_dir root t) q"]) (use that in auto)
  qed (use that in \<open>simp_all add: good_object_def\<close>)
  show "object_at root (snd (abort_transaction root t s)) b k = object_at root s b k"
    if "good_dir root t" "good_object root b k"
  proof (rule staging_leaves_object [OF _ _ that(1)])
    show "fs_file (snd (abort_transaction root t s)) q = fs_file s q"
      if "\<not> prefix (staging_dir root t) q" for q
      unfolding abort_transaction_def
      by (rule leavesD [OF agrees_remove_all surjective_pairing,
          where P = "\<lambda>q. \<not> prefix (staging_dir root t) q"]) (use that in auto)
  qed (use that in \<open>simp_all add: good_object_def\<close>)
  show "logged_tx root s' t = Some tx"
    if "good_env ev" "stage_object root ev t st sz m tx s = (Inr m', s')"
    using that by (rule stage_object_log)
  show "m' = staged_meta m (st_bytes st) \<and> st_err st = None \<and> staged_body root s' t = Some (st_bytes st, m')"
    if "good_env ev" "tx_operation tx = OpPut" "stage_object root ev t st sz m tx s = (Inr m', s')"
    using stage_object_put_ok [OF that] by (auto simp: staged_body_Some fs_file_Some_iff)
  show "m' = m \<and> object_at root s' b k = Some (bs, m)"
    if "good_dir root t" "good_object root b k" "wf_fs s" "logged_tx root s t = Some tx"
      "tx_operation tx = OpPut" "staged_body root s t = Some (bs, m)" "\<not> is_ec m"
      "commit_transaction root t b k s = (Inr m', s')"
  proof -
    have m: "m' = m" using commit_transaction_log_ok that by blast
    from that(4,6) obtain mt0 mt where f: "fs_file s (stage_file root t ''tx.json'') = Some (mt0, CTx tx)"
      "fs_file s (stage_file root t ''data'') = Some (mt, CData bs)"
      by (auto simp: logged_tx_Some staged_body_Some)
    from that m have "object_at root s' b k = Some (bs, m)"
      using commit_put_object [OF _ _ that(1,3) f(1) that(5) f(2) that(8), of b k] by (simp add: good_object_def)
    with m show ?thesis by simp
  qed
  show "object_at root s' b k = None"
    if "good_dir root t" "good_object root b k" "wf_fs s" "logged_tx root s t = Some tx"
      "tx_operation tx = OpDelete" "commit_transaction root t b k s = (Inr m', s')"
  proof -
    from that(4) obtain mt0 where f: "fs_file s (stage_file root t ''tx.json'') = Some (mt0, CTx tx)"
      by (auto simp: logged_tx_Some)
    show ?thesis
      using commit_delete_object [OF _ _ that(1,3) f that(5,6), of b k] that(2) by (simp add: good_object_def)
  qed
  show "\<exists>e. commit_transaction root t b k s = (Inl e, s)"
    if "logged_tx root s t = Some tx" "(tx_bucket tx, tx_key tx) \<noteq> (b, k)"
    using that(2) read_log_run [OF that(1)] by (auto simp: commit_transaction_def)
  show "object_at root (snd (commit_transaction root t b k s)) b' k' = object_at root s b' k'"
    if "good_dir root t" "good_object root b k" "good_object root b' k'" "objects_apart b k b' k'" "wf_fs s"
    using that commit_keeps_object [OF _ _ that(1,5) surjective_pairing, of b k b' k']
    by (auto simp: good_object_def objects_apart_def)
qed

end
