(* ===== verification/NetFacts.thy ===== *)
theory NetFacts
  imports Service TxnStore
begin

text \<open>
  What a round trip does to the cluster: at most the addressed peer changes, and a prepare, commit
  or abort request is one message of that transaction to that peer's storage.
\<close>

section \<open>Nodes and their objects\<close>

definition peer :: "world \<Rightarrow> string \<Rightarrow> server option" where
  "peer w a = map_of (w_peers w) a"

definition sr_obj :: "server \<Rightarrow> string \<Rightarrow> string \<Rightarrow> (byte list \<times> object_meta) option" where
  "sr_obj sr = object_at (sr_root sr) (sr_fs sr)"

definition server_ok :: "server \<Rightarrow> bool" where
  "server_ok sr \<longleftrightarrow> good_root (sr_root sr) \<and> wf_fs (sr_fs sr)"

text \<open>A UUID: one path component, no spaces around it.\<close>

definition good_uuid :: "string \<Rightarrow> bool" where
  "good_uuid s \<longleftrightarrow> plain_seg s \<and> 3 \<le> length s \<and> header_trim s = s"

definition world_ok :: "world \<Rightarrow> bool" where
  "world_ok w \<longleftrightarrow> (\<forall>n. good_uuid (w_ids w n)) \<and> server_ok (w_self w) \<and>
     (\<forall>a sr. peer w a = Some sr \<longrightarrow> server_ok sr) \<and> mgr_inv (sr_mgr (w_self w))"

lemma world_okD:
  assumes "world_ok w"
  shows "good_env (now_env w)" "server_ok (w_self w)" "peer w a = Some sr \<Longrightarrow> server_ok sr"
    "mgr_inv (sr_mgr (w_self w))" "good_uuid (w_ids w n)"
  using assms by (auto simp: world_ok_def good_uuid_def good_env_def now_env_def plain_seg_def)

lemma good_dir_server: "server_ok sr \<Longrightarrow> good_dir (sr_root sr) b \<longleftrightarrow> plain_seg b"
  by (simp add: server_ok_def good_dir_def)

section \<open>A transaction's messages\<close>

definition tx_history :: "path \<Rightarrow> string \<Rightarrow> (string \<times> string) set \<Rightarrow> repo_fs \<Rightarrow> repo_fs \<Rightarrow> bool" where
  "tx_history root t C =
     (tx_step (\<lambda>ev. stage_object root ev t) (commit_transaction root t) (abort_transaction root t) C)\<^sup>*\<^sup>*"

definition evolves :: "string \<Rightarrow> (string \<times> string) set \<Rightarrow> server \<Rightarrow> server \<Rightarrow> bool" where
  "evolves t C sr sr' \<longleftrightarrow> (\<exists>fs. sr' = sr\<lparr>sr_fs := fs\<rparr> \<and> tx_history (sr_root sr) t C (sr_fs sr) fs)"

lemma evolves_refl [simp]: "evolves t C sr sr"
  unfolding evolves_def tx_history_def by (rule exI [of _ "sr_fs sr"]) simp

lemma evolves_trans [trans]: "evolves t C sr1 sr2 \<Longrightarrow> evolves t C sr2 sr3 \<Longrightarrow> evolves t C sr1 sr3"
  unfolding evolves_def tx_history_def by auto

lemma evolves_mono: "evolves t C sr1 sr2 \<Longrightarrow> C \<subseteq> D \<Longrightarrow> evolves t D sr1 sr2"
  unfolding evolves_def tx_history_def by (auto dest: tx_steps_mono)

lemma evolves_one:
  "tx_step (\<lambda>ev. stage_object (sr_root sr) ev t) (commit_transaction (sr_root sr) t)
     (abort_transaction (sr_root sr) t) C (sr_fs sr) fs \<Longrightarrow> evolves t C sr (sr\<lparr>sr_fs := fs\<rparr>)"
  unfolding evolves_def tx_history_def by auto

lemma evolves_fields:
  "evolves t C sr sr' \<Longrightarrow> sr_root sr' = sr_root sr \<and> sr_token sr' = sr_token sr \<and>
     sr_mgr sr' = sr_mgr sr \<and> sr_svc sr' = sr_svc sr"
  by (auto simp: evolves_def)

lemma evolves_ok: "evolves t C sr sr' \<Longrightarrow> plain_seg t \<Longrightarrow> server_ok sr \<Longrightarrow> server_ok sr'"
  using fs.history_inv [of "sr_root sr" t C "sr_fs sr"]
  by (auto simp: evolves_def tx_history_def server_ok_def good_dir_def)

lemma evolves_frame:
  assumes "evolves t C sr sr'" "plain_seg t" "server_ok sr" "plain_seg b'" "plain_name k'"
    and "\<And>b k. (b, k) \<in> C \<Longrightarrow> plain_seg b \<and> plain_name k \<and> objects_apart b k b' k'"
  shows "sr_obj sr' b' k' = sr_obj sr b' k'"
proof -
  from assms(1) obtain fs where sr': "sr' = sr\<lparr>sr_fs := fs\<rparr>"
    and h: "tx_history (sr_root sr) t C (sr_fs sr) fs"
    by (auto simp: evolves_def)
  have "object_at (sr_root sr) fs b' k' = object_at (sr_root sr) (sr_fs sr) b' k'"
    by (rule fs.history_frame [OF h [unfolded tx_history_def]])
      (use assms in \<open>auto simp: server_ok_def good_dir_def good_object_def\<close>)
  then show ?thesis by (simp add: sr_obj_def sr')
qed

section \<open>Serving the three requests\<close>

lemma serve_other_token: "hget rq ''X-MicroS3-Token'' \<noteq> sr_token sr \<Longrightarrow> serve ev rq sr = (reply 401 (ErrText ''Unauthorized: Token mismatch''), sr)"
  by (simp add: serve_def)

lemma storage_reply_cases:
  assumes "storage_reply bad ok m sr = (rs, sr')" "bad \<noteq> 200"
  obtains (err) e fs where "m (sr_root sr) (sr_fs sr) = (Inl e, fs)" "sr' = sr\<lparr>sr_fs := fs\<rparr>" "rs_status rs = bad"
  | (ok) a fs where "m (sr_root sr) (sr_fs sr) = (Inr a, fs)" "sr' = sr\<lparr>sr_fs := fs\<rparr>" "rs = reply 200 (ok a)"
  using assms by (auto simp: storage_reply_def on_storage_def reply_def split: prod.splits sum.splits)

definition served_tx :: "env \<Rightarrow> request \<Rightarrow> transaction" where
  "served_tx ev rq =
     \<lparr>tx_id = hget rq ''X-MicroS3-TxID'', tx_operation = hget rq ''X-MicroS3-Operation'',
      tx_bucket = hget rq ''X-MicroS3-Bucket'', tx_key = hget rq ''X-MicroS3-Key'',
      tx_state = TxPrepared, tx_created_at = ev_now ev\<rparr>"

lemma serve_prepare:
  assumes "rq_path rq = ''/internal/prepare''" "serve ev rq sr = (rs, sr')"
  obtains (refused) "sr' = sr" "rs_status rs \<noteq> 200"
  | (staged) r fs meta where "sr' = sr\<lparr>sr_fs := fs\<rparr>"
      "stage_object (sr_root sr) ev (hget rq ''X-MicroS3-TxID'') (raw_body (rq_body rq)) (rq_length rq)
         (prepare_meta (hget rq ''X-MicroS3-CRC32'') meta) (served_tx ev rq) (sr_fs sr) = (r, fs)"
      "rs_status rs = 200 \<Longrightarrow> \<exists>m. r = Inr m" "\<And>m. rq_meta rq = MetaOf m \<Longrightarrow> meta = m"
proof -
  have run: "handle_prepare ev rq sr = (rs, sr') \<or> sr' = sr \<and> rs_status rs \<noteq> 200"
    using assms by (auto simp: serve_def mux_def routes_def reply_def split: if_splits)
  show thesis
  proof (cases "sr' = sr \<and> rs_status rs \<noteq> 200")
    case True
    with refused show thesis by blast
  next
    case False
    with run have "handle_prepare ev rq sr = (rs, sr')" by blast
    with False obtain meta where
      "storage_reply 500 (\<lambda>_. StatusJson ''PREPARED'')
         (\<lambda>root. stage_object root ev (hget rq ''X-MicroS3-TxID'') (raw_body (rq_body rq)) (rq_length rq)
           (prepare_meta (hget rq ''X-MicroS3-CRC32'') meta) (served_tx ev rq)) sr = (rs, sr')"
      and meta: "\<And>m. rq_meta rq = MetaOf m \<Longrightarrow> meta = m"
      by (cases "rq_meta rq")
        (auto simp: handle_prepare_def only_def bad_request_def reply_def served_tx_def Let_def split: if_splits)
    from this(1) show thesis
      by (cases rule: storage_reply_cases) (use staged meta in \<open>auto simp: reply_def\<close>)
  qed
qed

lemma serve_commit:
  assumes "rq_path rq = ''/internal/commit''" "serve ev rq sr = (rs, sr')"
  obtains (refused) "sr' = sr" "rs_status rs \<noteq> 200"
  | (run) t b k r fs where "rq_body rq = CommitBody t b k" "sr' = sr\<lparr>sr_fs := fs\<rparr>"
      "commit_transaction (sr_root sr) t b k (sr_fs sr) = (r, fs)" "rs_status rs = 200 \<Longrightarrow> \<exists>m. r = Inr m"
proof -
  have h: "handle_commit ev rq sr = (rs, sr') \<or> sr' = sr \<and> rs_status rs \<noteq> 200"
    using assms by (auto simp: serve_def mux_def routes_def reply_def split: if_splits)
  show thesis
  proof (cases "sr' = sr \<and> rs_status rs \<noteq> 200")
    case True
    with refused show thesis by blast
  next
    case False
    with h have "handle_commit ev rq sr = (rs, sr')" by blast
    with False obtain t b k where b: "rq_body rq = CommitBody t b k" and
      "storage_reply 500 (\<lambda>_. StatusJson ''COMMITTED'') (\<lambda>root. commit_transaction root t b k) sr = (rs, sr')"
      by (cases "rq_body rq") (auto simp: handle_commit_def only_def bad_request_def reply_def split: if_splits)
    from this(2) show thesis
      by (cases rule: storage_reply_cases) (use run b in \<open>auto simp: reply_def\<close>)
  qed
qed

lemma serve_abort:
  assumes "rq_path rq = ''/internal/abort''" "serve ev rq sr = (rs, sr')"
  obtains (refused) "sr' = sr" "rs_status rs \<noteq> 200"
  | (run) t r fs where "rq_body rq = AbortBody t" "sr' = sr\<lparr>sr_fs := fs\<rparr>"
      "abort_transaction (sr_root sr) t (sr_fs sr) = (r, fs)" "rs_status rs = 200 \<Longrightarrow> \<exists>m. r = Inr m"
proof -
  have h: "handle_abort ev rq sr = (rs, sr') \<or> sr' = sr \<and> rs_status rs \<noteq> 200"
    using assms by (auto simp: serve_def mux_def routes_def reply_def split: if_splits)
  show thesis
  proof (cases "sr' = sr \<and> rs_status rs \<noteq> 200")
    case True
    with refused show thesis by blast
  next
    case False
    with h have "handle_abort ev rq sr = (rs, sr')" by blast
    with False obtain t where b: "rq_body rq = AbortBody t" and
      "storage_reply 500 (\<lambda>_. StatusJson ''ABORTED'') (\<lambda>root. abort_transaction root t) sr = (rs, sr')"
      by (cases "rq_body rq") (auto simp: handle_abort_def only_def bad_request_def reply_def split: if_splits)
    from this(2) show thesis
      by (cases rule: storage_reply_cases) (use run b in \<open>auto simp: reply_def\<close>)
  qed
qed

text \<open>Each is a message of its transaction.\<close>

lemma serve_prepare_evolves:
  assumes "rq_path rq = ''/internal/prepare''" "good_env ev"
  shows "evolves (hget rq ''X-MicroS3-TxID'') {} sr (snd (serve ev rq sr))"
  using assms(1) surjective_pairing [of "serve ev rq sr"]
proof (cases rule: serve_prepare)
  case (staged r fs meta)
  then show ?thesis
    using evolves_one [OF tx_step.prepares [OF assms(2)]] by (metis snd_conv)
qed simp

lemma serve_commit_evolves:
  assumes "rq_path rq = ''/internal/commit''" "rq_body rq = CommitBody t b k \<or> rq_body rq = BadJson"
  shows "evolves t {(b, k)} sr (snd (serve ev rq sr))"
  using assms(1) surjective_pairing [of "serve ev rq sr"]
proof (cases rule: serve_commit)
  case (run t' b' k' r fs)
  with assms(2) have "t' = t" "b' = b" "k' = k" by auto
  with run show ?thesis
    using evolves_one [OF tx_step.commits [of b k "{(b, k)}"]] by (metis singletonI snd_conv)
qed simp

lemma serve_abort_evolves:
  assumes "rq_path rq = ''/internal/abort''" "rq_body rq = AbortBody t \<or> rq_body rq = BadJson"
  shows "evolves t {} sr (snd (serve ev rq sr))"
  using assms(1) surjective_pairing [of "serve ev rq sr"]
proof (cases rule: serve_abort)
  case (run t' r fs)
  with assms(2) have "t' = t" by auto
  with run show ?thesis
    using evolves_one [OF tx_step.aborts] by (metis snd_conv)
qed simp

section \<open>One round trip\<close>

text \<open>Only the addressed peer may change.\<close>

definition focus :: "string \<Rightarrow> world \<Rightarrow> world \<Rightarrow> bool" where
  "focus addr w w' \<longleftrightarrow> w_self w' = w_self w \<and> w_ids w' = w_ids w \<and>
     (\<forall>a. a \<noteq> addr \<longrightarrow> peer w' a = peer w a)"

text \<open>What arrives of a request.\<close>

definition arrivals :: "request \<Rightarrow> request set" where
  "arrivals rq = insert (wire rq) (range (\<lambda>n. (wire rq)\<lparr>rq_body := cut_body n (rq_body rq)\<rparr>))"

lemma focus_refl [simp]: "focus a w w"
  by (simp add: focus_def)

lemma tick_simps [simp]:
  "w_self (tick w) = w_self w" "w_ids (tick w) = w_ids w" "peer (tick w) a = peer w a"
  "w_peers (tick w) = w_peers w" "w_clock (tick w) = w_clock w"
  by (simp_all add: tick_def peer_def)

lemma deliver_run:
  "deliver addr rq sr w = (rs, w') \<Longrightarrow> rs = fst (serve (now_env w) rq sr) \<and> focus addr w w' \<and>
     peer w' addr = Some (snd (serve (now_env w) rq sr))"
  by (auto simp: deliver_def focus_def peer_def tick_def update_conv' split: prod.splits)

lemma call_reach:
  assumes "call addr rq w = (r, w')" and "\<And>sr. R sr sr"
    and "\<And>rq' sr. rq' \<in> arrivals rq \<Longrightarrow> peer w addr = Some sr \<Longrightarrow> R sr (snd (serve (now_env w) rq' sr))"
  shows "focus addr w w'" "rel_option R (peer w addr) (peer w' addr)"
proof -
  have "focus addr w w' \<and> rel_option R (peer w addr) (peer w' addr)"
  proof (cases "headers_ok rq \<and> peer w addr \<noteq> None \<and> w_net w (w_tick w) \<noteq> Lost")
    case False
    then have "w' = tick w"
      using assms(1) by (auto simp: call_def peer_def split: if_splits option.splits fate.splits)
    then show ?thesis by (cases "peer w addr") (auto simp: focus_def assms(2))
  next
    case True
    then obtain sr where sr: "peer w addr = Some sr" by blast
    obtain rq' where "rq' \<in> arrivals rq" "snd (deliver addr rq' sr w) = w'"
    proof (cases "\<exists>n. w_net w (w_tick w) = Cut n")
      case c: True
      then obtain n where "w_net w (w_tick w) = Cut n" by blast
      with assms(1) True sr that [of "(wire rq)\<lparr>rq_body := cut_body n (rq_body rq)\<rparr>"] show ?thesis
        by (auto simp: call_def peer_def arrivals_def split: prod.splits)
    next
      case False
      with assms(1) True sr that [of "wire rq"] show ?thesis
        by (auto simp: call_def peer_def arrivals_def split: prod.splits fate.splits)
    qed
    with deliver_run [OF surjective_pairing, of addr rq' sr w] assms(3) [OF _ sr, of rq'] sr
    show ?thesis by simp
  qed
  then show "focus addr w w'" "rel_option R (peer w addr) (peer w' addr)" by blast+
qed

lemma call_ok:
  assumes "call addr rq w = (Inr rs, w')"
  obtains sr where "peer w addr = Some sr" "headers_ok rq"
    "rs_status rs = rs_status (fst (serve (now_env w) (wire rq) sr))"
    "peer w' addr = Some (snd (serve (now_env w) (wire rq) sr))"
    "rs_payload rs = rs_payload (fst (serve (now_env w) (wire rq) sr)) \<or>
       (\<exists>n. rs_payload rs = cut_payload n (rs_payload (fst (serve (now_env w) (wire rq) sr))))"
proof -
  from assms obtain sr where ok: "headers_ok rq" and sr: "peer w addr = Some sr"
    by (auto simp: call_def peer_def split: if_splits option.splits)
  have "\<exists>rs0. deliver addr (wire rq) sr w = (rs0, w') \<and> rs_status rs = rs_status rs0 \<and>
      (rs_payload rs = rs_payload rs0 \<or> (\<exists>n. rs_payload rs = cut_payload n (rs_payload rs0)))"
    using assms ok sr by (auto simp: call_def peer_def split: prod.splits fate.splits)
  with ok sr that show thesis by (metis deliver_run)
qed

section \<open>Requests on the wire\<close>

lemma wire_simps [simp]:
  "rq_path (wire rq) = rq_path rq" "rq_method (wire rq) = rq_method rq" "rq_body (wire rq) = rq_body rq"
  "rq_meta (wire rq) = rq_meta rq" "rq_length (wire rq) = rq_length rq" "rq_query (wire rq) = rq_query rq"
  by (simp_all add: wire_def)

lemma request_simps [simp]:
  "rq_path (request w meth path q) = path" "rq_body (request w meth path q) = RawBody (bytes_stream [])"
  "rq_headers (request w meth path q) = [(''X-MicroS3-Token'', sr_token (w_self w))]"
  "rq_method (request w meth path q) = meth" "rq_query (request w meth path q) = q"
  by (simp_all add: request_def base_request_def)

lemma arrivals_fields:
  assumes "rq' \<in> arrivals rq"
  shows "rq_path rq' = rq_path rq" "hget rq' nm = hget (wire rq) nm"
    "rq_body rq' = rq_body rq \<or> (\<exists>n. rq_body rq' = cut_body n (rq_body rq))"
  using assms by (auto simp: arrivals_def hget_def)

lemma prepare_request_hget:
  "hget (wire (prepare_request w tx meta body sz)) ''X-MicroS3-TxID'' = header_trim (tx_id tx)"
  "hget (wire (prepare_request w tx meta body sz)) ''X-MicroS3-Operation'' = header_trim (tx_operation tx)"
  "hget (wire (prepare_request w tx meta body sz)) ''X-MicroS3-Bucket'' = header_trim (tx_bucket tx)"
  "hget (wire (prepare_request w tx meta body sz)) ''X-MicroS3-Key'' = header_trim (tx_key tx)"
  "hget (wire (prepare_request w tx meta body sz)) ''X-MicroS3-CRC32'' = header_trim (itoa (uint (om_crc32 meta)))"
  by (simp_all add: prepare_request_def Let_def wire_def hget_def lookup_def)

lemma prepare_request_fields [simp]:
  "rq_path (prepare_request w tx meta body sz) = ''/internal/prepare''"
  "rq_meta (prepare_request w tx meta body sz) = MetaOf meta"
  by (simp_all add: prepare_request_def Let_def)

text \<open>A number survives the header.\<close>

lemma header_trim_digits: "list_all is_digit s \<Longrightarrow> header_trim s = s"
proof -
  have id: "dropWhile (\<lambda>c. c \<in> set cs) t = t" if "\<forall>c \<in> set t. c \<notin> set cs" for cs t :: string
    using that by (cases t) auto
  assume "list_all is_digit s"
  then have "\<forall>c \<in> set s. c \<notin> set [CHR '' '', char_of (9 :: nat), char_of (10 :: nat), char_of (13 :: nat)]"
    by (auto simp: list_all_iff is_digit_def)
  then show ?thesis
    unfolding header_trim_def trim_chars_def by (subst id, simp)+ simp
qed

lemma parse_u32_itoa: "parse_u32 (itoa (uint (c :: u32))) = Some c"
proof -
  have "uint c < 2 ^ 32" using uint_bounded [of c] by simp
  then show ?thesis by (simp add: parse_u32_def itoa_def)
qed

lemma prepare_meta_sent [simp]: "prepare_meta (header_trim (itoa (uint (om_crc32 m)))) m = m"
proof -
  have "header_trim (itoa (uint (om_crc32 m))) = itoa (uint (om_crc32 m))"
    by (rule header_trim_digits) (simp add: itoa_def nat_digits_digits)
  then show ?thesis unfolding prepare_meta_def by (simp only: parse_u32_itoa option.case) simp
qed

section \<open>The three messages of the coordinator\<close>

lemma bindE_world:
  assumes "\<And>a u. snd (k a u) = u"
  shows "snd (bindE m k w) = snd (m w)"
  by (simp add: bindE_def assms split: prod.split sum.split)

lemma expect_ok_world [simp]: "(\<And>rs u. snd (k rs u) = u) \<Longrightarrow> snd (expect_ok err k rs u) = u"
  by (simp add: expect_ok_def)

definition reaches :: "string \<Rightarrow> (string \<times> string) set \<Rightarrow> string \<Rightarrow> world \<Rightarrow> world \<Rightarrow> bool" where
  "reaches t C addr w w' \<longleftrightarrow> focus addr w w' \<and> rel_option (evolves t C) (peer w addr) (peer w' addr)"

lemma reachesI:
  assumes "\<And>rq' sr. rq' \<in> arrivals rq \<Longrightarrow> evolves t C sr (snd (serve (now_env w) rq' sr))"
    and "\<And>a u. snd (k a u) = u"
  shows "reaches t C addr w (snd (bindE (call addr rq) k w))"
  using call_reach [of addr rq w _ _ "evolves t C", OF surjective_pairing] assms
  by (simp add: reaches_def bindE_world)

lemma client_prepare_reaches:
  assumes "world_ok w" "good_uuid (tx_id tx)"
  shows "reaches (tx_id tx) {} addr w (snd (client_prepare addr tx meta body sz w))"
  unfolding client_prepare_def
proof (rule reachesI)
  fix rq' sr
  assume a: "rq' \<in> arrivals (prepare_request w tx meta body sz)"
  have "hget rq' ''X-MicroS3-TxID'' = tx_id tx"
    using assms(2) by (simp add: arrivals_fields(2) [OF a] prepare_request_hget good_uuid_def)
  with serve_prepare_evolves [of rq' "now_env w" sr] arrivals_fields(1) [OF a] world_okD(1) [OF assms(1)]
  show "evolves (tx_id tx) {} sr (snd (serve (now_env w) rq' sr))" by simp
qed simp

lemma client_commit_reaches: "reaches t {(b, k)} addr w (snd (client_commit addr t b k w))"
  unfolding client_commit_def
proof (rule reachesI)
  fix rq' sr
  assume a: "rq' \<in> arrivals ((request w ''POST'' ''/internal/commit'' [])\<lparr>rq_body := CommitBody t b k\<rparr>)"
  show "evolves t {(b, k)} sr (snd (serve (now_env w) rq' sr))"
    by (rule serve_commit_evolves) (use arrivals_fields(1,3) [OF a] in auto)
qed simp

lemma client_abort_reaches: "reaches t {} addr w (snd (client_abort addr t w))"
  unfolding client_abort_def
proof (rule reachesI)
  fix rq' sr
  assume a: "rq' \<in> arrivals ((request w ''POST'' ''/internal/abort'' [])\<lparr>rq_body := AbortBody t\<rparr>)"
  show "evolves t {} sr (snd (serve (now_env w) rq' sr))"
    by (rule serve_abort_evolves) (use arrivals_fields(1,3) [OF a] in auto)
qed simp

section \<open>Answered with success\<close>

lemma client_prepare_ok:
  assumes "client_prepare addr tx meta body sz w = (Inr u, w')" "world_ok w" "good_uuid (tx_id tx)"
  obtains sr fs m tx' where "peer w addr = Some sr" "peer w' addr = Some (sr\<lparr>sr_fs := fs\<rparr>)"
    "stage_object (sr_root sr) (now_env w) (tx_id tx)
       (case body of None \<Rightarrow> bytes_stream [] | Some st \<Rightarrow> fst (wire_stream sz st))
       (case body of None \<Rightarrow> 0 | Some _ \<Rightarrow> wire_length sz) meta tx' (sr_fs sr) = (Inr m, fs)"
    "tx_operation tx' = header_trim (tx_operation tx)" "tx_bucket tx' = header_trim (tx_bucket tx)"
    "tx_key tx' = header_trim (tx_key tx)" "body_sent body sz"
proof -
  let ?rq = "prepare_request w tx meta body sz"
  from assms(1) obtain rs w1 where c: "call addr ?rq w = (Inr rs, w1)" and
    rest: "(if \<not> body_sent body sz then failE body_error
       else expect_ok (status_error ''prepare'' addr) (\<lambda>_. retE ()) rs) w1 = (Inr u, w')"
    unfolding client_prepare_def by (rule bindE_okE)
  from rest have ok: "body_sent body sz" "rs_status rs = 200" "w1 = w'"
    by (auto simp: expect_ok_def split: if_splits)
  from c obtain sr where sr: "peer w addr = Some sr" "headers_ok ?rq"
    "rs_status rs = rs_status (fst (serve (now_env w) (wire ?rq) sr))"
    "peer w1 addr = Some (snd (serve (now_env w) (wire ?rq) sr))" by (rule call_ok)
  have tid: "header_trim (tx_id tx) = tx_id tx" using assms(3) by (simp add: good_uuid_def)
  have body: "raw_body (rq_body ?rq) = (case body of None \<Rightarrow> bytes_stream [] | Some st \<Rightarrow> fst (wire_stream sz st))"
    "rq_length ?rq = (case body of None \<Rightarrow> 0 | Some _ \<Rightarrow> wire_length sz)"
    by (simp_all add: prepare_request_def Let_def)
  have path: "rq_path (wire ?rq) = ''/internal/prepare''" by simp
  from path surjective_pairing [of "serve (now_env w) (wire ?rq) sr"] show thesis
  proof (cases rule: serve_prepare)
    case refused
    with ok sr show thesis by simp
  next
    case (staged r fs meta')
    have "meta' = meta" using staged(4) [of meta] by simp
    moreover obtain m where "r = Inr m" using staged(3) ok sr by auto
    ultimately show thesis
      using that [OF sr(1), of fs "served_tx (now_env w) (wire ?rq)" m] staged(1,2) sr(4) ok(1,3) tid body
      by (simp add: prepare_request_hget served_tx_def)
  qed
qed

lemma client_commit_ok:
  assumes "client_commit addr t b k w = (Inr u, w')"
  obtains sr fs m where "peer w addr = Some sr" "peer w' addr = Some (sr\<lparr>sr_fs := fs\<rparr>)"
    "commit_transaction (sr_root sr) t b k (sr_fs sr) = (Inr m, fs)"
proof -
  let ?rq = "(request w ''POST'' ''/internal/commit'' [])\<lparr>rq_body := CommitBody t b k\<rparr>"
  from assms obtain rs w1 where c: "call addr ?rq w = (Inr rs, w1)" and
    rest: "expect_ok (status_error ''commit'' addr) (\<lambda>_. retE ()) rs w1 = (Inr u, w')"
    unfolding client_commit_def by (rule bindE_okE)
  from rest have ok: "rs_status rs = 200" "w1 = w'"
    by (auto simp: expect_ok_def split: if_splits)
  from c obtain sr where sr: "peer w addr = Some sr" "headers_ok ?rq"
    "rs_status rs = rs_status (fst (serve (now_env w) (wire ?rq) sr))"
    "peer w1 addr = Some (snd (serve (now_env w) (wire ?rq) sr))" by (rule call_ok)
  have path: "rq_path (wire ?rq) = ''/internal/commit''" by simp
  from path surjective_pairing [of "serve (now_env w) (wire ?rq) sr"] show thesis
  proof (cases rule: serve_commit)
    case refused
    with ok sr show thesis by simp
  next
    case (run t' b' k' r fs)
    then show thesis using that [OF sr(1)] ok sr by auto
  qed
qed

section \<open>The node's own storage\<close>

lemma local_run:
  "local m w = (r, w') \<longleftrightarrow> (\<exists>fs. m (sr_root (w_self w)) (now_env w) (sr_fs (w_self w)) = (r, fs) \<and>
     w' = tick (w\<lparr>w_self := (w_self w)\<lparr>sr_fs := fs\<rparr>\<rparr>))"
  by (auto simp: local_def on_storage_def split: prod.splits)

lemma local_read:
  "(\<And>root ev fs. snd (m root ev fs) = fs) \<Longrightarrow> snd (local m w) = tick w"
  by (simp add: local_def on_storage_def split_beta)

lemma local_evolves:
  assumes "local m w = (r, w')" "evolves t C (w_self w) ((w_self w)\<lparr>sr_fs := snd (m (sr_root (w_self w)) (now_env w) (sr_fs (w_self w)))\<rparr>)"
  shows "evolves t C (w_self w) (w_self w')" "w_ids w' = w_ids w" "peer w' a = peer w a"
proof -
  from assms(1) obtain fs where "m (sr_root (w_self w)) (now_env w) (sr_fs (w_self w)) = (r, fs)"
    "w' = tick (w\<lparr>w_self := (w_self w)\<lparr>sr_fs := fs\<rparr>\<rparr>)" by (auto simp: local_run)
  with assms(2) show "evolves t C (w_self w) (w_self w')" "w_ids w' = w_ids w" "peer w' a = peer w a"
    by (simp_all add: peer_def)
qed

section \<open>A step of the cluster\<close>

text \<open>Some messages of one transaction at every node, the node itself included.\<close>

definition spreads :: "string \<Rightarrow> (string \<times> string) set \<Rightarrow> world \<Rightarrow> world \<Rightarrow> bool" where
  "spreads t C w w' \<longleftrightarrow> w_ids w' = w_ids w \<and> (\<forall>a. rel_option (evolves t C) (peer w a) (peer w' a))"

lemma spreads_refl [simp]: "spreads t C w w"
  by (simp add: spreads_def option.rel_refl)

lemma spreads_trans [trans]: "spreads t C w1 w2 \<Longrightarrow> spreads t C w2 w3 \<Longrightarrow> spreads t C w1 w3"
proof -
  assume 1: "spreads t C w1 w2" and 2: "spreads t C w2 w3"
  have "rel_option (evolves t C) (peer w1 a) (peer w3 a)" for a
  proof -
    from 1 2 have "rel_option (evolves t C) (peer w1 a) (peer w2 a)" "rel_option (evolves t C) (peer w2 a) (peer w3 a)"
      by (simp_all add: spreads_def)
    then show ?thesis by (auto simp: option_rel_Some1 elim!: option.rel_cases intro: evolves_trans)
  qed
  with 1 2 show ?thesis by (simp add: spreads_def)
qed

lemma spreads_mono: "spreads t C w w' \<Longrightarrow> C \<subseteq> D \<Longrightarrow> spreads t D w w'"
  unfolding spreads_def by (auto elim!: option.rel_mono_strong evolves_mono)

lemma spreads_peer:
  assumes "spreads t C w w'" "peer w a = Some sr"
  obtains sr' where "peer w' a = Some sr'" "evolves t C sr sr'"
proof -
  have "rel_option (evolves t C) (peer w a) (peer w' a)" using assms(1) by (simp add: spreads_def)
  with assms(2) that show thesis by (auto simp: option_rel_Some1)
qed

lemma spreads_peer':
  assumes "spreads t C w w'" "peer w' a = Some sr'"
  obtains sr where "peer w a = Some sr" "evolves t C sr sr'"
proof -
  have "rel_option (evolves t C) (peer w a) (peer w' a)" using assms(1) by (simp add: spreads_def)
  with assms(2) that show thesis by (auto simp: option_rel_Some2)
qed

lemma spreads_ok:
  assumes "spreads t C w w'" "plain_seg t" "world_ok w" "server_ok (w_self w')" "mgr_inv (sr_mgr (w_self w'))"
  shows "world_ok w'"
proof -
  have "server_ok sr'" if p: "peer w' a = Some sr'" for a sr'
  proof -
    obtain sr where "peer w a = Some sr" "evolves t C sr sr'" by (rule spreads_peer' [OF assms(1) p])
    with world_okD(3) [OF assms(3)] evolves_ok [OF _ assms(2)] show ?thesis by metis
  qed
  moreover have "w_ids w' = w_ids w" using assms(1) by (simp add: spreads_def)
  ultimately show ?thesis using assms(3-5) by (auto simp: world_ok_def)
qed

lemma reaches_spreads:
  assumes "reaches t C a w w'"
  shows "spreads t C w w'" "w_self w' = w_self w"
proof -
  have "rel_option (evolves t C) (peer w x) (peer w' x)" for x
    using assms by (cases "x = a") (auto simp: reaches_def focus_def option.rel_refl)
  with assms show "spreads t C w w'" "w_self w' = w_self w"
    by (auto simp: reaches_def focus_def spreads_def)
qed

lemma reaches_ok: "reaches t C a w w' \<Longrightarrow> plain_seg t \<Longrightarrow> world_ok w \<Longrightarrow> world_ok w'"
  using spreads_ok [OF reaches_spreads(1)] reaches_spreads(2) world_okD(2,4) by metis

section \<open>Broadcasts\<close>

definition contacts :: "string \<Rightarrow> (string \<times> string) set \<Rightarrow> (string \<Rightarrow> unit world_io) \<Rightarrow> bool" where
  "contacts t C f \<longleftrightarrow> (\<forall>a w. world_ok w \<longrightarrow> reaches t C a w (snd (f a w)))"

lemma contactsD: "contacts t C f \<Longrightarrow> world_ok w \<Longrightarrow> f a w = (r, w') \<Longrightarrow> reaches t C a w w'"
  unfolding contacts_def by (metis snd_conv)

lemma broadcast_step:
  assumes "broadcast f (a # as) w = (errs, w')"
  obtains r w1 errs' where "f a w = (r, w1)" "broadcast f as w1 = (errs', w')"
    "errs = (case r of Inl e \<Rightarrow> [(a, e)] | Inr _ \<Rightarrow> []) @ errs'"
  using assms by (auto split: prod.splits)

lemma broadcast_spreads:
  assumes "contacts t C f" "plain_seg t" "world_ok w" "broadcast f as w = (errs, w')"
  shows "spreads t C w w' \<and> w_self w' = w_self w \<and> world_ok w' \<and> fst ` set errs \<subseteq> set as \<and>
    (\<forall>a. a \<notin> set as \<longrightarrow> peer w' a = peer w a)"
  using assms(3,4)
proof (induction as arbitrary: w errs)
  case (Cons a as)
  from Cons.prems(2) obtain r w1 errs' where f: "f a w = (r, w1)" and b: "broadcast f as w1 = (errs', w')"
    and errs: "errs = (case r of Inl e \<Rightarrow> [(a, e)] | Inr _ \<Rightarrow> []) @ errs'" by (rule broadcast_step)
  note re = contactsD [OF assms(1) Cons.prems(1) f]
  note ih = Cons.IH [OF reaches_ok [OF re assms(2) Cons.prems(1)] b]
  have "peer w1 x = peer w x" if "x \<noteq> a" for x
    using re that by (simp add: reaches_def focus_def)
  moreover have "fst ` set (case r of Inl e \<Rightarrow> [(a, e)] | Inr _ \<Rightarrow> []) \<subseteq> {a}" by (cases r) auto
  ultimately show ?case
    using ih reaches_spreads [OF re] unfolding errs by (auto intro: spreads_trans)
qed simp

text \<open>Each follower of a list without repetitions is called once, in the state it was in.\<close>

lemma broadcast_each:
  assumes "contacts t C f" "plain_seg t" "world_ok w" "distinct as" "broadcast f as w = (errs, w')"
    and "a \<in> set as" "a \<notin> fst ` set errs"
  shows "\<exists>w1 w2. f a w1 = (Inr (), w2) \<and> world_ok w1 \<and> w_self w1 = w_self w \<and> w_ids w1 = w_ids w \<and>
    peer w1 a = peer w a \<and> peer w' a = peer w2 a"
  using assms(3-7)
proof (induction as arbitrary: w errs)
  case (Cons x as)
  from Cons.prems(3) obtain r w1 errs' where f: "f x w = (r, w1)" and b: "broadcast f as w1 = (errs', w')"
    and errs: "errs = (case r of Inl e \<Rightarrow> [(x, e)] | Inr _ \<Rightarrow> []) @ errs'" by (rule broadcast_step)
  note re = contactsD [OF assms(1) Cons.prems(1) f]
  note ok = reaches_ok [OF re assms(2) Cons.prems(1)]
  note rest = broadcast_spreads [OF assms(1,2) ok b]
  show ?case
  proof (cases "a = x")
    case True
    with Cons.prems(2) rest have "peer w' a = peer w1 a" by simp
    moreover have "r = Inr ()" using Cons.prems(5) errs True by (cases r) auto
    ultimately show ?thesis using f True Cons.prems(1) by blast
  next
    case False
    with Cons.prems(4,5) errs have "a \<in> set as" "a \<notin> fst ` set errs'" by auto
    with Cons.IH [OF ok _ b] Cons.prems(2) obtain w2 w3 where
      "f a w2 = (Inr (), w3)" "world_ok w2" "w_self w2 = w_self w1" "w_ids w2 = w_ids w1"
      "peer w2 a = peer w1 a" "peer w' a = peer w3 a" by auto
    moreover have "w_self w1 = w_self w" "w_ids w1 = w_ids w" "peer w1 a = peer w a"
      using re False by (simp_all add: reaches_def focus_def)
    ultimately show ?thesis by metis
  qed
qed simp

end
