(* ===== verification/TwoPhase.thy ===== *)
theory TwoPhase
  imports NetFacts
begin

text \<open>
  The two-phase commit of the service, correct: what a write leaves at the leader and at every
  follower, for every fate of every message, and what it never touches.
\<close>

section \<open>The steps of a write\<close>

lemma world_ok_tick [simp]: "world_ok (tick w) \<longleftrightarrow> world_ok w"
  by (simp add: world_ok_def)

lemma focus_tick [simp]: "focus a (tick w) w' \<longleftrightarrow> focus a w w'" "focus a w (tick w)"
  by (simp_all add: focus_def)

lemma reaches_tick [simp]: "reaches t C a (tick w) w' \<longleftrightarrow> reaches t C a w w'"
  by (simp add: reaches_def)

lemma staged_reader_read:
  "local (\<lambda>root ev. get_staged_object_reader root t) w = (r, w1) \<Longrightarrow> w1 = tick w"
  using local_read [of "\<lambda>root ev. get_staged_object_reader root t" w]
  by (simp add: get_staged_object_reader_def open_stream_state)

lemma contacts_prepare: "good_uuid (tx_id tx) \<Longrightarrow> contacts (tx_id tx) {} (prepare_one tx meta)"
  unfolding contacts_def
proof (intro allI impI)
  fix a w
  assume good: "good_uuid (tx_id tx)" and ok: "world_ok w"
  show "reaches (tx_id tx) {} a w (snd (prepare_one tx meta a w))"
  proof (cases "tx_operation tx = OpPut")
    case True
    obtain r w1 where l: "local (\<lambda>root ev. get_staged_object_reader root (tx_id tx)) w = (r, w1)"
      by (cases "local (\<lambda>root ev. get_staged_object_reader root (tx_id tx)) w")
    with True ok client_prepare_reaches [of w1 tx, OF _ good] staged_reader_read [OF l] show ?thesis
      by (cases r) (auto simp: prepare_one_def reaches_def option.rel_refl)
  qed (simp add: prepare_one_def client_prepare_reaches [OF ok good])
qed

lemma contacts_commit: "contacts t {(b, k)} (\<lambda>a. client_commit a t b k)"
  by (simp add: contacts_def client_commit_reaches)

lemma contacts_abort: "contacts t {} (\<lambda>a. client_abort a t)"
  by (simp add: contacts_def client_abort_reaches)

section \<open>The node itself\<close>

text \<open>What the service leaves alone outside its gate, and what happens to the node's files.\<close>

definition same_gate :: "svc \<Rightarrow> svc \<Rightarrow> bool" where
  "same_gate s s' \<longleftrightarrow> sv_syncing s' = sv_syncing s \<and> sv_active_writes s' = sv_active_writes s \<and>
     sv_behavior s' = sv_behavior s"

definition drifts :: "string \<Rightarrow> (string \<times> string) set \<Rightarrow> server \<Rightarrow> server \<Rightarrow> bool" where
  "drifts t C sr sr' \<longleftrightarrow> sr_root sr' = sr_root sr \<and> sr_token sr' = sr_token sr \<and>
     tx_history (sr_root sr) t C (sr_fs sr) (sr_fs sr') \<and> same_gate (sr_svc sr) (sr_svc sr')"

lemma evolves_drifts: "evolves t C sr sr' \<Longrightarrow> drifts t C sr sr'"
  by (auto simp: evolves_def drifts_def same_gate_def)

lemma drifts_refl [simp]: "drifts t C sr sr"
  by (simp add: evolves_drifts)

lemma drifts_trans [trans]: "drifts t C s1 s2 \<Longrightarrow> drifts t C s2 s3 \<Longrightarrow> drifts t C s1 s3"
  unfolding drifts_def tx_history_def same_gate_def by auto

lemma drifts_mono: "drifts t C s1 s2 \<Longrightarrow> C \<subseteq> D \<Longrightarrow> drifts t D s1 s2"
  unfolding drifts_def tx_history_def by (auto dest: tx_steps_mono)

lemma drifts_evolves:
  "drifts t C sr sr' \<Longrightarrow> evolves t C sr (sr\<lparr>sr_fs := sr_fs sr'\<rparr>)"
  by (auto simp: drifts_def evolves_def)

lemma drifts_ok: "drifts t C sr sr' \<Longrightarrow> plain_seg t \<Longrightarrow> server_ok sr \<Longrightarrow> server_ok sr'"
  using evolves_ok [OF drifts_evolves] by (auto simp: server_ok_def drifts_def)

lemma drifts_frame:
  assumes "drifts t C sr sr'" "plain_seg t" "server_ok sr" "plain_seg b'" "plain_name k'"
    and "\<And>b k. (b, k) \<in> C \<Longrightarrow> plain_seg b \<and> plain_name k \<and> objects_apart b k b' k'"
  shows "sr_obj sr' b' k' = sr_obj sr b' k'"
  using evolves_frame [OF drifts_evolves [OF assms(1)] assms(2-6)] assms(1)
  by (simp add: sr_obj_def drifts_def)

section \<open>Failures reported\<close>

definition upd_fields :: "world \<Rightarrow> world \<Rightarrow> bool" where
  "upd_fields w w' \<longleftrightarrow> w_peers w' = w_peers w \<and> w_ids w' = w_ids w \<and> sr_root (w_self w') = sr_root (w_self w) \<and>
     sr_token (w_self w') = sr_token (w_self w) \<and> sr_fs (w_self w') = sr_fs (w_self w) \<and>
     same_gate (sr_svc (w_self w)) (sr_svc (w_self w'))"

lemma upd_fields_refl [simp]: "upd_fields w w"
  by (simp add: upd_fields_def same_gate_def)

lemma upd_fields_trans: "upd_fields w1 w2 \<Longrightarrow> upd_fields w2 w3 \<Longrightarrow> upd_fields w1 w3"
  by (simp add: upd_fields_def same_gate_def)

lemma upd_metrics_fields: "upd_fields w (upd_metrics f w)"
  by (simp add: upd_fields_def upd_metrics_def upd_svc_def upd_self_def same_gate_def)

lemma upd_mgr_fields: "upd_fields w (upd_mgr f w)"
  by (simp add: upd_fields_def upd_mgr_def upd_self_def same_gate_def)

lemma upd_metrics_mgr [simp]: "sr_mgr (w_self (upd_metrics f w)) = sr_mgr (w_self w)"
  by (simp add: upd_metrics_def upd_svc_def upd_self_def)

lemma upd_mgr_mgr [simp]: "sr_mgr (w_self (upd_mgr f w)) = f (sr_mgr (w_self w))"
  by (simp add: upd_mgr_def upd_self_def)

lemma report_failures_fields: "upd_fields w (report_failures inc errs w)"
  unfolding report_failures_def
  by (induction errs arbitrary: w)
    (auto intro: upd_fields_trans [OF upd_fields_trans [OF upd_mgr_fields upd_metrics_fields]])

lemma report_failures_mgr:
  "sr_mgr (w_self (report_failures inc errs w)) = fold mgr_mark_dead (map fst errs) (sr_mgr (w_self w))"
  unfolding report_failures_def by (induction errs arbitrary: w) auto

lemma report_failures_alive:
  "world_ok w \<Longrightarrow> set (alive_followers (report_failures inc errs w)) = set (alive_followers w) - fst ` set errs"
  unfolding alive_followers_def report_failures_mgr using mgr.all_dead_alive [OF world_okD(4)] by simp

lemma upd_fields_ok:
  "upd_fields w w' \<Longrightarrow> world_ok w \<Longrightarrow> mgr_inv (sr_mgr (w_self w')) \<Longrightarrow> world_ok w'"
  by (simp add: upd_fields_def world_ok_def server_ok_def peer_def)

lemma upd_fields_step:
  assumes "upd_fields w w'"
  shows "spreads t C w w'" "drifts t C (w_self w) (w_self w')"
  using assms by (simp_all add: upd_fields_def spreads_def peer_def drifts_def tx_history_def option.rel_refl)

section \<open>The phases\<close>

text \<open>A step of the write: at the peers, at the node, and the world it leaves.\<close>

definition progress :: "string \<Rightarrow> (string \<times> string) set \<Rightarrow> (string \<times> string) set \<Rightarrow> world \<Rightarrow> world \<Rightarrow> bool" where
  "progress t C D w w' \<longleftrightarrow> spreads t C w w' \<and> drifts t D (w_self w) (w_self w') \<and> world_ok w'"

lemma progress_trans [trans]: "progress t C D w1 w2 \<Longrightarrow> progress t C D w2 w3 \<Longrightarrow> progress t C D w1 w3"
  unfolding progress_def by (blast intro: spreads_trans drifts_trans)

lemma progress_mono: "progress t C D w w' \<Longrightarrow> C \<subseteq> C' \<Longrightarrow> D \<subseteq> D' \<Longrightarrow> progress t C' D' w w'"
  unfolding progress_def by (blast intro: spreads_mono drifts_mono)

lemma progress_ok: "progress t C D w w' \<Longrightarrow> world_ok w'"
  by (simp add: progress_def)

lemma upd_fields_progress:
  "upd_fields w w' \<Longrightarrow> world_ok w \<Longrightarrow> mgr_inv (sr_mgr (w_self w')) \<Longrightarrow> progress t C D w w'"
  by (simp add: progress_def upd_fields_step upd_fields_ok)

lemma broadcast_progress:
  assumes "contacts t C f" "plain_seg t" "world_ok w" "broadcast f as w = (errs, w')"
  shows "progress t C D w w'"
  using broadcast_spreads [OF assms] by (simp add: progress_def)

lemma report_progress: "world_ok w \<Longrightarrow> progress t C D w (report_failures inc errs w)"
  by (rule upd_fields_progress [OF report_failures_fields])
    (simp_all add: report_failures_mgr mgr.all_dead_inv world_okD(4))

lemma metrics_progress: "world_ok w \<Longrightarrow> progress t C D w (upd_metrics f w)"
  by (rule upd_fields_progress [OF upd_metrics_fields]) (simp_all add: world_okD(4))

lemma good_uuid_seg: "good_uuid t \<Longrightarrow> plain_seg t"
  by (simp add: good_uuid_def)

lemma psubset_diff: "A' = A - E \<Longrightarrow> E \<noteq> {} \<Longrightarrow> E \<subseteq> A \<Longrightarrow> A' \<subset> A"
  by blast

lemma prepare_phase_run:
  assumes "world_ok w" "good_uuid (tx_id tx)" "prepare_phase tx staged w = (ok, w')"
  shows "progress (tx_id tx) {} D w w'" "sr_fs (w_self w') = sr_fs (w_self w)"
    "ok \<Longrightarrow> w_self w' = w_self w" "\<not> ok \<Longrightarrow> set (alive_followers w') \<subset> set (alive_followers w)"
proof -
  have "progress (tx_id tx) {} D w w' \<and> sr_fs (w_self w') = sr_fs (w_self w) \<and>
      (ok \<longrightarrow> w_self w' = w_self w) \<and> (\<not> ok \<longrightarrow> set (alive_followers w') \<subset> set (alive_followers w))"
  proof (cases "alive_followers w = []")
    case True
    with assms show ?thesis by (auto simp: prepare_phase_def progress_def)
  next
    case False
    with assms(3) obtain errs w1 where b: "broadcast (prepare_one tx staged) (alive_followers w) w = (errs, w1)"
      and ok: "ok = (errs = [])" and w': "w' = report_failures inc_prepare errs w1"
      by (auto simp: prepare_phase_def prepare_all_def split: prod.splits)
    note c = contacts_prepare [OF assms(2)]
    note sp = broadcast_spreads [OF c good_uuid_seg [OF assms(2)] assms(1) b]
    have "progress (tx_id tx) {} D w w1"
      by (rule broadcast_progress [OF c good_uuid_seg [OF assms(2)] assms(1) b])
    also have "progress (tx_id tx) {} D w1 w'" unfolding w' using sp by (intro report_progress) simp
    finally have "progress (tx_id tx) {} D w w'" .
    moreover have "sr_fs (w_self w') = sr_fs (w_self w)"
      using sp report_failures_fields [of w1 inc_prepare errs] by (simp add: w' upd_fields_def)
    moreover have "ok \<Longrightarrow> w_self w' = w_self w" using sp by (simp add: ok w' report_failures_def)
    moreover have "set (alive_followers w') \<subset> set (alive_followers w)" if "\<not> ok"
    proof -
      have "set (alive_followers w') = set (alive_followers w) - fst ` set errs"
        using sp report_failures_alive [of w1] by (simp add: w' alive_followers_def)
      moreover have "fst ` set errs \<noteq> {}" using that ok by simp
      moreover have "fst ` set errs \<subseteq> set (alive_followers w)" using sp by simp
      ultimately show ?thesis by (rule psubset_diff)
    qed
    ultimately show ?thesis by blast
  qed
  then show "progress (tx_id tx) {} D w w'" "sr_fs (w_self w') = sr_fs (w_self w)"
    "ok \<Longrightarrow> w_self w' = w_self w" "\<not> ok \<Longrightarrow> set (alive_followers w') \<subset> set (alive_followers w)" by blast+
qed

lemma prepare_phase_each:
  assumes "world_ok w" "good_uuid (tx_id tx)" "prepare_phase tx staged w = (True, w')"
    and "distinct (alive_followers w)" "a \<in> set (alive_followers w)"
  obtains w1 w2 where "prepare_one tx staged a w1 = (Inr (), w2)" "world_ok w1" "w_self w1 = w_self w"
    "peer w1 a = peer w a" "peer w' a = peer w2 a"
proof -
  have ne: "alive_followers w \<noteq> []" using assms(5) by auto
  with assms(3) have b: "broadcast (prepare_one tx staged) (alive_followers w) w = ([], w')"
    by (auto simp: prepare_phase_def prepare_all_def report_failures_def split: prod.splits)
  show thesis
    using broadcast_each [OF contacts_prepare [OF assms(2)] good_uuid_seg [OF assms(2)] assms(1,4) b assms(5)] that
    by auto
qed

lemma commit_phase_run:
  assumes "world_ok w" "plain_seg (tx_id tx)"
  shows "progress (tx_id tx) {(tx_bucket tx, tx_key tx)} D w (commit_phase tx w)"
    "sr_fs (w_self (commit_phase tx w)) = sr_fs (w_self w)"
    "set (alive_followers (commit_phase tx w)) \<subseteq> set (alive_followers w)"
proof -
  obtain errs w1 where b: "broadcast (\<lambda>addr. client_commit addr (tx_id tx) (tx_bucket tx) (tx_key tx))
      (alive_followers w) w = (errs, w1)" and c: "commit_phase tx w = report_failures inc_commit errs w1"
    by (cases "commit_all (tx_id tx) (tx_bucket tx) (tx_key tx) w") (auto simp: commit_phase_def commit_all_def)
  note sp = broadcast_spreads [OF contacts_commit assms(2,1) b]
  have "progress (tx_id tx) {(tx_bucket tx, tx_key tx)} D w w1"
    by (rule broadcast_progress [OF contacts_commit assms(2,1) b])
  also have "progress (tx_id tx) {(tx_bucket tx, tx_key tx)} D w1 (commit_phase tx w)"
    unfolding c using sp by (intro report_progress) simp
  finally show "progress (tx_id tx) {(tx_bucket tx, tx_key tx)} D w (commit_phase tx w)" .
  show "sr_fs (w_self (commit_phase tx w)) = sr_fs (w_self w)"
    using sp report_failures_fields [of w1 inc_commit errs] by (simp add: c upd_fields_def)
  show "set (alive_followers (commit_phase tx w)) \<subseteq> set (alive_followers w)"
    using sp report_failures_alive [of w1 inc_commit errs] by (simp add: c alive_followers_def)
qed

lemma commit_phase_each:
  assumes "world_ok w" "plain_seg (tx_id tx)" "distinct (alive_followers w)"
    and a: "a \<in> set (alive_followers (commit_phase tx w))"
  obtains w1 w2 where "client_commit a (tx_id tx) (tx_bucket tx) (tx_key tx) w1 = (Inr (), w2)" "world_ok w1"
    "peer w1 a = peer w a" "peer (commit_phase tx w) a = peer w2 a"
proof -
  obtain errs w1 where b: "broadcast (\<lambda>addr. client_commit addr (tx_id tx) (tx_bucket tx) (tx_key tx))
      (alive_followers w) w = (errs, w1)" and c: "commit_phase tx w = report_failures inc_commit errs w1"
    by (cases "commit_all (tx_id tx) (tx_bucket tx) (tx_key tx) w") (auto simp: commit_phase_def commit_all_def)
  note sp = broadcast_spreads [OF contacts_commit assms(2,1) b]
  have "a \<in> set (alive_followers w) - fst ` set errs"
    using a sp report_failures_alive [of w1 inc_commit errs] by (simp add: c alive_followers_def)
  then have "a \<in> set (alive_followers w)" "a \<notin> fst ` set errs" by simp_all
  from broadcast_each [OF contacts_commit assms(2,1,3) b this] obtain u1 u2 where
    "client_commit a (tx_id tx) (tx_bucket tx) (tx_key tx) u1 = (Inr (), u2)" "world_ok u1"
    "peer u1 a = peer w a" "peer w1 a = peer u2 a" by blast
  moreover have "peer (commit_phase tx w) a = peer w1 a"
    using report_failures_fields [of w1 inc_commit errs] by (simp add: c upd_fields_def peer_def)
  ultimately show thesis using that by metis
qed

lemma abort_phase_run:
  assumes "world_ok w" "plain_seg t"
  shows "progress t {} D w (abort_phase reason t w)" "sr_fs (w_self (abort_phase reason t w)) = sr_fs (w_self w)"
    "alive_followers (abort_phase reason t w) = alive_followers w"
proof -
  obtain errs w1 where b: "broadcast (\<lambda>addr. client_abort addr t) (alive_followers w) w = (errs, w1)"
    and c: "abort_phase reason t w = upd_metrics (inc_abort reason) w1"
    by (cases "abort_all t w") (auto simp: abort_phase_def abort_all_def)
  note sp = broadcast_spreads [OF contacts_abort assms(2,1) b]
  have "progress t {} D w w1" by (rule broadcast_progress [OF contacts_abort assms(2,1) b])
  also have "progress t {} D w1 (abort_phase reason t w)"
    unfolding c using sp by (intro metrics_progress) simp
  finally show "progress t {} D w (abort_phase reason t w)" .
  show "sr_fs (w_self (abort_phase reason t w)) = sr_fs (w_self w)"
    using sp upd_metrics_fields [of w1 "inc_abort reason"] by (simp add: c upd_fields_def)
  show "alive_followers (abort_phase reason t w) = alive_followers w"
    using sp by (simp add: c alive_followers_def)
qed

text \<open>Operations on the node's storage.\<close>

lemma local_progress:
  assumes "world_ok w" "plain_seg t" "local m w = (r, w')"
    and "evolves t D (w_self w) ((w_self w)\<lparr>sr_fs := snd (m (sr_root (w_self w)) (now_env w) (sr_fs (w_self w)))\<rparr>)"
  shows "progress t C D w w'" "sr_mgr (w_self w') = sr_mgr (w_self w)"
proof -
  note e = local_evolves [OF assms(3,4)]
  have sp: "spreads t C w w'" using e(2,3) by (simp add: spreads_def option.rel_refl)
  have m: "sr_mgr (w_self w') = sr_mgr (w_self w)" using evolves_fields [OF e(1)] by simp
  moreover have "server_ok (w_self w')" by (rule evolves_ok [OF e(1) assms(2) world_okD(2) [OF assms(1)]])
  ultimately have "world_ok w'"
    using spreads_ok [OF sp assms(2,1)] world_okD(4) [OF assms(1)] by simp
  with sp evolves_drifts [OF e(1)] show "progress t C D w w'" by (simp add: progress_def)
  from m show "sr_mgr (w_self w') = sr_mgr (w_self w)" .
qed

lemma local_commit_progress:
  assumes "world_ok w" "plain_seg t" "local (\<lambda>root ev. commit_transaction root t b k) w = (r, w')"
  shows "progress t C {(b, k)} w w'" "alive_followers w' = alive_followers w"
proof -
  have "evolves t {(b, k)} (w_self w)
      ((w_self w)\<lparr>sr_fs := snd (commit_transaction (sr_root (w_self w)) t b k (sr_fs (w_self w)))\<rparr>)"
    by (rule evolves_one, rule tx_step.commits) simp
  from local_progress [OF assms this] show "progress t C {(b, k)} w w'" "alive_followers w' = alive_followers w"
    by (simp_all add: alive_followers_def)
qed

lemma local_abort_progress:
  assumes "world_ok w" "plain_seg t" "local (\<lambda>root ev. abort_transaction root t) w = (r, w')"
  shows "progress t C {} w w'" "alive_followers w' = alive_followers w"
proof -
  have "evolves t {} (w_self w)
      ((w_self w)\<lparr>sr_fs := snd (abort_transaction (sr_root (w_self w)) t (sr_fs (w_self w)))\<rparr>)"
    by (rule evolves_one, rule tx_step.aborts)
  from local_progress [OF assms this] show "progress t C {} w w'" "alive_followers w' = alive_followers w"
    by (simp_all add: alive_followers_def)
qed

section \<open>The whole of it\<close>

text \<open>The three outcomes of a two-phase commit.\<close>

lemma two_phase_cases:
  assumes "world_ok w" "good_uuid (tx_id tx)" "two_phase tx staged w = (r, w')"
  obtains (refused) e where "r = Inl e" "set (alive_followers w') \<subset> set (alive_followers w)"
      "progress (tx_id tx) {} {} w w'"
  | (failed) e where "r = Inl e" "set (alive_followers w') = set (alive_followers w)"
      "progress (tx_id tx) {} {(tx_bucket tx, tx_key tx)} w w'"
  | (committed) m w1 w2 where "r = Inr m" "prepare_phase tx staged w = (True, w1)" "world_ok w1"
      "w_self w1 = w_self w"
      "local (\<lambda>root ev. commit_transaction root (tx_id tx) (tx_bucket tx) (tx_key tx)) w1 = (Inr m, w2)"
      "world_ok w2" "alive_followers w2 = alive_followers w"
      "w' = (if alive_followers w \<noteq> [] then commit_phase tx w2 else w2)"
      "progress (tx_id tx) {(tx_bucket tx, tx_key tx)} {(tx_bucket tx, tx_key tx)} w w'"
proof -
  note seg = good_uuid_seg [OF assms(2)]
  let ?C = "{(tx_bucket tx, tx_key tx)}"
  obtain ok w1 where p: "prepare_phase tx staged w = (ok, w1)" by (cases "prepare_phase tx staged w")
  note pr = prepare_phase_run [OF assms(1,2) p]
  note ok1 = progress_ok [OF pr(1) [where D = "{}"]]
  show thesis
  proof (cases ok)
    case False
    obtain u w2 where l: "local (\<lambda>root ev. abort_transaction root (tx_id tx)) w1 = (u, w2)"
      by (cases "local (\<lambda>root ev. abort_transaction root (tx_id tx)) w1")
    note lp = local_abort_progress [OF ok1 seg l]
    note ap = abort_phase_run [OF progress_ok [OF lp(1)] seg, where reason = "''prepare_failed''"]
    have r: "r = Inl (ErrMsg ''replication prepare failed, transaction aborted'')"
      "w' = abort_phase ''prepare_failed'' (tx_id tx) w2"
      using assms(3) p False l by (auto simp: two_phase_def Let_def)
    have "set (alive_followers w') \<subset> set (alive_followers w)"
      using pr(4) False lp(2) ap(3) by (simp add: r)
    moreover have "progress (tx_id tx) {} {} w w'"
      unfolding r by (rule progress_trans [OF progress_trans [OF pr(1) lp(1)] ap(1)])
    ultimately show thesis using refused r(1) by blast
  next
    case True
    note self1 = pr(3) [OF True]
    have al: "alive_followers w1 = alive_followers w" using self1 by (simp add: alive_followers_def)
    obtain rc w2 where l: "local (\<lambda>root ev. commit_transaction root (tx_id tx) (tx_bucket tx) (tx_key tx)) w1 = (rc, w2)"
      by (cases "local (\<lambda>root ev. commit_transaction root (tx_id tx) (tx_bucket tx) (tx_key tx)) w1")
    note lp = local_commit_progress [OF ok1 seg l]
    note ok2 = progress_ok [OF lp(1)]
    have p2: "progress (tx_id tx) C ?C w w2" for C
      by (rule progress_trans [OF progress_mono [OF pr(1)] lp(1)]) auto
    show thesis
    proof (cases rc)
      case (Inl e)
      let ?w3 = "if alive_followers w \<noteq> [] then abort_phase ''local_commit_failed'' (tx_id tx) w2 else w2"
      have r: "r = Inl e" "w' = ?w3" using assms(3) p True l Inl by (auto simp: two_phase_def Let_def)
      note ap = abort_phase_run [OF ok2 seg, where reason = "''local_commit_failed''"]
      have "set (alive_followers w') = set (alive_followers w)" using lp(2) ap(3) al by (simp add: r)
      moreover have "progress (tx_id tx) {} ?C w w'"
        using p2 progress_trans [OF p2 ap(1)] by (simp add: r)
      ultimately show thesis using failed r(1) by blast
    next
      case (Inr m)
      have r: "r = Inr m" "w' = (if alive_followers w \<noteq> [] then commit_phase tx w2 else w2)"
        using assms(3) p True l Inr by (auto simp: two_phase_def Let_def)
      have "progress (tx_id tx) ?C ?C w w'"
        using p2 progress_trans [OF p2 commit_phase_run(1) [OF ok2 seg]] by (simp add: r(2))
      with committed r p True ok1 self1 l Inr ok2 lp(2) al show thesis by simp
    qed
  qed
qed

section \<open>A follower that is still alive has the write\<close>

lemma staged_meta_idem: "staged_meta (staged_meta m bs) bs = staged_meta m bs"
  by (simp add: staged_meta_def Let_def quoted_def)

lemma staged_meta_ec [simp]: "is_ec (staged_meta m bs) = is_ec m"
  by (simp add: staged_meta_def is_ec_def Let_def)

lemma staged_meta_length [simp]: "om_content_length (staged_meta m bs) = int (length bs)"
  by (simp add: staged_meta_def Let_def)

lemma staged_reader_run:
  "staged_body root fs t = Some (bs, m) \<Longrightarrow> get_staged_object_reader root t fs = (Inr (bytes_stream bs), fs)"
  by (auto simp: staged_body_Some get_staged_object_reader_def open_stream_def bindE_def os_open_def fs_file_Some_iff)

lemma wire_stream_exact: "wire_stream (int (length bs)) (bytes_stream bs) = (bytes_stream bs, True)"
  by (cases bs) (simp_all add: wire_stream_def bytes_stream_def)

lemma header_trim_ops [simp]: "header_trim OpPut = OpPut" "header_trim OpDelete = OpDelete"
  by code_simp+

text \<open>The \<open>PUT\<close> prepared at a follower.\<close>

lemma prepare_put_ok:
  assumes "prepare_one tx m a w = (Inr (), w')" "world_ok w" "good_uuid (tx_id tx)" "tx_operation tx = OpPut"
    and "staged_body (sr_root (w_self w)) (sr_fs (w_self w)) (tx_id tx) = Some (bs, m)"
    and "om_content_length m = int (length bs)"
  obtains sr fs m' ev sz tx' where "peer w a = Some sr" "peer w' a = Some (sr\<lparr>sr_fs := fs\<rparr>)" "good_env ev"
    "stage_object (sr_root sr) ev (tx_id tx) (bytes_stream bs) sz m tx' (sr_fs sr) = (Inr m', fs)"
    "tx_operation tx' = OpPut" "tx_bucket tx' = header_trim (tx_bucket tx)" "tx_key tx' = header_trim (tx_key tx)"
proof -
  have l: "local (\<lambda>root ev. get_staged_object_reader root (tx_id tx)) w = (Inr (bytes_stream bs), tick w)"
    using staged_reader_run [OF assms(5)] by (simp add: local_def on_storage_def)
  from assms(1,4) have p: "client_prepare a tx m (Some (bytes_stream bs)) (int (length bs)) (tick w) = (Inr (), w')"
    using l assms(6) by (simp add: prepare_one_def bindE_def)
  have ok: "world_ok (tick w)" using assms(2) by simp
  obtain sr fs m' tx' where "peer (tick w) a = Some sr" "peer w' a = Some (sr\<lparr>sr_fs := fs\<rparr>)" and
    st: "stage_object (sr_root sr) (now_env (tick w)) (tx_id tx)
       (case Some (bytes_stream bs) of None \<Rightarrow> bytes_stream [] | Some st \<Rightarrow> fst (wire_stream (int (length bs)) st))
       (case Some (bytes_stream bs) of None \<Rightarrow> 0 | Some _ \<Rightarrow> wire_length (int (length bs))) m tx' (sr_fs sr) = (Inr m', fs)"
    and "tx_operation tx' = header_trim (tx_operation tx)"
    "tx_bucket tx' = header_trim (tx_bucket tx)" "tx_key tx' = header_trim (tx_key tx)"
    by (rule client_prepare_ok [OF p ok assms(3)])
  moreover from st have "stage_object (sr_root sr) (now_env (tick w)) (tx_id tx) (bytes_stream bs)
      (wire_length (int (length bs))) m tx' (sr_fs sr) = (Inr m', fs)" by (simp add: wire_stream_exact)
  ultimately show thesis using that world_okD(1) [OF ok] assms(4) by simp
qed

lemma prepare_delete_ok:
  assumes "prepare_one tx m a w = (Inr (), w')" "world_ok w" "good_uuid (tx_id tx)" "tx_operation tx = OpDelete"
  obtains sr fs m' ev st sz tx' where "peer w a = Some sr" "peer w' a = Some (sr\<lparr>sr_fs := fs\<rparr>)" "good_env ev"
    "stage_object (sr_root sr) ev (tx_id tx) st sz m tx' (sr_fs sr) = (Inr m', fs)"
    "tx_operation tx' = OpDelete" "tx_bucket tx' = header_trim (tx_bucket tx)" "tx_key tx' = header_trim (tx_key tx)"
proof -
  from assms(1,4) have p: "client_prepare a tx m None (om_content_length m) w = (Inr (), w')"
    by (simp add: prepare_one_def)
  obtain sr fs m' tx' where "peer w a = Some sr" "peer w' a = Some (sr\<lparr>sr_fs := fs\<rparr>)" and
    "stage_object (sr_root sr) (now_env w) (tx_id tx)
       (case None of None \<Rightarrow> bytes_stream [] | Some st \<Rightarrow> fst (wire_stream (om_content_length m) st))
       (case None of None \<Rightarrow> 0 | Some (_ :: stream) \<Rightarrow> wire_length (om_content_length m)) m tx' (sr_fs sr) = (Inr m', fs)"
    and "tx_operation tx' = header_trim (tx_operation tx)"
    "tx_bucket tx' = header_trim (tx_bucket tx)" "tx_key tx' = header_trim (tx_key tx)"
    by (rule client_prepare_ok [OF p assms(2,3)])
  with that world_okD(1) [OF assms(2)] assms(4) show thesis by simp
qed

text \<open>What the committed outcome of a two-phase commit says of one follower that stayed.\<close>

lemma committed_follower:
  assumes "world_ok w" "good_uuid (tx_id tx)" "prepare_phase tx m w = (True, w1)" "w_self w1 = w_self w"
    and "local (\<lambda>root ev. commit_transaction root (tx_id tx) (tx_bucket tx) (tx_key tx)) w1 = (Inr m', w2)"
    and "world_ok w2" "alive_followers w2 = alive_followers w"
    and "w' = (if alive_followers w \<noteq> [] then commit_phase tx w2 else w2)"
    and "distinct (alive_followers w)" "a \<in> set (alive_followers w')"
  obtains u1 u2 u3 u4 where "prepare_one tx m a u1 = (Inr (), u2)" "world_ok u1" "w_self u1 = w_self w"
    "peer u1 a = peer w a" "client_commit a (tx_id tx) (tx_bucket tx) (tx_key tx) u3 = (Inr (), u4)" "world_ok u3"
    "peer u3 a = peer u2 a" "peer w' a = peer u4 a"
proof -
  note seg = good_uuid_seg [OF assms(2)]
  from assms(7,8,10) have ne: "alive_followers w \<noteq> []" by auto
  then have w': "w' = commit_phase tx w2" using assms(8) by simp
  have "a \<in> set (alive_followers w)"
    using commit_phase_run(3) [OF assms(6) seg] assms(7,10) by (auto simp: w')
  from prepare_phase_each [OF assms(1-3,9) this] obtain u1 u2 where
    u12: "prepare_one tx m a u1 = (Inr (), u2)" "world_ok u1" "w_self u1 = w_self w"
    "peer u1 a = peer w a" "peer w1 a = peer u2 a" .
  from commit_phase_each [OF assms(6) seg] assms(7,9,10) obtain u3 u4 where
    u34: "client_commit a (tx_id tx) (tx_bucket tx) (tx_key tx) u3 = (Inr (), u4)" "world_ok u3"
    "peer u3 a = peer w2 a" "peer w' a = peer u4 a" by (auto simp: w')
  have "peer w2 a = peer w1 a" using assms(5) by (auto simp: local_run peer_def)
  with u12(5) u34(3) that [OF u12(1-4) u34(1,2) _ u34(4)] show thesis by simp
qed

lemma follower_has_put:
  assumes "prepare_one tx m a u1 = (Inr (), u2)" "world_ok u1" "good_uuid (tx_id tx)" "tx_operation tx = OpPut"
    and "staged_body (sr_root (w_self u1)) (sr_fs (w_self u1)) (tx_id tx) = Some (bs, m)" "m = staged_meta m0 bs"
    and "client_commit a (tx_id tx) (tx_bucket tx) (tx_key tx) u3 = (Inr (), u4)" "peer u3 a = peer u2 a"
    and "plain_seg (tx_bucket tx)" "plain_name (tx_key tx)" "\<not> is_ec m0"
  shows "\<exists>sr. peer u4 a = Some sr \<and> sr_obj sr (tx_bucket tx) (tx_key tx) = Some (bs, m)"
    "header_trim (tx_key tx) = tx_key tx"
proof -
  have len: "om_content_length m = int (length bs)" using assms(6) by simp
  obtain sr fs m' ev sz tx' where p: "peer u1 a = Some sr" "peer u2 a = Some (sr\<lparr>sr_fs := fs\<rparr>)" "good_env ev"
    "stage_object (sr_root sr) ev (tx_id tx) (bytes_stream bs) sz m tx' (sr_fs sr) = (Inr m', fs)"
    "tx_operation tx' = OpPut" "tx_bucket tx' = header_trim (tx_bucket tx)" "tx_key tx' = header_trim (tx_key tx)"
    by (rule prepare_put_ok [OF assms(1-5) len])
  obtain sr3 fs4 m4 where c: "peer u3 a = Some sr3" "peer u4 a = Some (sr3\<lparr>sr_fs := fs4\<rparr>)"
    "commit_transaction (sr_root sr3) (tx_id tx) (tx_bucket tx) (tx_key tx) (sr_fs sr3) = (Inr m4, fs4)"
    by (rule client_commit_ok [OF assms(7)])
  have sr3: "sr3 = sr\<lparr>sr_fs := fs\<rparr>" using c(1) p(2) assms(8) by simp
  have ok: "server_ok sr" by (rule world_okD(3) [OF assms(2) p(1)])
  have "good_dir (sr_root sr) (tx_id tx)" "good_object (sr_root sr) (tx_bucket tx) (tx_key tx)" "wf_fs (sr_fs sr)"
    using ok assms(3,9,10) by (simp_all add: server_ok_def good_dir_def good_object_def good_uuid_def)
  note pc = fs.prepare_commit_put [OF this(1) p(3) this(2,3) p(5,4) c(3) [unfolded sr3, simplified]]
  have "\<not> is_ec m" using assms(6,11) by simp
  note pc = pc [OF this]
  show "\<exists>sr. peer u4 a = Some sr \<and> sr_obj sr (tx_bucket tx) (tx_key tx) = Some (bs, m)"
    using c(2) pc(1,3) by (simp add: sr3 sr_obj_def assms(6) staged_meta_idem bytes_stream_def)
  show "header_trim (tx_key tx) = tx_key tx" using pc(4) p(7) by simp
qed

lemma follower_has_delete:
  assumes "prepare_one tx m a u1 = (Inr (), u2)" "world_ok u1" "good_uuid (tx_id tx)" "tx_operation tx = OpDelete"
    and "client_commit a (tx_id tx) (tx_bucket tx) (tx_key tx) u3 = (Inr (), u4)" "peer u3 a = peer u2 a"
    and "plain_seg (tx_bucket tx)" "plain_name (tx_key tx)"
  shows "\<exists>sr. peer u4 a = Some sr \<and> sr_obj sr (tx_bucket tx) (tx_key tx) = None"
proof -
  obtain sr fs m' ev st sz tx' where p: "peer u1 a = Some sr" "peer u2 a = Some (sr\<lparr>sr_fs := fs\<rparr>)" "good_env ev"
    "stage_object (sr_root sr) ev (tx_id tx) st sz m tx' (sr_fs sr) = (Inr m', fs)" "tx_operation tx' = OpDelete"
    by (rule prepare_delete_ok [OF assms(1-4)])
  obtain sr3 fs4 m4 where c: "peer u3 a = Some sr3" "peer u4 a = Some (sr3\<lparr>sr_fs := fs4\<rparr>)"
    "commit_transaction (sr_root sr3) (tx_id tx) (tx_bucket tx) (tx_key tx) (sr_fs sr3) = (Inr m4, fs4)"
    by (rule client_commit_ok [OF assms(5)])
  have sr3: "sr3 = sr\<lparr>sr_fs := fs\<rparr>" using c(1) p(2) assms(6) by simp
  have ok: "server_ok sr" by (rule world_okD(3) [OF assms(2) p(1)])
  have "good_dir (sr_root sr) (tx_id tx)" "good_object (sr_root sr) (tx_bucket tx) (tx_key tx)" "wf_fs (sr_fs sr)"
    using ok assms(3,7,8) by (simp_all add: server_ok_def good_dir_def good_object_def good_uuid_def)
  from fs.prepare_commit_delete(1) [OF this(1) p(3) this(2,3) p(5,4) c(3) [unfolded sr3, simplified]] c(2)
  show ?thesis by (simp add: sr3 sr_obj_def)
qed

end
