(* ===== verification/ServiceProps.thy ===== *)
theory ServiceProps
  imports TwoPhase
begin

text \<open>
  The service's writes from the caller's side: a \<open>PUT\<close> or \<open>DELETE\<close> that reports success is at the
  leader and at every follower that is still in the commit set, one that fails changed no follower,
  nothing else ever changes, and the write gate is left as it was found.
\<close>

section \<open>Steps that leave objects and followers alone\<close>

text \<open>An object as a node shows it: \<open>None\<close> is the node that runs the service.\<close>

definition node_obj :: "world \<Rightarrow> string option \<Rightarrow> string \<Rightarrow> string \<Rightarrow> (byte list \<times> object_meta) option option" where
  "node_obj w n b k =
     (case n of None \<Rightarrow> Some (sr_obj (w_self w) b k)
      | Some a \<Rightarrow> map_option (\<lambda>sr. sr_obj sr b k) (peer w a))"

definition calm :: "world \<Rightarrow> world \<Rightarrow> bool" where
  "calm w w' \<longleftrightarrow> w_ids w' = w_ids w \<and> (\<forall>a. peer w' a = peer w a) \<and>
     sr_mgr (w_self w') = sr_mgr (w_self w) \<and> sr_root (w_self w') = sr_root (w_self w) \<and>
     fs_file (sr_fs (w_self w')) = fs_file (sr_fs (w_self w)) \<and> world_ok w'"

lemma calm_obj: "calm w w' \<Longrightarrow> node_obj w' n b k = node_obj w n b k"
  using object_at_cong [of "sr_fs (w_self w')" "sr_root (w_self w)" b k "sr_fs (w_self w)"]
  by (simp add: calm_def node_obj_def sr_obj_def split: option.split)

lemma calm_alive: "calm w w' \<Longrightarrow> alive_followers w' = alive_followers w"
  by (simp add: calm_def alive_followers_def)

lemma calm_trans [trans]: "calm w1 w2 \<Longrightarrow> calm w2 w3 \<Longrightarrow> calm w1 w3"
  by (simp add: calm_def)

lemma calm_ok: "calm w w' \<Longrightarrow> world_ok w'"
  by (simp add: calm_def)

lemma calm_upd_svc [simp]: "world_ok w \<Longrightarrow> calm w (upd_svc f w)" "world_ok w \<Longrightarrow> calm w (tick w)"
  by (simp_all add: calm_def upd_svc_def upd_self_def world_ok_def server_ok_def peer_def)

lemma progress_obj:
  assumes "progress t C D w w'" "world_ok w" "plain_seg t" "plain_seg b'" "plain_name k'"
    and "\<And>b k. (b, k) \<in> (case n of None \<Rightarrow> D | Some a \<Rightarrow> C) \<Longrightarrow> plain_seg b \<and> plain_name k \<and> objects_apart b k b' k'"
  shows "node_obj w' n b' k' = node_obj w n b' k'"
proof (cases n)
  case None
  have "drifts t D (w_self w) (w_self w')" using assms(1) by (simp add: progress_def)
  from drifts_frame [OF this assms(3) world_okD(2) [OF assms(2)] assms(4,5)] assms(6) None
  show ?thesis by (simp add: node_obj_def)
next
  case (Some a)
  have "rel_option (evolves t C) (peer w a) (peer w' a)"
    using assms(1) by (simp add: progress_def spreads_def)
  then show ?thesis
  proof cases
    case None
    with Some show ?thesis by (simp add: node_obj_def)
  next
    case (Some sr sr')
    from evolves_frame [OF this(3) assms(3) world_okD(3) [OF assms(2) this(1)] assms(4,5)] assms(6) Some \<open>n = Some a\<close>
    show ?thesis by (simp add: node_obj_def)
  qed
qed

lemma ensure_bucket_files: "snd (ensure_bucket b root fs) = fs' \<Longrightarrow> good_root root \<Longrightarrow> wf_fs fs \<Longrightarrow>
  fs_file fs' = fs_file fs \<and> wf_fs fs'"
proof -
  assume run: "snd (ensure_bucket b root fs) = fs'" and root: "good_root root" and wf: "wf_fs fs"
  have has: "pres I (has_bucket root b)" for I
    by (auto simp: pres_def has_bucket_def os_stat_def split: prod.split sum.split option.split)
  have "pres (\<lambda>s. wf_fs s) (ensure_bucket b root)"
    unfolding ensure_bucket_def using root by (intro pres_intros has)
  moreover have "pres (agrees (\<lambda>_. True) (fs_file fs)) (ensure_bucket b root)"
    unfolding ensure_bucket_def create_bucket_def by (intro pres_intros has)
  ultimately show ?thesis
    using run wf by (auto simp: pres_def agrees_def fun_eq_iff)
qed

lemma ensure_bucket_calm:
  assumes "world_ok w" "local (\<lambda>root ev. ensure_bucket b root) w = (r, w')"
  shows "calm w w'" "sr_svc (w_self w') = sr_svc (w_self w)"
proof -
  obtain fs where run: "ensure_bucket b (sr_root (w_self w)) (sr_fs (w_self w)) = (r, fs)"
    and w': "w' = tick (w\<lparr>w_self := (w_self w)\<lparr>sr_fs := fs\<rparr>\<rparr>)"
    using assms(2) by (auto simp: local_run)
  have "fs_file fs = fs_file (sr_fs (w_self w)) \<and> wf_fs fs"
    using ensure_bucket_files [of b "sr_root (w_self w)" "sr_fs (w_self w)" fs] run world_okD(2) [OF assms(1)]
    by (simp add: server_ok_def)
  with assms(1) show "calm w w'" by (simp add: w' calm_def world_ok_def server_ok_def peer_def)
  show "sr_svc (w_self w') = sr_svc (w_self w)" by (simp add: w')
qed

section \<open>The gate around a write\<close>

lemma gated_cases:
  assumes "gated body w = (res, w')" "world_ok w"
  obtains (refused) "res = None \<or> res = Some (Inl unavailable)" "fst (writes_blocked (w_now w) (sr_svc (w_self w)))"
      "calm w w'" "sr_svc (w_self w') = snd (writes_blocked (w_now w) (sr_svc (w_self w)))"
      "sv_behavior (sr_svc (w_self w)) \<noteq> ''wait'' \<Longrightarrow> res = Some (Inl unavailable)"
  | (entered) w1 r w2 where "res = Some r" "\<not> fst (writes_blocked (w_now w) (sr_svc (w_self w)))" "calm w w1"
      "sv_active_writes (sr_svc (w_self w1)) = sv_active_writes (sr_svc (w_self w)) + 1"
      "sv_behavior (sr_svc (w_self w1)) = sv_behavior (sr_svc (w_self w))"
      "sv_syncing (sr_svc (w_self w1)) = sv_syncing (snd (writes_blocked (w_now w) (sr_svc (w_self w))))"
      "body w1 = (r, w2)" "w' = upd_svc leave_write w2"
proof -
  let ?now = "w_now w" and ?s = "sr_svc (w_self w)"
  obtain g s where g: "write_gate ?now ?s = (g, s)" by (cases "write_gate ?now ?s")
  have svc: "sr_svc (w_self (upd_svc (\<lambda>_. s) w)) = s" by (simp add: upd_svc_def upd_self_def)
  show thesis
  proof (cases rule: write_gate_cases [of ?now ?s])
    case enter
    let ?w1 = "tick (upd_svc (\<lambda>_. s) w)"
    obtain r w2 where b: "body ?w1 = (r, w2)" by (cases "body ?w1")
    have c: "calm w (upd_svc (\<lambda>_. s) w)" using assms(2) by simp
    have "calm w ?w1" by (rule calm_trans [OF c calm_upd_svc(2) [OF calm_ok [OF c]]])
    moreover have "res = Some r" "w' = upd_svc leave_write w2"
      using assms(1) b g enter(1) by (simp_all add: gated_def)
    ultimately show thesis using entered [OF _ enter(2) _ _ _ _ b] enter g svc by simp
  next
    case refused
    then have "w' = upd_svc (\<lambda>_. s) w" "res = (if sv_behavior ?s = ''wait'' then None else Some (Inl unavailable))"
      using assms(1) g by (auto simp: gated_def split: if_splits)
    with that(1) refused g svc assms(2) show thesis by (auto split: if_splits)
  qed
qed

text \<open>Staging reads the body only when it can, and fails before it otherwise.\<close>

lemma os_write_err_any: "os_write p now c u = (Inl e, v) \<Longrightarrow> os_write p now c' u = (Inl e, v)"
  by (auto simp: os_write_def split: option.splits fnode.splits if_splits)

lemma stage_reader_const:
  assumes op: "tx_operation tx = OpPut"
  shows "stage_reader root ev t (const_reader st) sz m tx fs = stage_object root ev t st sz m tx fs"
proof (cases "stage_opens root ev t tx fs")
  case True
  then show ?thesis by (simp add: stage_reader_def const_reader_def)
next
  case False
  let ?tmp = "stage_file root t (''data.tmp.'' @ ev_uuid ev)"
  have "stage_object root ev t (bytes_stream []) sz m tx fs = stage_object root ev t st sz m tx fs"
  proof (cases "os_mkdir_all (staging_dir root t) fs")
    case mk: (Pair r1 u1)
    show ?thesis
    proof (cases r1)
      case r1: (Inr x)
      show ?thesis
      proof (cases "write_json ev (stage_file root t ''tx.json'') (CTx tx) u1")
        case wj: (Pair r2 u2)
        show ?thesis
        proof (cases r2)
          case r2: (Inr y)
          with False mk r1 wj obtain e u3 where w: "os_write ?tmp (ev_now ev) (CData []) u2 = (Inl e, u3)"
            by (auto simp: stage_opens_def split: prod.splits sum.splits)
          then have "with_temp_file ev ?tmp st' k u2 = (Inl e, u3)" for st' and k :: "byte list \<Rightarrow> object_meta repo_io"
            using os_write_err_any [OF w] by (simp add: with_temp_file_def)
          with mk r1 wj r2 op show ?thesis by (simp add: stage_object_def Let_def)
        qed (use mk r1 wj in \<open>simp add: stage_object_def Let_def\<close>)
      qed
    qed (use mk in \<open>simp add: stage_object_def Let_def\<close>)
  qed
  with False show ?thesis by (simp add: stage_reader_def)
qed

section \<open>The two writes, up to the two-phase commit\<close>

lemma new_tx_simps [simp]:
  "tx_id (new_tx op b k w) = w_ids w (w_tick w)" "tx_operation (new_tx op b k w) = op"
  "tx_bucket (new_tx op b k w) = b" "tx_key (new_tx op b k w) = k"
  by (simp_all add: new_tx_def)

lemma local_stage_progress:
  assumes "world_ok w" "good_uuid (tx_id tx)"
    and "local (\<lambda>root ev. stage_object root ev (tx_id tx) st sz m tx) w = (r, w')"
  shows "progress (tx_id tx) {} {} w w'" "alive_followers w' = alive_followers w"
proof -
  have "evolves (tx_id tx) {} (w_self w) ((w_self w)\<lparr>sr_fs :=
      snd (stage_object (sr_root (w_self w)) (now_env w) (tx_id tx) st sz m tx (sr_fs (w_self w)))\<rparr>)"
    by (rule evolves_one, rule tx_step.prepares) (rule world_okD(1) [OF assms(1)])
  from local_progress [OF assms(1) good_uuid_seg [OF assms(2)] assms(3) this]
  show "progress (tx_id tx) {} {} w w'" "alive_followers w' = alive_followers w"
    by (simp_all add: alive_followers_def)
qed

lemma stage_local_const:
  "tx_operation tx = OpPut \<Longrightarrow> local (\<lambda>root ev. stage_reader root ev t (const_reader st) sz m tx) =
     local (\<lambda>root ev. stage_object root ev t st sz m tx)"
  by (simp add: local_def on_storage_def fun_eq_iff stage_reader_const)

text \<open>A write that could not be staged here, or the commit that follows.\<close>

lemma put_2pc_cases:
  assumes "world_ok w" "put_2pc b k (const_reader st) sz m w = (r, w')"
  obtains (unstaged) e where "r = Inl e" "alive_followers w' = alive_followers w"
      "progress (w_ids w (w_tick w)) {} {} w w'"
  | (staged) w1 where "world_ok w1" "alive_followers w1 = alive_followers w"
      "progress (w_ids w (w_tick w)) {} {} w w1" "st_err st = None"
      "staged_body (sr_root (w_self w1)) (sr_fs (w_self w1)) (w_ids w (w_tick w)) =
         Some (st_bytes st, staged_meta m (st_bytes st))"
      "logged_tx (sr_root (w_self w1)) (sr_fs (w_self w1)) (w_ids w (w_tick w)) = Some (new_tx OpPut b k w)"
      "two_phase (new_tx OpPut b k w) (staged_meta m (st_bytes st)) w1 = (r, w')"
proof -
  let ?tx = "new_tx OpPut b k w" and ?t = "w_ids w (w_tick w)"
  have id: "good_uuid (tx_id ?tx)" using world_okD(5) [OF assms(1)] by simp
  have ok: "world_ok (tick w)" using assms(1) by simp
  obtain rs w1 where l: "local (\<lambda>root ev. stage_object root ev (tx_id ?tx) st sz m ?tx) (tick w) = (rs, w1)"
    by (cases "local (\<lambda>root ev. stage_object root ev (tx_id ?tx) st sz m ?tx) (tick w)")
  note pr = local_stage_progress [OF ok id l]
  have p: "progress ?t {} {} w w1" using pr(1) by (simp add: progress_def spreads_def)
  have al: "alive_followers w1 = alive_followers w" using pr(2) by (simp add: alive_followers_def)
  have run: "put_2pc b k (const_reader st) sz m w = bindE (\<lambda>_. (rs, w1)) (\<lambda>staged. two_phase ?tx staged) (tick w)"
    using l by (simp add: put_2pc_def Let_def stage_local_const bindE_def)
  show thesis
  proof (cases rs)
    case (Inl e)
    with run assms(2) unstaged p al show thesis by (simp add: bindE_def)
  next
    case (Inr m')
    obtain fs where so: "stage_object (sr_root (w_self (tick w))) (now_env (tick w)) (tx_id ?tx) st sz m ?tx
        (sr_fs (w_self (tick w))) = (Inr m', fs)"
      and w1: "w1 = tick ((tick w)\<lparr>w_self := (w_self (tick w))\<lparr>sr_fs := fs\<rparr>\<rparr>)"
      using l Inr by (auto simp: local_run)
    have t: "good_dir (sr_root (w_self w)) (tx_id ?tx)"
      using good_uuid_seg [OF id] world_okD(2) [OF assms(1)] by (simp add: good_dir_server)
    note body = fs.stage_body [OF _ world_okD(1) [OF ok] _ so]
    note log = fs.stage_log [OF _ world_okD(1) [OF ok] so]
    have tp: "two_phase ?tx m' w1 = (r, w')"
      using run assms(2) Inr by (simp add: bindE_def)
    from body log tp t staged [OF progress_ok [OF p] al p] show thesis
      by (simp add: w1)
  qed
qed

lemma delete_2pc_cases:
  assumes "world_ok w" "delete_2pc b k w = (r, w')"
  obtains (unstaged) e where "r = Inl e" "alive_followers w' = alive_followers w"
      "progress (w_ids w (w_tick w)) {} {} w w'"
  | (staged) w1 r1 where "world_ok w1" "alive_followers w1 = alive_followers w"
      "progress (w_ids w (w_tick w)) {} {} w w1"
      "logged_tx (sr_root (w_self w1)) (sr_fs (w_self w1)) (w_ids w (w_tick w)) = Some (new_tx OpDelete b k w)"
      "two_phase (new_tx OpDelete b k w) empty_meta w1 = (r1, w')" "r = map_sum id (\<lambda>_. ()) r1"
proof -
  let ?tx = "new_tx OpDelete b k w" and ?t = "w_ids w (w_tick w)"
  have id: "good_uuid (tx_id ?tx)" using world_okD(5) [OF assms(1)] by simp
  have ok: "world_ok (tick w)" using assms(1) by simp
  obtain rs w1 where l: "local (\<lambda>root ev. stage_object root ev (tx_id ?tx) (bytes_stream []) 0 empty_meta ?tx)
      (tick w) = (rs, w1)"
    by (cases "local (\<lambda>root ev. stage_object root ev (tx_id ?tx) (bytes_stream []) 0 empty_meta ?tx) (tick w)")
  note pr = local_stage_progress [OF ok id l]
  have p: "progress ?t {} {} w w1" using pr(1) by (simp add: progress_def spreads_def)
  have al: "alive_followers w1 = alive_followers w" using pr(2) by (simp add: alive_followers_def)
  have run: "delete_2pc b k w = bindE (\<lambda>_. (rs, w1)) (\<lambda>_. bindE (two_phase ?tx empty_meta) (\<lambda>_. retE ())) (tick w)"
    using l by (simp add: delete_2pc_def Let_def bindE_def)
  show thesis
  proof (cases rs)
    case (Inl e)
    with run assms(2) unstaged p al show thesis by (simp add: bindE_def)
  next
    case (Inr m')
    obtain fs where so: "stage_object (sr_root (w_self (tick w))) (now_env (tick w)) (tx_id ?tx) (bytes_stream []) 0
        empty_meta ?tx (sr_fs (w_self (tick w))) = (Inr m', fs)"
      and w1: "w1 = tick ((tick w)\<lparr>w_self := (w_self (tick w))\<lparr>sr_fs := fs\<rparr>\<rparr>)"
      using l Inr by (auto simp: local_run)
    have t: "good_dir (sr_root (w_self w)) (tx_id ?tx)"
      using good_uuid_seg [OF id] world_okD(2) [OF assms(1)] by (simp add: good_dir_server)
    note log = fs.stage_log [OF _ world_okD(1) [OF ok] so]
    obtain r1 w2 where tp: "two_phase ?tx empty_meta w1 = (r1, w2)" by (cases "two_phase ?tx empty_meta w1")
    have "r = map_sum id (\<lambda>_. ()) r1" "w2 = w'"
      using run assms(2) Inr tp by (cases r1; simp add: bindE_def)+
    with log t tp staged [OF progress_ok [OF p] al p] show thesis by (simp add: w1)
  qed
qed

lemma put_object_cases:
  assumes "world_ok w" "put_object b k rd sz m w = (res, w')"
  obtains (no_bucket) e where "res = Some (Inl e)" "calm w w'" "sr_svc (w_self w') = sr_svc (w_self w)"
  | (gated) w1 where "calm w w1" "sr_svc (w_self w1) = sr_svc (w_self w)"
      "gated (put_2pc b k rd sz m) w1 = (res, w')" "w_tick w1 = Suc (w_tick w)" "w_clock w1 = w_clock w"
proof -
  obtain r w1 where l: "local (\<lambda>root ev. ensure_bucket b root) w = (r, w1)"
    by (cases "local (\<lambda>root ev. ensure_bucket b root) w")
  have t: "w_tick w1 = Suc (w_tick w)" "w_clock w1 = w_clock w" using l by (auto simp: local_run tick_def)
  show thesis
    using that ensure_bucket_calm [OF assms(1) l] assms(2) l t
    by (cases r) (auto simp: put_object_def)
qed

text \<open>A write whose two-phase commit ran, in one step: the world it started in and the one it left.\<close>

abbreviation active :: "world \<Rightarrow> int" where
  "active w \<equiv> sv_active_writes (sr_svc (w_self w))"

lemma gated_entered:
  assumes "gated body w = (res, w')" "world_ok w"
  obtains (idle) "res = None \<or> (\<exists>e. res = Some (Inl e))" "calm w w'" "active w' = active w"
  | (ran) u r v where "calm w u" "body u = (r, v)" "res = Some r" "w' = upd_svc leave_write v" "active u = active w + 1"
  using assms
proof (cases rule: gated_cases)
  case refused
  from refused(1,3) refused(4) show thesis by (intro idle) auto
next
  case (entered w1 r w2)
  from entered show thesis by (intro ran [of w1 r w2])
qed

lemma put_entered:
  assumes "world_ok w" "put_object b k rd sz m w = (res, w')"
  obtains (idle) "res = None \<or> (\<exists>e. res = Some (Inl e))" "calm w w'" "active w' = active w"
  | (ran) u r v where "calm w u" "put_2pc b k rd sz m u = (r, v)" "res = Some r"
      "w' = upd_svc leave_write v" "active u = active w + 1"
  using assms
proof (cases rule: put_object_cases)
  case (no_bucket e)
  then show thesis by (intro idle) auto
next
  case (gated w1)
  from gated(3) calm_ok [OF gated(1)] show thesis
  proof (cases rule: gated_entered)
    case idle': idle
    from idle'(1) calm_trans [OF gated(1) idle'(2)] idle'(3) gated(2) show thesis by (intro idle) simp_all
  next
    case ran': (ran u r v)
    from calm_trans [OF gated(1) ran'(1)] ran'(2-5) gated(2) show thesis by (intro ran [of u r v]) simp_all
  qed
qed

lemma delete_entered:
  assumes "world_ok w" "remove_object b k w = (res, w')"
  obtains (idle) "res = None \<or> (\<exists>e. res = Some (Inl e))" "calm w w'" "active w' = active w"
  | (ran) u r v where "calm w u" "delete_2pc b k u = (r, v)" "res = Some r" "w' = upd_svc leave_write v"
      "active u = active w + 1"
  using assms(1) assms(2) [unfolded remove_object_def] by (blast elim: gated_entered)

lemma two_phase_obj:
  assumes "world_ok w" "good_uuid (tx_id tx)" "two_phase tx staged w = (r, w')"
    and "plain_seg b'" "plain_name k'"
  shows "plain_seg (tx_bucket tx) \<Longrightarrow> plain_name (tx_key tx) \<Longrightarrow> objects_apart (tx_bucket tx) (tx_key tx) b' k' \<Longrightarrow>
      node_obj w' n b' k' = node_obj w n b' k'"
    "r = Inl e \<Longrightarrow> node_obj w' (Some a) b' k' = node_obj w (Some a) b' k'"
    "r = Inl e \<Longrightarrow> set (alive_followers w') \<noteq> set (alive_followers w) \<Longrightarrow>
      node_obj w' None b' k' = node_obj w None b' k'"
    "world_ok w'"
proof -
  note obj = progress_obj [OF _ assms(1) good_uuid_seg [OF assms(2)] assms(4,5)]
  from assms(1-3) have *: "(plain_seg (tx_bucket tx) \<longrightarrow> plain_name (tx_key tx) \<longrightarrow>
        objects_apart (tx_bucket tx) (tx_key tx) b' k' \<longrightarrow> node_obj w' n b' k' = node_obj w n b' k') \<and>
      (r = Inl e \<longrightarrow> node_obj w' (Some a) b' k' = node_obj w (Some a) b' k') \<and>
      (r = Inl e \<longrightarrow> set (alive_followers w') \<noteq> set (alive_followers w) \<longrightarrow>
        node_obj w' None b' k' = node_obj w None b' k') \<and> world_ok w'"
  proof (cases rule: two_phase_cases)
    case (refused e)
    have "node_obj w' x b' k' = node_obj w x b' k'" for x
      by (rule obj [OF refused(3)]) (simp split: option.splits)
    with refused show ?thesis by (simp add: progress_ok)
  next
    case (failed e)
    have "plain_seg (tx_bucket tx) \<and> plain_name (tx_key tx) \<and> objects_apart (tx_bucket tx) (tx_key tx) b' k' \<Longrightarrow>
        node_obj w' n b' k' = node_obj w n b' k'"
      by (rule obj [OF failed(3)]) (auto split: option.splits)
    moreover have "node_obj w' (Some a) b' k' = node_obj w (Some a) b' k'"
      by (rule obj [OF failed(3)]) simp
    ultimately show ?thesis using failed by (simp add: progress_ok)
  next
    case (committed m w1 w2)
    have "plain_seg (tx_bucket tx) \<and> plain_name (tx_key tx) \<and> objects_apart (tx_bucket tx) (tx_key tx) b' k' \<Longrightarrow>
        node_obj w' n b' k' = node_obj w n b' k'"
      by (rule obj [OF committed(9)]) (auto split: option.splits)
    then show ?thesis using committed by (simp add: progress_ok)
  qed
  from * show "plain_seg (tx_bucket tx) \<Longrightarrow> plain_name (tx_key tx) \<Longrightarrow> objects_apart (tx_bucket tx) (tx_key tx) b' k' \<Longrightarrow>
      node_obj w' n b' k' = node_obj w n b' k'"
    "r = Inl e \<Longrightarrow> node_obj w' (Some a) b' k' = node_obj w (Some a) b' k'"
    "r = Inl e \<Longrightarrow> set (alive_followers w') \<noteq> set (alive_followers w) \<Longrightarrow>
      node_obj w' None b' k' = node_obj w None b' k'" "world_ok w'" by blast+
qed

lemma put_2pc_obj:
  assumes "world_ok w" "put_2pc b k (const_reader st) sz m w = (r, w')" "plain_seg b'" "plain_name k'"
  shows "plain_seg b \<Longrightarrow> plain_name k \<Longrightarrow> objects_apart b k b' k' \<Longrightarrow> node_obj w' n b' k' = node_obj w n b' k'"
    "r = Inl e \<Longrightarrow> node_obj w' (Some a) b' k' = node_obj w (Some a) b' k'"
    "r = Inl e \<Longrightarrow> set (alive_followers w') \<noteq> set (alive_followers w) \<Longrightarrow>
      node_obj w' None b' k' = node_obj w None b' k'"
    "world_ok w'"
proof -
  let ?tx = "new_tx OpPut b k w"
  have id: "good_uuid (tx_id ?tx)" using world_okD(5) [OF assms(1)] by simp
  have obj: "progress (tx_id ?tx) {} {} w u \<Longrightarrow> node_obj u x b' k' = node_obj w x b' k'" for u x
    by (rule progress_obj [OF _ assms(1) good_uuid_seg [OF id] assms(3,4)]) (auto split: option.splits)
  from assms(1,2) have "(plain_seg b \<longrightarrow> plain_name k \<longrightarrow> objects_apart b k b' k' \<longrightarrow>
        node_obj w' n b' k' = node_obj w n b' k') \<and>
      (r = Inl e \<longrightarrow> node_obj w' (Some a) b' k' = node_obj w (Some a) b' k') \<and>
      (r = Inl e \<longrightarrow> set (alive_followers w') \<noteq> set (alive_followers w) \<longrightarrow>
        node_obj w' None b' k' = node_obj w None b' k') \<and> world_ok w'"
  proof (cases rule: put_2pc_cases)
    case (unstaged e)
    with obj [of w'] show ?thesis by (simp add: progress_ok)
  next
    case (staged w1)
    note tp = two_phase_obj [OF staged(1) id staged(7) assms(3,4)]
    show ?thesis using tp obj [of w1] staged(2,3) by simp
  qed
  then show "plain_seg b \<Longrightarrow> plain_name k \<Longrightarrow> objects_apart b k b' k' \<Longrightarrow> node_obj w' n b' k' = node_obj w n b' k'"
    "r = Inl e \<Longrightarrow> node_obj w' (Some a) b' k' = node_obj w (Some a) b' k'"
    "r = Inl e \<Longrightarrow> set (alive_followers w') \<noteq> set (alive_followers w) \<Longrightarrow>
      node_obj w' None b' k' = node_obj w None b' k'" "world_ok w'" by blast+
qed

text \<open>A two-phase commit that succeeds: the commit at the leader, and both calls at each follower left.\<close>

lemma two_phase_committed:
  assumes "world_ok w" "good_uuid (tx_id tx)" "two_phase tx staged w = (Inr m, v)" "distinct (alive_followers w)"
  obtains fs where "commit_transaction (sr_root (w_self w)) (tx_id tx) (tx_bucket tx) (tx_key tx) (sr_fs (w_self w)) = (Inr m, fs)"
    "sr_root (w_self v) = sr_root (w_self w)" "sr_fs (w_self v) = fs"
    "\<And>a. a \<in> set (alive_followers v) \<Longrightarrow> \<exists>u1 u2 u3 u4. prepare_one tx staged a u1 = (Inr (), u2) \<and> world_ok u1 \<and>
       w_self u1 = w_self w \<and> client_commit a (tx_id tx) (tx_bucket tx) (tx_key tx) u3 = (Inr (), u4) \<and>
       peer u3 a = peer u2 a \<and> peer v a = peer u4 a"
  using assms(1-3)
proof (cases rule: two_phase_cases)
  case (committed m' w1 w2)
  obtain fs where c: "commit_transaction (sr_root (w_self w)) (tx_id tx) (tx_bucket tx) (tx_key tx) (sr_fs (w_self w)) = (Inr m', fs)"
    and w2: "w2 = tick (w1\<lparr>w_self := (w_self w1)\<lparr>sr_fs := fs\<rparr>\<rparr>)"
    using committed(4,5) by (auto simp: local_run)
  note seg = good_uuid_seg [OF assms(2)]
  have "sr_root (w_self (commit_phase tx w2)) = sr_root (w_self w2)"
    using commit_phase_run(1) [OF committed(6) seg, of "{}"] by (simp add: progress_def drifts_def)
  with commit_phase_run(2) [OF committed(6) seg] committed(4,8)
  have "sr_root (w_self v) = sr_root (w_self w)" "sr_fs (w_self v) = fs" by (simp_all add: w2)
  with c committed(1) that [of fs] committed_follower [OF assms(1,2) committed(2,4,5,6,7,8) assms(4)]
  show thesis by (metis sum.inject(2))
qed simp_all

text \<open>A \<open>PUT\<close> and a \<open>DELETE\<close> that succeed, at the leader and at a follower.\<close>

lemma obj_leave [simp]:
  "sr_obj (w_self (upd_svc leave_write v)) b k = sr_obj (w_self v) b k"
  "peer (upd_svc leave_write v) a = peer v a" "alive_followers (upd_svc leave_write v) = alive_followers v"
  by (simp_all add: upd_svc_def upd_self_def peer_def alive_followers_def sr_obj_def)

lemma put_2pc_ok:
  assumes "world_ok u" "plain_seg b" "plain_name k" "\<not> is_ec m" "distinct (alive_followers u)"
    and "put_2pc b k (const_reader st) sz m u = (Inr m', v)"
  shows "st_err st = None" "m' = staged_meta m (st_bytes st)"
    "sr_obj (w_self v) b k = Some (st_bytes st, m')"
    "a \<in> set (alive_followers v) \<Longrightarrow>
       header_trim k = k \<and> (\<exists>sr. peer v a = Some sr \<and> sr_obj sr b k = Some (st_bytes st, m'))"
proof -
  let ?m = "staged_meta m (st_bytes st)" and ?tx = "new_tx OpPut b k u"
  have id: "good_uuid (tx_id ?tx)" using world_okD(5) [OF assms(1)] by simp
  have "st_err st = None \<and> m' = ?m \<and> sr_obj (w_self v) b k = Some (st_bytes st, m') \<and>
    (a \<in> set (alive_followers v) \<longrightarrow>
       header_trim k = k \<and> (\<exists>sr. peer v a = Some sr \<and> sr_obj sr b k = Some (st_bytes st, m')))"
    using assms(1,6)
  proof (cases rule: put_2pc_cases)
    case (staged w1)
    have "two_phase ?tx ?m w1 = (Inr m', v)" "distinct (alive_followers w1)"
      using staged(2,7) assms(5) by simp_all
    from two_phase_committed [OF staged(1) id this] obtain fs where
      c: "commit_transaction (sr_root (w_self w1)) (tx_id ?tx) b k (sr_fs (w_self w1)) = (Inr m', fs)"
      and v: "sr_root (w_self v) = sr_root (w_self w1)" "sr_fs (w_self v) = fs"
      and each: "\<And>a. a \<in> set (alive_followers v) \<Longrightarrow> \<exists>u1 u2 u3 u4. prepare_one ?tx ?m a u1 = (Inr (), u2) \<and>
        world_ok u1 \<and> w_self u1 = w_self w1 \<and> client_commit a (tx_id ?tx) b k u3 = (Inr (), u4) \<and>
        peer u3 a = peer u2 a \<and> peer v a = peer u4 a"
      by simp metis
    have "good_dir (sr_root (w_self w1)) (tx_id ?tx)" "good_object (sr_root (w_self w1)) b k" "wf_fs (sr_fs (w_self w1))"
      using good_uuid_seg [OF id] assms(2,3) world_okD(2) [OF staged(1)]
      by (simp_all add: server_ok_def good_dir_def good_object_def)
    from fs.commit_put [OF this _ _ _ _ c, of ?tx "st_bytes st" ?m] staged(5,6) assms(4)
    have self: "m' = ?m \<and> object_at (sr_root (w_self w1)) fs b k = Some (st_bytes st, ?m)" by simp
    have "header_trim k = k \<and> (\<exists>sr. peer v a = Some sr \<and> sr_obj sr b k = Some (st_bytes st, m'))"
      if a: "a \<in> set (alive_followers v)"
    proof -
      from each [OF a] obtain u1 u2 u3 u4 where "prepare_one ?tx ?m a u1 = (Inr (), u2)" "world_ok u1"
        "w_self u1 = w_self w1" "client_commit a (tx_id ?tx) b k u3 = (Inr (), u4)" "peer u3 a = peer u2 a"
        "peer v a = peer u4 a" by blast
      with follower_has_put [of ?tx ?m a u1 u2 "st_bytes st" m u3 u4] id staged(5) assms(2-4) self
      show ?thesis by simp
    qed
    moreover have "sr_obj (w_self v) b k = Some (st_bytes st, m')" using self v by (simp add: sr_obj_def)
    ultimately show ?thesis using self staged(4) by simp
  qed simp
  then show "st_err st = None" "m' = staged_meta m (st_bytes st)"
    "sr_obj (w_self v) b k = Some (st_bytes st, m')"
    "a \<in> set (alive_followers v) \<Longrightarrow>
       header_trim k = k \<and> (\<exists>sr. peer v a = Some sr \<and> sr_obj sr b k = Some (st_bytes st, m'))"
    by blast+
qed

lemma put_ok:
  assumes "world_ok w" "plain_seg b" "plain_name k" "\<not> is_ec m" "distinct (alive_followers w)"
    and "put_object b k (const_reader st) sz m w = (Some (Inr m'), w')"
  shows "st_err st = None" "m' = staged_meta m (st_bytes st)"
    "sr_obj (w_self w') b k = Some (st_bytes st, m')"
    "a \<in> set (alive_followers w') \<Longrightarrow>
       header_trim k = k \<and> (\<exists>sr. peer w' a = Some sr \<and> sr_obj sr b k = Some (st_bytes st, m'))"
proof -
  obtain u v where ran: "calm w u" "put_2pc b k (const_reader st) sz m u = (Inr m', v)" "w' = upd_svc leave_write v"
    using assms(1,6) by (cases rule: put_entered) auto
  have "distinct (alive_followers u)" using assms(5) calm_alive [OF ran(1)] by simp
  note ok = put_2pc_ok [OF calm_ok [OF ran(1)] assms(2-4) this ran(2)]
  show "st_err st = None" "m' = staged_meta m (st_bytes st)" by (rule ok(1), rule ok(2))
  show "sr_obj (w_self w') b k = Some (st_bytes st, m')" using ok(3) by (simp add: ran(3))
  show "a \<in> set (alive_followers w') \<Longrightarrow>
      header_trim k = k \<and> (\<exists>sr. peer w' a = Some sr \<and> sr_obj sr b k = Some (st_bytes st, m'))"
    using ok(4) by (simp add: ran(3))
qed

lemma delete_ok:
  assumes "world_ok w" "plain_seg b" "plain_name k" "distinct (alive_followers w)"
    and "remove_object b k w = (Some (Inr ()), w')"
  shows "sr_obj (w_self w') b k = None"
    "a \<in> set (alive_followers w') \<Longrightarrow> \<exists>sr. peer w' a = Some sr \<and> sr_obj sr b k = None"
proof -
  have "sr_obj (w_self w') b k = None \<and>
    (a \<in> set (alive_followers w') \<longrightarrow> (\<exists>sr. peer w' a = Some sr \<and> sr_obj sr b k = None))"
    using assms(1,5)
  proof (cases rule: delete_entered)
    case (ran u r v)
    let ?tx = "new_tx OpDelete b k u"
    have oku: "world_ok u" by (rule calm_ok [OF ran(1)])
    have id: "good_uuid (tx_id ?tx)" using world_okD(5) [OF oku] by simp
    from oku ran(2) show ?thesis
    proof (cases rule: delete_2pc_cases)
      case (staged w1 r1)
      obtain mc where "r1 = Inr mc" using staged(6) ran(3) by (cases r1) simp_all
      then have "two_phase ?tx empty_meta w1 = (Inr mc, v)" "distinct (alive_followers w1)"
        using staged(2,5) assms(4) calm_alive [OF ran(1)] by simp_all
      from two_phase_committed [OF staged(1) id this] obtain fs where
        c: "commit_transaction (sr_root (w_self w1)) (tx_id ?tx) b k (sr_fs (w_self w1)) = (Inr mc, fs)"
        and v: "sr_root (w_self v) = sr_root (w_self w1)" "sr_fs (w_self v) = fs"
        and each: "\<And>a. a \<in> set (alive_followers v) \<Longrightarrow> \<exists>u1 u2 u3 u4. prepare_one ?tx empty_meta a u1 = (Inr (), u2) \<and>
          world_ok u1 \<and> w_self u1 = w_self w1 \<and> client_commit a (tx_id ?tx) b k u3 = (Inr (), u4) \<and>
          peer u3 a = peer u2 a \<and> peer v a = peer u4 a"
        by simp metis
      have "good_dir (sr_root (w_self w1)) (tx_id ?tx)" "good_object (sr_root (w_self w1)) b k" "wf_fs (sr_fs (w_self w1))"
        using good_uuid_seg [OF id] assms(2,3) world_okD(2) [OF staged(1)]
        by (simp_all add: server_ok_def good_dir_def good_object_def)
      from fs.commit_delete [OF this, of ?tx mc fs] staged(4) c
      have self: "object_at (sr_root (w_self w1)) fs b k = None" by simp
      have "\<exists>sr. peer v a = Some sr \<and> sr_obj sr b k = None" if a: "a \<in> set (alive_followers v)"
      proof -
        from each [OF a] obtain u1 u2 u3 u4 where "prepare_one ?tx empty_meta a u1 = (Inr (), u2)" "world_ok u1"
          "client_commit a (tx_id ?tx) b k u3 = (Inr (), u4)" "peer u3 a = peer u2 a"
          "peer v a = peer u4 a" by blast
        with follower_has_delete [of ?tx empty_meta a u1 u2 u3 u4] id assms(2,3)
        show ?thesis by simp
      qed
      moreover have "sr_obj (w_self v) b k = None" using self v by (simp add: sr_obj_def)
      ultimately show ?thesis by (simp add: ran(4))
    qed (use ran(3) in simp)
  qed simp
  then show "sr_obj (w_self w') b k = None"
    "a \<in> set (alive_followers w') \<Longrightarrow> \<exists>sr. peer w' a = Some sr \<and> sr_obj sr b k = None"
    by blast+
qed

section \<open>Any write\<close>

text \<open>A \<open>PUT\<close> or a \<open>DELETE\<close> of an object, and how it came out: parked, failed, or done.\<close>

definition outcome :: "(gerror + 'a) option \<Rightarrow> bool option" where
  "outcome = map_option (\<lambda>r. case r of Inl _ \<Rightarrow> False | Inr _ \<Rightarrow> True)"

definition write_run :: "string \<Rightarrow> string \<Rightarrow> bool option \<Rightarrow> world \<Rightarrow> world \<Rightarrow> bool" where
  "write_run b k oc w w' \<longleftrightarrow>
     (\<exists>st sz m res. put_object b k (const_reader st) sz m w = (res, w') \<and> oc = outcome res) \<or>
     (\<exists>res. remove_object b k w = (res, w') \<and> oc = outcome res)"

lemma outcome_simps [simp]:
  "outcome None = None" "outcome (Some (Inl e)) = Some False" "outcome (Some (Inr a)) = Some True"
  "outcome (Some (map_sum id f r)) = outcome (Some r)"
  by (simp_all add: outcome_def split: sum.split)

lemma outcome_iff [simp]:
  "outcome res = None \<longleftrightarrow> res = None" "outcome (Some r) = Some False \<longleftrightarrow> (\<exists>e. r = Inl e)"
  "outcome (Some r) = Some True \<longleftrightarrow> (\<exists>a. r = Inr a)"
  by (auto simp: outcome_def split: sum.splits)

lemma calm_leave: "world_ok v \<Longrightarrow> calm v (upd_svc leave_write v)"
  by simp

lemma write_cases:
  assumes "write_run b k oc w w'" "world_ok w"
  obtains (idle) "oc \<noteq> Some True" "calm w w'" "active w' = active w"
  | (unstaged) t u v where "oc = Some False" "calm w u" "good_uuid t" "progress t {} {} u v"
      "alive_followers v = alive_followers u" "w' = upd_svc leave_write v" "active u = active w + 1"
  | (ran) tx staged u u1 v r where "good_uuid (tx_id tx)" "tx_bucket tx = b" "tx_key tx = k" "calm w u"
      "progress (tx_id tx) {} {} u u1" "alive_followers u1 = alive_followers u"
      "two_phase tx staged u1 = (r, v)" "oc = outcome (Some r)" "w' = upd_svc leave_write v" "active u = active w + 1"
  using assms(1) unfolding write_run_def
proof (elim disjE exE conjE)
  fix st sz m res
  assume run: "put_object b k (const_reader st) sz m w = (res, w')" and oc: "oc = outcome res"
  from assms(2) run show thesis
  proof (cases rule: put_entered)
    case idle': idle
    then show thesis using oc by (intro idle) auto
  next
    case out: (ran u r v)
    have oku: "world_ok u" by (rule calm_ok [OF out(1)])
    from oku out(2) show thesis
    proof (cases rule: put_2pc_cases)
      case st: (unstaged e)
      with oc out world_okD(5) [OF oku] show thesis by (intro unstaged [of u "w_ids u (w_tick u)" v]) simp_all
    next
      case st: (staged u1)
      with oc out world_okD(5) [OF oku] show thesis
        by (intro ran [of "new_tx OpPut b k u" u u1 "staged_meta m (st_bytes st)" r v]) simp_all
    qed
  qed
next
  fix res
  assume run: "remove_object b k w = (res, w')" and oc: "oc = outcome res"
  from assms(2) run show thesis
  proof (cases rule: delete_entered)
    case idle': idle
    then show thesis using oc by (intro idle) auto
  next
    case out: (ran u r v)
    have oku: "world_ok u" by (rule calm_ok [OF out(1)])
    from oku out(2) show thesis
    proof (cases rule: delete_2pc_cases)
      case st: (unstaged e)
      with oc out world_okD(5) [OF oku] show thesis by (intro unstaged [of u "w_ids u (w_tick u)" v]) simp_all
    next
      case st: (staged u1 r1)
      with oc out world_okD(5) [OF oku] show thesis
        by (intro ran [of "new_tx OpDelete b k u" u u1 empty_meta r1 v]) simp_all
    qed
  qed
qed

lemma write_obj:
  assumes "write_run b k oc w w'" "world_ok w" "plain_seg b'" "plain_name k'"
  shows "plain_seg b \<Longrightarrow> plain_name k \<Longrightarrow> objects_apart b k b' k' \<Longrightarrow> node_obj w' n b' k' = node_obj w n b' k'"
    "oc = Some False \<Longrightarrow> node_obj w' (Some a) b' k' = node_obj w (Some a) b' k'"
    "oc = Some False \<Longrightarrow> set (alive_followers w') \<noteq> set (alive_followers w) \<Longrightarrow>
      node_obj w' None b' k' = node_obj w None b' k'"
proof -
  have obj: "progress t {} {} u v \<Longrightarrow> good_uuid t \<Longrightarrow> world_ok u \<Longrightarrow> node_obj v x b' k' = node_obj u x b' k'" for t u v x
    by (rule progress_obj [OF _ _ good_uuid_seg assms(3,4)]) (auto split: option.splits)
  note leave = calm_obj [OF calm_leave] calm_alive [OF calm_leave]
  from assms(1,2) have "(plain_seg b \<longrightarrow> plain_name k \<longrightarrow> objects_apart b k b' k' \<longrightarrow>
        node_obj w' n b' k' = node_obj w n b' k') \<and>
      (oc = Some False \<longrightarrow> node_obj w' (Some a) b' k' = node_obj w (Some a) b' k') \<and>
      (oc = Some False \<longrightarrow> set (alive_followers w') \<noteq> set (alive_followers w) \<longrightarrow>
        node_obj w' None b' k' = node_obj w None b' k')"
  proof (cases rule: write_cases)
    case idle
    then show ?thesis by (simp add: calm_obj)
  next
    case (unstaged t u v)
    with obj [OF unstaged(4,3) calm_ok [OF unstaged(2)]] show ?thesis
      by (simp add: leave progress_ok calm_obj)
  next
    case (ran tx staged u u1 v r)
    have ok1: "world_ok u1" by (rule progress_ok [OF ran(5)])
    note tp = two_phase_obj [OF ok1 ran(1,7) assms(3,4)]
    from obj [OF ran(5,1) calm_ok [OF ran(4)]] ran(2-4,6,8) tp show ?thesis
      by (cases r) (simp_all add: ran(9) leave calm_obj calm_alive)
  qed
  then show "plain_seg b \<Longrightarrow> plain_name k \<Longrightarrow> objects_apart b k b' k' \<Longrightarrow> node_obj w' n b' k' = node_obj w n b' k'"
    "oc = Some False \<Longrightarrow> node_obj w' (Some a) b' k' = node_obj w (Some a) b' k'"
    "oc = Some False \<Longrightarrow> set (alive_followers w') \<noteq> set (alive_followers w) \<Longrightarrow>
      node_obj w' None b' k' = node_obj w None b' k'" by blast+
qed

lemma progress_gate: "progress t C D w w' \<Longrightarrow> active w' = active w"
  by (simp add: progress_def drifts_def same_gate_def)

lemma two_phase_gate:
  assumes "world_ok w" "good_uuid (tx_id tx)" "two_phase tx staged w = (r, w')"
  shows "active w' = active w"
  using assms by (cases rule: two_phase_cases) (auto dest: progress_gate)

lemma active_leave [simp]: "active (upd_svc leave_write v) = active v - 1"
  by (simp add: upd_svc_def upd_self_def)

section \<open>A concrete cluster\<close>

text \<open>A leader with one follower that is ready; every transaction id is the same.\<close>

definition demo_server :: "cluster_manager \<Rightarrow> server" where
  "demo_server mgr = \<lparr>sr_root = demo_root, sr_token = ''tok'', sr_fs = demo_fs, sr_mgr = mgr,
     sr_svc = new_service no_metrics\<rparr>"

definition demo_world :: "(nat \<Rightarrow> fate) \<Rightarrow> world" where
  "demo_world net = \<lparr>w_self = demo_server (Static (demo_static\<lparr>sm_states := [demo_node ''n1'' StatusReady]\<rparr>)),
     w_peers = [(''http://n1'', demo_server (Standalone (new_standalone_manager ''n1'')))],
     w_tick = 0, w_clock = int, w_ids = (\<lambda>_. ''u-1''), w_net = net\<rparr>"

definition put_meta :: object_meta where
  "put_meta = empty_meta\<lparr>om_etag := ''e''\<rparr>"

definition put_one :: "string \<Rightarrow> world \<Rightarrow> (gerror + object_meta) option \<times> world" where
  "put_one k = put_object ''b'' k (const_reader (bytes_stream [])) 0 put_meta"

lemma demo_world_ok [simp]: "world_ok (demo_world net)"
proof -
  have "good_uuid ''u-1''" by (simp add: good_uuid_def plain_seg_def) code_simp
  moreover have "sm_inv (demo_static\<lparr>sm_states := [demo_node ''n1'' StatusReady]\<rparr>)"
    by (simp add: sm_inv_def demo_static_def demo_node_def fresh_node_def wf_states_def addrs_def ns_addr_def ns_status_def)
  ultimately show ?thesis
    by (simp add: world_ok_def demo_world_def demo_server_def server_ok_def peer_def)
qed

lemma demo_alive [simp]: "alive_followers (demo_world net) = [''http://n1'']"
  by (simp add: alive_followers_def demo_world_def demo_server_def demo_static_def demo_node_def fresh_node_def
      sm_alive_followers_def ns_addr_def ns_status_def)

lemma demo_put_meta [simp]: "\<not> is_ec put_meta"
  by code_simp

lemma demo_names [simp]: "plain_seg ''b''" "plain_name ''a/k''" "plain_name ''a''" "plain_name '' k''"
  by (code_simp | simp add: plain_seg_def plain_name_def)+

section \<open>The properties\<close>

text \<open>
  C1. A \<open>PUT\<close> that reports success has stored the bytes it read, with the metadata it returns, at the
  leader and at every follower the leader still counts as alive: a follower that missed any message
  of the commit is no longer among them.
\<close>

theorem put_replicated:
  assumes "world_ok w" "plain_seg b" "plain_name k" "\<not> is_ec m" "distinct (alive_followers w)"
    and "put_object b k (const_reader st) sz m w = (Some (Inr m'), w')"
  shows "st_err st = None \<and> m' = staged_meta m (st_bytes st) \<and>
    sr_obj (w_self w') b k = Some (st_bytes st, m') \<and>
    (\<forall>a \<in> set (alive_followers w'). \<exists>sr. peer w' a = Some sr \<and> sr_obj sr b k = Some (st_bytes st, m'))"
  using put_ok [OF assms] by blast

text \<open>The \<open>PUT\<close> of the demonstration: delivered, it succeeds and keeps the follower.\<close>

definition succeeds :: "string list \<Rightarrow> (gerror + 'a) option \<times> world \<Rightarrow> bool" where
  "succeeds al p \<longleftrightarrow> outcome (fst p) = Some True \<and> alive_followers (snd p) = al"

lemma succeedsE:
  assumes "succeeds al p"
  obtains a where "p = (Some (Inr a), snd p)" "alive_followers (snd p) = al"
proof -
  from assms have "outcome (fst p) = Some True" by (simp add: succeeds_def)
  then obtain a where "fst p = Some (Inr a)"
    by (cases "fst p") auto
  with that [of a] assms show thesis by (cases p) (simp add: succeeds_def)
qed

lemma demo_put: "succeeds [''http://n1''] (put_one ''a/k'' (demo_world (\<lambda>_. Delivered)))"
  by code_simp

theorem put_replicated_witness:
  "\<exists>sr m. peer (snd (put_one ''a/k'' (demo_world (\<lambda>_. Delivered)))) ''http://n1'' = Some sr \<and>
     sr_obj sr ''b'' ''a/k'' = Some ([], m)"
proof -
  let ?p = "put_one ''a/k'' (demo_world (\<lambda>_. Delivered))"
  from demo_put obtain m where "?p = (Some (Inr m), snd ?p)" "alive_followers (snd ?p) = [''http://n1'']"
    by (rule succeedsE)
  with put_replicated [OF demo_world_ok demo_names(1,2) _ _ this(1) [unfolded put_one_def]]
  show ?thesis by (auto simp: put_one_def)
qed


text \<open>
  C11. A \<open>DELETE\<close> that reports success has removed the object at the leader and at every follower the
  leader still counts as alive.
\<close>

theorem delete_replicated:
  assumes "world_ok w" "plain_seg b" "plain_name k" "distinct (alive_followers w)"
    and "remove_object b k w = (Some (Inr ()), w')"
  shows "sr_obj (w_self w') b k = None \<and>
    (\<forall>a \<in> set (alive_followers w'). \<exists>sr. peer w' a = Some sr \<and> sr_obj sr b k = None)"
  using delete_ok [OF assms] by blast

lemma demo_delete: "succeeds [''http://n1''] (remove_object ''b'' ''a/k'' (demo_world (\<lambda>_. Delivered)))"
  by code_simp

theorem delete_replicated_witness:
  "\<exists>sr. peer (snd (remove_object ''b'' ''a/k'' (demo_world (\<lambda>_. Delivered)))) ''http://n1'' = Some sr \<and>
     sr_obj sr ''b'' ''a/k'' = None"
proof -
  let ?p = "remove_object ''b'' ''a/k'' (demo_world (\<lambda>_. Delivered))"
  from demo_delete obtain u where "?p = (Some (Inr u), snd ?p)" "alive_followers (snd ?p) = [''http://n1'']"
    by (rule succeedsE)
  with delete_replicated [OF demo_world_ok demo_names(1,2), of "\<lambda>_. Delivered" "snd ?p"]
  show ?thesis by simp
qed

text \<open>
  C8. A \<open>PUT\<close> or \<open>DELETE\<close> that returns an error, at whatever step and whatever the network did, has
  changed no object of any follower; and when it failed because a follower did not prepare, which takes
  that follower out of the commit set, it has changed no object here either.
\<close>

theorem failed_write_changes_nothing:
  assumes "world_ok w" "write_run b k (Some False) w w'" "plain_seg b'" "plain_name k'"
  shows "node_obj w' (Some a) b' k' = node_obj w (Some a) b' k' \<and>
    (set (alive_followers w') \<noteq> set (alive_followers w) \<longrightarrow> node_obj w' None b' k' = node_obj w None b' k')"
  using write_obj(2,3) [OF assms(2,1,3,4)] by simp

definition fails :: "string list \<Rightarrow> (gerror + 'a) option \<times> world \<Rightarrow> bool" where
  "fails al p \<longleftrightarrow> outcome (fst p) = Some False \<and> alive_followers (snd p) = al"

lemma demo_put_lost: "fails [] (put_one ''a/k'' (demo_world (\<lambda>_. ReplyLost)))"
  by code_simp

lemma put_one_run: "write_run ''b'' k (outcome (fst (put_one k w))) w (snd (put_one k w))"
  unfolding write_run_def put_one_def by (metis prod.collapse)

theorem failed_write_changes_nothing_witness:
  "node_obj (snd (put_one ''a/k'' (demo_world (\<lambda>_. ReplyLost)))) None ''b'' ''a/k'' =
     node_obj (demo_world (\<lambda>_. ReplyLost)) None ''b'' ''a/k''"
proof -
  let ?p = "put_one ''a/k'' (demo_world (\<lambda>_. ReplyLost))"
  have "write_run ''b'' ''a/k'' (Some False) (demo_world (\<lambda>_. ReplyLost)) (snd ?p)"
    using put_one_run [of "''a/k''" "demo_world (\<lambda>_. ReplyLost)"] demo_put_lost by (simp add: fails_def)
  from failed_write_changes_nothing [OF demo_world_ok this demo_names(1,2)] demo_put_lost
  show ?thesis by (simp add: fails_def)
qed



text \<open>
  C22. Every write that enters the gate leaves it: the count of active writes, which a sync lease waits
  on, is after a \<open>PUT\<close> or \<open>DELETE\<close> what it was before, on every path.
\<close>

theorem write_leaves_gate:
  assumes "world_ok w" "write_run b k oc w w'"
  shows "sv_active_writes (sr_svc (w_self w')) = sv_active_writes (sr_svc (w_self w))"
  using assms(2,1)
proof (cases rule: write_cases)
  case (unstaged t u v)
  then show ?thesis using progress_gate [OF unstaged(4)] by simp
next
  case (ran tx staged u u1 v r)
  then show ?thesis
    using progress_gate [OF ran(5)] two_phase_gate [OF progress_ok [OF ran(5)] ran(1,7)] by simp
qed

theorem write_leaves_gate_witness:
  "sv_active_writes (sr_svc (w_self (snd (put_one ''a/k'' (demo_world (\<lambda>_. Lost)))))) =
     sv_active_writes (sr_svc (w_self (demo_world (\<lambda>_. Lost))))"
  by (rule write_leaves_gate [OF demo_world_ok put_one_run])

text \<open>
  C23. While a sync lease is live and the behaviour is another than \<open>wait\<close>, every \<open>PUT\<close> and \<open>DELETE\<close>
  returns an error, no object changes on any node and the same followers take part in writes.  (A \<open>PUT\<close> may
  have created the bucket: \<open>ensureBucketExists\<close> runs before the gate.)
\<close>

theorem blocked_write_rejected:
  assumes "world_ok w" "write_run b k oc w w'" "sv_behavior (sr_svc (w_self w)) \<noteq> ''wait''"
    and "map_of (sv_syncing (sr_svc (w_self w))) nid = Some seen"
    and "w_clock w (w_tick w) - seen \<le> lease_ttl" "w_clock w (Suc (w_tick w)) - seen \<le> lease_ttl"
  shows "oc = Some False \<and> node_obj w' n b' k' = node_obj w n b' k' \<and> alive_followers w' = alive_followers w"
proof -
  have live: "fst (writes_blocked now (sr_svc (w_self w)))" if "now - seen \<le> lease_ttl" for now
    using that assms(4) by (auto simp: writes_blocked_iff dest: map_of_SomeD)
  have gate: "calm u w' \<and> res = Some (Inl unavailable)" if g: "gated body u = (res, w')" "world_ok u"
    "sr_svc (w_self u) = sr_svc (w_self w)" "w_now u - seen \<le> lease_ttl"
    for u res and body :: "'c world_io"
    using g(1,2)
  proof (cases rule: gated_cases)
    case refused
    with assms(3) g(3) show ?thesis by simp
  next
    case (entered w1 r w2)
    with live [OF g(4)] g(3) show ?thesis by simp
  qed
  have "oc = Some False \<and> calm w w'"
    using assms(2) unfolding write_run_def
  proof (elim disjE exE conjE)
    fix st sz m res
    assume run: "put_object b k (const_reader st) sz m w = (res, w')" and oc: "oc = outcome res"
    from assms(1) run show ?thesis
    proof (cases rule: put_object_cases)
      case (no_bucket e)
      with oc show ?thesis by simp
    next
      case (gated w1)
      from gate [OF gated(3) calm_ok [OF gated(1)] gated(2)] gated(4,5) assms(6) oc calm_trans [OF gated(1)]
      show ?thesis by (simp add: w_now_def)
    qed
  next
    fix res
    assume run: "remove_object b k w = (res, w')" and oc: "oc = outcome res"
    from gate [OF run [unfolded remove_object_def] assms(1)] assms(5) oc show ?thesis by (simp add: w_now_def)
  qed
  then show ?thesis by (simp add: calm_obj calm_alive)
qed

definition leased_world :: world where
  "leased_world = upd_svc (register_lease 0 ''n1'') (demo_world (\<lambda>_. Delivered))"

theorem blocked_write_rejected_witness: "outcome (fst (put_one ''a/k'' leased_world)) = Some False"
proof -
  have "world_ok leased_world" unfolding leased_world_def by (rule calm_ok [OF calm_upd_svc(1) [OF demo_world_ok]])
  moreover have "sr_svc (w_self leased_world) = register_lease 0 ''n1'' (new_service no_metrics)"
    "w_tick leased_world = 0" "w_clock leased_world = int"
    by (simp_all add: leased_world_def upd_svc_def upd_self_def demo_world_def demo_server_def)
  ultimately show ?thesis
    using blocked_write_rejected [OF _ put_one_run, of leased_world "''n1''" 0]
    by (simp add: register_lease_def new_service_def lease_node_def lease_ttl_def second_def)
qed

text \<open>
  The internal headers lose the spaces around a key: a \<open>PUT\<close> of a key that begins or ends with
  one succeeds only by dropping every follower from the commit set.
\<close>

theorem padded_key_drops_followers:
  assumes "world_ok w" "plain_seg b" "plain_name k" "\<not> is_ec m" "distinct (alive_followers w)"
    and "put_object b k (const_reader st) sz m w = (Some (Inr m'), w')" "header_trim k \<noteq> k"
  shows "alive_followers w' = []"
  using put_ok(4) [OF assms(1-6)] assms(7) by (cases "alive_followers w'") auto

lemma demo_put_padded: "outcome (fst (put_one '' k'' (demo_world (\<lambda>_. Delivered)))) = Some True"
  by code_simp

theorem padded_key_drops_followers_witness:
  "alive_followers (snd (put_one '' k'' (demo_world (\<lambda>_. Delivered)))) = []"
proof -
  let ?p = "put_one '' k'' (demo_world (\<lambda>_. Delivered))"
  have "\<exists>m. ?p = (Some (Inr m), snd ?p)"
    using demo_put_padded by (cases ?p; cases "fst ?p") auto
  then obtain m where "?p = (Some (Inr m), snd ?p)" ..
  from padded_key_drops_followers [OF demo_world_ok demo_names(1,4) _ _ this [unfolded put_one_def]]
  show ?thesis by (simp add: put_one_def) code_simp
qed

end
