(* ===== verification/Multipart.thy ===== *)
theory Multipart
  imports ServiceProps
begin

text \<open>
  Multipart uploads: what a saved part leaves in the session's directory, and that a completed upload
  is the concatenation of its parts, at the leader and at every follower that takes part.
\<close>

section \<open>Reading the parts\<close>

definition part_file :: "path \<Rightarrow> repo_fs \<Rightarrow> string \<Rightarrow> string \<Rightarrow> int \<Rightarrow> byte list option" where
  "part_file root fs bucket uid n =
     (case fs_file fs (part_path root bucket uid n) of Some (mt, CData bs) \<Rightarrow> Some bs | _ \<Rightarrow> None)"

lemma part_file_Some: "part_file root fs bucket uid n = Some bs \<longleftrightarrow> (\<exists>mt. fs_file fs (part_path root bucket uid n) = Some (mt, CData bs))"
  by (auto simp: part_file_def split: option.splits content.splits)

lemma read_part_ok:
  assumes "get_multipart_part_reader root bucket uid n fs = (Inr st, fs')" "st_err st = None"
  shows "fs' = fs" "part_file root fs bucket uid n = Some (st_bytes st)"
proof -
  obtain nd where "fs_get fs (part_path root bucket uid n) = Some nd" "st = node_stream (part_path root bucket uid n) nd" "fs' = fs"
    using assms(1) by (auto simp: get_multipart_part_reader_def open_stream_ok)
  moreover from this obtain mt c where "nd = File mt c" using assms(2) by (cases nd) auto
  ultimately show "fs' = fs" "part_file root fs bucket uid n = Some (st_bytes st)"
    using assms(2) by (cases c; auto simp: part_file_Some fs_file_Some_iff bytes_stream_def)+
qed

lemma delete_part_files:
  assumes "delete_multipart_part root bucket uid n fs = (Inr u, fs')"
  shows "fs_file fs' = (fs_file fs)(part_path root bucket uid n := None, path_add (part_path root bucket uid n) ''.json'' := None)"
  using assms by (auto simp: delete_multipart_part_def Let_def elim!: bindE_okE dest!: tolerateE_okD)

lemma delete_part_keeps:
  assumes "delete_multipart_part root bucket uid n fs = (Inr u, fs')" "part_file root fs' bucket uid n' = Some bs"
  shows "part_file root fs bucket uid n' = Some bs"
  using assms(2) by (auto simp: part_file_Some delete_part_files [OF assms(1)] fun_upd_apply split: if_splits)

text \<open>A reader that comes to the end without an error has passed on all parts, in order.\<close>

lemma parts_reader_ok:
  "parts_reader bucket uid ps root fs = (st, fs') \<Longrightarrow> st_err st = None \<Longrightarrow>
   \<exists>bss. st_bytes st = concat bss \<and> map Some bss = map (\<lambda>p. part_file root fs bucket uid (up_part_number p)) ps"
proof (induction ps arbitrary: fs st)
  case (Cons p ps)
  let ?n = "up_part_number p"
  from Cons.prems obtain st1 fs1 fs2 u st2 where
    r: "get_multipart_part_reader root bucket uid ?n fs = (Inr st1, fs1)" "st_err st1 = None"
    and d: "delete_multipart_part root bucket uid ?n fs1 = (Inr u, fs2)"
    and more: "parts_reader bucket uid ps root fs2 = (st2, fs')" "st_err st2 = None" "st_bytes st = st_bytes st1 @ st_bytes st2"
    by (auto simp: Let_def split: prod.splits sum.splits option.splits)
  from Cons.IH [OF more(1,2)] obtain bss where
    b: "st_bytes st2 = concat bss" "map Some bss = map (\<lambda>p. part_file root fs2 bucket uid (up_part_number p)) ps" by blast
  note rd = read_part_ok [OF r]
  have "map (\<lambda>p. part_file root fs2 bucket uid (up_part_number p)) ps = map (\<lambda>p. part_file root fs bucket uid (up_part_number p)) ps"
  proof (rule map_cong [OF refl])
    fix q assume "q \<in> set ps"
    then obtain bs where "part_file root fs2 bucket uid (up_part_number q) = Some bs"
      using b(2) by (metis (no_types, lifting) ex_map_conv image_eqI list.set_map)
    with delete_part_keeps [OF d] rd(1)
    show "part_file root fs2 bucket uid (up_part_number q) = part_file root fs bucket uid (up_part_number q)" by simp
  qed
  with b more(3) rd(2) show ?case by (intro exI [of _ "st_bytes st1 # bss"]) simp
qed (simp add: bytes_stream_def)

lemma reader_wf: "wf_fs fs \<Longrightarrow> wf_fs (snd (parts_reader bucket uid ps root fs))"
proof (induction ps arbitrary: fs)
  case (Cons p ps)
  let ?n = "up_part_number p"
  have "snd (get_multipart_part_reader root bucket uid ?n fs) = fs" by (simp add: get_multipart_part_reader_def)
  then obtain r where g: "get_multipart_part_reader root bucket uid ?n fs = (r, fs)" by (metis prod.collapse)
  obtain r2 fs2 where d: "delete_multipart_part root bucket uid ?n fs = (r2, fs2)" by fastforce
  then have "wf_fs fs2" using presD [OF wf_delete_multipart_part Cons.prems, of root bucket uid ?n] by simp
  from this Cons.IH [OF this] Cons.prems show ?case
    by (auto simp: g d Let_def split: sum.split option.split prod.split)
qed simp

section \<open>Putting what a reader yields\<close>

lemma stage_closed:
  assumes "\<not> stage_opens root ev t tx fs" "tx_operation tx = OpPut"
  shows "\<exists>e fs'. stage_object root ev t st sz m tx fs = (Inl e, fs')"
proof -
  obtain r1 u1 where mk: "os_mkdir_all (staging_dir root t) fs = (r1, u1)" by fastforce
  show ?thesis
  proof (cases r1)
    case r1: (Inr x)
    obtain r2 u2 where wj: "write_json ev (stage_file root t ''tx.json'') (CTx tx) u1 = (r2, u2)" by fastforce
    show ?thesis
    proof (cases r2)
      case r2: (Inr y)
      with assms(1) mk r1 wj obtain e u3 where "os_write (stage_file root t (''data.tmp.'' @ ev_uuid ev)) (ev_now ev) (CData []) u2 = (Inl e, u3)"
        by (auto simp: stage_opens_def split: prod.splits sum.splits)
      from os_write_err_any [OF this, of "CData (st_bytes st)"] mk r1 wj r2 assms(2) show ?thesis
        by (simp add: stage_object_def with_temp_file_def Let_def)
    qed (use mk r1 wj in \<open>simp add: stage_object_def Let_def\<close>)
  qed (use mk in \<open>simp add: stage_object_def Let_def\<close>)
qed

text \<open>A reader of the node's files is read at one point: the same as reading it first.\<close>

definition with_files :: "repo_fs \<Rightarrow> world \<Rightarrow> world" where
  "with_files fs w = w\<lparr>w_self := (w_self w)\<lparr>sr_fs := fs\<rparr>\<rparr>"

lemma with_files_simps [simp]:
  "w_ids (with_files fs w) = w_ids w" "w_tick (with_files fs w) = w_tick w" "peer (with_files fs w) a = peer w a"
  "sr_root (w_self (with_files fs w)) = sr_root (w_self w)" "sr_fs (w_self (with_files fs w)) = fs"
  "alive_followers (with_files fs w) = alive_followers w" "w_now (with_files fs w) = w_now w"
  "sr_mgr (w_self (with_files fs w)) = sr_mgr (w_self w)" "now_env (tick (with_files fs w)) = now_env (tick w)"
  by (simp_all add: with_files_def peer_def alive_followers_def w_now_def now_env_def tick_def)

lemma put_2pc_reader:
  assumes "put_2pc b k rd sz m u = (Inr m', v)" "rd (sr_root (w_self u)) (sr_fs (w_self u)) = (st, fs)"
  shows "put_2pc b k (const_reader st) sz m (with_files fs u) = (Inr m', v)"
proof -
  let ?tx = "new_tx OpPut b k u" and ?root = "sr_root (w_self u)"
  let ?stage = "\<lambda>rd root ev. stage_reader root ev (tx_id ?tx) rd sz m ?tx"
  have tx: "new_tx OpPut b k (with_files fs u) = ?tx" by (simp add: new_tx_def)
  obtain s w1 where s: "local (?stage rd) (tick u) = (Inr s, w1)" and two: "two_phase ?tx s w1 = (Inr m', v)"
    using assms(1) by (auto simp: put_2pc_def Let_def elim!: bindE_okE)
  from s obtain fs' where st: "?stage rd ?root (now_env (tick u)) (sr_fs (w_self u)) = (Inr s, fs')"
    and w1: "w1 = tick ((tick u)\<lparr>w_self := (w_self u)\<lparr>sr_fs := fs'\<rparr>\<rparr>)" by (auto simp: local_run)
  have "stage_opens ?root (now_env (tick u)) (tx_id ?tx) ?tx (sr_fs (w_self u))"
  proof (rule ccontr)
    assume no: "\<not> ?thesis"
    then have "?stage rd ?root (now_env (tick u)) (sr_fs (w_self u)) =
        stage_object ?root (now_env (tick u)) (tx_id ?tx) (bytes_stream []) sz m ?tx (sr_fs (w_self u))"
      by (simp add: stage_reader_def)
    moreover obtain e x where "stage_object ?root (now_env (tick u)) (tx_id ?tx) (bytes_stream []) sz m ?tx (sr_fs (w_self u)) = (Inl e, x)"
      using stage_closed [OF no] by fastforce
    ultimately show False using st by simp
  qed
  then have "stage_object ?root (now_env (tick u)) (tx_id ?tx) st sz m ?tx fs = (Inr s, fs')"
    using st by (simp add: stage_reader_def assms(2))
  then have "local (?stage (const_reader st)) (tick (with_files fs u)) = (Inr s, w1)"
    by (simp add: local_run stage_reader_const w1) (simp add: with_files_def tick_def)
  with two show ?thesis by (simp add: put_2pc_def tx Let_def bindE_def)
qed

section \<open>What is put\<close>

lemma map_sort_key: "map f (sort_key f xs) = sort (map f xs)"
proof (induction xs)
  case (Cons x xs)
  have "map f (insort_key f x ys) = insort (f x) (map f ys)" for ys by (induction ys) auto
  with Cons show ?case by simp
qed simp

lemma match_parts_ok:
  "match_parts stored rps = Inr ps \<Longrightarrow> map up_part_number ps = map cp_part_number rps \<and> set ps \<subseteq> set stored"
proof (induction rps arbitrary: ps)
  case (Cons rp rps)
  then obtain p qs where p: "find (\<lambda>p. up_part_number p = cp_part_number rp) (rev stored) = Some p"
    "match_parts stored rps = Inr qs" "ps = p # qs"
    by (auto split: option.splits if_splits sum.splits)
  from p(1) obtain i where "i < length (rev stored)" "p = rev stored ! i" "up_part_number p = cp_part_number rp"
    by (auto simp only: find_Some_iff)
  moreover from this(1,2) have "p \<in> set (rev stored)" by (metis nth_mem)
  ultimately have "p \<in> set stored" "up_part_number p = cp_part_number rp" by simp_all
  with Cons.IH [OF p(2)] p(3) show ?case by simp
qed simp

text \<open>Every part the session reports is the content of a file of its directory.\<close>

lemma read_all_file: "v \<in> set (read_all dec ps fs) \<Longrightarrow> \<exists>q \<in> set ps. \<exists>mt c. fs_file fs q = Some (mt, c) \<and> dec c = Some v"
  by (auto simp: read_all_def split: sum.splits) (metis prod.collapse read_json_ok)

lemma upload_exists_state [simp]: "snd (upload_exists root b u fs) = fs"
  by (simp add: upload_exists_def os_stat_def split: option.split)

lemma stored_part_file:
  assumes "get_multipart_parts root bucket uid fs = (Inr stored, fs')"
  shows "fs' = fs" "p \<in> set stored \<Longrightarrow> \<exists>nm mt. fs_file fs (path_join (upload_session_dir root bucket uid) [nm]) = Some (mt, CPart p)"
proof -
  let ?sd = "upload_session_dir root bucket uid"
  from assms obtain u fs1 entries where e: "upload_exists root bucket uid fs = (Inr u, fs1)" "os_read_dir ?sd fs1 = (Inr entries, fs')"
    and s: "stored = sort_key up_part_number (read_all as_part (map (\<lambda>e. path_join ?sd [fst e])
      (filter (\<lambda>(nm, isdir). \<not> isdir \<and> is_part_meta_name nm) entries)) fs')"
    by (auto simp: get_multipart_parts_def Let_def elim!: bindE_okE)
  have "fs1 = fs" using upload_exists_state [of root bucket uid fs] by (simp add: e(1))
  then show fs': "fs' = fs" using os_read_dir_pair [OF e(2)] by simp
  have part: "as_part c = Some p \<Longrightarrow> c = CPart p" for c by (cases c) auto
  assume "p \<in> set stored"
  then show "\<exists>nm mt. fs_file fs (path_join ?sd [nm]) = Some (mt, CPart p)"
    using part by (auto simp: s fs' dest!: read_all_file) blast
qed

text \<open>The metadata of a part names the digest of the part's bytes.\<close>

definition session_ok :: "path \<Rightarrow> repo_fs \<Rightarrow> string \<Rightarrow> string \<Rightarrow> bool" where
  "session_ok root fs bucket uid \<longleftrightarrow>
     (\<forall>nm mt p bs. fs_file fs (path_join (upload_session_dir root bucket uid) [nm]) = Some (mt, CPart p) \<longrightarrow>
        part_file root fs bucket uid (up_part_number p) = Some bs \<longrightarrow> up_etag p = quoted (hex_encode (md5 bs)))"

lemma part_digests_ok:
  "(\<And>p bs. p \<in> set ps \<Longrightarrow> part_file root fs bucket uid (up_part_number p) = Some bs \<Longrightarrow> up_etag p = quoted (hex_encode (md5 bs))) \<Longrightarrow>
   map Some bss = map (\<lambda>p. part_file root fs bucket uid (up_part_number p)) ps \<Longrightarrow> part_digests ps = Inr ds \<Longrightarrow>
   ds = concat (map md5 bss)"
proof (induction ps arbitrary: bss ds)
  case (Cons p ps)
  then obtain bs cs where b: "bss = bs # cs" "part_file root fs bucket uid (up_part_number p) = Some bs" by (cases bss) auto
  then have e: "up_etag p = quoted (hex_encode (md5 bs))" using Cons.prems(1) by simp
  have "strip_quotes (up_etag p) = hex_encode (md5 bs)" unfolding e strip_quotes_def by (rule trim_quoted [OF hex_encode_no_quote])
  with Cons.prems(3) obtain es where "part_digests ps = Inr es" "ds = md5 bs @ es"
    by (auto simp: hex_decode_encode split: sum.splits)
  with Cons.IH [of cs es] Cons.prems(1,2) b show ?case by simp
qed simp

lemma plan_ok:
  assumes "plan_multipart bucket uid rps root fs = (Inr (ps, etag, up), fs')"
  shows "fs' = fs" "map up_part_number ps = sort (map cp_part_number rps)" "length ps = length rps"
    "\<exists>ds. part_digests ps = Inr ds \<and> etag = multipart_etag ds (length rps)"
    "\<exists>mt. fs_file fs (path_join (upload_session_dir root bucket uid) [''upload.json'']) = Some (mt, CUpload up)"
    "p \<in> set ps \<Longrightarrow> \<exists>nm mt. fs_file fs (path_join (upload_session_dir root bucket uid) [nm]) = Some (mt, CPart p)"
proof -
  from assms obtain stored fs1 matched ds fs2 where g: "get_multipart_parts root bucket uid fs = (Inr stored, fs1)"
    and m: "match_parts stored rps = Inr matched" and ps: "ps = sort_key up_part_number matched"
    and d: "part_digests ps = Inr ds" "etag = multipart_etag ds (length ps)"
    and u: "get_multipart_upload root bucket uid fs1 = (Inr up, fs')"
    by (auto simp: plan_multipart_def Let_def failE_def retE_def elim!: bindE_okE dest!: wrapE_okD split: sum.splits)
  have up: "as_upload c = Some up \<Longrightarrow> c = CUpload up" for c by (cases c) auto
  note s = stored_part_file [OF g] and mp = match_parts_ok [OF m]
  have len: "length matched = length rps" using arg_cong [OF conjunct1 [OF mp], of length] by simp
  show "fs' = fs" "\<exists>mt. fs_file fs (path_join (upload_session_dir root bucket uid) [''upload.json'']) = Some (mt, CUpload up)"
    using u up s(1) by (auto simp: get_multipart_upload_def read_json_ok)
  show "map up_part_number ps = sort (map cp_part_number rps)" "length ps = length rps"
    using mp len by (simp_all add: ps map_sort_key)
  then show "\<exists>ds. part_digests ps = Inr ds \<and> etag = multipart_etag ds (length rps)" using d by simp
  show "p \<in> set ps \<Longrightarrow> \<exists>nm mt. fs_file fs (path_join (upload_session_dir root bucket uid) [nm]) = Some (mt, CPart p)"
    using s(2) mp by (auto simp: ps)
qed

section \<open>What a saved part leaves\<close>

text \<open>The bytes under the part's number and beside them its metadata, with their size and digests.\<close>

lemma saved_part:
  assumes "save_multipart_part root ev bucket uid n st fs = (Inr p, fs')"
  shows "st_err st = None" "p = part_meta ev n (st_bytes st)" "part_file root fs' bucket uid n = Some (st_bytes st)"
    "fs_file fs' (path_add (part_path root bucket uid n) ''.json'') = Some (ev_now ev, CPart p)"
proof -
  let ?pp = "part_path root bucket uid n"
  let ?js = "path_add ?pp ''.json''" and ?tmp = "path_add ?pp ''.tmp''"
  from assms obtain u0 where t: "with_temp_file ev ?tmp st (\<lambda>bs.
      bindE (os_rename ?tmp ?pp) (\<lambda>_. bindE (write_json ev ?js (CPart (part_meta ev n bs))) (\<lambda>_. retE (part_meta ev n bs)))) u0 = (Inr p, fs')"
    by (auto simp: save_multipart_part_def Let_def elim!: bindE_okE)
  from t obtain u u' where w: "os_write ?tmp (ev_now ev) (CData (st_bytes st)) u0 = (Inr (), u)" and e: "st_err st = None"
    and k: "bindE (os_rename ?tmp ?pp) (\<lambda>_. bindE (write_json ev ?js (CPart (part_meta ev n (st_bytes st)))) (\<lambda>_.
      retE (part_meta ev n (st_bytes st)))) u = (Inr p, u')" and fs': "fs' = snd (os_remove ?tmp u')"
    by (rule with_temp_file_ok)
  from k obtain u1 x y where r: "os_rename ?tmp ?pp u = (Inr x, u1)"
    and j: "write_json ev ?js (CPart (part_meta ev n (st_bytes st))) u1 = (Inr y, u')" and p: "p = part_meta ev n (st_bytes st)"
    by (auto simp: retE_def elim!: bindE_okE)
  show "st_err st = None" "p = part_meta ev n (st_bytes st)" by (rule e, rule p)
  have src: "fs_file u ?tmp = Some (ev_now ev, CData (st_bytes st))" using os_write_ok(3) [OF w] by simp
  from r obtain mt c where c: "fs_file u ?tmp = Some (mt, c)" "?pp \<noteq> []" "fs_file u1 = (fs_file u)(?tmp := None, ?pp \<mapsto> (mt, c))"
    by (rule os_rename_ok)
  obtain d nm where pp: "?pp = d @ [nm]" using c(2) by (cases ?pp rule: rev_cases) auto
  have "fs_file u' = (fs_file u1)(path_add ?js (''.tmp.'' @ itoa (ev_now ev)) := None, ?js \<mapsto> (ev_now ev, CPart p))"
    using write_json_ok [OF j] by (auto simp: fs_file_def p pp fun_eq_iff)
  then show "part_file root fs' bucket uid n = Some (st_bytes st)"
    "fs_file fs' ?js = Some (ev_now ev, CPart p)"
    using src c(1,3) by (auto simp: part_file_def fs' pp)
qed

lemma save_part_frame:
  assumes "save_multipart_part root ev bucket uid n st fs = (r, fs')" "\<not> prefix (upload_session_dir root bucket uid) q"
  shows "fs_file fs' q = fs_file fs q"
proof -
  have "pres (agrees (\<lambda>q. \<not> prefix (upload_session_dir root bucket uid) q) f0) (save_multipart_part root ev bucket uid n st)" for f0
    unfolding save_multipart_part_def Let_def part_path_eq by (intro pres_intros) auto
  from leavesD [OF this assms(1), of q] assms(2) show ?thesis by simp
qed

text \<open>An intact part of a session whose directory holds files only is saved.\<close>

lemma save_part_run:
  assumes "fs_get fs (upload_session_dir root bucket uid) = Some Dir" "st_err st = None"
    and "\<And>nm. fs_get fs (upload_session_dir root bucket uid @ [nm]) \<noteq> Some Dir"
  obtains fs' where "save_multipart_part root ev bucket uid n st fs = (Inr (part_meta ev n (st_bytes st)), fs')"
proof -
  let ?d = "upload_session_dir root bucket uid" and ?x = "itoa05 n" and ?p = "part_meta ev n (st_bytes st)"
  have ex: "upload_exists root bucket uid fs = (Inr (), fs)" using assms(1) by (simp add: upload_exists_def os_stat_def)
  obtain u1 where r1: "os_write (?d @ [?x @ ''.tmp'']) (ev_now ev) (CData (st_bytes st)) fs = (Inr (), u1)"
    and g1: "fs_get u1 = (fs_get fs)(?d @ [?x @ ''.tmp''] \<mapsto> File (ev_now ev) (CData (st_bytes st)))"
    by (rule os_write_run [of "?d @ [?x @ ''.tmp'']" fs "ev_now ev" "CData (st_bytes st)"]) (use assms in auto)
  have d1: "fs_get u1 ?d = Some Dir" "\<And>nm. fs_get u1 (?d @ [nm]) \<noteq> Some Dir" using assms by (simp_all add: g1)
  obtain u2 where r2: "os_rename (?d @ [?x @ ''.tmp'']) (?d @ [?x]) u1 = (Inr (), u2)"
    and g2: "fs_get u2 = (fs_get u1)(?d @ [?x @ ''.tmp''] := None, ?d @ [?x] \<mapsto> File (ev_now ev) (CData (st_bytes st)))"
    by (rule os_rename_run [of u1 "?d @ [?x @ ''.tmp'']" "ev_now ev" "CData (st_bytes st)" "?d @ [?x]"])
      (use d1(1) d1(2) [of ?x] assms(1,3) in \<open>simp_all add: g1\<close>)
  have d2: "fs_get u2 ?d = Some Dir" "\<And>nm. fs_get u2 (?d @ [nm]) \<noteq> Some Dir" using d1 by (simp_all add: g2)
  obtain u3 where r3: "write_json ev (?d @ [?x @ ''.json'']) (CPart ?p) u2 = (Inr (), u3)"
    by (rule write_json_run [of "?d @ [?x @ ''.json'']" u2 ev "CPart ?p"]) (use d2 in auto)
  have "\<exists>fs'. with_temp_file ev (?d @ [?x @ ''.tmp'']) st (\<lambda>bs.
      bindE (os_rename (?d @ [?x @ ''.tmp'']) (?d @ [?x])) (\<lambda>_.
      bindE (write_json ev (?d @ [?x @ ''.json'']) (CPart (part_meta ev n bs))) (\<lambda>_.
      retE (part_meta ev n bs)))) fs = (Inr ?p, fs')"
    using r1 r2 r3 assms(2) by (simp add: with_temp_file_def finallyE_def)
  then show ?thesis using that
    by (auto simp: save_multipart_part_def Let_def part_path_eq bindE_def ex)
qed

text \<open>A metadata file in the session's directory is listed.\<close>

lemma part_listed:
  assumes "wf_fs fs" "fs_file fs (upload_session_dir root bucket uid @ [nm]) = Some (mt, CPart p)" "is_part_meta_name nm"
  shows "\<exists>ps. get_multipart_parts root bucket uid fs = (Inr ps, fs) \<and> p \<in> set ps"
proof -
  let ?sd = "upload_session_dir root bucket uid"
  have fl: "fs_get fs (?sd @ [nm]) = Some (File mt (CPart p))" using assms(2) by (simp add: fs_file_Some_iff)
  have dir: "fs_get fs ?sd = Some Dir" using wf_fs_parent [OF assms(1), of "?sd @ [nm]"] fl by simp
  have plain: "plain_seg nm" using wf_fs_plain [OF assms(1), of "?sd @ [nm]"] fl by simp
  have ex: "upload_exists root bucket uid fs = (Inr (), fs)" by (simp add: upload_exists_def os_stat_def dir)
  define entries where "entries = map (\<lambda>x. (x, is_dir (fs_get fs (?sd @ [x])))) (dir_names fs ?sd)"
  have rd: "os_read_dir ?sd fs = (Inr entries, fs)" using dir by (simp add: os_read_dir_ok entries_def)
  let ?files = "map (\<lambda>e. path_join ?sd [fst e]) (filter (\<lambda>(x, isdir). \<not> isdir \<and> is_part_meta_name x) entries)"
  have "(nm, False) \<in> set entries" using fl by (auto simp: entries_def dir_names_get)
  moreover have "path_join ?sd [nm] = ?sd @ [nm]" using plain by (simp add: upload_session_dir_def path_join_dir)
  ultimately have "?sd @ [nm] \<in> set ?files" using assms(3) by force
  moreover have "read_json as_part (?sd @ [nm]) fs = (Inr p, fs)" using read_json_run [OF fl, of as_part p] by simp
  ultimately have "p \<in> set (read_all as_part ?files fs)" by (force simp: read_all_def)
  then show ?thesis
    by (intro exI [of _ "sort_key up_part_number (read_all as_part ?files fs)"])
      (simp add: get_multipart_parts_def Let_def bindE_def ex rd)
qed

lemma saved_name: "is_part_meta_name (itoa05 n @ ''.json'')"
proof -
  have "CHR ''u'' \<notin> set (itoa05 n)"
  proof -
    have "\<not> is_digit (CHR ''u'')" by (simp add: is_digit_def)
    then show ?thesis by (auto simp: itoa05_def pad_digits_def nat_digits_no_sign)
  qed
  moreover have "itoa05 n \<noteq> []" using itoa05_plain [of n] by (auto simp: plain_seg_def plain_comp_def)
  ultimately show ?thesis by (cases "itoa05 n") (auto simp: is_part_meta_name_def suffix_def)
qed

text \<open>
  C27. A part whose upload is answered with success arrived without an error, and the session holds it:
  reading the part back gives exactly its bytes, and the list of the session's parts, from which the upload
  is completed, has an entry with its number, its size, its checksum and the quoted MD5 of its bytes as ETag.
  Whatever the upload of a part returns, no file outside the directory of its session changes.
\<close>

theorem saved_part_reads_back:
  assumes "good_root root" "wf_fs fs" and run: "save_multipart_part root ev bucket uid n st fs = (r, fs')"
  shows "(case r of Inl _ \<Rightarrow> True
    | Inr p \<Rightarrow> st_err st = None \<and>
        p = \<lparr>up_part_number = n, up_size = int (length (st_bytes st)), up_etag = quoted (hex_encode (md5 (st_bytes st))),
          up_crc32 = crc32 (st_bytes st), up_modified_at = ev_now ev\<rparr> \<and>
        get_multipart_part_reader root bucket uid n fs' = (Inr (bytes_stream (st_bytes st)), fs') \<and>
        (\<exists>ps. get_multipart_parts root bucket uid fs' = (Inr ps, fs') \<and> p \<in> set ps)) \<and>
    (\<forall>q. prefix (upload_session_dir root bucket uid) q \<or> fs_file fs' q = fs_file fs q)"
proof (cases r)
  case (Inl e)
  then show ?thesis using save_part_frame [OF run] by auto
next
  case (Inr p)
  note s = saved_part [OF run [unfolded Inr]]
  obtain mt where body: "fs_file fs' (part_path root bucket uid n) = Some (mt, CData (st_bytes st))"
    using s(3) by (auto simp: part_file_Some)
  have "wf_fs fs'" using presE [OF wf_save_multipart_part run] assms(1,2) by simp
  moreover have "fs_file fs' (upload_session_dir root bucket uid @ [itoa05 n @ ''.json'']) = Some (ev_now ev, CPart p)"
    using s(4) by (simp add: part_path_eq)
  ultimately have "\<exists>ps. get_multipart_parts root bucket uid fs' = (Inr ps, fs') \<and> p \<in> set ps"
    using part_listed saved_name by blast
  moreover have "get_multipart_part_reader root bucket uid n fs' = (Inr (bytes_stream (st_bytes st)), fs')"
    by (simp add: get_multipart_part_reader_def open_stream_file [OF body])
  ultimately show ?thesis using s(1,2) save_part_frame [OF run] by (auto simp: Inr part_meta_def)
qed

section \<open>A completed upload\<close>

lemma session_apart:
  assumes "good_dir root b'" "plain_name k'" "good_root root" "plain_seg bucket" "plain_seg uid"
  shows "\<not> prefix (upload_session_dir root bucket uid) (data_path root b' k')"
    "\<not> prefix (upload_session_dir root bucket uid) (meta_path root b' k')"
    "\<not> prefix (upload_session_dir root bucket uid) (ec_shard_path root b' k' i)"
proof -
  have "upload_session_dir root bucket uid = root @ [''uploads'', bucket, uid]"
    unfolding upload_session_dir_def using assms(3-5) by (simp add: path_join_plain good_root_plain)
  then show "\<not> prefix (upload_session_dir root bucket uid) (data_path root b' k')"
    "\<not> prefix (upload_session_dir root bucket uid) (meta_path root b' k')"
    "\<not> prefix (upload_session_dir root bucket uid) (ec_shard_path root b' k' i)"
    by (simp_all add: object_paths [OF assms(1,2)])
qed

lemma abort_upload_object:
  assumes "good_dir root b'" "plain_name k'" "plain_seg bucket" "plain_seg uid"
  shows "object_at root (snd (abort_multipart_upload root bucket uid fs)) b' k' = object_at root fs b' k'"
proof -
  have "fs_file (snd (abort_multipart_upload root bucket uid fs)) q = fs_file fs q"
    if "\<not> prefix (upload_session_dir root bucket uid) q" for q
    unfolding abort_multipart_upload_def
    by (rule leavesD [OF agrees_remove_all surjective_pairing,
        where P = "\<lambda>q. \<not> prefix (upload_session_dir root bucket uid) q"]) (use that in auto)
  then show ?thesis
    using session_apart [OF assms(1,2) good_dirD(1) [OF assms(1)] assms(3,4)] by (intro object_at_cong) auto
qed

text \<open>
  C12. A multipart upload that is completed with success is, at the leader and at every follower that
  is still in the commit set, an object whose bytes are those of the requested parts in the order of
  their numbers, under the bucket and key the upload was created for; its ETag is the MD5 of the
  parts' MD5 sums with their number.
\<close>

theorem multipart_completed:
  assumes "complete_multipart_upload bucket uid rps w = (Some (Inr m), w')" "world_ok w" "distinct (alive_followers w)"
    and "plain_seg bucket" "plain_seg uid" "session_ok (sr_root (w_self w)) (sr_fs (w_self w)) bucket uid"
    and "fs_file (sr_fs (w_self w)) (path_join (upload_session_dir (sr_root (w_self w)) bucket uid) [''upload.json'']) = Some (mt, CUpload up)"
    and "plain_seg (mu_bucket up)" "plain_name (mu_key up)"
  shows "\<exists>bss. map Some bss = map (part_file (sr_root (w_self w)) (sr_fs (w_self w)) bucket uid) (sort (map cp_part_number rps)) \<and>
    sr_obj (w_self w') (mu_bucket up) (mu_key up) = Some (concat bss, m) \<and>
    om_etag m = multipart_etag (concat (map md5 bss)) (length rps) \<and>
    (\<forall>a \<in> set (alive_followers w'). \<exists>sr. peer w' a = Some sr \<and> sr_obj sr (mu_bucket up) (mu_key up) = Some (concat bss, m))"
proof -
  let ?root = "sr_root (w_self w)" and ?fs = "sr_fs (w_self w)" and ?b = "mu_bucket up" and ?k = "mu_key up"
  have root: "good_root ?root" using world_okD(2) [OF assms(2)] by (simp add: server_ok_def)
  from assms(1) obtain ps etag up' w1 w2 where plan: "local (\<lambda>root ev. plan_multipart bucket uid rps root) w = (Inr (ps, etag, up'), w1)"
    and put: "put_object (mu_bucket up') (mu_key up') (parts_reader bucket uid ps) (sum_list (map up_size ps))
      (multipart_meta etag (w_now w1)) w1 = (Some (Inr m), w2)"
    and w': "w' = snd (local (\<lambda>root ev. abort_multipart_upload root bucket uid) w2)"
    by (auto simp: complete_multipart_upload_def split: prod.splits sum.splits option.splits)
  from plan obtain fs1 where pl: "plan_multipart bucket uid rps ?root ?fs = (Inr (ps, etag, up'), fs1)"
    and w1: "w1 = tick (w\<lparr>w_self := (w_self w)\<lparr>sr_fs := fs1\<rparr>\<rparr>)" by (auto simp: local_run)
  note p = plan_ok [OF pl]
  have up: "up' = up" using p(5) assms(7) by auto
  have w1: "w1 = tick w" using w1 by (simp add: p(1))
  have ok1: "world_ok w1" using assms(2) by (simp add: w1)
  let ?m = "multipart_meta etag (w_now w1)"
  obtain u v where ran: "calm w1 u" "put_2pc ?b ?k (parts_reader bucket uid ps) (sum_list (map up_size ps)) ?m u = (Inr m, v)"
    "w2 = upd_svc leave_write v"
    using ok1 put unfolding up by (cases rule: put_entered) auto
  obtain st fs2 where rd: "parts_reader bucket uid ps (sr_root (w_self u)) (sr_fs (w_self u)) = (st, fs2)" by fastforce
  have same: "sr_root (w_self u) = ?root" "fs_file (sr_fs (w_self u)) = fs_file ?fs"
    using ran(1) by (simp_all add: calm_def w1)
  have oku: "world_ok u" by (rule calm_ok [OF ran(1)])
  then have "wf_fs fs2" using reader_wf [of "sr_fs (w_self u)" bucket uid ps "sr_root (w_self u)"] rd
    by (simp add: world_ok_def server_ok_def)
  with oku have ok: "world_ok (with_files fs2 u)"
    by (simp add: world_ok_def server_ok_def)
  have ec: "\<not> is_ec ?m" by (simp add: multipart_meta_def is_ec_def empty_meta_def StorageModeEC_def)
  have al: "distinct (alive_followers (with_files fs2 u))"
    using assms(3) calm_alive [OF ran(1)] by (simp add: w1 alive_followers_def)
  note put2 = put_2pc_reader [OF ran(2) rd]
  note stored = put_2pc_ok [OF ok assms(8,9) ec al put2]
  obtain bss where b: "st_bytes st = concat bss" "map Some bss = map (\<lambda>p. part_file ?root ?fs bucket uid (up_part_number p)) ps"
    using parts_reader_ok [OF rd stored(1)] by (auto simp: part_file_def same)
  have bytes: "map Some bss = map (part_file ?root ?fs bucket uid) (sort (map cp_part_number rps))"
    using b(2) by (simp flip: p(2))
  obtain ds where ds: "part_digests ps = Inr ds" "etag = multipart_etag ds (length rps)" using p(4) by blast
  have "ds = concat (map md5 bss)"
    using assms(6) p(6) unfolding session_ok_def by (intro part_digests_ok [OF _ b(2) ds(1)]) blast
  moreover have "etag \<noteq> []" by (simp add: ds(2) multipart_etag_def quoted_def)
  then have "om_etag m = etag"
    using stored(2) by (simp add: staged_meta_def multipart_meta_def Let_def)
  ultimately have etag: "om_etag m = multipart_etag (concat (map md5 bss)) (length rps)" using ds(2) by simp
  have "world_ok v" by (rule put_2pc_obj(4) [OF ok put2 assms(8,9)])
  then have g: "good_dir (sr_root (w_self w2)) ?b" using assms(8) by (simp add: ran(3) world_ok_def server_ok_def good_dir_def upd_svc_def upd_self_def)
  have last: "w_self w' = (w_self w2)\<lparr>sr_fs := snd (abort_multipart_upload (sr_root (w_self w2)) bucket uid (sr_fs (w_self w2)))\<rparr>"
    "peer w' a = peer w2 a" for a
    by (simp_all add: w' local_def on_storage_def split_beta peer_def)
  have "sr_obj (w_self w') ?b ?k = sr_obj (w_self w2) ?b ?k"
    using abort_upload_object [OF g assms(9,4,5)] by (simp add: last(1) sr_obj_def)
  then have "sr_obj (w_self w') ?b ?k = Some (concat bss, m)" using stored(3) b(1) by (simp add: ran(3))
  moreover have "\<exists>sr. peer w' a = Some sr \<and> sr_obj sr ?b ?k = Some (concat bss, m)" if "a \<in> set (alive_followers w')" for a
  proof -
    from that have "a \<in> set (alive_followers v)" by (simp add: alive_followers_def last(1) ran(3) upd_svc_def upd_self_def)
    from stored(4) [OF this] b(1) show ?thesis by (simp add: last(2) ran(3))
  qed
  ultimately show ?thesis using bytes etag by blast
qed

section \<open>Two parts\<close>

definition mp_part :: "int \<Rightarrow> string \<Rightarrow> upload_part" where
  "mp_part n e = \<lparr>up_part_number = n, up_size = 1, up_etag = e, up_crc32 = 0, up_modified_at = 7\<rparr>"

definition mp_upload :: multipart_upload where
  "mp_upload = \<lparr>mu_upload_id = ''u'', mu_bucket = ''b'', mu_key = ''k'', mu_initiated = 7\<rparr>"

definition mp_dir :: path where
  "mp_dir = upload_session_dir demo_root ''b'' ''u''"

definition mp_fs :: "string \<Rightarrow> string \<Rightarrow> repo_fs" where
  "mp_fs e1 e2 =
     [(mp_dir @ [''upload.json''], File 7 (CUpload mp_upload)),
      (mp_dir @ [''00001''], File 7 (CData [1])), (mp_dir @ [''00001.json''], File 7 (CPart (mp_part 1 e1))),
      (mp_dir @ [''00002''], File 7 (CData [2])), (mp_dir @ [''00002.json''], File 7 (CPart (mp_part 2 e2))),
      (mp_dir, Dir), (butlast mp_dir, Dir)] @ demo_fs"

definition mp_world :: "string \<Rightarrow> string \<Rightarrow> world" where
  "mp_world e1 e2 = (let w = demo_world (\<lambda>_. Delivered) in
     w\<lparr>w_self := (w_self w)\<lparr>sr_fs := mp_fs e1 e2, sr_mgr := Standalone (new_standalone_manager ''n0'')\<rparr>\<rparr>)"

lemma mp_wf: "wf_fs (mp_fs e1 e2)"
  by code_simp

theorem saved_part_reads_back_witness:
  "\<exists>fs'. get_multipart_part_reader demo_root ''b'' ''u'' 3 fs' = (Inr (bytes_stream [9, 8]), fs') \<and>
     (\<exists>ps. get_multipart_parts demo_root ''b'' ''u'' fs' = (Inr ps, fs') \<and> 3 \<in> up_part_number ` set ps)"
proof -
  let ?m = "save_multipart_part demo_root demo_env ''b'' ''u'' 3 (bytes_stream [9, 8])" and ?fs = "mp_fs ''x'' ''y''"
  let ?d = "upload_session_dir demo_root ''b'' ''u''"
  have dir: "fs_get ?fs ?d = Some Dir" by code_simp
  have "list_all (\<lambda>nm. fs_get ?fs (?d @ [nm]) \<noteq> Some Dir) (dir_names ?fs ?d)" by code_simp
  then have "fs_get ?fs (?d @ [nm]) \<noteq> Some Dir" for nm
    using dir_names_get [of nm ?fs ?d] by (cases "nm \<in> set (dir_names ?fs ?d)") (auto simp: list_all_iff)
  then obtain fs' where run: "?m ?fs = (Inr (part_meta demo_env 3 [9, 8]), fs')"
    using save_part_run [OF dir, of "bytes_stream [9, 8]" demo_env 3] by auto
  have num: "up_part_number (part_meta demo_env 3 [9, 8]) = 3" by (simp add: part_meta_def)
  from saved_part_reads_back [OF demo_good(6) mp_wf run] obtain ps where
    "get_multipart_part_reader demo_root ''b'' ''u'' 3 fs' = (Inr (bytes_stream [9, 8]), fs')"
    "get_multipart_parts demo_root ''b'' ''u'' fs' = (Inr ps, fs')" "part_meta demo_env 3 [9, 8] \<in> set ps"
    by auto
  with num show ?thesis by (intro exI [of _ fs']) (metis image_eqI)
qed

text \<open>The request names the parts in the wrong order.\<close>

definition mp_request :: "string \<Rightarrow> string \<Rightarrow> complete_part list" where
  "mp_request e1 e2 = [\<lparr>cp_part_number = 2, cp_etag = e2\<rparr>, \<lparr>cp_part_number = 1, cp_etag = e1\<rparr>]"

lemma mp_reads:
  "fst (get_multipart_parts demo_root ''b'' ''u'' (mp_fs e1 e2)) = Inr [mp_part 1 e1, mp_part 2 e2]"
  "fst (get_multipart_upload demo_root ''b'' ''u'' (mp_fs e1 e2)) = Inr mp_upload"
  "part_file demo_root (mp_fs e1 e2) ''b'' ''u'' 1 = Some [1]" "part_file demo_root (mp_fs e1 e2) ''b'' ''u'' 2 = Some [2]"
  "fs_file (mp_fs e1 e2) (path_join mp_dir [''upload.json'']) = Some (7, CUpload mp_upload)"
  by code_simp+

lemma mp_put: "case put_object ''b'' ''k'' (parts_reader ''b'' ''u'' [mp_part 1 e1, mp_part 2 e2]) 2
    (multipart_meta (quoted e) 1) (tick (mp_world e1 e2)) of (Some (Inr m), w) \<Rightarrow> True | _ \<Rightarrow> False"
  by code_simp

lemma mp_plan:
  fixes d1 d2 :: "byte list"
  defines "e1 \<equiv> quoted (hex_encode d1)" and "e2 \<equiv> quoted (hex_encode d2)"
  shows "plan_multipart ''b'' ''u'' (mp_request e1 e2) demo_root (mp_fs e1 e2) =
    (Inr ([mp_part 1 e1, mp_part 2 e2], multipart_etag (d1 @ d2) 2, mp_upload), mp_fs e1 e2)"
proof -
  let ?fs = "mp_fs e1 e2" and ?ps = "[mp_part 1 e1, mp_part 2 e2]"
  have g: "get_multipart_parts demo_root ''b'' ''u'' ?fs = (Inr ?ps, ?fs)"
    using mp_reads(1) [of e1 e2] stored_part_file(1) [of demo_root "''b''" "''u''" ?fs ?ps]
    by (cases "get_multipart_parts demo_root ''b'' ''u'' ?fs") simp
  have u: "get_multipart_upload demo_root ''b'' ''u'' ?fs = (Inr mp_upload, ?fs)"
    using mp_reads(2) [of e1 e2] read_json_state [of as_upload _ ?fs]
    by (cases "get_multipart_upload demo_root ''b'' ''u'' ?fs") (metis fst_conv snd_conv get_multipart_upload_def)
  have s: "strip_quotes e1 = hex_encode d1" "strip_quotes e2 = hex_encode d2"
    unfolding e1_def e2_def strip_quotes_def by (rule trim_quoted [OF hex_encode_no_quote])+
  have m: "match_parts ?ps (mp_request e1 e2) = Inr [mp_part 2 e2, mp_part 1 e1]"
    by (simp add: mp_request_def mp_part_def)
  have d: "part_digests ?ps = Inr (d1 @ d2)"
    by (simp add: mp_part_def s hex_decode_encode)
  have "sort_key up_part_number [mp_part 2 e2, mp_part 1 e1] = ?ps" by (simp add: mp_part_def)
  with d show ?thesis
    by (simp add: plan_multipart_def bindE_def g m u wrapE_def retE_def numeral_2_eq_2)
qed

lemma mp_session: "session_ok demo_root (mp_fs (quoted (hex_encode (md5 [1]))) (quoted (hex_encode (md5 [2])))) ''b'' ''u''"
proof -
  let ?e1 = "quoted (hex_encode (md5 [1]))" and ?e2 = "quoted (hex_encode (md5 [2]))"
  have dirs: "\<forall>x \<in> set demo_fs. snd x = Dir" by code_simp
  have "p = mp_part 1 ?e1 \<or> p = mp_part 2 ?e2" if "fs_file (mp_fs ?e1 ?e2) q = Some (mt, CPart p)" for q mt p
  proof -
    have "fs_get (mp_fs ?e1 ?e2) q = Some (File mt (CPart p))" using that by (simp add: fs_file_Some_iff)
    then have "q = [] \<or> (q, File mt (CPart p)) \<in> set (mp_fs ?e1 ?e2)"
      by (auto simp: fs_get_def split: if_splits dest: map_of_SomeD)
    then show ?thesis using that dirs by (fastforce simp: mp_fs_def fs_file_def fs_get_def split: if_splits)
  qed
  then show ?thesis
    unfolding session_ok_def using mp_reads(3,4) by (fastforce simp: mp_part_def)
qed

theorem multipart_completed_witness:
  "\<exists>m w'. complete_multipart_upload ''b'' ''u'' (mp_request (quoted (hex_encode (md5 [1]))) (quoted (hex_encode (md5 [2]))))
       (mp_world (quoted (hex_encode (md5 [1]))) (quoted (hex_encode (md5 [2])))) = (Some (Inr m), w') \<and>
     sr_obj (w_self w') ''b'' ''k'' = Some ([1, 2], m) \<and> om_etag m = multipart_etag (md5 [1] @ md5 [2]) 2"
proof -
  let ?e1 = "quoted (hex_encode (md5 [1]))" and ?e2 = "quoted (hex_encode (md5 [2]))"
  let ?w = "mp_world ?e1 ?e2" and ?rq = "mp_request ?e1 ?e2"
  have self: "sr_root (w_self ?w) = demo_root" "sr_fs (w_self ?w) = mp_fs ?e1 ?e2" "alive_followers ?w = []"
    by (simp_all add: mp_world_def demo_world_def demo_server_def alive_followers_def sa_alive_followers_def)
  have ok: "world_ok ?w"
    using demo_world_ok [of "\<lambda>_. Delivered"] mp_wf
    by (simp add: world_ok_def mp_world_def demo_world_def demo_server_def server_ok_def peer_def)
  have now: "w_now (tick ?w) = 1" by (simp add: mp_world_def demo_world_def w_now_def tick_def)
  have "?w\<lparr>w_self := w_self ?w\<rparr> = ?w" by simp
  then have plan: "local (\<lambda>root ev. plan_multipart ''b'' ''u'' ?rq root) ?w =
      (Inr ([mp_part 1 ?e1, mp_part 2 ?e2], multipart_etag (md5 [1] @ md5 [2]) 2, mp_upload), tick ?w)"
    using mp_plan [of "md5 [1]" "md5 [2]"] by (simp add: local_run self) (simp flip: self(2))
  obtain m w2 where "put_object ''b'' ''k'' (parts_reader ''b'' ''u'' [mp_part 1 ?e1, mp_part 2 ?e2]) 2
      (multipart_meta (multipart_etag (md5 [1] @ md5 [2]) 2) 1) (tick ?w) = (Some (Inr m), w2)"
    using mp_put [of ?e1 ?e2 "hex_encode (md5 (md5 [1] @ md5 [2])) @ ''-'' @ itoa (int 2)"]
    unfolding multipart_etag_def by (auto split: prod.splits option.splits sum.splits)
  with plan now obtain w' where run: "complete_multipart_upload ''b'' ''u'' ?rq ?w = (Some (Inr m), w')"
    by (simp add: complete_multipart_upload_def mp_upload_def mp_part_def)
  have "map cp_part_number ?rq = [2, 1]" "length ?rq = 2" by (simp_all add: mp_request_def)
  moreover have "path_join (upload_session_dir demo_root ''b'' ''u'') [''upload.json''] = path_join mp_dir [''upload.json'']"
    by (simp add: mp_dir_def)
  ultimately show ?thesis
    using multipart_completed [OF run ok, of 7 mp_upload] mp_session mp_reads(3-5) run
    by (auto simp: self mp_upload_def plain_seg_def plain_comp_def demo_names)
qed

end
