(* ===== verification/Sync.thy ===== *)
theory Sync
  imports Service
begin

text \<open>
  Bringing a follower up to date: the leader's health checks and discovery over the network
  (\<open>internal/cluster\<close>), the coordinator that pushes and deletes objects
  (\<open>internal/replication/coordinator.go\<close>) and what the leader does when a follower asks for it
  (\<open>HandleSyncRequest\<close> of the service and its handler).
\<close>

section \<open>Health checks\<close>

text \<open>The follower table of a manager as health tasks, and one answer.\<close>

fun mgr_health_tasks :: "cluster_manager \<Rightarrow> (string \<times> string) list" where
  "mgr_health_tasks (Standalone m) = []"
| "mgr_health_tasks (Static m) =
     map (\<lambda>(nid, ns). (nid, ns_addr ns)) (filter (\<lambda>(nid, ns). nid \<noteq> sm_local_id m) (sm_states m))"
| "mgr_health_tasks (K8s m) = map (\<lambda>(nid, ns). (nid, ns_addr ns)) (km_states m)"

fun mgr_health_answer ::
    "string \<Rightarrow> string \<Rightarrow> (gerror + health_resp) \<Rightarrow> int \<Rightarrow> cluster_manager \<Rightarrow> cluster_manager \<times> string list" where
  "mgr_health_answer nid addr r now (Standalone m) = (Standalone m, [])"
| "mgr_health_answer nid addr r now (Static m) = (case sm_health_answer nid r now m of (m', rs) \<Rightarrow> (Static m', rs))"
| "mgr_health_answer nid addr r now (K8s m) = (case km_health_answer nid addr r m of (m', rs) \<Rightarrow> (K8s m', rs))"

text \<open>One check per follower; one that has been offline is told to resync.\<close>

fun check_followers :: "(string \<times> string) list \<Rightarrow> world \<Rightarrow> world" where
  "check_followers [] w = w"
| "check_followers ((nid, addr) # tasks) w =
     (case client_health addr w of
        (r, w1) \<Rightarrow>
          (case mgr_health_answer nid addr r (w_now w1) (sr_mgr (w_self w1)) of
             (m, resync) \<Rightarrow>
               check_followers tasks
                 (fold (\<lambda>a v. snd (client_set_status a ''SYNCING'' v)) resync (upd_mgr (\<lambda>_. m) w1))))"

definition heartbeat_round :: "world \<Rightarrow> world" where
  "heartbeat_round w = check_followers (mgr_health_tasks (sr_mgr (w_self w))) w"

definition rebuild_mgr :: "cluster_manager \<Rightarrow> cluster_manager" where
  "rebuild_mgr m = (case m of K8s k \<Rightarrow> K8s (rebuild_alive_followers k) | _ \<Rightarrow> m)"

text \<open>\<open>discoverAndCheckFollowers\<close>, given the answer of the endpoints request, if it is one.\<close>

definition discover_and_check :: "(string \<times> string) list option \<Rightarrow> k8s_manager \<Rightarrow> world \<Rightarrow> world" where
  "discover_and_check endpoints k w =
     (if \<not> km_is_leader (w_now w) k then w
      else case endpoints of
        None \<Rightarrow> w
      | Some found \<Rightarrow> upd_mgr rebuild_mgr (heartbeat_round (upd_mgr (\<lambda>_. K8s (km_discover (w_now w) found k)) w)))"

definition refresh_followers :: "(string \<times> string) list option \<Rightarrow> world \<Rightarrow> world" where
  "refresh_followers endpoints w =
     (case sr_mgr (w_self w) of K8s k \<Rightarrow> discover_and_check endpoints k w | _ \<Rightarrow> w)"

section \<open>The coordinator\<close>

definition local_keys :: "path \<Rightarrow> key_info list repo_io" where
  "local_keys root =
     bindE (list_buckets root) (\<lambda>bs fs. (Inr (concat (map (bucket_keys root fs) bs)), fs))"

definition key_path :: "key_info \<Rightarrow> string" where
  "key_path k = ki_bucket k @ ''/'' @ ki_key k"

definition keys_map :: "key_info list \<Rightarrow> (string \<times> key_info) list" where
  "keys_map ks = foldl (\<lambda>m k. AList.update (key_path k) k m) [] ks"

definition needs_push :: "(string \<times> key_info) list \<Rightarrow> string \<times> key_info \<Rightarrow> bool" where
  "needs_push fm e =
     (case map_of fm (fst e) of
        None \<Rightarrow> True
      | Some fk \<Rightarrow> ki_crc32 fk \<noteq> ki_crc32 (snd e) \<or> ki_size fk \<noteq> ki_size (snd e))"

definition count_pushed :: "(string \<times> key_info) list \<Rightarrow> (string \<times> key_info) list \<Rightarrow> nat" where
  "count_pushed lm fm = length (filter (needs_push fm) lm)"

definition sync_tx :: "key_info \<Rightarrow> world \<Rightarrow> transaction" where
  "sync_tx ki w =
     \<lparr>tx_id = ''sync-'' @ w_ids w (w_tick w), tx_operation = OpPut, tx_bucket = ki_bucket ki, tx_key = ki_key ki,
      tx_state = TxPrepared, tx_created_at = w_now w\<rparr>"

text \<open>Where the bytes come from: the erasure-code reader or the node's own storage.\<close>

definition push_source :: "ec_reader option \<Rightarrow> key_info \<Rightarrow> (stream \<times> object_meta) world_io" where
  "push_source ecr ki =
     bindE (wrapE ''failed to read object meta'' (local (\<lambda>root ev. get_object_meta root (ki_bucket ki) (ki_key ki)))) (\<lambda>meta.
       case (is_ec meta, ecr) of
         (True, Some rd) \<Rightarrow> wrapE ''failed to reconstruct EC object'' (rd (ki_bucket ki) (ki_key ki))
       | _ \<Rightarrow> wrapE ''failed to read local object'' (local (\<lambda>root ev. get_object root (ki_bucket ki) (ki_key ki))))"

definition push_tx :: "string \<Rightarrow> transaction \<Rightarrow> stream \<Rightarrow> object_meta \<Rightarrow> unit world_io" where
  "push_tx addr tx st meta =
     bindE (wrapE ''prepare failed on follower'' (client_prepare addr tx meta (Some st) (om_content_length meta))) (\<lambda>_ w.
       case client_commit addr (tx_id tx) (tx_bucket tx) (tx_key tx) w of
         (Inl e, w1) \<Rightarrow> (Inl (Wrapped ''commit failed on follower'' e), snd (client_abort addr (tx_id tx) w1))
       | (Inr _, w1) \<Rightarrow> (Inr (), w1))"

definition push_object :: "ec_reader option \<Rightarrow> string \<Rightarrow> key_info \<Rightarrow> unit world_io" where
  "push_object ecr addr ki =
     bindE (push_source ecr ki) (\<lambda>(st, meta) w. push_tx addr (sync_tx ki w) st meta (tick w))"

text \<open>
  Go visits the entries of a map in an order of its own: \<open>order\<close> rearranges them.
\<close>

type_synonym map_order = "(string \<times> key_info) list \<Rightarrow> (string \<times> key_info) list"

definition push_missing ::
    "ec_reader option \<Rightarrow> string \<Rightarrow> (string \<times> key_info) list \<Rightarrow> (string \<times> key_info) list \<Rightarrow> unit world_io" where
  "push_missing ecr addr fm lm =
     forE lm (\<lambda>e. if needs_push fm e
       then wrapE (''failed to push object '' @ fst e @ '' to follower'') (push_object ecr addr (snd e))
       else retE ())"

definition extraneous :: "(string \<times> key_info) list \<Rightarrow> (string \<times> key_info) list \<Rightarrow> key_info list" where
  "extraneous lm fm = map snd (filter (\<lambda>e. map_of lm (fst e) = None) fm)"

definition delete_extraneous :: "string \<Rightarrow> key_info list \<Rightarrow> unit world_io" where
  "delete_extraneous addr ks =
     (if ks = [] then retE ()
      else wrapE ''failed to delete extraneous objects on follower'' (client_sync_delete addr ks))"

definition sync_follower :: "map_order \<Rightarrow> ec_reader option \<Rightarrow> string \<Rightarrow> unit world_io" where
  "sync_follower order ecr addr =
     bindE (wrapE ''failed to fetch keys from follower'' (client_get_keys addr)) (\<lambda>fks.
     bindE (wrapE ''failed to retrieve local keys'' (local (\<lambda>root ev. local_keys root))) (\<lambda>lks.
       let fm = keys_map fks; lm = keys_map lks in
       bindE (push_missing ecr addr fm (order lm)) (\<lambda>_.
       delete_extraneous addr (extraneous lm (order fm)))))"

section \<open>A sync request\<close>

text \<open>The coordinator is injected after construction; the request waits (\<open>None\<close>) for active writes.\<close>

definition handle_sync_request ::
    "(string \<Rightarrow> unit world_io) option \<Rightarrow> (string \<times> string) list option \<Rightarrow> string \<Rightarrow> string \<Rightarrow> world \<Rightarrow>
     (gerror + unit) option \<times> world" where
  "handle_sync_request coord endpoints nid addr w =
     (case coord of
        None \<Rightarrow> (Some (Inl (ErrMsg ''sync coordinator is not configured'')), w)
      | Some sync \<Rightarrow>
          (case start_sync_lease (w_now w) nid (sr_svc (w_self w)) of
             (False, s) \<Rightarrow> (None, upd_svc (\<lambda>_. s) w)
           | (True, s) \<Rightarrow>
               (let w1 = upd_mgr (mgr_register_follower nid addr)
                      (refresh_followers endpoints (tick (upd_svc (\<lambda>_. s) w)))
                in case sync addr w1 of
                  (Inl e, w2) \<Rightarrow> (Some (Inl e), upd_svc (end_sync_lease nid) w2)
                | (Inr _, w2) \<Rightarrow> (Some (Inr ()), upd_svc (end_sync_lease nid) (upd_mgr (mgr_mark_alive nid addr) w2)))))"

text \<open>Its handler, and the one that only takes the lease.\<close>

definition handle_sync_request_call ::
    "(string \<Rightarrow> unit world_io) option \<Rightarrow> (string \<times> string) list option \<Rightarrow> request \<Rightarrow> world \<Rightarrow> response option \<times> world" where
  "handle_sync_request_call coord endpoints rq w =
     (let nid = qget rq ''node_id''; addr = qget rq ''internal_addr'' in
      if rq_method rq \<noteq> ''POST'' then (Some (reply 405 NoPayload), w)
      else if nid = [] \<or> addr = [] then (Some (reply 400 (ErrText ''missing node_id or internal_addr parameter'')), w)
      else case handle_sync_request coord endpoints nid addr w of
        (None, w1) \<Rightarrow> (None, w1)
      | (Some (Inl e), w1) \<Rightarrow> (Some (reply 500 (ErrText (err_text e))), w1)
      | (Some (Inr _), w1) \<Rightarrow> (Some (reply 200 NoPayload), w1))"

definition handle_sync_start :: "int \<Rightarrow> request \<Rightarrow> server \<Rightarrow> response option \<times> server" where
  "handle_sync_start now rq sr =
     (if rq_method rq \<noteq> ''POST'' then (Some (reply 405 NoPayload), sr)
      else case start_sync_lease now (qget rq ''node_id'') (sr_svc sr) of
        (granted, s) \<Rightarrow> (if granted then Some (reply 200 NoPayload) else None, sr\<lparr>sr_svc := s\<rparr>))"

end
