(* ===== verification/SyncFacts.thy ===== *)
theory SyncFacts
  imports Sync Listing TwoPhase
begin

text \<open>
  What a synchronisation reads and writes at one node: the keys a node reports are those of the
  objects it has, and the deletions a follower is asked for remove exactly the objects named.
\<close>

section \<open>The keys of a node\<close>

text \<open>A page that is large enough is the whole listing.\<close>

lemma list_loop_all:
  "n + int (length keys) \<le> mx \<Longrightarrow>
   list_loop look [] [] mx n keys = (listed_objects look [] [] keys, [], None)"
proof (induction keys arbitrary: n)
  case (Cons key keys)
  have "keys = []" if "mx \<le> n + 1" using Cons.prems that by (cases keys) simp_all
  with Cons show ?case by (cases "mx \<le> n + 1") (auto simp: common_prefix_of_def split: option.split prod.split)
qed simp

lemma listed_objects_plain:
  "set (listed_objects look [] [] keys) = {object_info_of k m | k m. k \<in> set keys \<and> look k = Some m}"
proof (induction keys)
  case (Cons key keys)
  then show ?case by (cases "look key") (auto simp: common_prefix_of_def)
qed simp

lemma bucket_contents_set:
  assumes "fs_get fs (meta_dir root b) = Some Dir" "int (length (object_keys root b fs)) \<le> mx"
  shows "set (bucket_contents root mx fs b) =
    {object_info_of k m | k m. k \<in> set (object_keys root b fs) \<and> meta_lookup root b fs k = Some m}"
  using assms list_loop_all [of 0 "object_keys root b fs" mx] listed_objects_plain
  by (simp add: bucket_contents_def list_objects_v2_def os_stat_def list_start_def)

text \<open>The metadata a node has of a key, and how it reports it.\<close>

definition meta_at :: "path \<Rightarrow> repo_fs \<Rightarrow> string \<Rightarrow> string \<Rightarrow> object_meta option" where
  "meta_at root fs b k = meta_lookup root b fs k"

lemma meta_at_file: "meta_at root fs b k = Some m \<longleftrightarrow> (\<exists>mt. fs_file fs (meta_path root b k) = Some (mt, CMeta m))"
  by (simp add: meta_at_def meta_lookup_iff)

definition reports :: "object_meta \<Rightarrow> string \<Rightarrow> string \<Rightarrow> key_info \<Rightarrow> bool" where
  "reports m b k ki \<longleftrightarrow> ki_bucket ki = b \<and> ki_key ki = k \<and> ki_crc32 ki = om_crc32 m \<and> ki_size ki = om_content_length m"

lemma bucket_keys_set:
  assumes "fs_get fs (meta_dir root b) = Some Dir" "length (object_keys root b fs) \<le> 1000000"
  shows "ki \<in> set (bucket_keys root fs b) \<Longrightarrow>
      \<exists>k m. k \<in> set (object_keys root b fs) \<and> meta_at root fs b k = Some m \<and> reports m b k ki"
    and "k \<in> set (object_keys root b fs) \<Longrightarrow> meta_at root fs b k = Some m \<Longrightarrow>
      \<exists>ki \<in> set (bucket_keys root fs b). reports m b k ki"
proof -
  have look: "meta_lookup root b fs k = Some m \<longleftrightarrow> fst (get_object_meta root b k fs) = Inr m" for k m
    by (auto simp: meta_lookup_def split: sum.split)
  note cont = bucket_contents_set [OF assms(1), of 1000000] assms(2)
  show "ki \<in> set (bucket_keys root fs b) \<Longrightarrow>
      \<exists>k m. k \<in> set (object_keys root b fs) \<and> meta_at root fs b k = Some m \<and> reports m b k ki"
    using cont by (auto simp: bucket_keys_def reports_def meta_at_def look object_info_of_def split: sum.splits)
  assume k: "k \<in> set (object_keys root b fs)" "meta_at root fs b k = Some m"
  let ?ki = "\<lparr>ki_bucket = b, ki_key = k, ki_crc32 = om_crc32 m, ki_size = oi_size (object_info_of k m),
     ki_modified_at = oi_last_modified (object_info_of k m)\<rparr>"
  have "object_info_of k m \<in> set (bucket_contents root 1000000 fs b)"
    using cont k by (auto simp: meta_at_def)
  then have "?ki \<in> set (bucket_keys root fs b)"
    using k(2) by (force simp: bucket_keys_def meta_at_def look object_info_of_def split: sum.split)
  then show "\<exists>ki \<in> set (bucket_keys root fs b). reports m b k ki"
    by (intro bexI [of _ ?ki]) (simp_all add: reports_def object_info_of_def)
qed

text \<open>
  A tidy node lists fewer than a million keys a bucket, each a plain name of a replicated object whose
  metadata describes its bytes.
\<close>

definition true_meta :: "byte list \<Rightarrow> object_meta \<Rightarrow> bool" where
  "true_meta bs m \<longleftrightarrow> \<not> is_ec m \<and> om_crc32 m = crc32 bs \<and> om_content_length m = int (length bs)"

definition tidy_node :: "server \<Rightarrow> bool" where
  "tidy_node sr \<longleftrightarrow> (\<forall>b. plain_seg b \<longrightarrow>
     length (object_keys (sr_root sr) b (sr_fs sr)) \<le> 1000000 \<and>
     (\<forall>k \<in> set (object_keys (sr_root sr) b (sr_fs sr)). plain_name k \<and>
        (\<exists>bs m. sr_obj sr b k = Some (bs, m) \<and> true_meta bs m)))"

definition node_keys :: "server \<Rightarrow> key_info list \<Rightarrow> bool" where
  "node_keys sr ks \<longleftrightarrow> (\<exists>bs. list_buckets (sr_root sr) (sr_fs sr) = (Inr bs, sr_fs sr) \<and>
     ks = concat (map (bucket_keys (sr_root sr) (sr_fs sr)) bs))"

lemma object_meta_at: "object_at root fs b k = Some (bs, m) \<Longrightarrow> meta_at root fs b k = Some m"
  by (auto simp: object_at_iff meta_at_file)

lemma list_buckets_iff:
  assumes "list_buckets root fs = (Inr bs, t)" "good_root root"
  shows "t = fs" "b \<in> set bs \<longleftrightarrow> fs_get fs (root @ [''data'', b]) = Some Dir"
proof -
  have join: "path_join root [''data''] = root @ [''data'']"
    using path_join_plain [OF good_root_plain [OF assms(2)], of "[''data'']"] by simp
  from assms(1) obtain es where es: "os_read_dir (root @ [''data'']) fs = (Inr es, fs)" "t = fs" "bs = map fst (filter snd es)"
  proof -
    from assms(1) obtain es u where "os_read_dir (root @ [''data'']) fs = (Inr es, u)"
      and "bs = map fst (filter snd es)" "t = u"
      unfolding list_buckets_def join by (rule bindE_okE) simp
    moreover from this(1) have "u = fs" by (simp add: os_read_dir_ok)
    ultimately show thesis using that by simp
  qed
  then show "t = fs" by simp
  have "b \<in> set (dir_names fs (root @ [''data''])) \<longleftrightarrow> fs_get fs (root @ [''data'', b]) \<noteq> None"
    using dir_names_get [of b fs "root @ [''data'']"] by simp
  moreover have "b \<in> set (map fst (filter snd (map (\<lambda>n. (n, P n)) ns))) \<longleftrightarrow> b \<in> set ns \<and> P b" for P and ns :: "string list"
    by (induction ns) auto
  ultimately show "b \<in> set bs \<longleftrightarrow> fs_get fs (root @ [''data'', b]) = Some Dir"
    using es by (auto simp: os_read_dir_ok is_dir_iff simp del: set_map set_filter)
qed

lemma bucket_seg: "wf_fs fs \<Longrightarrow> fs_get fs (root @ [''data'', b]) = Some Dir \<Longrightarrow> plain_seg b"
  using wf_fs_plain [of fs "root @ [''data'', b]"] by simp

lemma object_dirs:
  assumes "wf_fs fs" "good_dir root b" "plain_name k" "object_at root fs b k = Some (bs, m)" "\<not> is_ec m"
  shows "fs_get fs (root @ [''data'', b]) = Some Dir" "fs_get fs (meta_dir root b) = Some Dir"
    "k \<in> set (object_keys root b fs)"
proof -
  from assms(4,5) have f: "fs_file fs (meta_path root b k) \<noteq> None" "fs_file fs (data_path root b k) \<noteq> None"
    by (auto simp: object_at_iff body_path_def)
  have ne: "split_on (CHR ''/'') s \<noteq> []" for s by simp
  from f have g: "fs_get fs (meta_path root b k) \<noteq> None" "fs_get fs (data_path root b k) \<noteq> None"
    by (auto simp: fs_file_def split: option.splits)
  from wf_fs_take [OF assms(1) g(2), of "length root + 2"] show "fs_get fs (root @ [''data'', b]) = Some Dir"
    using ne by (simp add: object_paths [OF assms(2,3)])
  from wf_fs_take [OF assms(1) g(1), of "length root + 2"] show "fs_get fs (meta_dir root b) = Some Dir"
    using ne by (simp add: object_paths [OF assms(2,3)] dir_paths [OF assms(2)])
  have "plain_name (k @ ''.json'')" by (rule plain_name_append_suffix [OF assms(3)]) auto
  with f show "k \<in> set (object_keys root b fs)" by (simp add: object_keys_iff [OF assms(1,2)])
qed

lemma node_keys_complete:
  assumes "server_ok sr" "tidy_node sr" "node_keys sr ks" "plain_seg b" "plain_name k" "sr_obj sr b k = Some (bs, m)"
    "\<not> is_ec m"
  shows "\<exists>ki \<in> set ks. reports m b k ki"
proof -
  let ?root = "sr_root sr" and ?fs = "sr_fs sr"
  have ok: "wf_fs ?fs" "good_root ?root" "good_dir ?root b" using assms(1,4) by (simp_all add: server_ok_def good_dir_def)
  note dirs = object_dirs [OF ok(1,3) assms(5) assms(6) [unfolded sr_obj_def] assms(7)]
  from assms(3) obtain bks where bks: "list_buckets ?root ?fs = (Inr bks, ?fs)" "ks = concat (map (bucket_keys ?root ?fs) bks)"
    by (auto simp: node_keys_def)
  have "b \<in> set bks" using list_buckets_iff(2) [OF bks(1) ok(2)] dirs(1) by simp
  moreover have "length (object_keys ?root b ?fs) \<le> 1000000" using assms(2,4) by (simp add: tidy_node_def)
  ultimately show ?thesis
    using bucket_keys_set(2) [OF dirs(2) _ dirs(3) object_meta_at [OF assms(6) [unfolded sr_obj_def]]] bks(2) by auto
qed

lemma node_keys_sound:
  assumes "server_ok sr" "tidy_node sr" "node_keys sr ks" "ki \<in> set ks"
  shows "plain_seg (ki_bucket ki)" "plain_name (ki_key ki)"
    "\<exists>bs m. sr_obj sr (ki_bucket ki) (ki_key ki) = Some (bs, m) \<and> true_meta bs m \<and> reports m (ki_bucket ki) (ki_key ki) ki"
proof -
  let ?root = "sr_root sr" and ?fs = "sr_fs sr"
  have ok: "wf_fs ?fs" "good_root ?root" using assms(1) by (simp_all add: server_ok_def)
  from assms(3,4) obtain bks b where bks: "list_buckets ?root ?fs = (Inr bks, ?fs)" "b \<in> set bks"
    and ki: "ki \<in> set (bucket_keys ?root ?fs b)"
    by (auto simp: node_keys_def)
  have "fs_get ?fs (?root @ [''data'', b]) = Some Dir" using list_buckets_iff(2) [OF bks(1) ok(2)] bks(2) by simp
  then have b: "plain_seg b" by (rule bucket_seg [OF ok(1)])
  have tidy: "length (object_keys ?root b ?fs) \<le> 1000000"
    "k \<in> set (object_keys ?root b ?fs) \<Longrightarrow> plain_name k \<and> (\<exists>bs m. sr_obj sr b k = Some (bs, m) \<and> true_meta bs m)" for k
    using assms(2) b by (auto simp: tidy_node_def)
  have "bucket_contents ?root 1000000 ?fs b \<noteq> []" using ki by (auto simp: bucket_keys_def)
  then have dir: "fs_get ?fs (meta_dir ?root b) \<noteq> None"
    by (auto simp: bucket_contents_def list_objects_v2_def os_stat_def split: option.splits)
  have "fs_get ?fs (meta_dir ?root b) = Some Dir"
  proof (rule ccontr)
    assume nd: "fs_get ?fs (meta_dir ?root b) \<noteq> Some Dir"
    have "object_keys ?root b ?fs = []"
    proof (rule ccontr)
      assume "object_keys ?root b ?fs \<noteq> []"
      then obtain k where k: "k \<in> set (object_keys ?root b ?fs)" by (cases "object_keys ?root b ?fs") auto
      from tidy(2) [OF k] obtain bs m where "plain_name k" "sr_obj sr b k = Some (bs, m)" "\<not> is_ec m"
        by (auto simp: true_meta_def)
      with object_dirs(2) [OF ok(1), of ?root b k bs m] b ok(2) nd show False by (simp add: sr_obj_def good_dir_def)
    qed
    then have "bucket_contents ?root 1000000 ?fs b = []"
      by (simp add: bucket_contents_def list_objects_v2_def list_start_def split: prod.split sum.split)
    with ki show False by (simp add: bucket_keys_def)
  qed
  from bucket_keys_set(1) [OF this tidy(1) ki] obtain k m where
    k: "k \<in> set (object_keys ?root b ?fs)" "meta_at ?root ?fs b k = Some m" "reports m b k ki" by blast
  from tidy(2) [OF k(1)] obtain bs m' where o: "plain_name k" "sr_obj sr b k = Some (bs, m')" "true_meta bs m'" by blast
  then have "m' = m" using object_meta_at [of ?root ?fs b k bs m'] k(2) by (simp add: sr_obj_def)
  with o k(3) b show "plain_seg (ki_bucket ki)" "plain_name (ki_key ki)"
    "\<exists>bs m. sr_obj sr (ki_bucket ki) (ki_key ki) = Some (bs, m) \<and> true_meta bs m \<and> reports m (ki_bucket ki) (ki_key ki) ki"
    by (auto simp: reports_def)
qed

section \<open>The deletions\<close>

text \<open>Deleting an object that is there succeeds, and concerns that object only.\<close>

lemma delete_object_run:
  assumes "fs_file fs (data_path root b k) \<noteq> None" "fs_file fs (meta_path root b k) \<noteq> None"
    "data_path root b k \<noteq> meta_path root b k"
  shows "\<exists>fs'. delete_object root b k fs = (Inr (), fs')"
proof -
  have rm: "\<exists>u'. os_remove p u = (Inr (), u') \<and> fs_file u' = (fs_file u)(p := None)" if "fs_file u p \<noteq> None" for p u
  proof -
    from that obtain mt c where "fs_get u p = Some (File mt c)"
      by (auto simp: fs_file_def split: option.splits fnode.splits)
    then have "os_remove p u = (Inr (), AList.delete p u)" by (simp add: os_remove_def)
    with os_remove_ok(3) [OF this] show ?thesis by blast
  qed
  from rm [OF assms(1)] obtain u1 where u1: "os_remove (data_path root b k) fs = (Inr (), u1)"
    "fs_file u1 = (fs_file fs)(data_path root b k := None)" by blast
  have "fs_file u1 (meta_path root b k) \<noteq> None" using assms(2,3) u1(2) by simp
  from rm [OF this] obtain u2 where "os_remove (meta_path root b k) u1 = (Inr (), u2)" by blast
  with u1(1) show ?thesis by (simp add: delete_object_def Let_def tolerateE_def clean_dirs_def bindE_def)
qed

lemma delete_object_objects:
  assumes fs: "wf_fs fs" "good_object root b k" and run: "delete_object root b k fs = (Inr u, fs')"
  shows "object_at root fs' b k = None" "wf_fs fs'"
    "good_object root b' k' \<Longrightarrow> objects_apart b k b' k' \<Longrightarrow> object_at root fs' b' k' = object_at root fs b' k'"
proof -
  note f = delete_object_ok [OF fs(1) run]
  show "object_at root fs' b k = None"
    using f object_at_iff [of root fs' b k] by (metis (no_types, lifting) option.distinct(1) option.exhaust surj_pair)
  show "wf_fs fs'" using presE [OF wf_delete_object run fs(1)] .
  assume other: "good_object root b' k'" "objects_apart b k b' k'"
  have g: "good_dir root b" "plain_name k" "good_dir root b'" "plain_name k'"
    using fs(2) other(1) by (simp_all add: good_object_def)
  have ne: "(b', k') \<noteq> (b, k)" "\<not> (b' = b \<and> shard_clash k k')" using other(2) by (simp_all add: objects_apart_def)
  have "\<not> is_shard_of root b k (ec_shard_path root b' k' i)" for i
    using is_shard_of_path [OF g] ne by blast
  with area_paths_distinct [OF g(3,4,1,2,1)] area_paths_distinct(1) [OF g(1,2,3,4,1)] ne g
  show "object_at root fs' b' k' = object_at root fs b' k'"
    by (intro object_at_cong; subst f) (auto simp: data_path_inject meta_path_inject)
qed

lemma delete_keys_objects:
  assumes "wf_fs fs" "good_root root" "distinct (map (\<lambda>ki. (ki_bucket ki, ki_key ki)) ks)"
    and "\<And>ki. ki \<in> set ks \<Longrightarrow> plain_seg (ki_bucket ki) \<and> plain_name (ki_key ki) \<and>
      (\<exists>bs m. object_at root fs (ki_bucket ki) (ki_key ki) = Some (bs, m) \<and> \<not> is_ec m)"
    and "\<And>ki kj. ki \<in> set ks \<Longrightarrow> kj \<in> set ks \<Longrightarrow> (ki_bucket ki, ki_key ki) \<noteq> (ki_bucket kj, ki_key kj) \<Longrightarrow>
      objects_apart (ki_bucket ki) (ki_key ki) (ki_bucket kj) (ki_key kj)"
  shows "(\<forall>ki \<in> set ks. object_at root (snd (delete_keys ks root fs)) (ki_bucket ki) (ki_key ki) = None) \<and>
    (\<forall>b k. good_object root b k \<longrightarrow> (\<forall>ki \<in> set ks. objects_apart (ki_bucket ki) (ki_key ki) b k) \<longrightarrow>
       object_at root (snd (delete_keys ks root fs)) b k = object_at root fs b k)"
  using assms(1,3-)
proof (induction ks arbitrary: fs)
  case (Cons ki ks)
  let ?b = "ki_bucket ki" and ?k = "ki_key ki"
  have g: "good_object root (ki_bucket kj) (ki_key kj)" if "kj \<in> set (ki # ks)" for kj
    using Cons.prems(3) [OF that] assms(2) by (simp add: good_object_def good_dir_def)
  have gk: "good_dir root ?b" "plain_name ?k" using g [of ki] by (simp_all add: good_object_def)
  from Cons.prems(3) [of ki] have "fs_file fs (data_path root ?b ?k) \<noteq> None" "fs_file fs (meta_path root ?b ?k) \<noteq> None"
    by (auto simp: object_at_iff body_path_def)
  then obtain fs1 where run: "delete_object root ?b ?k fs = (Inr (), fs1)"
    using delete_object_run area_paths_distinct(1) [OF gk gk gk(1)] by blast
  note one = delete_object_objects [OF Cons.prems(1) g [of ki, simplified] run]
  have rest: "object_at root fs1 (ki_bucket kj) (ki_key kj) = object_at root fs (ki_bucket kj) (ki_key kj)"
    if "kj \<in> set ks" for kj
    by (rule one(3)) (use that g Cons.prems(2) Cons.prems(4) [of ki kj] in auto)
  have dk: "snd (delete_keys (ki # ks) root fs) = snd (delete_keys ks root fs1)"
    by (simp add: delete_keys_def bindE_def ignoreE_def run)
  have ih: "(\<forall>ki \<in> set ks. object_at root (snd (delete_keys ks root fs1)) (ki_bucket ki) (ki_key ki) = None) \<and>
      (\<forall>b k. good_object root b k \<longrightarrow> (\<forall>ki \<in> set ks. objects_apart (ki_bucket ki) (ki_key ki) b k) \<longrightarrow>
         object_at root (snd (delete_keys ks root fs1)) b k = object_at root fs1 b k)"
    by (rule Cons.IH) (use one(2) Cons.prems rest in auto)
  have "objects_apart (ki_bucket kj) (ki_key kj) ?b ?k" if "kj \<in> set ks" for kj
  proof -
    have "(ki_bucket kj, ki_key kj) \<noteq> (?b, ?k)" using Cons.prems(2) that by (auto simp: rev_image_eqI)
    with Cons.prems(4) [of kj ki] that show ?thesis by simp
  qed
  with ih one g show ?case unfolding dk by auto
qed (simp add: delete_keys_def)

section \<open>The calls\<close>

lemma call_rest:
  assumes "call addr rq w = (r, w')"
  shows "w_self w' = w_self w" "w_ids w' = w_ids w" "a \<noteq> addr \<Longrightarrow> peer w' a = peer w a"
  using call_reach(1) [OF assms, of "\<lambda>_ _. True"] by (simp_all add: focus_def)

lemma serve_token:
  "rs_status (fst (serve ev rq sr)) = 200 \<Longrightarrow> serve ev rq sr = mux ev rq sr"
  by (auto simp: serve_def reply_def split: if_splits)

lemma client_get_keys_ok:
  assumes "client_get_keys addr w = (Inr ks, w')" "world_ok w"
  obtains sr where "peer w addr = Some sr" "node_keys sr ks" "\<And>a. peer w' a = peer w a" "w_self w' = w_self w" "world_ok w'"
proof -
  let ?rq = "request w ''GET'' ''/internal/keys'' []"
  from assms(1) obtain rs w1 where c: "call addr ?rq w = (Inr rs, w1)" and
    rest: "expect_ok (short_error ''get keys'')
      (\<lambda>rs. case rs_payload rs of KeysJson ks n sz \<Rightarrow> retE ks | _ \<Rightarrow> bad_json) rs w1 = (Inr ks, w')"
    unfolding client_get_keys_def by (rule bindE_okE)
  from rest obtain n sz where ok: "rs_status rs = 200" "rs_payload rs = KeysJson ks n sz" "w1 = w'"
    by (auto simp: expect_ok_def bad_json_def split: if_splits payload.splits)
  let ?sv = "\<lambda>sr. serve (now_env w) (wire ?rq) sr"
  from c obtain sr where sr: "peer w addr = Some sr" "rs_status rs = rs_status (fst (?sv sr))"
    "peer w1 addr = Some (snd (?sv sr))"
    "rs_payload rs = rs_payload (fst (?sv sr)) \<or> (\<exists>n. rs_payload rs = cut_payload n (rs_payload (fst (?sv sr))))"
    by (rule call_ok)
  have pay: "rs_payload (fst (?sv sr)) = KeysJson ks n sz"
    using sr(4) ok(2) by (cases "rs_payload (fst (?sv sr))") auto
  have path: "rq_path (wire ?rq) = ''/internal/keys''" "rq_method (wire ?rq) = ''GET''"
    by (simp_all add: request_def base_request_def)
  have "?sv sr = mux (now_env w) (wire ?rq) sr" by (rule serve_token) (use sr(2) ok(1) in simp)
  also have "\<dots> = handle_keys (now_env w) (wire ?rq) sr" by (simp add: mux_def routes_def path)
  finally have hk: "?sv sr = (case on_storage list_buckets sr of
       (Inl e, sr') \<Rightarrow> (reply 500 (ErrText (err_text e)), sr')
     | (Inr bs, sr') \<Rightarrow>
         (let ks = concat (map (bucket_keys (sr_root sr') (sr_fs sr')) bs)
          in (reply 200 (KeysJson ks (int (length ks)) (sum_list (map ki_size ks))), sr')))"
    by (simp add: handle_keys_def only_def path)
  obtain r fs where lb: "list_buckets (sr_root sr) (sr_fs sr) = (r, fs)" by (cases "list_buckets (sr_root sr) (sr_fs sr)")
  with hk pay obtain bs where r: "r = Inr bs" "ks = concat (map (bucket_keys (sr_root sr) fs) bs)" "snd (?sv sr) = sr\<lparr>sr_fs := fs\<rparr>"
    by (cases r) (auto simp: on_storage_def reply_def Let_def)
  have fs: "fs = sr_fs sr"
    by (rule list_buckets_iff(1) [OF lb [unfolded r(1)]]) (use world_okD(3) [OF assms(2) sr(1)] in \<open>simp add: server_ok_def\<close>)
  have "peer w' a = peer w a" for a
    using sr(1,3) r(3) call_rest(3) [OF c] by (cases "a = addr") (simp_all add: fs ok(3))
  moreover have "w_self w' = w_self w" "w_ids w' = w_ids w" using call_rest(1,2) [OF c] by (simp_all add: ok(3))
  moreover have "node_keys sr ks" using lb r fs by (auto simp: node_keys_def)
  ultimately show thesis using that [OF sr(1)] assms(2) by (simp add: world_ok_def)
qed

lemma client_sync_delete_ok:
  assumes "client_sync_delete addr ks w = (Inr (), w')"
  obtains sr where "peer w addr = Some sr" "peer w' addr = Some (sr\<lparr>sr_fs := snd (delete_keys ks (sr_root sr) (sr_fs sr))\<rparr>)"
    "w_self w' = w_self w"
proof -
  let ?rq = "(request w ''POST'' ''/internal/sync-delete'' [])\<lparr>rq_body := KeysBody ks\<rparr>"
  from assms obtain rs w1 where c: "call addr ?rq w = (Inr rs, w1)" and
    rest: "expect_ok (status_error ''sync-delete'' addr) (\<lambda>_. retE ()) rs w1 = (Inr (), w')"
    unfolding client_sync_delete_def by (rule bindE_okE)
  from rest have ok: "rs_status rs = 200" "w1 = w'" by (auto simp: expect_ok_def split: if_splits)
  let ?sv = "\<lambda>sr. serve (now_env w) (wire ?rq) sr"
  from c obtain sr where sr: "peer w addr = Some sr" "rs_status rs = rs_status (fst (?sv sr))"
    "peer w1 addr = Some (snd (?sv sr))" by (rule call_ok)
  have path: "rq_path (wire ?rq) = ''/internal/sync-delete''" "rq_method (wire ?rq) = ''POST''" "rq_body (wire ?rq) = KeysBody ks"
    by (simp_all add: request_def base_request_def)
  have "?sv sr = mux (now_env w) (wire ?rq) sr" by (rule serve_token) (use sr(2) ok(1) in simp)
  also have "\<dots> = handle_sync_delete (now_env w) (wire ?rq) sr" by (simp add: mux_def routes_def path)
  also have "\<dots> = storage_reply 500 (\<lambda>_. StatusJson ''DELETED'') (delete_keys ks) sr"
    by (simp add: handle_sync_delete_def only_def path)
  finally have "snd (?sv sr) = sr\<lparr>sr_fs := snd (delete_keys ks (sr_root sr) (sr_fs sr))\<rparr>"
    by (auto simp: storage_reply_def on_storage_def split: prod.splits sum.splits)
  with sr(1,3) call_rest(1) [OF c] ok(2) that show thesis by simp
qed

end
