(* ===== verification/SyncProps.thy ===== *)
theory SyncProps
  imports SyncFacts ServiceProps "HOL-Library.Multiset"
begin

text \<open>
  A synchronisation that reports success leaves the follower with the leader's objects: every object
  the two nodes' reports tell apart is pushed, every one only the follower has is deleted, and the
  rest agrees in length and checksum already.
\<close>

section \<open>One push\<close>

text \<open>The leader's storage is only read, and its manager left alone.\<close>

definition same_files :: "world \<Rightarrow> world \<Rightarrow> bool" where
  "same_files w w' \<longleftrightarrow> sr_root (w_self w') = sr_root (w_self w) \<and> sr_fs (w_self w') = sr_fs (w_self w) \<and>
     sr_mgr (w_self w') = sr_mgr (w_self w)"

lemma same_files_obj: "same_files w w' \<Longrightarrow> sr_obj (w_self w') b k = sr_obj (w_self w) b k"
  by (simp add: same_files_def sr_obj_def)

lemma same_files_trans [trans]: "same_files w1 w2 \<Longrightarrow> same_files w2 w3 \<Longrightarrow> same_files w1 w3"
  by (simp add: same_files_def)

lemma push_source_ok:
  assumes "push_source ecr ki w = (Inr (st, m), w')" "sr_obj (w_self w) (ki_bucket ki) (ki_key ki) = Some (bs, m0)" "\<not> is_ec m0"
  shows "st = bytes_stream bs" "m = m0" "w' = tick (tick w)"
proof -
  let ?b = "ki_bucket ki" and ?k = "ki_key ki" and ?root = "sr_root (w_self w)" and ?fs = "sr_fs (w_self w)"
  from assms(2) obtain mt mt' where f: "fs_file ?fs (meta_path ?root ?b ?k) = Some (mt, CMeta m0)"
    "fs_file ?fs (body_path ?root ?b ?k m0) = Some (mt', CData bs)"
    by (auto simp: sr_obj_def object_at_iff)
  have gm: "get_object_meta ?root ?b ?k ?fs = (Inr m0, ?fs)" using f(1) by (simp add: get_object_meta_ok)
  have go: "get_object ?root ?b ?k ?fs = (Inr (bytes_stream bs, m0), ?fs)" using f by (rule get_object_run)
  have same: "w\<lparr>w_self := w_self w\<rparr> = w" "(w_self w)\<lparr>sr_fs := ?fs\<rparr> = w_self w"
    "(tick w)\<lparr>w_self := w_self w\<rparr> = tick w" by (simp_all add: tick_def)
  have "push_source ecr ki w = (Inr (bytes_stream bs, m0), tick (tick w))"
    using assms(3) by (simp add: push_source_def bindE_def wrapE_def local_def on_storage_def gm go same split: option.split)
  with assms(1) show "st = bytes_stream bs" "m = m0" "w' = tick (tick w)" by simp_all
qed

lemma trim_chars_last:
  assumes "trim_chars cs s = s" "s \<noteq> []"
  shows "last s \<notin> set cs"
proof -
  let ?P = "\<lambda>c. c \<in> set cs"
  let ?v = "dropWhile ?P (rev (dropWhile ?P s))"
  have "rev ?v = s" using assms(1) by (simp only: trim_chars_def)
  then have v: "?v = rev s" by (simp only: rev_swap [symmetric] rev_rev_ident)
  with assms(2) have "?v \<noteq> []" by simp
  from hd_dropWhile [OF this] show ?thesis by (simp only: v hd_rev) simp
qed

lemma trim_chars_same: "s \<noteq> [] \<Longrightarrow> hd s \<notin> set cs \<Longrightarrow> last s \<notin> set cs \<Longrightarrow> trim_chars cs s = s"
proof -
  assume ne: "s \<noteq> []" and hd: "hd s \<notin> set cs" and last: "last s \<notin> set cs"
  have "dropWhile P xs = xs" if "\<not> P (hd xs)" "xs \<noteq> []" for P and xs :: string
    using that by (cases xs) simp_all
  from this [of "\<lambda>c. c \<in> set cs" s] this [of "\<lambda>c. c \<in> set cs" "rev s"] ne hd last
  show ?thesis by (simp add: trim_chars_def hd_rev)
qed

lemma good_uuid_sync:
  assumes "good_uuid u"
  shows "good_uuid (''sync-'' @ u)"
proof -
  have ne: "u \<noteq> []" using assms by (auto simp: good_uuid_def)
  have "trim_chars [CHR '' '', char_of (9 :: nat), char_of (10 :: nat), char_of (13 :: nat)] u = u"
    using assms by (simp add: good_uuid_def header_trim_def)
  from trim_chars_last [OF this ne] have "header_trim (''sync-'' @ u) = ''sync-'' @ u"
    unfolding header_trim_def by (intro trim_chars_same) (use ne in \<open>simp_all, code_simp\<close>)
  with assms ne show ?thesis by (auto simp: good_uuid_def plain_seg_def plain_comp_def)
qed

lemma push_tx_ok:
  assumes "push_tx addr tx (bytes_stream bs) m w = (Inr (), w')" "world_ok w" "good_uuid (tx_id tx)" "tx_operation tx = OpPut"
    and m: "true_meta bs m" and names: "plain_seg (tx_bucket tx)" "plain_name (tx_key tx)"
  obtains sr sr' where "peer w addr = Some sr" "peer w' addr = Some sr'"
    "sr_obj sr' (tx_bucket tx) (tx_key tx) = Some (bs, staged_meta m bs)"
    "evolves (tx_id tx) {(tx_bucket tx, tx_key tx)} sr sr'" "w_self w' = w_self w" "world_ok w'"
proof -
  let ?t = "tx_id tx" and ?b = "tx_bucket tx" and ?k = "tx_key tx"
  obtain w1 where p: "client_prepare addr tx m (Some (bytes_stream bs)) (int (length bs)) w = (Inr (), w1)"
    and c: "client_commit addr ?t ?b ?k w1 = (Inr (), w')"
    using assms(1) m unfolding push_tx_def true_meta_def
    by (auto elim!: bindE_okE dest!: wrapE_okD split: prod.splits sum.splits)
  note seg = good_uuid_seg [OF assms(3)]
  have r1: "reaches ?t {} addr w w1" using client_prepare_reaches [OF assms(2,3), of addr m "Some (bytes_stream bs)" "int (length bs)"] p by simp
  note ok1 = reaches_ok [OF r1 seg assms(2)]
  have r2: "reaches ?t {(?b, ?k)} addr w1 w'" using client_commit_reaches [of ?t ?b ?k addr w1] c by simp
  note ok2 = reaches_ok [OF r2 seg ok1]
  obtain sr fs m1 tx' where s: "peer w addr = Some sr" "peer w1 addr = Some (sr\<lparr>sr_fs := fs\<rparr>)" and
    st: "stage_object (sr_root sr) (now_env w) ?t
       (case Some (bytes_stream bs) of None \<Rightarrow> bytes_stream [] | Some st \<Rightarrow> fst (wire_stream (int (length bs)) st))
       (case Some (bytes_stream bs) of None \<Rightarrow> 0 | Some _ \<Rightarrow> wire_length (int (length bs))) m tx' (sr_fs sr) = (Inr m1, fs)"
    and op: "tx_operation tx' = header_trim (tx_operation tx)"
    by (rule client_prepare_ok [OF p assms(2,3)])
  obtain sr1 fs' m2 where c1: "peer w1 addr = Some sr1" "peer w' addr = Some (sr1\<lparr>sr_fs := fs'\<rparr>)"
    "commit_transaction (sr_root sr1) ?t ?b ?k (sr_fs sr1) = (Inr m2, fs')"
    by (rule client_commit_ok [OF c])
  have sr1: "sr1 = sr\<lparr>sr_fs := fs\<rparr>" using c1(1) s(2) by simp
  have ok: "server_ok sr" by (rule world_okD(3) [OF assms(2) s(1)])
  have good: "good_dir (sr_root sr) ?t" "good_object (sr_root sr) ?b ?k" "wf_fs (sr_fs sr)"
    using ok seg names by (simp_all add: server_ok_def good_dir_def good_object_def)
  have st': "stage_object (sr_root sr) (now_env w) ?t (bytes_stream bs) (wire_length (int (length bs))) m tx' (sr_fs sr) = (Inr m1, fs)"
    using st by (simp add: wire_stream_exact)
  have opp: "tx_operation tx' = OpPut" using op assms(4) by simp
  have "\<not> is_ec m" using m by (simp add: true_meta_def)
  note pc = fs.prepare_commit_put [OF good(1) world_okD(1) [OF assms(2)] good(2,3) opp st' c1(3) [unfolded sr1, simplified] this]
  have "evolves ?t {(?b, ?k)} sr (sr1\<lparr>sr_fs := fs'\<rparr>)"
    using r1 r2 s c1 by (auto simp: reaches_def intro: evolves_trans [OF evolves_mono])
  moreover have "sr_obj (sr1\<lparr>sr_fs := fs'\<rparr>) ?b ?k = Some (bs, staged_meta m bs)"
    using pc by (simp add: sr_obj_def sr1)
  moreover have "w_self w' = w_self w" using r1 r2 by (simp add: reaches_def focus_def)
  ultimately show thesis using that [OF s(1) c1(2)] ok2 by simp
qed

lemma push_object_ok:
  assumes "push_object ecr addr ki w = (Inr (), w')" "world_ok w"
    and obj: "sr_obj (w_self w) (ki_bucket ki) (ki_key ki) = Some (bs, m)" "true_meta bs m"
    and names: "plain_seg (ki_bucket ki)" "plain_name (ki_key ki)"
  obtains sr sr' where "peer w addr = Some sr" "peer w' addr = Some sr'"
    "sr_obj sr' (ki_bucket ki) (ki_key ki) = Some (bs, staged_meta m bs)"
    "\<And>b k. plain_seg b \<Longrightarrow> plain_name k \<Longrightarrow> objects_apart (ki_bucket ki) (ki_key ki) b k \<Longrightarrow> sr_obj sr' b k = sr_obj sr b k"
    "same_files w w'" "world_ok w'"
proof -
  from assms(1) obtain st m1 w1 where s: "push_source ecr ki w = (Inr (st, m1), w1)"
    and p: "push_tx addr (sync_tx ki w1) st m1 (tick w1) = (Inr (), w')"
    unfolding push_object_def by (auto elim!: bindE_okE)
  have nec: "\<not> is_ec m" using obj(2) by (simp add: true_meta_def)
  note src = push_source_ok [OF s obj(1) nec]
  let ?tx = "sync_tx ki w1"
  have ids: "good_uuid (tx_id ?tx)"
    using good_uuid_sync [OF world_okD(5) [OF assms(2)]] by (simp add: sync_tx_def src(3))
  have tx: "tx_operation ?tx = OpPut" "tx_bucket ?tx = ki_bucket ki" "tx_key ?tx = ki_key ki"
    by (simp_all add: sync_tx_def)
  have ok: "world_ok (tick w1)" using assms(2) by (simp add: src(3))
  obtain sr sr' where o: "peer (tick w1) addr = Some sr" "peer w' addr = Some sr'"
    "sr_obj sr' (tx_bucket ?tx) (tx_key ?tx) = Some (bs, staged_meta m bs)"
    "evolves (tx_id ?tx) {(tx_bucket ?tx, tx_key ?tx)} sr sr'" "w_self w' = w_self (tick w1)" "world_ok w'"
    by (rule push_tx_ok [OF p [unfolded src(1,2)] ok ids tx(1) obj(2)]) (use names tx in simp_all)
  have srok: "server_ok sr" by (rule world_okD(3) [OF ok o(1)])
  have frame: "sr_obj sr' b k = sr_obj sr b k"
    if "plain_seg b" "plain_name k" "objects_apart (ki_bucket ki) (ki_key ki) b k" for b k
    by (rule evolves_frame [OF o(4) good_uuid_seg [OF ids] srok that(1,2)]) (use that names tx in simp)
  show thesis
    by (rule that [of sr sr']) (use o frame tx in \<open>simp_all add: src(3) same_files_def\<close>)
qed

section \<open>All pushes\<close>

definition entry_name :: "string \<times> key_info \<Rightarrow> string \<times> string" where
  "entry_name e = (ki_bucket (snd e), ki_key (snd e))"

definition apart_from :: "string \<times> string \<Rightarrow> string \<times> string \<Rightarrow> bool" where
  "apart_from x y \<longleftrightarrow> objects_apart (fst x) (snd x) (fst y) (snd y)"

definition plain_object :: "string \<times> string \<Rightarrow> bool" where
  "plain_object x \<longleftrightarrow> plain_seg (fst x) \<and> plain_name (snd x)"

definition obj_of :: "server \<Rightarrow> string \<times> string \<Rightarrow> (byte list \<times> object_meta) option" where
  "obj_of sr x = sr_obj sr (fst x) (snd x)"

lemma push_missing_ok:
  assumes "push_missing ecr addr fm es w = (Inr (), w')" "world_ok w" "peer w addr = Some sr"
    and "\<And>e. e \<in> set es \<Longrightarrow> plain_object (entry_name e) \<and>
      (\<exists>bs m. obj_of (w_self w) (entry_name e) = Some (bs, m) \<and> true_meta bs m)"
    and "\<And>e e'. e \<in> set es \<Longrightarrow> e' \<in> set es \<Longrightarrow> entry_name e \<noteq> entry_name e' \<Longrightarrow> apart_from (entry_name e) (entry_name e')"
    and "distinct (map entry_name es)"
  shows "\<exists>sr'. peer w' addr = Some sr' \<and> same_files w w' \<and> world_ok w' \<and>
    (\<forall>e \<in> set es. needs_push fm e \<longrightarrow> (\<exists>bs m m'. obj_of (w_self w) (entry_name e) = Some (bs, m) \<and>
       obj_of sr' (entry_name e) = Some (bs, m'))) \<and>
    (\<forall>x. plain_object x \<longrightarrow> (\<forall>e \<in> set es. needs_push fm e \<longrightarrow> apart_from (entry_name e) x) \<longrightarrow> obj_of sr' x = obj_of sr x)"
  using assms
proof (induction es arbitrary: w sr)
  case Nil
  then show ?case by (simp add: push_missing_def same_files_def)
next
  case (Cons e es)
  from Cons.prems(1) obtain w1 where
    step: "(if needs_push fm e then wrapE (''failed to push object '' @ fst e @ '' to follower'') (push_object ecr addr (snd e))
       else retE ()) w = (Inr (), w1)" and rest: "push_missing ecr addr fm es w1 = (Inr (), w')"
    unfolding push_missing_def by (auto elim: bindE_okE)
  obtain bs m where obj: "obj_of (w_self w) (entry_name e) = Some (bs, m)" "true_meta bs m" and pl: "plain_object (entry_name e)"
    using Cons.prems(4) [of e] by auto
  have "\<exists>sr1. peer w1 addr = Some sr1 \<and> same_files w w1 \<and> world_ok w1 \<and>
      (needs_push fm e \<longrightarrow> (\<exists>m'. obj_of sr1 (entry_name e) = Some (bs, m'))) \<and>
      (\<forall>x. plain_object x \<longrightarrow> (needs_push fm e \<longrightarrow> apart_from (entry_name e) x) \<longrightarrow> obj_of sr1 x = obj_of sr x)"
  proof (cases "needs_push fm e")
    case True
    with step have p: "push_object ecr addr (snd e) w = (Inr (), w1)" by (auto dest: wrapE_okD)
    have oe: "sr_obj (w_self w) (ki_bucket (snd e)) (ki_key (snd e)) = Some (bs, m)" "plain_seg (ki_bucket (snd e))"
      "plain_name (ki_key (snd e))"
      using obj pl by (simp_all add: obj_of_def entry_name_def plain_object_def)
    obtain sr0 sr1 where o: "peer w addr = Some sr0" "peer w1 addr = Some sr1"
      "sr_obj sr1 (ki_bucket (snd e)) (ki_key (snd e)) = Some (bs, staged_meta m bs)"
      "\<And>b k. plain_seg b \<Longrightarrow> plain_name k \<Longrightarrow> objects_apart (ki_bucket (snd e)) (ki_key (snd e)) b k \<Longrightarrow>
        sr_obj sr1 b k = sr_obj sr0 b k"
      "same_files w w1" "world_ok w1"
      by (rule push_object_ok [OF p Cons.prems(2) oe(1) obj(2) oe(2,3)]) (rule that)
    with Cons.prems(3) True show ?thesis
      by (auto simp: obj_of_def entry_name_def plain_object_def apart_from_def)
  next
    case False
    with step Cons.prems(2,3) show ?thesis by (simp add: same_files_def)
  qed
  then obtain sr1 where one: "peer w1 addr = Some sr1" "same_files w w1" "world_ok w1"
    "needs_push fm e \<Longrightarrow> \<exists>m'. obj_of sr1 (entry_name e) = Some (bs, m')"
    "\<And>x. plain_object x \<Longrightarrow> (needs_push fm e \<Longrightarrow> apart_from (entry_name e) x) \<Longrightarrow> obj_of sr1 x = obj_of sr x"
    by blast
  have leader: "obj_of (w_self w1) x = obj_of (w_self w) x" for x
    using same_files_obj [OF one(2)] by (simp add: obj_of_def)
  have "\<exists>sr'. peer w' addr = Some sr' \<and> same_files w1 w' \<and> world_ok w' \<and>
    (\<forall>e \<in> set es. needs_push fm e \<longrightarrow> (\<exists>bs m m'. obj_of (w_self w1) (entry_name e) = Some (bs, m) \<and>
       obj_of sr' (entry_name e) = Some (bs, m'))) \<and>
    (\<forall>x. plain_object x \<longrightarrow> (\<forall>e \<in> set es. needs_push fm e \<longrightarrow> apart_from (entry_name e) x) \<longrightarrow> obj_of sr' x = obj_of sr1 x)"
    by (rule Cons.IH [OF rest one(3,1)]) (use Cons.prems(4-6) leader in auto)
  note this [unfolded leader]
  then obtain sr' where ih: "peer w' addr = Some sr'" "same_files w1 w'" "world_ok w'"
    "\<And>e. e \<in> set es \<Longrightarrow> needs_push fm e \<Longrightarrow> \<exists>bs m m'. obj_of (w_self w) (entry_name e) = Some (bs, m) \<and>
       obj_of sr' (entry_name e) = Some (bs, m')"
    "\<And>x. plain_object x \<Longrightarrow> (\<And>e. e \<in> set es \<Longrightarrow> needs_push fm e \<Longrightarrow> apart_from (entry_name e) x) \<Longrightarrow> obj_of sr' x = obj_of sr1 x"
    by blast
  have "apart_from (entry_name e') (entry_name e)" if "e' \<in> set es" for e'
  proof -
    have "entry_name e' \<noteq> entry_name e" using Cons.prems(6) that by (auto simp: rev_image_eqI)
    with Cons.prems(5) [of e' e] that show ?thesis by simp
  qed
  then have keep: "obj_of sr' (entry_name e) = obj_of sr1 (entry_name e)" using ih(5) [OF pl] by simp
  have pushed: "\<exists>bs m m'. obj_of (w_self w) (entry_name e') = Some (bs, m) \<and> obj_of sr' (entry_name e') = Some (bs, m')"
    if "e' \<in> set (e # es)" "needs_push fm e'" for e'
  proof (cases "e' = e")
    case True
    with that(2) one(4) keep obj(1) show ?thesis by auto
  next
    case False
    with that ih(4) [of e'] show ?thesis by simp
  qed
  have frame: "obj_of sr' x = obj_of sr x"
    if "plain_object x" "\<And>e'. e' \<in> set (e # es) \<Longrightarrow> needs_push fm e' \<Longrightarrow> apart_from (entry_name e') x" for x
    using that ih(5) [of x] one(5) [of x] by simp
  from ih(1,3) same_files_trans [OF one(2) ih(2)] pushed frame show ?case by blast
qed

section \<open>The maps of the coordinator\<close>

lemma keys_map_SomeD: "map_of (keys_map ks) p = Some k \<Longrightarrow> k \<in> set ks \<and> key_path k = p"
proof -
  have "map_of (foldl (\<lambda>m k. AList.update (key_path k) k m) m0 ks) p = Some k \<Longrightarrow>
      k \<in> set ks \<and> key_path k = p \<or> map_of m0 p = Some k" for m0
    by (induction ks arbitrary: m0) (force simp: update_conv' split: if_splits)+
  from this [of "[]"] show "map_of (keys_map ks) p = Some k \<Longrightarrow> k \<in> set ks \<and> key_path k = p"
    by (simp add: keys_map_def)
qed

lemma keys_map_None: "map_of (keys_map ks) p = None \<longleftrightarrow> (\<forall>k \<in> set ks. key_path k \<noteq> p)"
proof -
  have "map_of (foldl (\<lambda>m k. AList.update (key_path k) k m) m0 ks) p = None \<longleftrightarrow>
      (\<forall>k \<in> set ks. key_path k \<noteq> p) \<and> map_of m0 p = None" for m0
    by (induction ks arbitrary: m0) (auto simp: update_conv')
  then show ?thesis by (simp add: keys_map_def)
qed

lemma keys_map_distinct: "distinct (map fst (keys_map ks))"
proof -
  have "distinct (map fst (foldl (\<lambda>m k. AList.update (key_path k) k m) m0 ks))" if "distinct (map fst m0)" for m0
    using that by (induction ks arbitrary: m0) (simp_all add: distinct_update)
  then show ?thesis by (simp add: keys_map_def)
qed

lemma key_path_inject:
  "plain_seg (ki_bucket k) \<Longrightarrow> plain_seg (ki_bucket k') \<Longrightarrow>
   key_path k = key_path k' \<longleftrightarrow> ki_bucket k = ki_bucket k' \<and> ki_key k = ki_key k'"
proof -
  assume "plain_seg (ki_bucket k)" "plain_seg (ki_bucket k')"
  then have ns: "CHR ''/'' \<notin> set (ki_bucket k)" "CHR ''/'' \<notin> set (ki_bucket k')" by (auto simp: plain_seg_def)
  have "takeWhile (\<lambda>c. c \<noteq> CHR ''/'') (b @ CHR ''/'' # s) = b" if "CHR ''/'' \<notin> set b" for b s
    using that by (induction b) auto
  from this [OF ns(1), of "ki_key k"] this [OF ns(2), of "ki_key k'"] show ?thesis
    unfolding key_path_def by (metis append_Cons append_Nil list.inject same_append_eq)
qed

section \<open>The whole synchronisation\<close>

text \<open>Length and checksum of an object's bytes: what the comparison of two nodes sees.\<close>

definition digest_of :: "server \<Rightarrow> string \<times> string \<Rightarrow> (nat \<times> u32) option" where
  "digest_of sr x = map_option (\<lambda>(bs, m). (length bs, crc32 bs)) (obj_of sr x)"

definition object_names :: "server \<Rightarrow> (string \<times> string) set" where
  "object_names sr = {x. plain_object x \<and> obj_of sr x \<noteq> None}"

text \<open>Names that no path mixes up.\<close>

definition separate :: "(string \<times> string) set \<Rightarrow> bool" where
  "separate N \<longleftrightarrow> (\<forall>x \<in> N. plain_object x \<and> (\<forall>y \<in> N. x \<noteq> y \<longrightarrow> apart_from x y))"

lemma separateD:
  "separate N \<Longrightarrow> x \<in> N \<Longrightarrow> plain_object x"
  "separate N \<Longrightarrow> x \<in> N \<Longrightarrow> y \<in> N \<Longrightarrow> x \<noteq> y \<Longrightarrow> apart_from x y"
  by (auto simp: separate_def)

text \<open>The entries of the map of a tidy node's keys.\<close>

lemma map_entries:
  assumes ok: "server_ok sr" "tidy_node sr" "node_keys sr ks" and e: "e \<in> set (keys_map ks)"
  shows "map_of (keys_map ks) (fst e) = Some (snd e)" "snd e \<in> set ks" "fst e = key_path (snd e)"
    "entry_name e \<in> object_names sr"
    "\<exists>bs m. obj_of sr (entry_name e) = Some (bs, m) \<and> true_meta bs m \<and>
       ki_crc32 (snd e) = crc32 bs \<and> ki_size (snd e) = int (length bs)"
proof -
  show m: "map_of (keys_map ks) (fst e) = Some (snd e)"
    using e keys_map_distinct by (simp add: map_of_eq_Some_iff)
  from keys_map_SomeD [OF m] show k: "snd e \<in> set ks" "fst e = key_path (snd e)" by simp_all
  note s = node_keys_sound [OF ok k(1)]
  from s show "\<exists>bs m. obj_of sr (entry_name e) = Some (bs, m) \<and> true_meta bs m \<and>
      ki_crc32 (snd e) = crc32 bs \<and> ki_size (snd e) = int (length bs)"
    by (auto simp: obj_of_def entry_name_def reports_def true_meta_def)
  with s(1,2) show "entry_name e \<in> object_names sr"
    by (auto simp: object_names_def plain_object_def entry_name_def)
qed

lemma map_entries_distinct:
  assumes "server_ok sr" "tidy_node sr" "node_keys sr ks" "mset es = mset (keys_map ks)"
  shows "distinct (map entry_name es)" "set es = set (keys_map ks)"
proof -
  show set: "set es = set (keys_map ks)" using assms(4) by (rule mset_eq_setD)
  have "inj_on entry_name (set (keys_map ks))"
  proof (rule inj_onI)
    fix e e' assume e: "e \<in> set (keys_map ks)" "e' \<in> set (keys_map ks)" and eq: "entry_name e = entry_name e'"
    from eq have "key_path (snd e) = key_path (snd e')" by (simp add: entry_name_def key_path_def)
    with map_entries(1,3) [OF assms(1-3) e(1)] map_entries(1,3) [OF assms(1-3) e(2)]
    show "e = e'" by (simp add: prod_eq_iff)
  qed
  moreover have "distinct es"
    using assms(4) keys_map_distinct [of ks] mset_eq_imp_distinct_iff [of es "keys_map ks"] by (simp add: distinct_map)
  ultimately show "distinct (map entry_name es)" by (simp add: distinct_map set)
qed

text \<open>An object of a tidy node has its entry.\<close>

lemma entry_of:
  assumes "server_ok sr" "tidy_node sr" "node_keys sr ks" "plain_object x" "obj_of sr x = Some (bs, m)" "\<not> is_ec m"
  obtains e where "e \<in> set (keys_map ks)" "entry_name e = x"
proof -
  from node_keys_complete [OF assms(1-3), of "fst x" "snd x" bs m] assms(4-6)
  obtain ki where ki: "ki \<in> set ks" "reports m (fst x) (snd x) ki"
    unfolding plain_object_def obj_of_def by blast
  obtain k where k: "map_of (keys_map ks) (key_path ki) = Some k"
    using keys_map_None [of ks "key_path ki"] ki(1) by (cases "map_of (keys_map ks) (key_path ki)") auto
  then have e: "(key_path ki, k) \<in> set (keys_map ks)" by (rule map_of_SomeD)
  from keys_map_SomeD [OF k] have k': "k \<in> set ks" "key_path k = key_path ki" by simp_all
  from node_keys_sound(1) [OF assms(1-3) k'(1)] node_keys_sound(1) [OF assms(1-3) ki(1)] k'(2) key_path_inject
  have "ki_bucket k = ki_bucket ki \<and> ki_key k = ki_key ki" by blast
  with ki(2) have "entry_name (key_path ki, k) = x" by (simp add: entry_name_def reports_def prod_eq_iff)
  with e that show thesis by blast
qed

lemma tidy_object:
  assumes "server_ok sr" "tidy_node sr" "plain_object x" "obj_of sr x = Some (bs, m)" "\<not> is_ec m"
  shows "true_meta bs m"
proof -
  have g: "good_dir (sr_root sr) (fst x)" "wf_fs (sr_fs sr)" "plain_seg (fst x)"
    using assms(1,3) by (simp_all add: plain_object_def server_ok_def good_dir_def)
  have "snd x \<in> set (object_keys (sr_root sr) (fst x) (sr_fs sr))"
    using object_dirs(3) [OF g(2,1)] assms(3-5) by (auto simp: plain_object_def obj_of_def sr_obj_def)
  with assms(2) g(3) obtain bs' m' where "sr_obj sr (fst x) (snd x) = Some (bs', m')" "true_meta bs' m'"
    unfolding tidy_node_def by blast
  with assms(4) show ?thesis by (simp add: obj_of_def)
qed

lemma sync_steps:
  assumes "sync_follower order ecr addr w = (Inr (), w')" "world_ok w"
  obtains sr fks lks w2 w3 where "peer w addr = Some sr" "node_keys sr fks" "node_keys (w_self w) lks"
    "peer w2 addr = Some sr" "same_files w w2" "world_ok w2"
    "push_missing ecr addr (keys_map fks) (order (keys_map lks)) w2 = (Inr (), w3)"
    "delete_extraneous addr (extraneous (keys_map lks) (order (keys_map fks))) w3 = (Inr (), w')"
proof -
  from assms(1) obtain fks w1 lks w2 w3 where c: "client_get_keys addr w = (Inr fks, w1)"
    and l: "local (\<lambda>root ev. local_keys root) w1 = (Inr lks, w2)"
    and p: "push_missing ecr addr (keys_map fks) (order (keys_map lks)) w2 = (Inr (), w3)"
    and d: "delete_extraneous addr (extraneous (keys_map lks) (order (keys_map fks))) w3 = (Inr (), w')"
    unfolding sync_follower_def Let_def by (elim bindE_okE) (auto dest!: wrapE_okD)
  obtain sr where f: "peer w addr = Some sr" "node_keys sr fks" "\<And>a. peer w1 a = peer w a" "w_self w1 = w_self w" "world_ok w1"
    by (rule client_get_keys_ok [OF c assms(2)]) (rule that)
  let ?root = "sr_root (w_self w)" and ?fs = "sr_fs (w_self w)"
  from l obtain fs where lk: "local_keys ?root ?fs = (Inr lks, fs)" and w2: "w2 = tick (w1\<lparr>w_self := (w_self w1)\<lparr>sr_fs := fs\<rparr>\<rparr>)"
    by (auto simp: local_run f(4))
  from lk obtain bs where lb: "list_buckets ?root ?fs = (Inr bs, fs)"
    "lks = concat (map (bucket_keys ?root fs) bs)"
    unfolding local_keys_def by (auto elim!: bindE_okE)
  have "good_root ?root" using world_okD(2) [OF assms(2)] by (simp add: server_ok_def)
  then have fs: "fs = ?fs" by (rule list_buckets_iff(1) [OF lb(1)])
  have "node_keys (w_self w) lks" using lb by (auto simp: node_keys_def fs)
  moreover have "w2 = tick w1"
  proof -
    have "w2 = tick (w1\<lparr>w_self := w_self w\<rparr>)" using w2 f(4) by (simp add: fs)
    also have "w1\<lparr>w_self := w_self w\<rparr> = w1" using f(4) by (cases w1) simp
    finally show ?thesis .
  qed
  ultimately show thesis using that [OF f(1,2) _ _ _ _ p d] f by (simp add: same_files_def)
qed

lemma extraneous_set: "ki \<in> set (extraneous lm fm) \<longleftrightarrow> (\<exists>p. (p, ki) \<in> set fm \<and> map_of lm p = None)"
  by (force simp: extraneous_def)

lemma extraneous_distinct: "distinct (map entry_name fm) \<Longrightarrow> distinct (map (\<lambda>ki. (ki_bucket ki, ki_key ki)) (extraneous lm fm))"
proof -
  have "map (\<lambda>ki. (ki_bucket ki, ki_key ki)) (extraneous lm fm) = map entry_name (filter (\<lambda>e. map_of lm (fst e) = None) fm)"
    by (simp add: extraneous_def entry_name_def comp_def)
  then show "distinct (map entry_name fm) \<Longrightarrow> ?thesis" by (simp add: distinct_map_filter)
qed

text \<open>What the deletions leave.\<close>

lemma delete_extraneous_ok:
  assumes "delete_extraneous addr ks w = (Inr (), w')" "peer w addr = Some sr" "server_ok sr"
    and "distinct (map (\<lambda>ki. (ki_bucket ki, ki_key ki)) ks)"
    and "\<And>ki. ki \<in> set ks \<Longrightarrow> plain_object (ki_bucket ki, ki_key ki) \<and>
      (\<exists>bs m. obj_of sr (ki_bucket ki, ki_key ki) = Some (bs, m) \<and> \<not> is_ec m)"
    and "\<And>ki kj. ki \<in> set ks \<Longrightarrow> kj \<in> set ks \<Longrightarrow> (ki_bucket ki, ki_key ki) \<noteq> (ki_bucket kj, ki_key kj) \<Longrightarrow>
      apart_from (ki_bucket ki, ki_key ki) (ki_bucket kj, ki_key kj)"
  shows "\<exists>sr'. peer w' addr = Some sr' \<and> w_self w' = w_self w \<and>
    (\<forall>ki \<in> set ks. obj_of sr' (ki_bucket ki, ki_key ki) = None) \<and>
    (\<forall>x. plain_object x \<longrightarrow> (\<forall>ki \<in> set ks. apart_from (ki_bucket ki, ki_key ki) x) \<longrightarrow> obj_of sr' x = obj_of sr x)"
proof (cases "ks = []")
  case True
  with assms(1,2) show ?thesis by (simp add: delete_extraneous_def)
next
  case False
  with assms(1) have "client_sync_delete addr ks w = (Inr (), w')"
    by (auto simp: delete_extraneous_def dest: wrapE_okD)
  then obtain sr0 where c: "peer w addr = Some sr0"
    "peer w' addr = Some (sr0\<lparr>sr_fs := snd (delete_keys ks (sr_root sr0) (sr_fs sr0))\<rparr>)" "w_self w' = w_self w"
    by (rule client_sync_delete_ok) (rule that)
  let ?fs' = "snd (delete_keys ks (sr_root sr) (sr_fs sr))"
  have root: "wf_fs (sr_fs sr)" "good_root (sr_root sr)" using assms(3) by (simp_all add: server_ok_def)
  have "(\<forall>ki \<in> set ks. object_at (sr_root sr) ?fs' (ki_bucket ki) (ki_key ki) = None) \<and>
    (\<forall>b k. good_object (sr_root sr) b k \<longrightarrow> (\<forall>ki \<in> set ks. objects_apart (ki_bucket ki) (ki_key ki) b k) \<longrightarrow>
       object_at (sr_root sr) ?fs' b k = object_at (sr_root sr) (sr_fs sr) b k)"
    by (rule delete_keys_objects [OF root assms(4)])
      (use assms(5,6) in \<open>simp_all add: plain_object_def obj_of_def sr_obj_def apart_from_def\<close>)
  moreover have "sr0 = sr" using assms(2) c(1) by simp
  ultimately show ?thesis using c root(2)
    by (auto simp: obj_of_def sr_obj_def plain_object_def apart_from_def good_object_def good_dir_def)
qed

lemma entry_path:
  assumes "server_ok sr" "tidy_node sr" "node_keys sr ks" "e \<in> set (keys_map ks)"
    and "server_ok sr'" "tidy_node sr'" "node_keys sr' ks'" "e' \<in> set (keys_map ks')"
  shows "entry_name e = entry_name e' \<longleftrightarrow> fst e = fst e'"
proof -
  note a = map_entries(3,4) [OF assms(1-4)] and b = map_entries(3,4) [OF assms(5-8)]
  have "key_path (snd e) = key_path (snd e') \<longleftrightarrow> entry_name e = entry_name e'"
    using a(2) b(2) key_path_inject [of "snd e" "snd e'"]
    by (auto simp: object_names_def plain_object_def entry_name_def)
  with a(1) b(1) show ?thesis by simp
qed

text \<open>
  The nodes a comparison by length and checksum can bring together: every stored object has the length
  and checksum its metadata reports, none is erasure coded, and no two names share a path.
\<close>

definition comparable :: "(string \<times> string) set \<Rightarrow> server \<Rightarrow> bool" where
  "comparable N sr \<longleftrightarrow> tidy_node sr \<and> object_names sr \<subseteq> N \<and>
     (\<forall>x bs m. plain_object x \<longrightarrow> obj_of sr x = Some (bs, m) \<longrightarrow> \<not> is_ec m)"

lemma comparableD:
  "comparable N sr \<Longrightarrow> tidy_node sr" "comparable N sr \<Longrightarrow> object_names sr \<subseteq> N"
  "comparable N sr \<Longrightarrow> plain_object x \<Longrightarrow> obj_of sr x = Some (bs, m) \<Longrightarrow> \<not> is_ec m"
  unfolding comparable_def by blast+

lemma extraneous_ok:
  assumes f: "server_ok sr" "comparable N sr" "node_keys sr fks" and l: "server_ok sl" "comparable N sl" "node_keys sl lks"
    and fm: "mset fm = mset (keys_map fks)" and N: "separate N"
    and ki: "ki \<in> set (extraneous (keys_map lks) fm)"
  shows "(ki_bucket ki, ki_key ki) \<in> N" "obj_of sr (ki_bucket ki, ki_key ki) \<noteq> None"
    "obj_of sl (ki_bucket ki, ki_key ki) = None"
proof -
  note tf = comparableD(1) [OF f(2)] and tl = comparableD(1) [OF l(2)]
  from ki map_entries_distinct(2) [OF f(1) tf f(3) fm]
  obtain p where p: "(p, ki) \<in> set (keys_map fks)" "map_of (keys_map lks) p = None" by (auto simp: extraneous_set)
  note e = map_entries [OF f(1) tf f(3) p(1)]
  from e(4) comparableD(2) [OF f(2)] show n: "(ki_bucket ki, ki_key ki) \<in> N" by (auto simp: entry_name_def)
  from e(4) show "obj_of sr (ki_bucket ki, ki_key ki) \<noteq> None" by (simp add: entry_name_def object_names_def)
  show "obj_of sl (ki_bucket ki, ki_key ki) = None"
  proof (rule ccontr)
    assume "obj_of sl (ki_bucket ki, ki_key ki) \<noteq> None"
    then obtain bs m where "obj_of sl (ki_bucket ki, ki_key ki) = Some (bs, m)" by auto
    with comparableD(3) [OF l(2) separateD(1) [OF N n]] obtain e' where e': "e' \<in> set (keys_map lks)" "entry_name e' = (ki_bucket ki, ki_key ki)"
      using entry_of [OF l(1) tl l(3) separateD(1) [OF N n]] by metis
    from entry_path [OF l(1) tl l(3) e'(1) f(1) tf f(3) p(1)] e'(2) have "fst e' = p" by (simp add: entry_name_def)
    with map_entries(1) [OF l(1) tl l(3) e'(1)] p(2) show False by simp
  qed
qed

lemma agreeing_entry:
  assumes f: "server_ok sr" "tidy_node sr" "node_keys sr fks" and l: "server_ok sl" "tidy_node sl" "node_keys sl lks"
    and e: "e \<in> set (keys_map lks)" "\<not> needs_push (keys_map fks) e"
  shows "digest_of sr (entry_name e) = digest_of sl (entry_name e)"
proof -
  from e(2) obtain fk where fk: "map_of (keys_map fks) (fst e) = Some fk"
    "ki_crc32 fk = ki_crc32 (snd e)" "ki_size fk = ki_size (snd e)"
    by (auto simp: needs_push_def split: option.splits)
  from fk(1) have fe: "(fst e, fk) \<in> set (keys_map fks)" by (rule map_of_SomeD)
  have "entry_name (fst e, fk) = entry_name e" using entry_path [OF f fe l e(1)] by simp
  with map_entries(5) [OF f fe] map_entries(5) [OF l e(1)] fk(2,3) show ?thesis by (auto simp: digest_of_def)
qed

lemma same_digest:
  "obj_of sr x = Some (bs, m) \<Longrightarrow> obj_of sl x = Some (bs, m') \<Longrightarrow> digest_of sr x = digest_of sl x"
  "obj_of sr x = obj_of sl x \<Longrightarrow> digest_of sr x = digest_of sl x"
  by (simp_all add: digest_of_def)

lemma digest_cases:
  assumes N: "separate N" "x \<in> N" and f: "server_ok sr" "comparable N sr" "node_keys sr fks"
    and l: "server_ok sl" "comparable N sl" "node_keys sl lks"
    and es: "mset es = mset (keys_map lks)" and fm: "mset fm = mset (keys_map fks)"
    and pushed: "\<And>e. e \<in> set es \<Longrightarrow> needs_push (keys_map fks) e \<Longrightarrow>
        digest_of sr3 (entry_name e) = digest_of sl (entry_name e)"
    and kept: "(\<And>e. e \<in> set es \<Longrightarrow> needs_push (keys_map fks) e \<Longrightarrow> apart_from (entry_name e) x) \<Longrightarrow> obj_of sr3 x = obj_of sr x"
    and gone: "\<And>ki. ki \<in> set (extraneous (keys_map lks) fm) \<Longrightarrow> obj_of sr' (ki_bucket ki, ki_key ki) = None"
    and left: "(\<And>ki. ki \<in> set (extraneous (keys_map lks) fm) \<Longrightarrow> apart_from (ki_bucket ki, ki_key ki) x) \<Longrightarrow> obj_of sr' x = obj_of sr3 x"
  shows "digest_of sr' x = digest_of sl x"
proof -
  note tf = comparableD(1) [OF f(2)] and tl = comparableD(1) [OF l(2)] and xp = separateD(1) [OF N]
  note ls = map_entries_distinct [OF l(1) tl l(3) es] and fs = map_entries_distinct [OF f(1) tf f(3) fm]
  have lname: "entry_name e \<in> N \<and> obj_of sl (entry_name e) \<noteq> None" if "e \<in> set es" for e
    using map_entries(4) [OF l(1) tl l(3), of e] that ls(2) comparableD(2) [OF l(2)] by (auto simp: object_names_def)
  note ex = extraneous_ok [OF f l fm N(1)]
  have apart_l: "apart_from (entry_name e) x" if "e \<in> set es" "entry_name e \<noteq> x" for e
    using separateD(2) [OF N(1)] lname [OF that(1)] N(2) that(2) by blast
  have apart_x: "apart_from (ki_bucket ki, ki_key ki) x"
    if "ki \<in> set (extraneous (keys_map lks) fm)" "(ki_bucket ki, ki_key ki) \<noteq> x" for ki
    using separateD(2) [OF N(1) ex(1) [OF that(1)] N(2) that(2)] .
  show ?thesis
  proof (cases "obj_of sl x")
    case None
    have "entry_name e \<noteq> x" if "e \<in> set es" for e using lname [OF that] None by blast
    then have k3: "obj_of sr3 x = obj_of sr x" using kept apart_l by blast
    show ?thesis
    proof (cases "obj_of sr x")
      case None' : None
      have "(ki_bucket ki, ki_key ki) \<noteq> x" if "ki \<in> set (extraneous (keys_map lks) fm)" for ki
        using ex(2) [OF that] None' by blast
      then have "obj_of sr' x = obj_of sr3 x" using left apart_x by blast
      with k3 None None' show ?thesis by (simp add: digest_of_def)
    next
      case (Some pr)
      then obtain bs m where o: "obj_of sr x = Some (bs, m)" by (cases pr) simp
      obtain e where e: "e \<in> set (keys_map fks)" "entry_name e = x"
        by (rule entry_of [OF f(1) tf f(3) xp o comparableD(3) [OF f(2) xp o]])
      have "map_of (keys_map lks) (fst e) = None"
      proof (rule ccontr)
        assume "map_of (keys_map lks) (fst e) \<noteq> None"
        then obtain k where k: "map_of (keys_map lks) (fst e) = Some k" by auto
        then have m: "(fst e, k) \<in> set (keys_map lks)" by (rule map_of_SomeD)
        from entry_path [OF l(1) tl l(3) m f(1) tf f(3) e(1)] e(2) have "entry_name (fst e, k) = x" by simp
        with lname [of "(fst e, k)"] m ls(2) None show False by simp
      qed
      with e(1) fs(2) have "snd e \<in> set (extraneous (keys_map lks) fm)"
        by (auto simp: extraneous_set intro: exI [of _ "fst e"])
      from gone [OF this] e(2) None show ?thesis by (simp add: digest_of_def entry_name_def)
    qed
  next
    case (Some pr)
    then obtain bs m where o: "obj_of sl x = Some (bs, m)" by (cases pr) simp
    obtain e where e0: "e \<in> set (keys_map lks)" and ex': "entry_name e = x"
      by (rule entry_of [OF l(1) tl l(3) xp o comparableD(3) [OF l(2) xp o]])
    have e: "e \<in> set es" using e0 ls(2) by simp
    have "obj_of sr' x = obj_of sr3 x" by (rule left, rule apart_x) (use o ex(3) in auto)
    then have d: "digest_of sr' x = digest_of sr3 x" by (rule same_digest(2))
    show ?thesis
    proof (cases "needs_push (keys_map fks) e")
      case True
      from pushed [OF e True] ex' d show ?thesis by simp
    next
      case False
      have "obj_of sr3 x = obj_of sr x"
      proof (rule kept, rule apart_l)
        fix e' assume e': "e' \<in> set es" "needs_push (keys_map fks) e'"
        show "e' \<in> set es" by (rule e'(1))
        have "e' \<noteq> e" using e'(2) False by blast
        with ls(1) e' e show "entry_name e' \<noteq> x" unfolding ex' [symmetric] by (auto simp: distinct_map inj_on_def)
      qed
      then have "digest_of sr3 x = digest_of sr x" by (rule same_digest(2))
      with d agreeing_entry [OF f(1) tf f(3) l(1) tl l(3) e0 False] ex' show ?thesis by simp
    qed
  qed
qed

text \<open>The two halves of a synchronisation, with the frame each leaves.\<close>

lemma push_phase:
  assumes push: "push_missing ecr addr fm es w = (Inr (), w')" "world_ok w" "peer w addr = Some sr"
    and d: "distinct (map entry_name es)" and N: "separate N"
    and src: "\<And>e. e \<in> set es \<Longrightarrow> entry_name e \<in> N \<and> plain_object (entry_name e) \<and>
      (\<exists>bs m. obj_of (w_self w) (entry_name e) = Some (bs, m) \<and> true_meta bs m)"
  obtains sr' where "peer w' addr = Some sr'" "same_files w w'" "world_ok w'"
    "\<And>e. e \<in> set es \<Longrightarrow> needs_push fm e \<Longrightarrow> digest_of sr' (entry_name e) = digest_of (w_self w) (entry_name e)"
    "\<And>y. plain_object y \<Longrightarrow> (\<And>e. e \<in> set es \<Longrightarrow> needs_push fm e \<Longrightarrow> apart_from (entry_name e) y) \<Longrightarrow>
       obj_of sr' y = obj_of sr y"
proof -
  have a: "apart_from (entry_name e) (entry_name e')"
    if "e \<in> set es" "e' \<in> set es" "entry_name e \<noteq> entry_name e'" for e e'
    using that src by (intro separateD(2) [OF N]) auto
  have b: "plain_object (entry_name e) \<and> (\<exists>bs m. obj_of (w_self w) (entry_name e) = Some (bs, m) \<and> true_meta bs m)"
    if "e \<in> set es" for e using src [OF that] by blast
  obtain sr' where s: "peer w' addr = Some sr'" "same_files w w'" "world_ok w'"
    "\<forall>e \<in> set es. needs_push fm e \<longrightarrow> (\<exists>bs m m'. obj_of (w_self w) (entry_name e) = Some (bs, m) \<and>
       obj_of sr' (entry_name e) = Some (bs, m'))"
    "\<forall>x. plain_object x \<longrightarrow> (\<forall>e \<in> set es. needs_push fm e \<longrightarrow> apart_from (entry_name e) x) \<longrightarrow> obj_of sr' x = obj_of sr x"
    using push_missing_ok [OF push b a d] by blast
  show ?thesis
  proof (rule that [OF s(1-3)])
    fix e assume "e \<in> set es" "needs_push fm e"
    with s(4) show "digest_of sr' (entry_name e) = digest_of (w_self w) (entry_name e)"
      by (fastforce simp: digest_of_def)
  qed (use s(5) in blast)
qed

lemma extraneous_kept:
  assumes f: "server_ok sr" "comparable N sr" "node_keys sr fks" and l: "server_ok sl" "comparable N sl" "node_keys sl lks"
    and fm: "mset fm = mset (keys_map fks)" and N: "separate N"
    and es: "\<And>e. e \<in> set es \<Longrightarrow> entry_name e \<in> N \<and> obj_of sl (entry_name e) \<noteq> None"
    and frame: "\<And>y. plain_object y \<Longrightarrow> (\<And>e. e \<in> set es \<Longrightarrow> apart_from (entry_name e) y) \<Longrightarrow> obj_of sr3 y = obj_of sr y"
    and ki: "ki \<in> set (extraneous (keys_map lks) fm)"
  shows "(ki_bucket ki, ki_key ki) \<in> N \<and> (\<exists>bs m. obj_of sr3 (ki_bucket ki, ki_key ki) = Some (bs, m) \<and> \<not> is_ec m)"
proof -
  note ex = extraneous_ok [OF f l fm N ki]
  have "obj_of sr3 (ki_bucket ki, ki_key ki) = obj_of sr (ki_bucket ki, ki_key ki)"
  proof (rule frame [OF separateD(1) [OF N ex(1)]])
    fix e assume e: "e \<in> set es"
    have "entry_name e \<in> N" "entry_name e \<noteq> (ki_bucket ki, ki_key ki)" using es [OF e] ex(3) by auto
    then show "apart_from (entry_name e) (ki_bucket ki, ki_key ki)" by (rule separateD(2) [OF N _ ex(1)])
  qed
  with ex(1,2) comparableD(3) [OF f(2) separateD(1) [OF N ex(1)]] show ?thesis by auto
qed

lemma delete_phase:
  assumes del: "delete_extraneous addr ks w = (Inr (), w')" "peer w addr = Some sr" "server_ok sr"
    and d: "distinct (map (\<lambda>ki. (ki_bucket ki, ki_key ki)) ks)" and N: "separate N"
    and src: "\<And>ki. ki \<in> set ks \<Longrightarrow> (ki_bucket ki, ki_key ki) \<in> N \<and>
      (\<exists>bs m. obj_of sr (ki_bucket ki, ki_key ki) = Some (bs, m) \<and> \<not> is_ec m)"
  obtains sr' where "peer w' addr = Some sr'" "w_self w' = w_self w"
    "\<And>ki. ki \<in> set ks \<Longrightarrow> obj_of sr' (ki_bucket ki, ki_key ki) = None"
    "\<And>y. plain_object y \<Longrightarrow> (\<And>ki. ki \<in> set ks \<Longrightarrow> apart_from (ki_bucket ki, ki_key ki) y) \<Longrightarrow> obj_of sr' y = obj_of sr y"
proof -
  have a: "apart_from (ki_bucket ki, ki_key ki) (ki_bucket kj, ki_key kj)"
    if "ki \<in> set ks" "kj \<in> set ks" "(ki_bucket ki, ki_key ki) \<noteq> (ki_bucket kj, ki_key kj)" for ki kj
    using that src separateD(2) [OF N] by blast
  have b: "plain_object (ki_bucket ki, ki_key ki) \<and>
      (\<exists>bs m. obj_of sr (ki_bucket ki, ki_key ki) = Some (bs, m) \<and> \<not> is_ec m)" if "ki \<in> set ks" for ki
    using src [OF that] separateD(1) [OF N] by blast
  from delete_extraneous_ok [OF del d b a] that show ?thesis by blast
qed


text \<open>A leader with one object and a follower with none.\<close>

definition stocked_fs :: repo_fs where
  "stocked_fs = (data_path demo_root ''b'' ''a'', File 7 (CData [])) #
     (meta_path demo_root ''b'' ''a'', File 7 (CMeta put_meta)) # demo_fs"

definition sync_world :: world where
  "sync_world = (let w = demo_world (\<lambda>_. Delivered) in w\<lparr>w_self := (w_self w)\<lparr>sr_fs := stocked_fs\<rparr>\<rparr>)"

lemma stocked_wf [simp]: "wf_fs stocked_fs"
  by code_simp

lemma sync_run: "fst (sync_follower id None ''http://n1'' sync_world) = Inr ()"
  by code_simp

lemma demo_tree: "demo_fs = [([''srv'', ''meta'', ''b''], Dir), ([''srv'', ''data'', ''b''], Dir), ([''srv'', ''ecdata''], Dir),
    ([''srv'', ''uploads''], Dir), ([''srv'', ''staging''], Dir), ([''srv'', ''meta''], Dir), ([''srv'', ''data''], Dir),
    ([''srv''], Dir)]"
  by code_simp

lemma stocked_tree: "stocked_fs = ([''srv'', ''data'', ''b'', ''a''], File 7 (CData [])) #
    ([''srv'', ''meta'', ''b'', ''a.json''], File 7 (CMeta put_meta)) # demo_fs"
proof -
  have "data_path demo_root ''b'' ''a'' = [''srv'', ''data'', ''b'', ''a'']"
    "meta_path demo_root ''b'' ''a'' = [''srv'', ''meta'', ''b'', ''a.json'']" by code_simp+
  then show ?thesis by (simp add: stocked_fs_def)
qed

lemma demo_dir: "plain_seg b \<Longrightarrow> good_dir demo_root b"
  using demo_good(6) by (simp add: good_dir_def)

lemma stocked_object: "object_at demo_root stocked_fs ''b'' ''a'' = Some ([], put_meta)"
  by code_simp

lemma stocked_keys:
  assumes "plain_seg b"
  shows "object_keys demo_root b stocked_fs = (if b = ''b'' then [''a''] else [])"
    and "object_keys demo_root b demo_fs = []"
proof -
  have m: "meta_dir demo_root b = [''srv'', ''meta'', b]"
    using dir_paths(2) [OF demo_dir [OF assms]] by (simp add: demo_root_def)
  show "object_keys demo_root b demo_fs = []"
    by (simp add: object_keys_def files_under_def m demo_tree is_file_def)
  show "object_keys demo_root b stocked_fs = (if b = ''b'' then [''a''] else [])"
  proof (cases "b = ''b''")
    case True
    have "object_keys demo_root ''b'' stocked_fs = [''a'']" by code_simp
    with True show ?thesis by simp
  next
    case False
    then show ?thesis
      by (simp add: object_keys_def files_under_def m demo_tree stocked_tree is_file_def)
  qed
qed

lemma stocked_files: "fs_file stocked_fs p = Some (mt, CMeta m) \<Longrightarrow> p = meta_path demo_root ''b'' ''a''"
  "fs_file demo_fs p = Some (mt, CMeta m) \<Longrightarrow> False"
  by (auto simp: fs_file_def fs_get_def stocked_fs_def demo_tree split: if_splits)

lemma stocked_obj:
  assumes "plain_object x" "obj_of (w_self sync_world) x = Some (bs, m)"
  shows "x = (''b'', ''a'')" "bs = []" "m = put_meta"
proof -
  have o: "object_at demo_root stocked_fs (fst x) (snd x) = Some (bs, m)"
    using assms(2) by (simp add: obj_of_def sr_obj_def sync_world_def demo_world_def demo_server_def)
  then have "meta_path demo_root (fst x) (snd x) = meta_path demo_root ''b'' ''a''"
    by (auto simp: object_at_iff dest: stocked_files)
  then show "x = (''b'', ''a'')"
    using assms(1) demo_dir demo_names meta_path_inject [of demo_root "fst x" "snd x" "''b''" "''a''"]
    by (simp add: plain_object_def prod_eq_iff)
  with o stocked_object show "bs = []" "m = put_meta" by simp_all
qed

lemma stocked_tidy: "true_meta [] put_meta"
  by code_simp

lemma stocked_comparable: "comparable {(''b'', ''a'')} (w_self sync_world)"
  unfolding comparable_def tidy_node_def
proof (intro conjI allI impI ballI)
  have srv: "sr_root (w_self sync_world) = demo_root" "sr_fs (w_self sync_world) = stocked_fs"
    by (simp_all add: sync_world_def demo_world_def demo_server_def)
  fix b assume b: "plain_seg b"
  show "length (object_keys (sr_root (w_self sync_world)) b (sr_fs (w_self sync_world))) \<le> 1000000"
    using stocked_keys(1) [OF b] by (simp add: srv)
  fix k assume "k \<in> set (object_keys (sr_root (w_self sync_world)) b (sr_fs (w_self sync_world)))"
  then have k: "b = ''b''" "k = ''a''" using stocked_keys(1) [OF b] by (auto simp: srv split: if_splits)
  show "plain_name k" "\<exists>bs m. sr_obj (w_self sync_world) b k = Some (bs, m) \<and> true_meta bs m"
    using stocked_object stocked_tidy by (simp_all add: k sr_obj_def srv)
next
  show "object_names (w_self sync_world) \<subseteq> {(''b'', ''a'')}"
    using stocked_obj(1) by (auto simp: object_names_def)
next
  fix x bs m assume "plain_object x" "obj_of (w_self sync_world) x = Some (bs, m)"
  from stocked_obj(3) [OF this] show "\<not> is_ec m" by simp
qed

lemma bare_comparable: "peer sync_world ''http://n1'' = Some sr \<Longrightarrow> comparable {(''b'', ''a'')} sr"
proof -
  assume "peer sync_world ''http://n1'' = Some sr"
  then have srv: "sr_root sr = demo_root" "sr_fs sr = demo_fs"
    by (auto simp: sync_world_def demo_world_def demo_server_def peer_def)
  have "obj_of sr x = None" for x
    using stocked_files(2) by (cases "obj_of sr x") (auto simp: obj_of_def sr_obj_def srv object_at_iff)
  moreover have "tidy_node sr"
    by (simp add: tidy_node_def srv stocked_keys(2))
  ultimately show ?thesis by (simp add: comparable_def object_names_def)
qed

lemma sync_world_ok: "world_ok sync_world"
  using demo_world_ok [of "\<lambda>_. Delivered"]
  by (simp add: world_ok_def sync_world_def demo_world_def demo_server_def server_ok_def peer_def)


end
