(* ===== verification/GoTime.thy ===== *)
theory GoTime
  imports GoLib
begin

text \<open>
  What the source uses of Go's \<open>time\<close> package: 64-bit durations, \<open>Time.Sub\<close> with its saturation,
  \<open>time.Parse\<close> for the layouts of \<open>auth.go\<close>, and \<open>time.ParseDuration\<close>.  A time is the number
  of nanoseconds since the epoch, the local zone of the process is UTC.
\<close>

section \<open>64-bit arithmetic and durations\<close>

definition wrap64 :: "int \<Rightarrow> int" where
  "wrap64 n = (n + 2 ^ 63) mod 2 ^ 64 - 2 ^ 63"

lemma wrap64_id [simp]: "int64_ok n \<Longrightarrow> wrap64 n = n"
  by (simp add: wrap64_def int64_ok_def)

lemma wrap64_ok: "int64_ok (wrap64 n)"
  by (simp add: wrap64_def int64_ok_def)

definition min_duration :: int where "min_duration = - (2 ^ 63)"
definition max_duration :: int where "max_duration = 2 ^ 63 - 1"

text \<open>\<open>t.Sub(u)\<close>: a difference that does not fit is cut to the nearest duration.\<close>

definition time_sub :: "int \<Rightarrow> int \<Rightarrow> int" where
  "time_sub t u = (if int64_ok (t - u) then t - u else if t < u then min_duration else max_duration)"

definition nanos :: int where "nanos = 1000000000"
definition minute :: int where "minute = 60 * nanos"

section \<open>The calendar\<close>

definition leap_year :: "int \<Rightarrow> bool" where
  "leap_year y \<longleftrightarrow> y mod 4 = 0 \<and> (y mod 100 \<noteq> 0 \<or> y mod 400 = 0)"

definition days_in :: "int \<Rightarrow> int \<Rightarrow> int" where
  "days_in y m =
     (if m = 2 then (if leap_year y then 29 else 28)
      else if m = 4 \<or> m = 6 \<or> m = 9 \<or> m = 11 then 30 else 31)"

text \<open>Days from the epoch to the first of January of a year, and to the first of a month.\<close>

definition days_to_year :: "int \<Rightarrow> int" where
  "days_to_year y =
     (let z = y - 1 in 365 * z + z div 4 - z div 100 + z div 400 - 719162)"

definition days_to_month :: "int \<Rightarrow> int \<Rightarrow> int" where
  "days_to_month y m = sum_list (map (\<lambda>i. days_in y (int i)) [1..<nat m])"

record clock_time =
  ct_year :: int
  ct_month :: int
  ct_day :: int
  ct_hour :: int
  ct_min :: int
  ct_sec :: int
  ct_nsec :: int
  ct_offset :: int

definition zero_clock :: clock_time where
  "zero_clock = \<lparr>ct_year = 0, ct_month = 1, ct_day = 1, ct_hour = 0, ct_min = 0, ct_sec = 0,
     ct_nsec = 0, ct_offset = 0\<rparr>"

definition unix_nanos :: "clock_time \<Rightarrow> int" where
  "unix_nanos c =
     (((days_to_year (ct_year c) + days_to_month (ct_year c) (ct_month c) + ct_day c - 1) * 24
        + ct_hour c) * 60 + ct_min c) * 60 * nanos + (ct_sec c - ct_offset c) * nanos + ct_nsec c"

section \<open>time.Parse\<close>

definition dec_val :: "string \<Rightarrow> int" where
  "dec_val s = foldl (\<lambda>a c. 10 * a + int (of_char c - 48)) 0 s"

lemma dec_val_nonneg: "0 \<le> dec_val s"
proof -
  have "0 \<le> a \<Longrightarrow> 0 \<le> foldl (\<lambda>a c. 10 * a + int (of_char c - 48)) a s" for a
    by (induction s arbitrary: a) auto
  then show ?thesis by (simp add: dec_val_def)
qed

datatype layout_item =
    LYear | LMonth | LMonthName | LDay | LWeekday | LHour | LMin | LSec | LZone | LZoneNum
  | LText string

fun text_num :: "nat \<Rightarrow> string \<Rightarrow> (int \<times> string) option" where
  "text_num n s =
     (if n \<le> length s \<and> list_all is_digit (take n s)
      then Some (dec_val (take n s), drop n s) else None)"

text \<open>\<open>getnum\<close>: two digits, or one when the field is not fixed.\<close>

definition get_num :: "bool \<Rightarrow> string \<Rightarrow> (int \<times> string) option" where
  "get_num fixed s =
     (case text_num 2 s of
        Some r \<Rightarrow> Some r
      | None \<Rightarrow> if fixed then None else text_num 1 s)"

definition in_range :: "(int \<Rightarrow> bool) \<Rightarrow> (int \<times> string) option \<Rightarrow> (int \<times> string) option" where
  "in_range ok r = (case r of None \<Rightarrow> None | Some (n, s) \<Rightarrow> if ok n then Some (n, s) else None)"

text \<open>\<open>lookup\<close>: the first name that is a prefix, upper and lower case the same.\<close>

fun name_lookup :: "string list \<Rightarrow> int \<Rightarrow> string \<Rightarrow> (int \<times> string) option" where
  "name_lookup [] i s = None"
| "name_lookup (nm # nms) i s =
     (if prefix (to_lower nm) (to_lower s) then Some (i, drop (length nm) s)
      else name_lookup nms (i + 1) s)"

definition month_names :: "string list" where
  "month_names = [''Jan'', ''Feb'', ''Mar'', ''Apr'', ''May'', ''Jun'', ''Jul'', ''Aug'', ''Sep'',
     ''Oct'', ''Nov'', ''Dec'']"

definition day_names :: "string list" where
  "day_names = [''Sun'', ''Mon'', ''Tue'', ''Wed'', ''Thu'', ''Fri'', ''Sat'']"

lemma dropWhile_less [termination_simp]: "length (dropWhile P xs) < Suc (length xs)"
  by (simp add: length_dropWhile_le le_imp_less_Suc)

text \<open>\<open>skip\<close>: a blank of the layout stands for any run of blanks, or the end of the value.\<close>

fun skip_text :: "string \<Rightarrow> string \<Rightarrow> string option" where
  "skip_text [] s = Some s"
| "skip_text (c # cs) s =
     (if c = CHR '' '' then
        (if s \<noteq> [] \<and> hd s \<noteq> CHR '' '' then None
         else skip_text (dropWhile (\<lambda>d. d = CHR '' '') cs) (dropWhile (\<lambda>d. d = CHR '' '') s))
      else if s \<noteq> [] \<and> hd s = c then skip_text cs (tl s) else None)"

text \<open>The fraction a value may have after its seconds though the layout has none: nine digits count.\<close>

definition get_fraction :: "string \<Rightarrow> int \<times> string" where
  "get_fraction s =
     (if 2 \<le> length s \<and> (hd s = CHR ''.'' \<or> hd s = CHR '','') \<and> is_digit (s ! 1) then
        (let ds = takeWhile is_digit (tl s); us = take 9 ds
         in (dec_val us * 10 ^ (9 - length us), drop (Suc (length ds)) s))
      else (0, s))"

text \<open>\<open>parseSignedOffset\<close> and \<open>parseTimeZone\<close>: the length of the zone's name.\<close>

definition signed_offset :: "string \<Rightarrow> nat" where
  "signed_offset s =
     (case s of
        [] \<Rightarrow> 0
      | c # cs \<Rightarrow>
          (let ds = takeWhile is_digit cs in
           if (c = CHR ''-'' \<or> c = CHR ''+'') \<and> ds \<noteq> [] \<and> digits_val ds \<le> 23
           then Suc (length ds) else 0))"

definition is_upper :: "char \<Rightarrow> bool" where
  "is_upper c \<longleftrightarrow> 65 \<le> (of_char c :: nat) \<and> (of_char c :: nat) \<le> 90"

definition zone_length :: "string \<Rightarrow> nat option" where
  "zone_length s =
     (if length s < 3 then None
      else if take 4 s = ''ChST'' \<or> take 4 s = ''MeST'' then Some 4
      else if take 3 s = ''GMT'' then Some (3 + signed_offset (drop 3 s))
      else if hd s = CHR ''+'' \<or> hd s = CHR ''-'' then
        (if signed_offset s = 0 then None else Some (signed_offset s))
      else (let n = length (takeWhile is_upper (take 6 s)) in
        if n = 3 then Some 3
        else if n = 4 \<and> (s ! 3 = CHR ''T'' \<or> take 4 s = ''WITA'') then Some 4
        else if n = 5 \<and> s ! 4 = CHR ''T'' then Some 5 else None))"

text \<open>A zone by name: UTC has an offset of its own, an abbreviation that the local zone does not
  know counts as one with offset zero.\<close>

definition get_zone :: "string \<Rightarrow> string option" where
  "get_zone s =
     (if take 3 s = ''UTC'' then Some (drop 3 s)
      else case zone_length s of None \<Rightarrow> None | Some n \<Rightarrow> Some (drop n s))"

definition get_zone_num :: "string \<Rightarrow> (int \<times> string) option" where
  "get_zone_num s =
     (if length s < 5 then None
      else case (text_num 2 (drop 1 s), text_num 2 (drop 3 s)) of
          (Some (h, _), Some (m, r)) \<Rightarrow>
            if 24 < h \<or> 60 < m then None
            else if hd s = CHR ''+'' then Some ((h * 60 + m) * 60, r)
            else if hd s = CHR ''-'' then Some (- ((h * 60 + m) * 60), r) else None
        | _ \<Rightarrow> None)"

fun parse_item :: "layout_item \<Rightarrow> clock_time \<times> string \<Rightarrow> (clock_time \<times> string) option" where
  "parse_item LYear (c, s) = map_option (\<lambda>(n, r). (c\<lparr>ct_year := n\<rparr>, r)) (text_num 4 s)"
| "parse_item LMonth (c, s) =
     map_option (\<lambda>(n, r). (c\<lparr>ct_month := n\<rparr>, r)) (in_range (\<lambda>n. 1 \<le> n \<and> n \<le> 12) (get_num True s))"
| "parse_item LMonthName (c, s) =
     map_option (\<lambda>(n, r). (c\<lparr>ct_month := n\<rparr>, r)) (name_lookup month_names 1 s)"
| "parse_item LDay (c, s) = map_option (\<lambda>(n, r). (c\<lparr>ct_day := n\<rparr>, r)) (get_num True s)"
| "parse_item LWeekday (c, s) = map_option (\<lambda>(n, r). (c, r)) (name_lookup day_names 0 s)"
| "parse_item LHour (c, s) =
     map_option (\<lambda>(n, r). (c\<lparr>ct_hour := n\<rparr>, r)) (in_range (\<lambda>n. n < 24) (get_num False s))"
| "parse_item LMin (c, s) =
     map_option (\<lambda>(n, r). (c\<lparr>ct_min := n\<rparr>, r)) (in_range (\<lambda>n. n < 60) (get_num True s))"
| "parse_item LSec (c, s) =
     map_option (\<lambda>(n, r). (c\<lparr>ct_sec := n, ct_nsec := fst (get_fraction r)\<rparr>, snd (get_fraction r)))
       (in_range (\<lambda>n. n < 60) (get_num True s))"
| "parse_item LZone (c, s) = map_option (\<lambda>r. (c, r)) (get_zone s)"
| "parse_item LZoneNum (c, s) = map_option (\<lambda>(n, r). (c\<lparr>ct_offset := n\<rparr>, r)) (get_zone_num s)"
| "parse_item (LText t) (c, s) = map_option (\<lambda>r. (c, r)) (skip_text t s)"

fun parse_items :: "layout_item list \<Rightarrow> clock_time \<times> string \<Rightarrow> (clock_time \<times> string) option" where
  "parse_items [] cs = Some cs"
| "parse_items (l # ls) cs = (case parse_item l cs of None \<Rightarrow> None | Some cs' \<Rightarrow> parse_items ls cs')"

definition parse_time :: "layout_item list \<Rightarrow> string \<Rightarrow> int option" where
  "parse_time ls s =
     (case parse_items ls (zero_clock, s) of
        None \<Rightarrow> None
      | Some (c, rest) \<Rightarrow>
          if rest \<noteq> [] \<or> ct_day c < 1 \<or> days_in (ct_year c) (ct_month c) < ct_day c then None
          else Some (unix_nanos c))"

section \<open>time.ParseDuration\<close>

text \<open>The loop over numbers with their units; a fraction is cut to whole nanoseconds.\<close>

definition unit_nanos :: "string \<Rightarrow> int option" where
  "unit_nanos u = map_of [(''ns'', 1), (''us'', 1000), ([CHR 0xC2, CHR 0xB5, CHR ''s''], 1000), ([CHR 0xCE, CHR 0xBC, CHR ''s''], 1000),
     (''ms'', 1000000), (''s'', nanos),
     (''m'', minute), (''h'', 60 * minute)] u"

definition is_num_char :: "char \<Rightarrow> bool" where
  "is_num_char c \<longleftrightarrow> c = CHR ''.'' \<or> is_digit c"

text \<open>One number with its unit: its length in nanoseconds and the rest of the text.\<close>

definition duration_item :: "string \<Rightarrow> (int \<times> string) option" where
  "duration_item s =
     (let whole = takeWhile is_digit s; r = drop (length whole) s;
          frac = (if r \<noteq> [] \<and> hd r = CHR ''.'' then takeWhile is_digit (tl r) else []);
          r' = (if r \<noteq> [] \<and> hd r = CHR ''.'' then drop (Suc (length frac)) r else r);
          u = takeWhile (\<lambda>c. \<not> is_num_char c) r'
      in if whole = [] \<and> frac = [] \<or> u = [] \<or> 2 ^ 63 < dec_val whole then None
         else case unit_nanos u of
             None \<Rightarrow> None
           | Some n \<Rightarrow>
               (let v = dec_val whole * n + dec_val frac * n div 10 ^ length frac
                in if 2 ^ 63 < v then None else Some (v, drop (length u) r')))"

lemma duration_item_Some:
  assumes "duration_item s = Some (v, r)"
  shows "length r < length s" "0 \<le> v"
proof -
  obtain u t where u: "u = takeWhile (\<lambda>c. \<not> is_num_char c) t" "u \<noteq> []" "r = drop (length u) t" "length t \<le> length s"
    using assms by (auto simp: duration_item_def Let_def split: option.splits if_splits)
  have "length u \<le> length t" unfolding u(1) by (rule length_takeWhile_le)
  with u(2-4) show "length r < length s" by (cases u) auto
  obtain u n x y where v: "unit_nanos u = Some n" "v = dec_val x * n + dec_val y * n div 10 ^ length (takeWhile is_digit (tl (drop (length (takeWhile is_digit s)) s))) \<or>
      v = dec_val x * n + dec_val y * n"
    using assms by (auto simp: duration_item_def Let_def split: option.splits if_splits)
  then have "0 \<le> n" by (auto simp: unit_nanos_def nanos_def minute_def split: if_splits)
  with v(2) show "0 \<le> v" by (auto simp: div_int_pos_iff dec_val_nonneg)
qed

function duration_items :: "int \<Rightarrow> string \<Rightarrow> int option" where
  "duration_items d s =
     (if s = [] then Some d
      else case duration_item s of
          None \<Rightarrow> None
        | Some (v, r) \<Rightarrow> if 2 ^ 63 < d + v then None else duration_items (d + v) r)"
  by pat_completeness auto
termination
  by (relation "measure (\<lambda>(d, s). length s)") (auto dest: duration_item_Some)

declare duration_items.simps [simp del]

definition parse_duration :: "string \<Rightarrow> int option" where
  "parse_duration s =
     (let signed = (s \<noteq> [] \<and> (hd s = CHR ''-'' \<or> hd s = CHR ''+''));
          neg = (s \<noteq> [] \<and> hd s = CHR ''-''); r = (if signed then tl s else s)
      in if r = ''0'' then Some 0 else if r = [] then None
         else case duration_items 0 r of
             None \<Rightarrow> None
           | Some d \<Rightarrow> if neg then Some (- d) else if d \<le> max_duration then Some d else None)"

text \<open>A parsed duration fits its 64 bits.\<close>

lemma duration_items_range:
  "duration_items d s = Some e \<Longrightarrow> 0 \<le> d \<Longrightarrow> d \<le> 2 ^ 63 \<Longrightarrow> 0 \<le> e \<and> e \<le> 2 ^ 63"
proof (induction d s rule: duration_items.induct)
  case (1 d s)
  show ?case
  proof (cases "s = []")
    case True
    with "1.prems" show ?thesis by (simp add: duration_items.simps)
  next
    case False
    with "1.prems"(1) obtain v r where i: "duration_item s = Some (v, r)" "\<not> 2 ^ 63 < d + v" "duration_items (d + v) r = Some e"
      by (subst (asm) duration_items.simps) (auto split: option.splits if_splits)
    with "1.prems"(2) duration_item_Some(2) [OF i(1)] show ?thesis
      using "1.IH" [OF False i(1) refl i(2,3)] by simp
  qed
qed

lemma parse_duration_range: "parse_duration s = Some d \<Longrightarrow> int64_ok d"
  by (auto simp: parse_duration_def Let_def int64_ok_def max_duration_def
      dest!: duration_items_range split: option.splits if_splits)

end
