(* ===== verification/ECCodec.thy ===== *)
theory ECCodec
  imports Domain GoTime
begin

text \<open>
  \<open>internal/infrastructure/storage/ec/codec.go\<close>: splitting an object into \<open>k\<close> data shards and \<open>m\<close>
  parity shards and getting it back.  The Reed-Solomon arithmetic is the library
  \<open>github.com/klauspost/reedsolomon\<close>, a parameter \<open>rs_lib\<close> here; what the codec relies on is
  \<open>rs_correct\<close>, the documented behaviour of its \<open>Encode\<close> and \<open>Reconstruct\<close>.  As in that library a
  missing shard is a slice of length zero.
\<close>

section \<open>The library the codec calls\<close>

record rs_lib =
  rs_new :: "int \<Rightarrow> int \<Rightarrow> gerror option"
  rs_encode :: "int \<Rightarrow> int \<Rightarrow> byte list list \<Rightarrow> gerror + byte list list"
  rs_reconstruct :: "int \<Rightarrow> int \<Rightarrow> byte list list \<Rightarrow> gerror + byte list list"
  rs_verify :: "int \<Rightarrow> int \<Rightarrow> byte list list \<Rightarrow> gerror + bool"

record codec =
  cd_k :: int
  cd_m :: int

section \<open>The codec\<close>

text \<open>The sum of the two counts wraps around, as it does in the validation of the configuration; what
  then stops the counts is the library, which takes no more than 65536 shards.\<close>

definition new_codec :: "rs_lib \<Rightarrow> int \<Rightarrow> int \<Rightarrow> gerror + codec" where
  "new_codec rs k m =
     (if k < 1 then Inl (ErrMsg ''ec: k must be >= 1'')
      else if m < 0 then Inl (ErrMsg ''ec: m must be >= 0'')
      else if 256 < wrap64 (k + m) then Inl (ErrMsg ''ec: k+m must be <= 256'')
      else case rs_new rs k m of Some e \<Rightarrow> Inl e | None \<Rightarrow> Inr \<lparr>cd_k = k, cd_m = m\<rparr>)"

definition codec_n :: "codec \<Rightarrow> int" where
  "codec_n c = cd_k c + cd_m c"

text \<open>Go's integer division truncates.\<close>

definition go_quot :: "int \<Rightarrow> int \<Rightarrow> int" where
  "go_quot a b = sgn a * sgn b * (\<bar>a\<bar> div \<bar>b\<bar>)"

definition shard_size :: "codec \<Rightarrow> int \<Rightarrow> int" where
  "shard_size c data_len = (if cd_k c = 0 then 0 else go_quot (data_len + cd_k c - 1) (cd_k c))"

text \<open>The copying loop: \<open>shards[i/shardSize][i%shardSize] = data[i]\<close>.\<close>

fun copy_data :: "nat \<Rightarrow> byte list \<Rightarrow> nat list \<Rightarrow> byte list list \<Rightarrow> byte list list" where
  "copy_data ss dat [] shards = shards"
| "copy_data ss dat (i # is) shards =
     copy_data ss dat is (shards[i div ss := (shards ! (i div ss))[i mod ss := dat ! i]])"

definition encode :: "rs_lib \<Rightarrow> codec \<Rightarrow> byte list \<Rightarrow> gerror + byte list list" where
  "encode rs c dat =
     (let s0 = nat (shard_size c (int (length dat)));
          ss = (if s0 = 0 then 1 else s0);
          shards = replicate (nat (codec_n c)) (replicate ss 0)
      in rs_encode rs (cd_k c) (cd_m c) (copy_data ss dat [0..<length dat] shards))"

text \<open>The loop of \<open>trimData\<close> for a positive length.\<close>

fun trim_loop :: "byte list list \<Rightarrow> int \<Rightarrow> int \<Rightarrow> nat list \<Rightarrow> byte list" where
  "trim_loop shards ss data_len [] = []"
| "trim_loop shards ss data_len (i # is) =
     (let remaining = data_len - int i * ss in
      if remaining \<le> 0 then []
      else take (nat (if remaining < ss then remaining else ss)) (shards ! i)
        @ trim_loop shards ss data_len is)"

definition trim_data :: "byte list list \<Rightarrow> int \<Rightarrow> int \<Rightarrow> byte list" where
  "trim_data shards k data_len =
     (if shards = [] then []
      else (let ss = int (length (shards ! 0)) in
        if data_len \<le> 0 then concat (map (\<lambda>i. shards ! i) [0..<nat k])
        else trim_loop shards ss data_len [0..<nat k]))"

definition reconstruct :: "rs_lib \<Rightarrow> codec \<Rightarrow> byte list list \<Rightarrow> int \<Rightarrow> gerror + byte list" where
  "reconstruct rs c shards data_len =
     (if int (length shards) \<noteq> codec_n c then Inl (ErrMsg ''ec: expected k+m shards'')
      else case rs_reconstruct rs (cd_k c) (cd_m c) shards of
        Inl e \<Rightarrow> Inl e
      | Inr full \<Rightarrow> Inr (trim_data full (cd_k c) data_len))"

definition verify_shards :: "rs_lib \<Rightarrow> codec \<Rightarrow> byte list list \<Rightarrow> gerror + bool" where
  "verify_shards rs c shards =
     (if int (length shards) \<noteq> codec_n c then Inl (ErrMsg ''ec: expected k+m shards'')
      else rs_verify rs (cd_k c) (cd_m c) shards)"

section \<open>What the codec relies on\<close>

text \<open>
  \<open>Encode\<close> keeps the data shards and fills the parity shards, keeping the sizes; \<open>Reconstruct\<close>, given
  any shards of an encoding with at least \<open>k\<close> of them present, fills in the missing ones; with fewer
  it fails.  This is the documented contract for shards of one positive size.
\<close>

definition shard_table :: "nat \<Rightarrow> nat \<Rightarrow> byte list list \<Rightarrow> bool" where
  "shard_table n ss shards \<longleftrightarrow> length shards = n \<and> list_all (\<lambda>s. length s = ss) shards"

definition present :: "byte list list \<Rightarrow> nat" where
  "present shards = length (filter (\<lambda>s. s \<noteq> []) shards)"

text \<open>Shards read back: each the stored one, or missing.\<close>

definition survivors_of :: "byte list list \<Rightarrow> byte list list \<Rightarrow> bool" where
  "survivors_of full shards \<longleftrightarrow> list_all2 (\<lambda>f s. s = f \<or> s = []) full shards"

definition rs_correct :: "rs_lib \<Rightarrow> int \<Rightarrow> int \<Rightarrow> bool" where
  "rs_correct rs k m \<longleftrightarrow>
     (\<forall>shards ss. 0 < ss \<longrightarrow> shard_table (nat (k + m)) ss shards \<longrightarrow>
        (\<exists>full. rs_encode rs k m shards = Inr full \<and> shard_table (nat (k + m)) ss full \<and>
           take (nat k) full = take (nat k) shards \<and>
           (\<forall>some. survivors_of full some \<longrightarrow>
              (if nat k \<le> present some then rs_reconstruct rs k m some = Inr full
               else \<exists>e. rs_reconstruct rs k m some = Inl e))))"

section \<open>The copying loop cuts the data into shards\<close>

definition good_codec :: "codec \<Rightarrow> bool" where
  "good_codec c \<longleftrightarrow> 1 \<le> cd_k c \<and> 0 \<le> cd_m c"

lemma new_codec_good: "new_codec rs k m = Inr c \<Longrightarrow> good_codec c \<and> c = \<lparr>cd_k = k, cd_m = m\<rparr> \<and> (int64_ok (k + m) \<longrightarrow> k + m \<le> 256)"
  by (auto simp: new_codec_def good_codec_def wrap64_id split: if_splits option.splits)

lemma shard_size_eq:
  assumes "good_codec c"
  shows "shard_size c (int n) = (int n + cd_k c - 1) div cd_k c"
proof -
  have "0 \<le> int n + cd_k c - 1" "0 < cd_k c" using assms by (auto simp: good_codec_def)
  then show ?thesis
    by (cases "int n + cd_k c - 1 = 0") (auto simp: shard_size_def go_quot_def sgn_if)
qed

lemma shard_size_covers:
  assumes "good_codec c" "0 < n"
  shows "0 < shard_size c (int n)" and "int n \<le> cd_k c * shard_size c (int n)"
proof -
  let ?k = "cd_k c"
  have k: "0 < ?k" using assms(1) by (simp add: good_codec_def)
  define d where "d = (int n + ?k - 1) div ?k"
  define r where "r = (int n + ?k - 1) mod ?k"
  have dr: "int n + ?k - 1 = ?k * d + r" unfolding d_def r_def by simp
  have r: "0 \<le> r" "r < ?k" using k unfolding r_def by simp_all
  have s: "shard_size c (int n) = d" by (simp add: shard_size_eq [OF assms(1)] d_def)
  have "?k div ?k \<le> d" unfolding d_def using assms(2) k by (intro zdiv_mono1) auto
  with k show "0 < shard_size c (int n)" by (simp add: s)
  show "int n \<le> ?k * shard_size c (int n)" unfolding s using dr r by linarith
qed

lemma copy_data_length [simp]: "length (copy_data ss dat is shards) = length shards"
  by (induction "is" arbitrary: shards) auto

lemma copy_data_table:
  assumes "shard_table n ss shards" "\<forall>i \<in> set is. i div ss < n"
  shows "shard_table n ss (copy_data ss dat is shards)"
  using assms
proof (induction "is" arbitrary: shards)
  case (Cons i "is")
  then have "shard_table n ss (shards[i div ss := (shards ! (i div ss))[i mod ss := dat ! i]])"
    by (auto simp: shard_table_def list_all_length nth_list_update)
  with Cons show ?case by simp
qed simp

text \<open>Byte \<open>j\<close> of shard \<open>q\<close> after the loop.\<close>

lemma copy_data_nth:
  assumes "shard_table n ss shards" "\<forall>i \<in> set is. i div ss < n" "q < n" "j < ss"
  shows "copy_data ss dat is shards ! q ! j =
    (if q * ss + j \<in> set is then dat ! (q * ss + j) else shards ! q ! j)"
  using assms
proof (induction "is" arbitrary: shards)
  case (Cons i "is")
  let ?t = "shards[i div ss := (shards ! (i div ss))[i mod ss := dat ! i]]"
  have ss: "0 < ss" using Cons.prems(4) by simp
  have len: "length shards = n" "length (shards ! q) = ss"
    using Cons.prems by (auto simp: shard_table_def list_all_length)
  have "shard_table n ss ?t"
    using Cons.prems by (auto simp: shard_table_def list_all_length nth_list_update)
  with Cons.IH [of ?t] Cons.prems
  have "copy_data ss dat (i # is) shards ! q ! j =
      (if q * ss + j \<in> set is then dat ! (q * ss + j) else ?t ! q ! j)" by simp
  moreover have "?t ! q ! j = (if i = q * ss + j then dat ! i else shards ! q ! j)"
  proof (cases "i div ss = q \<and> i mod ss = j")
    case True
    then have "i = q * ss + j" by (metis div_mult_mod_eq)
    with True Cons.prems len ss show ?thesis by auto
  next
    case False
    then have "i \<noteq> q * ss + j" using Cons.prems(4) by auto
    with False Cons.prems len show ?thesis by (auto simp: nth_list_update)
  qed
  ultimately show ?case by auto
qed simp


section \<open>Encoding and trimming are inverse\<close>

text \<open>The data shards of an encoding, joined: the data and zeros.\<close>

lemma nth_concat_equal:
  "list_all (\<lambda>s. length s = ss) xss \<Longrightarrow> q < length xss \<Longrightarrow> j < ss \<Longrightarrow> concat xss ! (q * ss + j) = xss ! q ! j"
proof (induction xss arbitrary: q)
  case (Cons xs xss)
  show ?case
  proof (cases q)
    case 0
    with Cons.prems show ?thesis by (simp add: nth_append)
  next
    case (Suc q')
    have "concat (xs # xss) ! (q * ss + j) = concat xss ! (q' * ss + j)"
      using Cons.prems Suc by (simp add: nth_append)
    also have "\<dots> = xss ! q' ! j" using Cons Suc by simp
    finally show ?thesis by (simp add: Suc)
  qed
qed simp

lemma length_concat_equal: "list_all (\<lambda>s. length s = ss) xss \<Longrightarrow> length (concat xss) = length xss * ss"
  by (induction xss) auto

lemma trim_loop_concat:
  assumes "list_all (\<lambda>s. length s = ss) shards" "b \<le> length shards" "a \<le> b" "0 < ss"
    "n \<le> int (b * ss)"
  shows "trim_loop shards (int ss) n [a..<b] =
    take (nat (n - int (a * ss))) (concat (drop a (take b shards)))"
  using assms(3)
proof (induction "b - a" arbitrary: a)
  case 0
  then show ?case using assms by simp
next
  case (Suc x)
  then have ab: "a < b" by simp
  have drop: "drop a (take b shards) = shards ! a # drop (Suc a) (take b shards)"
    using ab assms(2) by (simp add: Cons_nth_drop_Suc [symmetric])
  have len: "length (shards ! a) = ss" using assms(1,2) ab by (simp add: list_all_length)
  have IH: "trim_loop shards (int ss) n [Suc a..<b] =
      take (nat (n - int (Suc a * ss))) (concat (drop (Suc a) (take b shards)))"
    by (rule Suc.hyps(1)) (use Suc.hyps(2) ab in simp_all)
  show ?case
  proof (cases "n - int a * int ss \<le> 0")
    case True
    then show ?thesis using ab by (simp add: upt_conv_Cons Let_def)
  next
    case False
    then have "trim_loop shards (int ss) n [a..<b] =
        take (nat (if n - int a * int ss < int ss then n - int a * int ss else int ss)) (shards ! a) @
        take (nat (n - int (Suc a * ss))) (concat (drop (Suc a) (take b shards)))"
      using ab IH by (simp add: upt_conv_Cons Let_def)
    also have "\<dots> = take (nat (n - int (a * ss))) (concat (drop a (take b shards)))"
      unfolding drop concat.simps take_append len
      using len by (auto simp: nat_diff_distrib' algebra_simps nat_less_iff le_nat_iff
          intro!: arg_cong2 [where f = append] arg_cong2 [where f = take])
    finally show ?thesis .
  qed
qed

lemma copy_data_concat:
  assumes k: "nat k \<le> n" and ss: "0 < ss" and fits: "length dat \<le> nat k * ss"
  shows "take (length dat) (concat (take (nat k) (copy_data ss dat [0..<length dat] (replicate n (replicate ss 0))))) = dat"
proof -
  let ?init = "replicate n (replicate ss (0 :: byte))"
  let ?out = "copy_data ss dat [0..<length dat] ?init"
  have init: "shard_table n ss ?init" by (simp add: shard_table_def list_all_length)
  have div: "i div ss < nat k" if "i < length dat" for i
    using that fits ss by (simp add: less_mult_imp_div_less)
  then have range: "\<forall>i \<in> set [0..<length dat]. i div ss < n" using k by fastforce
  have out: "shard_table n ss ?out" by (rule copy_data_table [OF init range])
  then have eq: "list_all (\<lambda>s. length s = ss) (take (nat k) ?out)" "length (take (nat k) ?out) = nat k"
    using k by (auto simp: shard_table_def list_all_length)
  have len: "length (concat (take (nat k) ?out)) = nat k * ss"
    using length_concat_equal [OF eq(1)] eq(2) by simp
  show ?thesis
  proof (rule nth_equalityI)
    show "length (take (length dat) (concat (take (nat k) ?out))) = length dat" using len fits by simp
    fix i assume "i < length (take (length dat) (concat (take (nat k) ?out)))"
    then have i: "i < length dat" using len fits by simp
    let ?q = "i div ss" and ?j = "i mod ss"
    have qj: "?q < nat k" "?j < ss" "i = ?q * ss + ?j" using div [OF i] ss by simp_all
    have "take (length dat) (concat (take (nat k) ?out)) ! i = concat (take (nat k) ?out) ! (?q * ss + ?j)"
      using i qj(3) by simp
    also have "\<dots> = ?out ! ?q ! ?j"
      using nth_concat_equal [OF eq(1) _ qj(2), of ?q] qj(1) eq(2) by simp
    also have "\<dots> = dat ! i"
      using copy_data_nth [OF init range _ qj(2), of ?q] qj k i by simp
    finally show "take (length dat) (concat (take (nat k) ?out)) ! i = dat ! i" .
  qed
qed

section \<open>The round trip\<close>

definition init_shards :: "codec \<Rightarrow> nat \<Rightarrow> byte list list" where
  "init_shards c ss = replicate (nat (codec_n c)) (replicate ss 0)"

lemma encode_run:
  assumes c: "good_codec c" and rs: "rs_correct rs (cd_k c) (cd_m c)"
    and ss: "ss = (if nat (shard_size c (int (length dat))) = 0 then 1 else nat (shard_size c (int (length dat))))"
  obtains full where "encode rs c dat = Inr full" "shard_table (nat (codec_n c)) ss full"
    "take (nat (cd_k c)) full = take (nat (cd_k c)) (copy_data ss dat [0..<length dat] (init_shards c ss))"
    "length dat \<le> nat (cd_k c) * ss" "0 < ss"
    "\<And>some. survivors_of full some \<Longrightarrow>
       (if nat (cd_k c) \<le> present some then rs_reconstruct rs (cd_k c) (cd_m c) some = Inr full
        else \<exists>e. rs_reconstruct rs (cd_k c) (cd_m c) some = Inl e)"
proof -
  let ?k = "cd_k c" and ?m = "cd_m c"
  have pos: "0 < ss" by (simp add: ss)
  have fits: "length dat \<le> nat ?k * ss"
  proof (cases "dat = []")
    case False
    then have "0 < length dat" by simp
    note cov = shard_size_covers [OF c this]
    have "int (length dat) \<le> int (nat ?k * ss)"
      using cov c by (simp add: ss good_codec_def)
    then show ?thesis by (simp only: of_nat_le_iff)
  qed simp
  have "\<forall>i \<in> set [0..<length dat]. i div ss < nat ?k"
    using fits pos by (auto intro!: less_mult_imp_div_less)
  then have range: "\<forall>i \<in> set [0..<length dat]. i div ss < nat (codec_n c)"
    using c by (fastforce simp: codec_n_def good_codec_def)
  have "shard_table (nat (codec_n c)) ss (copy_data ss dat [0..<length dat] (init_shards c ss))"
    by (rule copy_data_table [OF _ range]) (simp add: init_shards_def shard_table_def list_all_length)
  with rs pos obtain full where
    "rs_encode rs ?k ?m (copy_data ss dat [0..<length dat] (init_shards c ss)) = Inr full"
    "shard_table (nat (codec_n c)) ss full"
    "take (nat ?k) full = take (nat ?k) (copy_data ss dat [0..<length dat] (init_shards c ss))"
    "\<forall>some. survivors_of full some \<longrightarrow>
       (if nat ?k \<le> present some then rs_reconstruct rs ?k ?m some = Inr full
        else \<exists>e. rs_reconstruct rs ?k ?m some = Inl e)"
    unfolding rs_correct_def codec_n_def by blast
  moreover have "encode rs c dat = rs_encode rs ?k ?m (copy_data ss dat [0..<length dat] (init_shards c ss))"
    by (simp add: encode_def Let_def ss init_shards_def)
  ultimately show ?thesis using that fits pos by simp
qed

lemma reconstruct_run:
  assumes "good_codec c" "shard_table (nat (codec_n c)) ss full" "survivors_of full some"
    "rs_reconstruct rs (cd_k c) (cd_m c) some = Inr full"
  shows "reconstruct rs c some n = Inr (trim_data full (cd_k c) n)"
proof -
  have "length some = length full" using assms(3) by (auto simp: survivors_of_def dest: list_all2_lengthD)
  with assms show ?thesis
    by (simp add: reconstruct_def shard_table_def codec_n_def good_codec_def)
qed

lemma codec_roundtrip:
  assumes "new_codec rs k m = Inr c" "rs_correct rs k m" "dat \<noteq> []"
  shows "\<exists>full. encode rs c dat = Inr full \<and> length full = nat (k + m) \<and>
    (\<forall>s \<in> set full. int (length s) = shard_size c (int (length dat))) \<and>
    (\<forall>some. survivors_of full some \<longrightarrow>
       (if nat k \<le> present some then reconstruct rs c some (int (length dat)) = Inr dat
        else \<exists>e. reconstruct rs c some (int (length dat)) = Inl e))"
proof -
  have c: "good_codec c" "cd_k c = k" "cd_m c = m" using new_codec_good [OF assms(1)] by auto
  have pos: "0 < length dat" using assms(3) by simp
  note cov = shard_size_covers [OF c(1) pos]
  let ?ss = "nat (shard_size c (int (length dat)))"
  have ss: "?ss = (if ?ss = 0 then 1 else ?ss)" using cov(1) by simp
  obtain full where full: "encode rs c dat = Inr full" "shard_table (nat (codec_n c)) ?ss full"
    "take (nat k) full = take (nat k) (copy_data ?ss dat [0..<length dat] (init_shards c ?ss))"
    "length dat \<le> nat k * ?ss" "0 < ?ss"
    and rec: "\<And>some. survivors_of full some \<Longrightarrow>
       (if nat k \<le> present some then rs_reconstruct rs k m some = Inr full
        else \<exists>e. rs_reconstruct rs k m some = Inl e)"
    using encode_run [OF c(1) _ ss, of rs] assms(2) c(2,3) by auto
  have kn: "nat k \<le> nat (codec_n c)"
    using c by (intro nat_mono) (simp add: codec_n_def good_codec_def)
  have len: "length full = nat (codec_n c)" "list_all (\<lambda>s. length s = ?ss) full"
    using full(2) by (auto simp: shard_table_def)
  have "0 < nat k" using c by (simp add: good_codec_def)
  then have ne: "full \<noteq> []" "length (full ! 0) = ?ss"
    using kn len by (auto simp: list_all_length)
  have "trim_data full k (int (length dat)) = trim_loop full (int ?ss) (int (length dat)) [0..<nat k]"
    using ne pos by (simp add: trim_data_def Let_def)
  also have "\<dots> = take (length dat) (concat (take (nat k) full))"
    using trim_loop_concat [OF len(2), of "nat k" 0 "int (length dat)"] kn len(1) full(4,5)
    by (simp flip: of_nat_mult)
  also have "\<dots> = dat"
    unfolding full(3) init_shards_def by (rule copy_data_concat [OF kn full(5,4)])
  finally have trim: "trim_data full k (int (length dat)) = dat" .
  have "if nat k \<le> present some then reconstruct rs c some (int (length dat)) = Inr dat
        else \<exists>e. reconstruct rs c some (int (length dat)) = Inl e" if "survivors_of full some" for some
  proof (cases "nat k \<le> present some")
    case True
    with rec [OF that] reconstruct_run [OF c(1) full(2) that] trim c(2,3) show ?thesis by simp
  next
    case False
    with rec [OF that] c(2,3) show ?thesis by (auto simp: reconstruct_def)
  qed
  moreover have "length full = nat (k + m)" using len(1) c by (simp add: codec_n_def)
  moreover have "int (length s) = shard_size c (int (length dat))" if "s \<in> set full" for s
    using that len(2) cov(1) by (simp add: list_all_iff)
  ultimately show ?thesis using full(1) by blast
qed

text \<open>
  C24. Encoding a non-empty object yields \<open>k + m\<close> shards of the announced size, and any \<open>k\<close> of them, the
  others missing, reconstruct exactly the object; fewer than \<open>k\<close> never yield a wrong object but an
  error.
\<close>

theorem ec_roundtrip:
  assumes "new_codec rs k m = Inr c" "rs_correct rs k m" "dat \<noteq> []"
  shows "\<exists>full. encode rs c dat = Inr full \<and> length full = nat (k + m) \<and>
    (\<forall>s \<in> set full. int (length s) = shard_size c (int (length dat))) \<and>
    (\<forall>some. survivors_of full some \<longrightarrow>
       (if nat k \<le> present some then reconstruct rs c some (int (length dat)) = Inr dat
        else \<exists>e. reconstruct rs c some (int (length dat)) = Inl e))"
  using codec_roundtrip [OF assms] .

text \<open>The simplest code: one parity shard, the exclusive or of two data shards.\<close>

unbundle bit_operations_syntax

definition xor_shard :: "byte list \<Rightarrow> byte list \<Rightarrow> byte list" where
  "xor_shard s t = map2 (\<lambda>a b. a XOR b) s t"

fun xor_rebuild :: "byte list list \<Rightarrow> gerror + byte list list" where
  "xor_rebuild [a, b, p] =
     (if 1 < length (filter (\<lambda>s. s = []) [a, b, p]) then Inl (ErrMsg ''too few shards'')
      else if a = [] then Inr [xor_shard b p, b, p]
      else if b = [] then Inr [a, xor_shard a p, p]
      else Inr [a, b, xor_shard a b])"
| "xor_rebuild _ = Inl (ErrMsg ''wrong number of shards'')"

definition xor_lib :: rs_lib where
  "xor_lib = \<lparr>rs_new = (\<lambda>k m. None),
     rs_encode = (\<lambda>k m shards. Inr (take 2 shards @ [xor_shard (shards ! 0) (shards ! 1)])),
     rs_reconstruct = (\<lambda>k m. xor_rebuild),
     rs_verify = (\<lambda>k m shards. Inr (shards ! 2 = xor_shard (shards ! 0) (shards ! 1)))\<rparr>"

lemma xor_shard_cancel: "length s = length t \<Longrightarrow> xor_shard s (xor_shard s t) = t"
  by (induction s t rule: list_induct2) (auto simp: xor_shard_def xor.assoc [symmetric])

lemma xor_shard_comm: "xor_shard s t = xor_shard t s"
  unfolding xor_shard_def by (induction s t rule: list_induct2') (auto simp: xor.commute)

lemma xor_lib_correct: "rs_correct xor_lib 2 1"
  unfolding rs_correct_def
proof (intro allI impI)
  fix shards :: "byte list list" and ss
  assume ss: "0 < ss" and tab: "shard_table (nat (2 + 1)) ss shards"
  then have tab3: "shard_table 3 ss shards" by (simp add: nat_numeral)
  then obtain a b p where sh: "shards = [a, b, p]" "length a = ss" "length b = ss"
    by (auto simp: shard_table_def numeral_3_eq_3 length_Suc_conv)
  let ?full = "[a, b, xor_shard a b]"
  have nn: "a \<noteq> []" "b \<noteq> []" "xor_shard a b \<noteq> []" using ss sh by (auto simp: xor_shard_def zip_eq_Nil_iff)
  have x: "xor_shard b (xor_shard a b) = a" "xor_shard a (xor_shard a b) = b"
    using xor_shard_cancel [of b a] xor_shard_cancel [of a b] sh(2,3) by (simp_all add: xor_shard_comm [of a b])
  have "rs_encode xor_lib 2 1 shards = Inr ?full" by (simp add: xor_lib_def sh)
  moreover have "shard_table (nat (2 + 1)) ss ?full"
    using sh by (simp add: shard_table_def xor_shard_def nat_numeral)
  moreover have "take (nat 2) ?full = take (nat 2) shards" by (simp add: sh)
  moreover have "if nat 2 \<le> present some then rs_reconstruct xor_lib 2 1 some = Inr ?full
        else \<exists>e. rs_reconstruct xor_lib 2 1 some = Inl e" if "survivors_of ?full some" for some
  proof -
    from that obtain a' b' p' where s: "some = [a', b', p']" "a' = a \<or> a' = []" "b' = b \<or> b' = []"
      "p' = xor_shard a b \<or> p' = []"
      by (auto simp: survivors_of_def list_all2_Cons1)
    then show ?thesis using nn x by (auto simp: xor_lib_def present_def)
  qed
  ultimately show "\<exists>full. rs_encode xor_lib 2 1 shards = Inr full \<and> shard_table (nat (2 + 1)) ss full \<and>
      take (nat 2) full = take (nat 2) shards \<and>
      (\<forall>some. survivors_of full some \<longrightarrow>
         (if nat 2 \<le> present some then rs_reconstruct xor_lib 2 1 some = Inr full
          else \<exists>e. rs_reconstruct xor_lib 2 1 some = Inl e))"
    by blast
qed

theorem ec_roundtrip_witness:
  "\<exists>full. encode xor_lib \<lparr>cd_k = 2, cd_m = 1\<rparr> [1, 2, 3] = Inr full \<and> length full = nat (2 + 1) \<and>
    (\<forall>s \<in> set full. int (length s) = shard_size \<lparr>cd_k = 2, cd_m = 1\<rparr> (int (length [1, 2, 3 :: byte]))) \<and>
    (\<forall>some. survivors_of full some \<longrightarrow>
       (if nat 2 \<le> present some
        then reconstruct xor_lib \<lparr>cd_k = 2, cd_m = 1\<rparr> some (int (length [1, 2, 3 :: byte])) = Inr [1, 2, 3]
        else \<exists>e. reconstruct xor_lib \<lparr>cd_k = 2, cd_m = 1\<rparr> some (int (length [1, 2, 3 :: byte])) = Inl e))"
  by (rule ec_roundtrip [OF _ xor_lib_correct]) (simp_all add: new_codec_def xor_lib_def wrap64_def)

text \<open>
  An empty object does not survive: it is encoded into shards of one zero byte, and
  reconstructing it with its length 0 returns \<open>k\<close> zero bytes instead of nothing.
\<close>

theorem ec_empty_object:
  assumes "new_codec rs k m = Inr c" "rs_correct rs k m"
  shows "\<exists>full. encode rs c [] = Inr full \<and> (\<forall>s \<in> set full. length s = 1) \<and>
    reconstruct rs c full 0 = Inr (replicate (nat k) 0)"
proof -
  have c: "good_codec c" "cd_k c = k" "cd_m c = m" using new_codec_good [OF assms(1)] by auto
  have "shard_size c 0 = 0"
    using c shard_size_eq [OF c(1), of 0] by (simp add: good_codec_def)
  then have ss: "1 = (if nat (shard_size c (int (length ([] :: byte list)))) = 0 then 1
      else nat (shard_size c (int (length ([] :: byte list)))))" by simp
  obtain full where full: "encode rs c [] = Inr full" "shard_table (nat (codec_n c)) 1 full"
    "take (nat k) full = take (nat k) (init_shards c 1)"
    and rec: "\<And>some. survivors_of full some \<Longrightarrow>
       (if nat k \<le> present some then rs_reconstruct rs k m some = Inr full
        else \<exists>e. rs_reconstruct rs k m some = Inl e)"
    using encode_run [OF c(1) _ ss, of rs] assms(2) c(2,3) by auto
  have kn: "nat k \<le> nat (codec_n c)"
    using c by (intro nat_mono) (simp add: codec_n_def good_codec_def)
  have len: "length full = nat (codec_n c)" "list_all (\<lambda>s. length s = 1) full"
    using full(2) by (auto simp: shard_table_def)
  have surv: "survivors_of full full" by (simp add: survivors_of_def list_all2_refl)
  have "present full = length full"
    using len(2) by (auto simp: present_def list_all_iff intro!: arg_cong [where f = length] filter_True)
  with rec [OF surv] kn len(1) have "rs_reconstruct rs k m full = Inr full" by simp
  then have run: "reconstruct rs c full 0 = Inr (trim_data full k 0)"
    using reconstruct_run [OF c(1) full(2) surv] c(2,3) by simp
  have "map (\<lambda>i. full ! i) [0..<nat k] = take (nat k) full"
    using kn len(1) by (simp add: list_eq_iff_nth_eq)
  also have "\<dots> = replicate (nat k) [0]"
    using kn unfolding full(3) by (simp add: init_shards_def min_def)
  finally have "concat (map (\<lambda>i. full ! i) [0..<nat k]) = replicate (nat k) 0"
    by (simp add: concat_replicate_trivial)
  moreover have "full \<noteq> []" using len(1) kn c by (auto simp: good_codec_def)
  ultimately have "trim_data full k 0 = replicate (nat k) 0" by (simp add: trim_data_def Let_def)
  with full(1) run len(2) show ?thesis by (auto simp: list_all_iff)
qed

theorem ec_empty_object_witness:
  "\<exists>full. encode xor_lib \<lparr>cd_k = 2, cd_m = 1\<rparr> [] = Inr full \<and> (\<forall>s \<in> set full. length s = 1) \<and>
    reconstruct xor_lib \<lparr>cd_k = 2, cd_m = 1\<rparr> full 0 = Inr (replicate (nat 2) 0)"
  by (rule ec_empty_object [OF _ xor_lib_correct]) (simp add: new_codec_def xor_lib_def wrap64_def)

end
