(* ===== verification/ECManager.thy ===== *)
theory ECManager
  imports ECCodec Service
begin

text \<open>
  The erasure-coding manager of the leader (\<open>internal/replication/ec/manager.go\<close>): it spreads an
  object over the nodes as the shards of the codec, reads it back from any \<open>k\<close> of them, and repairs
  objects with shards missing.  The address \<open>[]\<close> stands for the node itself, as in the code.

  The metadata requests run in parallel goroutines; \<open>arrive\<close> is the order in which their answers
  come back.
\<close>

record ec_manager =
  em_rs :: rs_lib
  em_codec :: codec
  em_min_age :: int
  em_min_size :: int

text \<open>\<open>io.ReadAll\<close>.\<close>

definition drain :: "stream \<Rightarrow> byte list world_io" where
  "drain st = (case st_err st of Some e \<Rightarrow> failE e | None \<Rightarrow> retE (st_bytes st))"

section \<open>Conversion\<close>

definition ec_meta :: "codec \<Rightarrow> int \<Rightarrow> object_meta \<Rightarrow> object_meta" where
  "ec_meta c ss m =
     m\<lparr>om_storage_mode := StorageModeEC, om_ec_params := \<lparr>ec_k = cd_k c, ec_m = cd_m c, ec_shard_size = ss\<rparr>\<rparr>"

text \<open>One shard to one node.\<close>

definition put_shard_at ::
    "string \<Rightarrow> string \<Rightarrow> int \<Rightarrow> byte list \<Rightarrow> int \<Rightarrow> object_meta \<Rightarrow> string \<Rightarrow> unit world_io" where
  "put_shard_at bucket key i shard sz meta target =
     (if target = []
      then wrapE (''write local shard '' @ itoa i)
             (local (\<lambda>root ev. put_ec_shard root ev bucket key i (bytes_stream shard) sz meta))
      else wrapE (''push shard '' @ itoa i @ '' to '' @ target)
             (client_put_ec_shard target bucket key i meta (bytes_stream shard) sz))"

definition distribute_shards ::
    "string \<Rightarrow> string \<Rightarrow> byte list list \<Rightarrow> int \<Rightarrow> object_meta \<Rightarrow> string list \<Rightarrow> unit world_io" where
  "distribute_shards bucket key shards sz meta targets =
     forE (List.enumerate 0 targets) (\<lambda>(i, target).
       put_shard_at bucket key (int i) (shards ! i) sz (meta\<lparr>om_ec_chunk_index := int i\<rparr>) target)"

text \<open>Errors are collected, the first is the result.\<close>

fun remove_replicas :: "string \<Rightarrow> string \<Rightarrow> string list \<Rightarrow> world \<Rightarrow> gerror option \<times> world" where
  "remove_replicas bucket key [] w = (None, w)"
| "remove_replicas bucket key (addr # rest) w =
     (case client_remove_replica_data addr bucket key w of
        (r, w1) \<Rightarrow>
          (case remove_replicas bucket key rest w1 of
             (e, w2) \<Rightarrow> (case r of Inl e1 \<Rightarrow> Some e1 | Inr _ \<Rightarrow> e, w2)))"

definition remove_replica_from_all_nodes ::
    "string \<Rightarrow> string \<Rightarrow> string list \<Rightarrow> world \<Rightarrow> gerror option \<times> world" where
  "remove_replica_from_all_nodes bucket key followers w =
     (case local (\<lambda>root ev. remove_replica_data root bucket key) w of
        (r, w1) \<Rightarrow>
          (case remove_replicas bucket key followers w1 of
             (e, w2) \<Rightarrow> (case r of Inl e1 \<Rightarrow> Some e1 | Inr _ \<Rightarrow> e, w2)))"

text \<open>The shards are on their nodes; the replicas' data goes, and an error there is only logged.\<close>

definition ec_targets :: "codec \<Rightarrow> string list \<Rightarrow> gerror + string list" where
  "ec_targets c followers =
     (let targets = [] # followers in
      if int (length targets) < codec_n c
      then Inl (ErrMsg (''not enough nodes: have '' @ itoa (int (length targets)) @ '', need '' @ itoa (codec_n c)))
      else Inr (take (nat (codec_n c)) targets))"

definition convert_to_ec :: "ec_manager \<Rightarrow> string \<Rightarrow> string \<Rightarrow> unit world_io" where
  "convert_to_ec em bucket key =
     bindE (wrapE ''read object'' (local (\<lambda>root ev. get_object root bucket key))) (\<lambda>(st, meta).
     bindE (wrapE ''read object body'' (drain st)) (\<lambda>dat.
     case encode (em_rs em) (em_codec em) dat of
       Inl e \<Rightarrow> failE (Wrapped ''encode'' e)
     | Inr shards \<Rightarrow> (\<lambda>w.
         (let ss = int (length (shards ! 0)); followers = alive_followers w in
          case ec_targets (em_codec em) followers of
            Inl e \<Rightarrow> (Inl e, w)
          | Inr targets \<Rightarrow>
              bindE (distribute_shards bucket key shards ss (ec_meta (em_codec em) ss meta) targets)
                (\<lambda>_ w1. (Inr (), snd (remove_replica_from_all_nodes bucket key followers w1))) w))))"

text \<open>Which objects the background loop converts.\<close>

definition ec_eligible :: "ec_manager \<Rightarrow> int \<Rightarrow> object_meta \<Rightarrow> bool" where
  "ec_eligible em now m \<longleftrightarrow>
     \<not> is_ec m \<and> em_min_size em \<le> om_content_length m \<and> em_min_age em \<le> now - om_modified_at m"

text \<open>The objects of all buckets, with an action on those whose metadata passes a test.\<close>

definition scan_object :: "(int \<Rightarrow> object_meta \<Rightarrow> bool) \<Rightarrow> (string \<Rightarrow> string \<Rightarrow> unit world_io) \<Rightarrow>
    string \<Rightarrow> string \<Rightarrow> unit world_io" where
  "scan_object wanted act bucket key =
     ignoreE (bindE (local (\<lambda>root ev. get_object_meta root bucket key)) (\<lambda>m w.
       if wanted (w_now w) m then act bucket key w else (Inr (), w)))"

definition scan_objects ::
    "(int \<Rightarrow> object_meta \<Rightarrow> bool) \<Rightarrow> (string \<Rightarrow> string \<Rightarrow> unit world_io) \<Rightarrow> string list \<Rightarrow> unit world_io" where
  "scan_objects wanted act bs = forE bs (\<lambda>b. ignoreE
     (bindE (local (\<lambda>root ev. list_objects_v2 root b [] [] [] 1000000)) (\<lambda>res.
        forE (lr_contents res) (\<lambda>c. scan_object wanted act b (oi_key c)))))"

definition scan_and_convert :: "ec_manager \<Rightarrow> unit world_io" where
  "scan_and_convert em =
     bindE (wrapE ''list buckets'' (local (\<lambda>root ev. list_buckets root))) (\<lambda>bs w.
       if int (length (alive_followers w) + 1) < codec_n (em_codec em) then (Inr (), w)
       else scan_objects (ec_eligible em) (convert_to_ec em) bs w)"

text \<open>One tick of a background loop.\<close>

definition leader_tick :: "unit world_io \<Rightarrow> world \<Rightarrow> world" where
  "leader_tick scan w = (if mgr_is_leader (w_now w) (sr_mgr (w_self w)) then snd (scan w) else w)"

section \<open>Finding the shards\<close>

type_synonym ec_answer = "string \<times> (gerror + object_meta)"

definition ask_ec_meta :: "string \<Rightarrow> string \<Rightarrow> string \<Rightarrow> object_meta world_io" where
  "ask_ec_meta bucket key addr =
     (if addr = [] then local (\<lambda>root ev. get_object_meta root bucket key)
      else client_get_ec_meta addr bucket key)"

fun ask_all :: "string \<Rightarrow> string \<Rightarrow> string list \<Rightarrow> world \<Rightarrow> ec_answer list \<times> world" where
  "ask_all bucket key [] w = ([], w)"
| "ask_all bucket key (addr # rest) w =
     (case ask_ec_meta bucket key addr w of
        (r, w1) \<Rightarrow> (case ask_all bucket key rest w1 of (rs, w2) \<Rightarrow> ((addr, r) # rs, w2)))"

text \<open>The shard index a node's metadata names, to the node's address; a later answer replaces an earlier one.\<close>

definition claims_shard :: "int \<Rightarrow> int \<Rightarrow> object_meta \<Rightarrow> bool" where
  "claims_shard k m meta \<longleftrightarrow> is_ec meta \<and> ec_k (om_ec_params meta) = k \<and> ec_m (om_ec_params meta) = m"

definition shard_locations :: "int \<Rightarrow> int \<Rightarrow> ec_answer list \<Rightarrow> (int \<times> string) list" where
  "shard_locations k m answers =
     foldl (\<lambda>locs (addr, r). case r of
         Inl _ \<Rightarrow> locs
       | Inr meta \<Rightarrow> if claims_shard k m meta then AList.update (om_ec_chunk_index meta) addr locs else locs) [] answers"

section \<open>Downloading and reading\<close>

definition get_shard_at :: "string \<Rightarrow> string \<Rightarrow> int \<Rightarrow> string \<Rightarrow> byte list world_io" where
  "get_shard_at bucket key i addr =
     bindE (if addr = [] then local (\<lambda>root ev. get_ec_shard root bucket key i)
            else client_get_ec_shard addr bucket key i) drain"

text \<open>The loop over the indexes, until \<open>k\<close> shards are there.\<close>

fun download_shards ::
    "string \<Rightarrow> string \<Rightarrow> int \<Rightarrow> (int \<times> string) list \<Rightarrow> nat list \<Rightarrow> int \<Rightarrow> byte list list \<Rightarrow> world \<Rightarrow>
     (int \<times> byte list list) \<times> world" where
  "download_shards bucket key k locs [] got shards w = ((got, shards), w)"
| "download_shards bucket key k locs (i # is) got shards w =
     (if k \<le> got then ((got, shards), w)
      else case map_of locs (int i) of
        None \<Rightarrow> download_shards bucket key k locs is got shards w
      | Some addr \<Rightarrow>
          (case get_shard_at bucket key (int i) addr w of
             (Inl _, w1) \<Rightarrow> download_shards bucket key k locs is got shards w1
           | (Inr bs, w1) \<Rightarrow> download_shards bucket key k locs is (got + 1) (shards[i := bs]) w1))"

definition count_error :: "string \<Rightarrow> int \<Rightarrow> int \<Rightarrow> string \<Rightarrow> gerror" where
  "count_error msg got k tail = ErrMsg (msg @ itoa got @ '', need '' @ itoa k @ tail)"

definition find_shards ::
    "(ec_answer list \<Rightarrow> ec_answer list) \<Rightarrow> string \<Rightarrow> string \<Rightarrow> object_meta \<Rightarrow> world \<Rightarrow> (int \<times> string) list \<times> world" where
  "find_shards arrive bucket key m w =
     (case ask_all bucket key ([] # known_followers w) w of
        (answers, w1) \<Rightarrow> (shard_locations (ec_k (om_ec_params m)) (ec_m (om_ec_params m)) (arrive answers), w1))"

definition fetch_shards ::
    "string \<Rightarrow> string \<Rightarrow> object_meta \<Rightarrow> (int \<times> string) list \<Rightarrow> world \<Rightarrow> (int \<times> byte list list) \<times> world" where
  "fetch_shards bucket key m locs =
     (let k = ec_k (om_ec_params m); n = nat (k + ec_m (om_ec_params m)) in
      download_shards bucket key k locs [0..<n] 0 (replicate n []))"

definition read_ec_object :: "ec_manager \<Rightarrow> (ec_answer list \<Rightarrow> ec_answer list) \<Rightarrow> ec_reader" where
  "read_ec_object em arrive bucket key =
     bindE (wrapE ''get local meta'' (local (\<lambda>root ev. get_object_meta root bucket key))) (\<lambda>m.
     if \<not> is_ec m then local (\<lambda>root ev. get_object root bucket key)
     else (\<lambda>w. case find_shards arrive bucket key m w of
       (locs, w1) \<Rightarrow>
         (let k = ec_k (om_ec_params m) in
          if int (length locs) < k then (Inl (count_error ''insufficient shards: have '' (int (length locs)) k []), w1)
          else case fetch_shards bucket key m locs w1 of
            ((got, shards), w2) \<Rightarrow>
              if got < k then (Inl (count_error ''failed to download enough shards: got '' got k []), w2)
              else (case reconstruct (em_rs em) (em_codec em) shards (om_content_length m) of
                Inl e \<Rightarrow> (Inl (Wrapped ''reconstruct'' e), w2)
              | Inr dat \<Rightarrow> (Inr (bytes_stream dat, m), w2)))))"

section \<open>Repair\<close>

text \<open>\<open>Reconstruct\<close> fills the slice it is given; this is what it holds afterwards.\<close>

definition filled_shards :: "rs_lib \<Rightarrow> codec \<Rightarrow> byte list list \<Rightarrow> byte list list" where
  "filled_shards rs c shards =
     (case rs_reconstruct rs (cd_k c) (cd_m c) shards of Inl _ \<Rightarrow> shards | Inr full \<Rightarrow> full)"

text \<open>The missing indexes in order, paired with the nodes in order: the node itself first, whether or
  not it has a shard already.  A shard that cannot be written is only logged.\<close>

definition repair_plan :: "int \<Rightarrow> (int \<times> string) list \<Rightarrow> string list \<Rightarrow> (nat \<times> string) list" where
  "repair_plan n locs nodes = zip (filter (\<lambda>i. map_of locs (int i) = None) [0..<nat n]) nodes"

definition push_repaired ::
    "string \<Rightarrow> string \<Rightarrow> byte list list \<Rightarrow> object_meta \<Rightarrow> (nat \<times> string) list \<Rightarrow> unit world_io" where
  "push_repaired bucket key shards m plan =
     forE plan (\<lambda>(i, target). ignoreE
       (put_shard_at bucket key (int i) (shards ! i) (int (length (shards ! i))) (m\<lparr>om_ec_chunk_index := int i\<rparr>) target))"

definition repair_ec_object :: "ec_manager \<Rightarrow> (ec_answer list \<Rightarrow> ec_answer list) \<Rightarrow> string \<Rightarrow> string \<Rightarrow> unit world_io" where
  "repair_ec_object em arrive bucket key =
     bindE (wrapE ''get local meta'' (local (\<lambda>root ev. get_object_meta root bucket key))) (\<lambda>m.
     if \<not> is_ec m then retE ()
     else (\<lambda>w. case find_shards arrive bucket key m w of
       (locs, w1) \<Rightarrow>
         (let k = ec_k (om_ec_params m); n = k + ec_m (om_ec_params m) in
          if n \<le> int (length locs) then (Inr (), w1)
          else if int (length locs) < k
          then (Inl (count_error ''cannot repair: insufficient shards (have '' (int (length locs)) k '')''), w1)
          else case fetch_shards bucket key m locs w1 of
            ((got, shards), w2) \<Rightarrow>
              if got < k then (Inl (count_error ''failed to download enough shards for repair: got '' got k []), w2)
              else (case reconstruct (em_rs em) (em_codec em) shards (om_content_length m) of
                Inl e \<Rightarrow> (Inl (Wrapped ''reconstruct for repair'' e), w2)
              | Inr _ \<Rightarrow>
                  push_repaired bucket key (filled_shards (em_rs em) (em_codec em) shards) m
                    (repair_plan n locs ([] # known_followers w)) w2))))"

definition scan_and_repair :: "ec_manager \<Rightarrow> (ec_answer list \<Rightarrow> ec_answer list) \<Rightarrow> unit world_io" where
  "scan_and_repair em arrive =
     bindE (wrapE ''list buckets'' (local (\<lambda>root ev. list_buckets root))) (\<lambda>bs.
       scan_objects (\<lambda>_. is_ec) (repair_ec_object em arrive) bs)"

end
