(* ===== verification/ECRead.thy ===== *)
theory ECRead
  imports ECManager SyncFacts
begin

text \<open>
  Reading an erasure-coded object back: the requests it sends change no node, whatever the network
  does to them the answer is never wrong, and \<open>k\<close> shards that can be reached are enough.
\<close>

section \<open>Requests that only read\<close>

definition still :: "world \<Rightarrow> world \<Rightarrow> bool" where
  "still w w' \<longleftrightarrow> w_self w' = w_self w \<and> w_net w' = w_net w \<and> (\<forall>a. peer w' a = peer w a)"

lemma still_refl [simp]: "still w w" "still w (tick w)"
  by (simp_all add: still_def tick_def peer_def)

lemma still_trans [trans]: "still w1 w2 \<Longrightarrow> still w2 w3 \<Longrightarrow> still w1 w3"
  by (simp add: still_def)

lemma deliver_net: "deliver addr rq sr w = (rs, w') \<Longrightarrow> w_net w' = w_net w"
  by (auto simp: deliver_def tick_def split: prod.splits)

lemma call_net: "w_net (snd (call addr rq w)) = w_net w"
  by (auto simp: call_def tick_def deliver_def split: option.split fate.split prod.split)

lemma call_still:
  assumes "call addr rq w = (r, w')" "\<And>rq' sr. rq_path rq' = rq_path rq \<Longrightarrow> snd (serve (now_env w) rq' sr) = sr"
  shows "still w w'"
proof -
  have "focus addr w w'" "rel_option (=) (peer w addr) (peer w' addr)"
    by (rule call_reach [OF assms(1)]; use assms(2) arrivals_fields(1) in simp)+
  moreover have "w_net w' = w_net w" using call_net [of addr rq w] assms(1) by simp
  ultimately have "w_net w' = w_net w" "w_self w' = w_self w" "peer w' a = peer w a" for a
    by (cases "a = addr"; simp add: focus_def option.rel_eq)+
  then show ?thesis by (simp add: still_def)
qed

lemma local_still:
  assumes "local m w = (r, w')" "\<And>root ev fs. snd (m root ev fs) = fs"
  shows "still w w'" "r = fst (m (sr_root (w_self w)) (now_env w) (sr_fs (w_self w)))"
proof -
  from assms(1) obtain fs where l: "m (sr_root (w_self w)) (now_env w) (sr_fs (w_self w)) = (r, fs)"
    and w': "w' = tick (w\<lparr>w_self := (w_self w)\<lparr>sr_fs := fs\<rparr>\<rparr>)" by (auto simp: local_run)
  from l assms(2) [of "sr_root (w_self w)" "now_env w" "sr_fs (w_self w)"] have "fs = sr_fs (w_self w)" by simp
  with w' show "still w w'" by (simp add: still_def tick_def peer_def)
  from l show "r = fst (m (sr_root (w_self w)) (now_env w) (sr_fs (w_self w)))" by simp
qed

text \<open>What a node has of an object: its metadata, and a shard that reads to the end.\<close>

definition sr_meta :: "server \<Rightarrow> string \<Rightarrow> string \<Rightarrow> object_meta option" where
  "sr_meta sr b k = (case fst (get_object_meta (sr_root sr) b k (sr_fs sr)) of Inl _ \<Rightarrow> None | Inr m \<Rightarrow> Some m)"

definition sr_shard :: "server \<Rightarrow> string \<Rightarrow> string \<Rightarrow> int \<Rightarrow> byte list option" where
  "sr_shard sr b k i =
     (case fst (get_ec_shard (sr_root sr) b k i (sr_fs sr)) of
        Inl _ \<Rightarrow> None | Inr st \<Rightarrow> if st_err st = None then Some (st_bytes st) else None)"

definition node_at :: "world \<Rightarrow> string \<Rightarrow> server option" where
  "node_at w addr = (if addr = [] then Some (w_self w) else peer w addr)"

lemma still_node: "still w w' \<Longrightarrow> node_at w' a = node_at w a"
  by (simp add: still_def node_at_def)

lemma get_ec_shard_still [simp]: "snd (get_ec_shard root b k i fs) = fs"
  by (simp add: get_ec_shard_def open_stream_def os_open_def bindE_def retE_def split: option.split)

lemma storage_reply_read:
  "(\<And>root fs. snd (m root fs) = fs) \<Longrightarrow> snd (storage_reply bad ok m sr) = sr"
  by (simp add: storage_reply_def on_storage_def split_beta split: sum.split)

lemma ec_mux:
  "rq_path rq = ''/internal/ec-meta'' \<Longrightarrow> mux ev rq sr = handle_ec_meta ev rq sr"
  "rq_path rq = ''/internal/ec-shard'' \<Longrightarrow> mux ev rq sr = handle_ec_shard ev rq sr"
  by (simp_all add: mux_def routes_def)

lemma handle_ec_reads: "snd (handle_ec_meta ev rq sr) = sr" "snd (handle_ec_shard ev rq sr) = sr"
  by (simp_all add: storage_reply_read handle_ec_meta_def handle_ec_shard_def only_def with_object_def with_shard_def
      bad_request_def Let_def split: option.split)

lemma serve_reads:
  assumes "rq_path rq = ''/internal/ec-meta'' \<or> rq_path rq = ''/internal/ec-shard''"
  shows "snd (serve ev rq sr) = sr"
  using assms by (elim disjE) (simp_all add: serve_def ec_mux handle_ec_reads)

section \<open>One request\<close>

lemma expect_ok_still: "(\<And>rs u. snd (k rs u) = u) \<Longrightarrow> expect_ok err k rs w = (r, w') \<Longrightarrow> w' = w"
  by (metis expect_ok_world snd_conv)

lemma client_read_still:
  assumes "bindE (call addr rq) (expect_ok err k) w = (r, w')" "\<And>rs u. snd (k rs u) = u"
    and "rq_path rq = ''/internal/ec-meta'' \<or> rq_path rq = ''/internal/ec-shard''"
  shows "still w w'"
proof -
  from assms(1) obtain r1 w1 where c: "call addr rq w = (r1, w1)" and w': "w' = w1"
    using assms(2) by (auto simp: bindE_def expect_ok_def failE_def split: prod.splits sum.splits if_splits)
      (metis snd_conv)
  from c show ?thesis unfolding w' by (rule call_still) (use assms(3) serve_reads in simp)
qed

lemma payload_world [simp]:
  "snd ((case p of MetaJson m \<Rightarrow> retE m | _ \<Rightarrow> bad_json) u) = u"
  "snd ((case p of ShardBytes st \<Rightarrow> retE st | _ \<Rightarrow> bad_json) u) = u"
  by (simp_all add: retE_def bad_json_def failE_def split: payload.split)

lemma client_get_ec_meta_still: "client_get_ec_meta addr b k w = (r, w') \<Longrightarrow> still w w'"
  unfolding client_get_ec_meta_def by (erule client_read_still) simp_all

lemma client_get_ec_shard_still: "client_get_ec_shard addr b k i w = (r, w') \<Longrightarrow> still w w'"
  unfolding client_get_ec_shard_def by (erule client_read_still) simp_all

text \<open>What a request that is answered says about the node.\<close>

lemma qget_object [simp]:
  assumes "rq_query rq = object_query b k"
  shows "qget rq ''bucket'' = b" "qget rq ''key'' = k"
  by (simp_all add: assms qget_def lookup_def object_query_def)

lemma qget_shard [simp]:
  assumes "rq_query rq = shard_query b k i"
  shows "qget rq ''bucket'' = b" "qget rq ''key'' = k" "qget rq ''shard_index'' = itoa i"
  by (simp_all add: assms qget_def lookup_def object_query_def shard_query_def)

lemma storage_reply_fst:
  "fst (storage_reply bad ok m sr) =
     (case fst (m (sr_root sr) (sr_fs sr)) of Inl e \<Rightarrow> reply bad (ErrText (err_text e)) | Inr a \<Rightarrow> reply 200 (ok a))"
  by (simp add: storage_reply_def on_storage_def split_beta split: sum.split)

lemma handle_ec_meta_run:
  assumes "rq_method rq = ''GET''" "rq_query rq = object_query b k"
  shows "fst (handle_ec_meta ev rq sr) =
    (if b = [] \<or> k = [] then reply 400 (ErrText no_object_query)
     else case fst (get_object_meta (sr_root sr) b k (sr_fs sr)) of
       Inl e \<Rightarrow> reply 404 (ErrText (err_text e)) | Inr m \<Rightarrow> reply 200 (MetaJson m))"
  by (simp add: assms(1) qget_object [OF assms(2)] handle_ec_meta_def only_def with_object_def bad_request_def
      storage_reply_fst)

lemma handle_ec_shard_run:
  assumes "rq_method rq = ''GET''" "rq_query rq = shard_query b k i" "int64_ok i"
  shows "fst (handle_ec_shard ev rq sr) =
    (if b = [] \<or> k = [] then reply 400 (ErrText ''Missing bucket, key, or shard_index query parameter'')
     else case fst (get_ec_shard (sr_root sr) b k i (sr_fs sr)) of
       Inl e \<Rightarrow> reply 404 (ErrText (err_text e)) | Inr st \<Rightarrow> reply 200 (ShardBytes st))"
  by (simp add: assms(1) qget_shard [OF assms(2)] atoi_itoa [OF assms(3)] handle_ec_shard_def only_def
      with_shard_def bad_request_def storage_reply_fst)

lemma client_get_ec_meta_ok:
  assumes "client_get_ec_meta addr b k w = (Inr m, w')"
  shows "\<exists>sr. peer w addr = Some sr \<and> sr_meta sr b k = Some m"
proof -
  let ?rq = "request w ''GET'' ''/internal/ec-meta'' (object_query b k)"
  from assms obtain rs w1 where c: "call addr ?rq w = (Inr rs, w1)" and
    rest: "expect_ok (status_error ''ec-meta'' addr) (\<lambda>rs. case rs_payload rs of MetaJson m \<Rightarrow> retE m | _ \<Rightarrow> bad_json) rs w1 = (Inr m, w')"
    unfolding client_get_ec_meta_def by (rule bindE_okE)
  from rest have ok: "rs_status rs = 200" "rs_payload rs = MetaJson m"
    by (auto simp: expect_ok_def bad_json_def split: if_splits payload.splits)
  let ?sv = "\<lambda>sr. fst (serve (now_env w) (wire ?rq) sr)"
  from c obtain sr where sr: "peer w addr = Some sr" "rs_status rs = rs_status (?sv sr)"
    "rs_payload rs = rs_payload (?sv sr) \<or> (\<exists>n. rs_payload rs = cut_payload n (rs_payload (?sv sr)))"
    by (rule call_ok)
  have "?sv sr = fst (handle_ec_meta (now_env w) (wire ?rq) sr)"
    using serve_token [of "now_env w" "wire ?rq" sr] sr(2) ok(1) by (simp add: ec_mux)
  note run = this [unfolded handle_ec_meta_run [of "wire ?rq" b k, simplified]]
  have "rs_payload (?sv sr) = MetaJson m" using sr(3) ok(2) by (cases "rs_payload (?sv sr)") auto
  with run sr(1) show ?thesis by (auto simp: sr_meta_def reply_def split: if_splits sum.splits)
qed

lemma client_get_ec_shard_ok:
  assumes "client_get_ec_shard addr b k i w = (Inr st, w')" "int64_ok i" "st_err st = None"
  shows "\<exists>sr. peer w addr = Some sr \<and> sr_shard sr b k i = Some (st_bytes st)"
proof -
  let ?rq = "request w ''GET'' ''/internal/ec-shard'' (shard_query b k i)"
  from assms(1) obtain rs w1 where c: "call addr ?rq w = (Inr rs, w1)" and
    rest: "expect_ok (status_error ''ec-shard'' addr) (\<lambda>rs. case rs_payload rs of ShardBytes st \<Rightarrow> retE st | _ \<Rightarrow> bad_json) rs w1 = (Inr st, w')"
    unfolding client_get_ec_shard_def by (rule bindE_okE)
  from rest have ok: "rs_status rs = 200" "rs_payload rs = ShardBytes st"
    by (auto simp: expect_ok_def bad_json_def split: if_splits payload.splits)
  let ?sv = "\<lambda>sr. fst (serve (now_env w) (wire ?rq) sr)"
  from c obtain sr where sr: "peer w addr = Some sr" "rs_status rs = rs_status (?sv sr)"
    "rs_payload rs = rs_payload (?sv sr) \<or> (\<exists>n. rs_payload rs = cut_payload n (rs_payload (?sv sr)))"
    by (rule call_ok)
  have "?sv sr = fst (handle_ec_shard (now_env w) (wire ?rq) sr)"
    using serve_token [of "now_env w" "wire ?rq" sr] sr(2) ok(1) by (simp add: ec_mux)
  note run = this [unfolded handle_ec_shard_run [of "wire ?rq" b k i, simplified, OF assms(2)]]
  have "rs_payload (?sv sr) = ShardBytes st"
    using sr(3) ok(2) assms(3) by (cases "rs_payload (?sv sr)") (auto simp: cut_stream_def)
  with run sr(1) assms(3) show ?thesis by (auto simp: sr_shard_def reply_def split: if_splits sum.splits)
qed

text \<open>A node that can be reached and shares the cluster token answers.\<close>

definition good_token :: "string \<Rightarrow> bool" where
  "good_token t \<longleftrightarrow> list_all header_char_ok t \<and> header_trim t = t"

definition responsive :: "world \<Rightarrow> bool" where
  "responsive w \<longleftrightarrow> w_net w = (\<lambda>_. Delivered) \<and> good_token (sr_token (w_self w)) \<and>
     (\<forall>a sr. peer w a = Some sr \<longrightarrow> sr_token sr = sr_token (w_self w))"

lemma still_responsive: "still w w' \<Longrightarrow> responsive w' \<longleftrightarrow> responsive w"
  by (simp add: still_def responsive_def)

lemma call_delivered:
  assumes "responsive w" "peer w addr = Some sr"
  shows "\<exists>w'. call addr (request w meth path q) w =
    (Inr (fst (mux (now_env w) (wire (request w meth path q)) sr)), w')"
proof -
  let ?rq = "request w meth path q"
  have "headers_ok ?rq" using assms(1) by (simp add: responsive_def headers_ok_def good_token_def)
  moreover have "hget (wire ?rq) ''X-MicroS3-Token'' = sr_token sr"
    using assms by (simp add: responsive_def good_token_def hget_def lookup_def wire_def)
  ultimately show ?thesis
    using assms by (simp add: call_def peer_def responsive_def deliver_def serve_def split_beta)
qed

lemma client_get_ec_meta_answers:
  assumes "responsive w" "peer w addr = Some sr" "sr_meta sr b k = Some m" "b \<noteq> []" "k \<noteq> []"
  shows "fst (client_get_ec_meta addr b k w) = Inr m"
proof -
  let ?rq = "request w ''GET'' ''/internal/ec-meta'' (object_query b k)"
  have "fst (get_object_meta (sr_root sr) b k (sr_fs sr)) = Inr m"
    using assms(3) by (auto simp: sr_meta_def split: sum.splits)
  then have "fst (mux (now_env w) (wire ?rq) sr) = reply 200 (MetaJson m)"
    using assms(4,5) handle_ec_meta_run [of "wire ?rq" b k "now_env w" sr] by (simp add: ec_mux)
  with call_delivered [OF assms(1,2), of "''GET''" "''/internal/ec-meta''" "object_query b k"]
  show ?thesis by (auto simp: client_get_ec_meta_def bindE_def expect_ok_def reply_def retE_def)
qed

lemma client_get_ec_shard_answers:
  assumes "responsive w" "peer w addr = Some sr" "sr_shard sr b k i = Some bs" "b \<noteq> []" "k \<noteq> []" "int64_ok i"
  shows "fst (client_get_ec_shard addr b k i w) = Inr (bytes_stream bs)"
proof -
  let ?rq = "request w ''GET'' ''/internal/ec-shard'' (shard_query b k i)"
  have "fst (get_ec_shard (sr_root sr) b k i (sr_fs sr)) = Inr (bytes_stream bs)"
    using assms(3) by (auto simp: sr_shard_def bytes_stream_def split: sum.splits if_splits)
  then have "fst (mux (now_env w) (wire ?rq) sr) = reply 200 (ShardBytes (bytes_stream bs))"
    using assms(4,5) handle_ec_shard_run [of "wire ?rq" b k i "now_env w" sr] assms(6) by (simp add: ec_mux)
  with call_delivered [OF assms(1,2), of "''GET''" "''/internal/ec-shard''" "shard_query b k i"]
  show ?thesis by (auto simp: client_get_ec_shard_def bindE_def expect_ok_def reply_def retE_def)
qed

section \<open>Any node\<close>

lemma local_meta_run:
  "fst (local (\<lambda>root ev. get_object_meta root b k) w) = fst (get_object_meta (sr_root (w_self w)) b k (sr_fs (w_self w)))"
  "fst (local (\<lambda>root ev. get_ec_shard root b k i) w) = fst (get_ec_shard (sr_root (w_self w)) b k i (sr_fs (w_self w)))"
  by (simp_all add: local_def on_storage_def split_beta)

lemma ask_ec_meta_still: "ask_ec_meta b k addr w = (r, w') \<Longrightarrow> still w w'"
  by (cases "addr = []") (auto simp: ask_ec_meta_def dest: client_get_ec_meta_still local_still(1))

lemma ask_ec_meta_ok:
  assumes "ask_ec_meta b k addr w = (Inr m, w')"
  shows "\<exists>sr. node_at w addr = Some sr \<and> sr_meta sr b k = Some m"
proof (cases "addr = []")
  case True
  then have "fst (get_object_meta (sr_root (w_self w)) b k (sr_fs (w_self w))) = Inr m"
    using assms by (simp add: ask_ec_meta_def flip: local_meta_run(1))
  then show ?thesis using True by (simp add: node_at_def sr_meta_def)
next
  case False
  then show ?thesis using assms client_get_ec_meta_ok by (simp add: ask_ec_meta_def node_at_def)
qed

lemma ask_ec_meta_answers:
  assumes "responsive w" "node_at w addr = Some sr" "sr_meta sr b k = Some m" "b \<noteq> []" "k \<noteq> []"
  shows "fst (ask_ec_meta b k addr w) = Inr m"
proof (cases "addr = []")
  case True
  then show ?thesis
    using assms(2,3) local_meta_run(1) [of b k w]
    by (auto simp: ask_ec_meta_def node_at_def sr_meta_def split: sum.splits)
next
  case False
  then show ?thesis using assms client_get_ec_meta_answers by (simp add: ask_ec_meta_def node_at_def)
qed

lemma drain_run: "drain st w = (r, w') \<longleftrightarrow> w' = w \<and> r = (case st_err st of None \<Rightarrow> Inr (st_bytes st) | Some e \<Rightarrow> Inl e)"
  by (auto simp: drain_def retE_def failE_def split: option.splits)

lemma get_shard_at_still: "get_shard_at b k i addr w = (r, w') \<Longrightarrow> still w w'"
proof -
  let ?m = "if addr = [] then local (\<lambda>root ev. get_ec_shard root b k i) else client_get_ec_shard addr b k i"
  assume "get_shard_at b k i addr w = (r, w')"
  then have "w' = snd (?m w)"
    by (auto simp: get_shard_at_def bindE_def drain_run split: prod.splits sum.splits)
  moreover have "still w (snd (?m w))"
    using client_get_ec_shard_still [of addr b k i w, OF surjective_pairing]
      local_still(1) [of "\<lambda>root ev. get_ec_shard root b k i" w, OF surjective_pairing] by simp
  ultimately show "still w w'" by simp
qed

lemma get_shard_at_ok:
  assumes "get_shard_at b k i addr w = (Inr bs, w')" "int64_ok i"
  shows "\<exists>sr. node_at w addr = Some sr \<and> sr_shard sr b k i = Some bs"
proof -
  from assms(1) obtain st w1 where g: "(if addr = [] then local (\<lambda>root ev. get_ec_shard root b k i)
      else client_get_ec_shard addr b k i) w = (Inr st, w1)" and d: "st_err st = None" "bs = st_bytes st"
    unfolding get_shard_at_def by (auto elim!: bindE_okE simp: drain_run split: option.splits)
  show ?thesis
  proof (cases "addr = []")
    case True
    then have "fst (get_ec_shard (sr_root (w_self w)) b k i (sr_fs (w_self w))) = Inr st"
      using g by (simp flip: local_meta_run(2))
    then show ?thesis using True d by (simp add: node_at_def sr_shard_def)
  next
    case False
    then show ?thesis using g d client_get_ec_shard_ok [OF _ assms(2)] by (simp add: node_at_def)
  qed
qed

lemma get_shard_at_answers:
  assumes "responsive w" "node_at w addr = Some sr" "sr_shard sr b k i = Some bs" "b \<noteq> []" "k \<noteq> []" "int64_ok i"
  shows "fst (get_shard_at b k i addr w) = Inr bs"
proof -
  let ?m = "if addr = [] then local (\<lambda>root ev. get_ec_shard root b k i) else client_get_ec_shard addr b k i"
  have "fst (?m w) = Inr (bytes_stream bs)"
  proof (cases "addr = []")
    case True
    then show ?thesis using assms(2,3) local_meta_run(2) [of b k i w]
      by (auto simp: node_at_def sr_shard_def bytes_stream_def split: sum.splits if_splits)
  next
    case False
    then show ?thesis using assms client_get_ec_shard_answers by (simp add: node_at_def)
  qed
  then show ?thesis by (cases "?m w") (simp add: get_shard_at_def bindE_def drain_def retE_def bytes_stream_def)
qed

section \<open>All nodes\<close>

lemma ask_all_still: "ask_all b k addrs' w = (as, w') \<Longrightarrow> still w w'"
proof (induction addrs' arbitrary: w as w')
  case (Cons a rest)
  obtain r w1 where one: "ask_ec_meta b k a w = (r, w1)" by (cases "ask_ec_meta b k a w")
  obtain rs w2 where more: "ask_all b k rest w1 = (rs, w2)" by (cases "ask_all b k rest w1")
  from Cons.prems one more have "w' = w2" by simp
  with still_trans [OF ask_ec_meta_still [OF one] Cons.IH [OF more]] show ?case by simp
qed simp

lemma ask_all_ok:
  assumes "ask_all b k nodes w = (as, w')" "(addr, Inr m) \<in> set as"
  shows "addr \<in> set nodes \<and> (\<exists>sr. node_at w addr = Some sr \<and> sr_meta sr b k = Some m)"
  using assms
proof (induction nodes arbitrary: w as w')
  case (Cons a rest)
  obtain r w1 where one: "ask_ec_meta b k a w = (r, w1)" by (cases "ask_ec_meta b k a w")
  obtain rs w2 where more: "ask_all b k rest w1 = (rs, w2)" by (cases "ask_all b k rest w1")
  have st: "still w w1" by (rule ask_ec_meta_still [OF one])
  from Cons.prems one more consider "addr = a" "r = Inr m" | "(addr, Inr m) \<in> set rs" by auto
  then show ?case
  proof cases
    case 1
    with ask_ec_meta_ok [of b k a w m w1] one show ?thesis by simp
  next
    case 2
    from Cons.IH [OF more 2] show ?thesis by (simp add: still_node [OF st])
  qed
qed simp

lemma ask_all_answers:
  assumes "ask_all b k nodes w = (as, w')" "responsive w" "b \<noteq> []" "k \<noteq> []"
    and "addr \<in> set nodes" "node_at w addr = Some sr" "sr_meta sr b k = Some m"
  shows "(addr, Inr m) \<in> set as"
  using assms
proof (induction nodes arbitrary: w as w')
  case (Cons a rest)
  obtain r w1 where one: "ask_ec_meta b k a w = (r, w1)" by (cases "ask_ec_meta b k a w")
  obtain rs w2 where more: "ask_all b k rest w1 = (rs, w2)" by (cases "ask_all b k rest w1")
  have st: "still w w1" by (rule ask_ec_meta_still [OF one])
  have as: "as = (a, r) # rs" using Cons.prems(1) one more by simp
  show ?case
  proof (cases "addr = a")
    case True
    with ask_ec_meta_answers [OF Cons.prems(2) _ Cons.prems(7,3,4), of a] Cons.prems(6) one as show ?thesis by simp
  next
    case False
    with Cons.prems(5) have "addr \<in> set rest" by simp
    with Cons.IH [OF more] Cons.prems(2-4,6,7) still_responsive [OF st] still_node [OF st] as show ?thesis by simp
  qed
qed simp

section \<open>The map of the shards\<close>

definition add_location :: "int \<Rightarrow> int \<Rightarrow> (int \<times> string) list \<Rightarrow> ec_answer \<Rightarrow> (int \<times> string) list" where
  "add_location k m locs a =
     (case snd a of
        Inl _ \<Rightarrow> locs
      | Inr meta \<Rightarrow> if claims_shard k m meta then AList.update (om_ec_chunk_index meta) (fst a) locs else locs)"

lemma shard_locations_foldl: "shard_locations k m as = foldl (add_location k m) [] as"
proof -
  have "(\<lambda>locs (addr, r). case r of Inl _ \<Rightarrow> locs
      | Inr meta \<Rightarrow> if claims_shard k m meta then AList.update (om_ec_chunk_index meta) addr locs else locs) = add_location k m"
    by (auto simp: add_location_def fun_eq_iff split: sum.split)
  then show ?thesis by (simp only: shard_locations_def)
qed

definition claimed :: "int \<Rightarrow> int \<Rightarrow> ec_answer list \<Rightarrow> int \<Rightarrow> string \<Rightarrow> bool" where
  "claimed k m as i addr \<longleftrightarrow> (\<exists>meta. (addr, Inr meta) \<in> set as \<and> claims_shard k m meta \<and> om_ec_chunk_index meta = i)"

lemma shard_locations_sound: "map_of (shard_locations k m as) i = Some addr \<Longrightarrow> claimed k m as i addr"
proof -
  have "map_of (foldl (add_location k m) locs as) i = Some addr \<Longrightarrow> claimed k m as i addr \<or> map_of locs i = Some addr" for locs
  proof (induction as arbitrary: locs)
    case (Cons a as)
    then have "claimed k m as i addr \<or> map_of (add_location k m locs a) i = Some addr" by simp
    then show ?case
      by (cases a) (auto simp: claimed_def add_location_def update_conv' split: sum.splits if_splits)
  qed simp
  from this [of "[]"] show "map_of (shard_locations k m as) i = Some addr \<Longrightarrow> claimed k m as i addr"
    by (simp add: shard_locations_foldl)
qed

lemma shard_locations_complete: "claimed k m as i addr \<Longrightarrow> map_of (shard_locations k m as) i \<noteq> None"
proof -
  have "claimed k m as i addr \<or> map_of locs i \<noteq> None \<Longrightarrow> map_of (foldl (add_location k m) locs as) i \<noteq> None" for locs
  proof (induction as arbitrary: locs)
    case (Cons a as)
    then have "claimed k m as i addr \<or> map_of (add_location k m locs a) i \<noteq> None"
      by (cases a) (auto simp: claimed_def add_location_def update_conv' split: sum.splits)
    from Cons.IH [OF this] show ?case by simp
  qed (simp add: claimed_def)
  then show "claimed k m as i addr \<Longrightarrow> map_of (shard_locations k m as) i \<noteq> None"
    by (simp add: shard_locations_foldl)
qed

lemma shard_locations_distinct: "distinct (map fst (shard_locations k m as))"
proof -
  have "distinct (map fst (foldl (add_location k m) locs as))" if "distinct (map fst locs)" for locs
    using that by (induction as arbitrary: locs) (simp_all add: add_location_def distinct_update split: sum.split)
  then show ?thesis by (simp add: shard_locations_foldl)
qed

lemma shard_locations_length: "length (shard_locations k m as) = card {i. \<exists>addr. claimed k m as i addr}"
proof -
  let ?l = "shard_locations k m as"
  have "{i. \<exists>addr. claimed k m as i addr} = dom (map_of ?l)"
    using shard_locations_sound shard_locations_complete by (fastforce simp: dom_def)
  also have "card \<dots> = length (map fst ?l)"
    using distinct_card [OF shard_locations_distinct] by (simp add: dom_map_of_conv_image_fst)
  finally show ?thesis by simp
qed

section \<open>Downloading\<close>

lemma survivors_update:
  "survivors_of full shards \<Longrightarrow> i < length full \<Longrightarrow> survivors_of full (shards[i := full ! i])"
  by (auto simp: survivors_of_def list_all2_conv_all_nth nth_list_update)

lemma present_card: "present shards = card {i. i < length shards \<and> shards ! i \<noteq> []}"
  by (simp add: present_def length_filter_conv_card)

lemma present_update:
  assumes "i < length shards" "shards ! i = []" "s \<noteq> []"
  shows "present (shards[i := s]) = present shards + 1"
proof -
  let ?A = "{j. j < length shards \<and> shards ! j \<noteq> []}"
  have "{j. j < length (shards[i := s]) \<and> shards[i := s] ! j \<noteq> []} = insert i ?A"
    using assms by (auto simp: nth_list_update)
  then show ?thesis using assms(2) by (simp add: present_card)
qed

lemma download_still:
  "download_shards b k kk locs is got shards w = (r, w') \<Longrightarrow> still w w'"
proof (induction "is" arbitrary: got shards w)
  case (Cons i "is")
  show ?case
  proof (cases "kk \<le> got \<or> map_of locs (int i) = None")
    case True
    then show ?thesis using Cons by (auto split: if_splits)
  next
    case False
    then obtain addr where a: "map_of locs (int i) = Some addr" by blast
    obtain g w1 where g: "get_shard_at b k (int i) addr w = (g, w1)" by (cases "get_shard_at b k (int i) addr w")
    from get_shard_at_still [OF g] have "still w w1" .
    moreover have "still w1 w'" using Cons.prems False a g Cons.IH by (cases g) auto
    ultimately show ?thesis by (rule still_trans)
  qed
qed simp

lemma download_sound:
  assumes "download_shards b k kk locs is got shards w = ((got', shards'), w')" "survivors_of full shards"
    and "distinct is" "\<And>i. i \<in> set is \<Longrightarrow> i < length full \<and> shards ! i = []" "[] \<notin> set full" "int64_ok (int (length full))"
    and "\<And>i addr sr bs. i < length full \<Longrightarrow> map_of locs (int i) = Some addr \<Longrightarrow> node_at w addr = Some sr \<Longrightarrow>
      sr_shard sr b k (int i) = Some bs \<Longrightarrow> bs = full ! i"
  shows "survivors_of full shards' \<and> got' - got = int (present shards') - int (present shards)"
  using assms
proof (induction "is" arbitrary: got shards w)
  case (Cons i "is")
  show ?case
  proof (cases "kk \<le> got \<or> map_of locs (int i) = None")
    case True
    then show ?thesis using Cons.prems Cons.IH [OF _ Cons.prems(2) _ _ Cons.prems(5,6)] by (auto split: if_splits)
  next
    case False
    then obtain addr where a: "map_of locs (int i) = Some addr" by blast
    obtain g w1 where g: "get_shard_at b k (int i) addr w = (g, w1)" by (cases "get_shard_at b k (int i) addr w")
    note st = still_node [OF get_shard_at_still [OF g]]
    have i: "i < length full" "shards ! i = []" using Cons.prems(4) by auto
    note src = Cons.prems(7) [folded st]
    show ?thesis
    proof (cases g)
      case (Inl e)
      with Cons.prems(1) False a g have "download_shards b k kk locs is got shards w1 = ((got', shards'), w')" by simp
      from Cons.IH [OF this Cons.prems(2) _ _ Cons.prems(5,6) src] Cons.prems(3,4) show ?thesis by simp
    next
      case (Inr bs)
      have ok: "int64_ok (int i)" using Cons.prems(6) i(1) by (simp add: int64_ok_def)
      from get_shard_at_ok [OF g [unfolded Inr] ok] Cons.prems(7) [OF i(1) a] have bs: "bs = full ! i" by blast
      have "download_shards b k kk locs is (got + 1) (shards[i := full ! i]) w1 = ((got', shards'), w')"
        using Cons.prems(1) False a g Inr bs by simp
      moreover have "survivors_of full (shards[i := full ! i])" by (rule survivors_update [OF Cons.prems(2) i(1)])
      moreover have "j < length full \<and> shards[i := full ! i] ! j = []" if "j \<in> set is" for j
      proof -
        have "j \<noteq> i" using Cons.prems(3) that by auto
        with Cons.prems(4) [of j] that show ?thesis by simp
      qed
      ultimately have "survivors_of full shards' \<and> got' - (got + 1) = int (present shards') - int (present (shards[i := full ! i]))"
        using Cons.prems(3) by (intro Cons.IH [OF _ _ _ _ Cons.prems(5,6) src]) simp_all
      moreover have "full ! i \<noteq> []" using Cons.prems(5) i(1) nth_mem by fastforce
      moreover have "i < length shards" using Cons.prems(2) i(1) by (simp add: survivors_of_def list_all2_lengthD)
      ultimately show ?thesis using present_update [OF _ i(2)] by simp
    qed
  qed
qed simp

lemma download_complete:
  assumes "download_shards b k kk locs is got shards w = ((got', shards'), w')" "responsive w" "b \<noteq> []" "k \<noteq> []"
    and "distinct is" "\<And>i. i \<in> set is \<Longrightarrow> int64_ok (int i)"
    and "\<And>i addr. i \<in> set is \<Longrightarrow> map_of locs (int i) = Some addr \<Longrightarrow>
      \<exists>sr bs. node_at w addr = Some sr \<and> sr_shard sr b k (int i) = Some bs"
    and "kk \<le> got + int (card {i \<in> set is. map_of locs (int i) \<noteq> None})"
  shows "kk \<le> got'"
  using assms
proof (induction "is" arbitrary: got shards w)
  case (Cons i "is")
  let ?I = "\<lambda>is. {i \<in> set is. map_of locs (int i) \<noteq> None}"
  show ?case
  proof (cases "kk \<le> got")
    case True
    then show ?thesis using Cons.prems(1) by simp
  next
    case far: False
    show ?thesis
    proof (cases "map_of locs (int i)")
      case None
      then have "?I (i # is) = ?I is" by auto
      with None far Cons.prems Cons.IH [OF _ Cons.prems(2-4), of got shards] show ?thesis by simp
    next
      case (Some addr)
      obtain g w1 where g: "get_shard_at b k (int i) addr w = (g, w1)" by (cases "get_shard_at b k (int i) addr w")
      note st = get_shard_at_still [OF g]
      obtain sr bs where "node_at w addr = Some sr" "sr_shard sr b k (int i) = Some bs"
        using Cons.prems(7) [OF _ Some] by auto
      from get_shard_at_answers [OF Cons.prems(2) this Cons.prems(3,4)] Cons.prems(6) g have "g = Inr bs" by simp
      with Cons.prems(1) far Some g
      have rest: "download_shards b k kk locs is (got + 1) (shards[i := bs]) w1 = ((got', shards'), w')" by simp
      have "?I (i # is) = insert i (?I is)" using Some by auto
      then have "card (?I (i # is)) = card (?I is) + 1" using Cons.prems(5) by simp
      with Cons.prems(8) have "kk \<le> got + 1 + int (card (?I is))" by simp
      moreover have "\<exists>sr bs. node_at w1 addr = Some sr \<and> sr_shard sr b k (int j) = Some bs"
        if "j \<in> set is" "map_of locs (int j) = Some addr" for j addr
        using Cons.prems(7) [of j addr] that by (simp add: still_node [OF st])
      ultimately show ?thesis
        using Cons.prems(2,5,6) still_responsive [OF st] by (intro Cons.IH [OF rest _ Cons.prems(3,4)]) simp_all
    qed
  qed
qed simp

section \<open>Reading\<close>

text \<open>
  An object spread over the nodes: its bytes and their encoding, the metadata of the reading node, and
  no node with other bytes under one of its shard names.
\<close>

definition ec_spread :: "ec_manager \<Rightarrow> string \<Rightarrow> string \<Rightarrow> byte list \<Rightarrow> byte list list \<Rightarrow> object_meta \<Rightarrow> world \<Rightarrow> bool" where
  "ec_spread em b k dat full m w \<longleftrightarrow>
     dat \<noteq> [] \<and> encode (em_rs em) (em_codec em) dat = Inr full \<and> sr_meta (w_self w) b k = Some m \<and>
     is_ec m \<and> ec_k (om_ec_params m) = cd_k (em_codec em) \<and> ec_m (om_ec_params m) = cd_m (em_codec em) \<and>
     om_content_length m = int (length dat) \<and>
     (\<forall>addr \<in> set ([] # known_followers w). \<forall>sr. node_at w addr = Some sr \<longrightarrow>
        (\<forall>i < length full. sr_shard sr b k (int i) \<in> {None, Some (full ! i)}))"

definition em_ok :: "ec_manager \<Rightarrow> bool" where
  "em_ok em \<longleftrightarrow> (\<exists>k m. new_codec (em_rs em) k m = Inr (em_codec em) \<and> rs_correct (em_rs em) k m \<and> int64_ok (k + m))"

lemma ec_codec_facts:
  assumes "em_ok em" "encode (em_rs em) (em_codec em) dat = Inr full" "dat \<noteq> []"
  shows "length full = nat (codec_n (em_codec em))" "[] \<notin> set full" "int64_ok (int (length full))"
    "1 \<le> cd_k (em_codec em)" "0 \<le> cd_m (em_codec em)"
    "\<And>some. survivors_of full some \<Longrightarrow>
       if nat (cd_k (em_codec em)) \<le> present some
       then reconstruct (em_rs em) (em_codec em) some (int (length dat)) = Inr dat
       else \<exists>e. reconstruct (em_rs em) (em_codec em) some (int (length dat)) = Inl e"
proof -
  let ?c = "em_codec em"
  from assms(1) obtain k m where km: "new_codec (em_rs em) k m = Inr ?c" "rs_correct (em_rs em) k m"
    and no_wrap: "int64_ok (k + m)"
    by (auto simp: em_ok_def)
  from new_codec_good [OF km(1)] no_wrap have c: "good_codec ?c" "cd_k ?c = k" "cd_m ?c = m" "k + m \<le> 256" by auto
  show "1 \<le> cd_k ?c" "0 \<le> cd_m ?c" using c(1) by (simp_all add: good_codec_def)
  note rt = codec_roundtrip [OF km assms(3)]
  from rt assms(2) have f: "length full = nat (k + m)" "\<forall>s \<in> set full. int (length s) = shard_size ?c (int (length dat))"
    "\<And>some. survivors_of full some \<Longrightarrow> if nat k \<le> present some then reconstruct (em_rs em) ?c some (int (length dat)) = Inr dat
        else \<exists>e. reconstruct (em_rs em) ?c some (int (length dat)) = Inl e" by auto
  show "length full = nat (codec_n ?c)" using f(1) c(2,3) by (simp add: codec_n_def)
  show "int64_ok (int (length full))" using f(1) c(4) by (simp add: int64_ok_def)
  have "0 < shard_size ?c (int (length dat))" using shard_size_covers(1) [OF c(1), of "length dat"] assms(3) by simp
  then show "[] \<notin> set full" using f(2) by force
  show "if nat (cd_k ?c) \<le> present some then reconstruct (em_rs em) ?c some (int (length dat)) = Inr dat
       else \<exists>e. reconstruct (em_rs em) ?c some (int (length dat)) = Inl e" if "survivors_of full some" for some
    using f(3) [OF that] by (simp only: c)
qed

text \<open>The steps of a read of such an object.\<close>

lemma ec_read_steps:
  assumes "ec_spread em b k dat full m w" and arr: "\<And>as. set (arrive as) = set as"
  obtains as w1 got shards w2 where "ask_all b k ([] # known_followers w) (tick w) = (as, w1)"
    "still w w2" "download_shards b k (cd_k (em_codec em)) (shard_locations (cd_k (em_codec em)) (cd_m (em_codec em)) (arrive as))
       [0..<nat (codec_n (em_codec em))] 0 (replicate (nat (codec_n (em_codec em))) []) w1 = ((got, shards), w2)"
    "still w w1"
    "read_ec_object em arrive b k w =
      (if int (length (shard_locations (cd_k (em_codec em)) (cd_m (em_codec em)) (arrive as))) < cd_k (em_codec em)
       then (Inl (count_error ''insufficient shards: have ''
         (int (length (shard_locations (cd_k (em_codec em)) (cd_m (em_codec em)) (arrive as)))) (cd_k (em_codec em)) []), w1)
       else if got < cd_k (em_codec em)
       then (Inl (count_error ''failed to download enough shards: got '' got (cd_k (em_codec em)) []), w2)
       else case reconstruct (em_rs em) (em_codec em) shards (int (length dat)) of
         Inl e \<Rightarrow> (Inl (Wrapped ''reconstruct'' e), w2)
       | Inr dat \<Rightarrow> (Inr (bytes_stream dat, m), w2))"
proof -
  let ?k = "cd_k (em_codec em)" and ?m = "cd_m (em_codec em)"
  from assms(1) have e: "sr_meta (w_self w) b k = Some m" "is_ec m" "ec_k (om_ec_params m) = ?k" "ec_m (om_ec_params m) = ?m"
    "om_content_length m = int (length dat)" by (simp_all add: ec_spread_def)
  have meta: "local (\<lambda>root ev. get_object_meta root b k) w = (Inr m, tick w)"
  proof -
    have "snd (local (\<lambda>root ev. get_object_meta root b k) w) = tick w" by (rule local_read) simp
    moreover have "fst (local (\<lambda>root ev. get_object_meta root b k) w) = Inr m"
      using e(1) by (simp add: local_meta_run(1) sr_meta_def split: sum.splits)
    ultimately show ?thesis by (cases "local (\<lambda>root ev. get_object_meta root b k) w") simp
  qed
  obtain as w1 where as: "ask_all b k ([] # known_followers w) (tick w) = (as, w1)"
    by (cases "ask_all b k ([] # known_followers w) (tick w)")
  have s1: "still w w1" using still_trans [OF still_refl(2) ask_all_still [OF as]] .
  obtain got shards w2 where dl: "download_shards b k ?k (shard_locations ?k ?m (arrive as))
       [0..<nat (codec_n (em_codec em))] 0 (replicate (nat (codec_n (em_codec em))) []) w1 = ((got, shards), w2)"
    by (metis surj_pair)
  have s2: "still w w2" using still_trans [OF s1 download_still [OF dl]] .
  have "known_followers (tick w) = known_followers w" by (simp add: known_followers_def)
  then have "read_ec_object em arrive b k w =
      (if int (length (shard_locations ?k ?m (arrive as))) < ?k
       then (Inl (count_error ''insufficient shards: have '' (int (length (shard_locations ?k ?m (arrive as)))) ?k []), w1)
       else if got < ?k then (Inl (count_error ''failed to download enough shards: got '' got ?k []), w2)
       else case reconstruct (em_rs em) (em_codec em) shards (int (length dat)) of
         Inl e \<Rightarrow> (Inl (Wrapped ''reconstruct'' e), w2)
       | Inr dat \<Rightarrow> (Inr (bytes_stream dat, m), w2))"
    using e(2-5) meta as dl
    by (simp add: read_ec_object_def bindE_def wrapE_def find_shards_def fetch_shards_def codec_n_def Let_def split: sum.split)
  with that as dl s1 s2 show thesis by blast
qed

text \<open>The shard indexes the nodes that can be reached claim.\<close>

definition held_shards :: "ec_manager \<Rightarrow> string \<Rightarrow> string \<Rightarrow> world \<Rightarrow> int set" where
  "held_shards em b k w =
     {i. \<exists>addr \<in> set ([] # known_followers w). \<exists>sr m. node_at w addr = Some sr \<and> sr_meta sr b k = Some m \<and>
        claims_shard (cd_k (em_codec em)) (cd_m (em_codec em)) m \<and> om_ec_chunk_index m = i}"

text \<open>A node that claims a shard has it.\<close>

definition ec_complete :: "ec_manager \<Rightarrow> string \<Rightarrow> string \<Rightarrow> world \<Rightarrow> bool" where
  "ec_complete em b k w \<longleftrightarrow>
     (\<forall>addr \<in> set ([] # known_followers w). \<forall>sr m. node_at w addr = Some sr \<longrightarrow> sr_meta sr b k = Some m \<longrightarrow>
        claims_shard (cd_k (em_codec em)) (cd_m (em_codec em)) m \<longrightarrow>
        0 \<le> om_ec_chunk_index m \<and> om_ec_chunk_index m < codec_n (em_codec em) \<and>
        sr_shard sr b k (om_ec_chunk_index m) \<noteq> None)"

lemma ec_read_spread:
  assumes ok: "em_ok em" and spread: "ec_spread em b k dat full m w" and arr: "\<And>as. set (arrive as) = set as"
  shows "read_ec_object em arrive b k w = (Inr (st, m'), w') \<Longrightarrow> st = bytes_stream dat \<and> m' = m \<and> still w w'"
    and "responsive w \<Longrightarrow> b \<noteq> [] \<Longrightarrow> k \<noteq> [] \<Longrightarrow> ec_complete em b k w \<Longrightarrow>
      cd_k (em_codec em) \<le> int (card (held_shards em b k w)) \<Longrightarrow> fst (read_ec_object em arrive b k w) = Inr (bytes_stream dat, m)"
proof -
  let ?c = "em_codec em" and ?nodes = "[] # known_followers w"
  let ?k = "cd_k ?c" and ?m = "cd_m ?c" and ?n = "nat (codec_n ?c)"
  note sp = spread [unfolded ec_spread_def]
  from sp have enc: "encode (em_rs em) ?c dat = Inr full" "dat \<noteq> []" by simp_all
  note cf = ec_codec_facts [OF ok enc]
  obtain as w1 got shards w2 where s: "ask_all b k ?nodes (tick w) = (as, w1)" "still w w2"
    "download_shards b k ?k (shard_locations ?k ?m (arrive as)) [0..<?n] 0 (replicate ?n []) w1 = ((got, shards), w2)"
    "still w w1" and run: "read_ec_object em arrive b k w =
      (if int (length (shard_locations ?k ?m (arrive as))) < ?k
       then (Inl (count_error ''insufficient shards: have '' (int (length (shard_locations ?k ?m (arrive as)))) ?k []), w1)
       else if got < ?k then (Inl (count_error ''failed to download enough shards: got '' got ?k []), w2)
       else case reconstruct (em_rs em) ?c shards (int (length dat)) of
         Inl e \<Rightarrow> (Inl (Wrapped ''reconstruct'' e), w2)
       | Inr dat \<Rightarrow> (Inr (bytes_stream dat, m), w2))"
    by (rule ec_read_steps [OF spread arr])
  let ?locs = "shard_locations ?k ?m (arrive as)"
  have node: "node_at (tick w) a = node_at w a" for a by (rule still_node [OF still_refl(2)])
  have loc: "addr \<in> set ?nodes \<and> (\<exists>sr mm. node_at w addr = Some sr \<and> sr_meta sr b k = Some mm \<and>
      claims_shard ?k ?m mm \<and> om_ec_chunk_index mm = i)" if "claimed ?k ?m (arrive as) i addr" for i addr
    using that ask_all_ok [OF s(1)] arr [of as] unfolding claimed_def node by blast
  have surv: "survivors_of full (replicate ?n [])" "present (replicate ?n []) = 0"
    using cf(1) by (simp_all add: survivors_of_def list_all2_conv_all_nth present_def)
  have "survivors_of full shards \<and> got - 0 = int (present shards) - int (present (replicate ?n []))"
  proof (rule download_sound [OF s(3) surv(1) _ _ cf(2,3)])
    fix i addr sr bs
    assume i: "i < length full" "map_of ?locs (int i) = Some addr" "node_at w1 addr = Some sr" "sr_shard sr b k (int i) = Some bs"
    from loc [OF shard_locations_sound [OF i(2)]] have "addr \<in> set ?nodes" by blast
    then have "sr_shard sr b k (int i) \<in> {None, Some (full ! i)}"
      using i(1,3) sp unfolding still_node [OF s(4)] by blast
    with i(4) show "bs = full ! i" by simp
  qed (use cf(1) in auto)
  then have good: "survivors_of full shards" "got = int (present shards)" using surv(2) by simp_all
  have enough: "reconstruct (em_rs em) ?c shards (int (length dat)) = Inr dat" if "?k \<le> got"
    using cf(6) [OF good(1)] that good(2) cf(4) by (simp split: if_splits)
  show "st = bytes_stream dat \<and> m' = m \<and> still w w'" if "read_ec_object em arrive b k w = (Inr (st, m'), w')"
    using that run enough s(2) by (auto split: if_splits)
  assume r: "responsive w" "b \<noteq> []" "k \<noteq> []" and com: "ec_complete em b k w" and many: "?k \<le> int (card (held_shards em b k w))"
  have claim: "(\<exists>addr. claimed ?k ?m (arrive as) i addr) \<longleftrightarrow> i \<in> held_shards em b k w" for i
  proof
    assume "i \<in> held_shards em b k w"
    then obtain addr sr mm where h: "addr \<in> set ?nodes" "node_at w addr = Some sr" "sr_meta sr b k = Some mm"
      "claims_shard ?k ?m mm" "om_ec_chunk_index mm = i" unfolding held_shards_def by blast
    have "responsive (tick w)" using r(1) still_responsive [OF still_refl(2)] by simp
    from ask_all_answers [OF s(1) this r(2,3) h(1) _ h(3)] h(2,4,5) node arr [of as]
    show "\<exists>addr. claimed ?k ?m (arrive as) i addr" by (auto simp: claimed_def)
  next
    assume "\<exists>addr. claimed ?k ?m (arrive as) i addr"
    then show "i \<in> held_shards em b k w" using loc unfolding held_shards_def by blast
  qed
  have "int (length ?locs) = int (card (held_shards em b k w))" by (simp add: shard_locations_length claim)
  with many have l: "\<not> int (length ?locs) < ?k" by simp
  have range: "0 \<le> i \<and> i < codec_n ?c" if "i \<in> held_shards em b k w" for i
    using com that unfolding held_shards_def ec_complete_def by blast
  have dom: "map_of ?locs i \<noteq> None \<longleftrightarrow> i \<in> held_shards em b k w" for i
    using shard_locations_sound [of ?k ?m "arrive as" i] shard_locations_complete [of ?k ?m "arrive as" i] claim [of i]
    by (cases "map_of ?locs i") auto
  have "card (held_shards em b k w) = card {i \<in> set [0..<?n]. map_of ?locs (int i) \<noteq> None}"
  proof -
    have "held_shards em b k w = int ` {i \<in> set [0..<?n]. map_of ?locs (int i) \<noteq> None}"
      unfolding dom using range by (force intro: image_eqI [of _ int "nat _"])
    then show ?thesis by (simp add: card_image)
  qed
  with many have num: "?k \<le> 0 + int (card {i \<in> set [0..<?n]. map_of ?locs (int i) \<noteq> None})" by simp
  have "?k \<le> got"
  proof (rule download_complete [OF s(3) _ r(2,3)])
    show "responsive w1" using r(1) still_responsive [OF s(4)] by simp
    show "int64_ok (int i)" if "i \<in> set [0..<?n]" for i using that cf(3) unfolding cf(1) [symmetric] int64_ok_def by simp
    fix i addr assume "i \<in> set [0..<?n]" "map_of ?locs (int i) = Some addr"
    from loc [OF shard_locations_sound [OF this(2)]]
    obtain sr mm where l: "addr \<in> set ?nodes" "node_at w addr = Some sr" "sr_meta sr b k = Some mm"
      "claims_shard ?k ?m mm" "om_ec_chunk_index mm = int i" by blast
    with com have "sr_shard sr b k (int i) \<noteq> None" unfolding ec_complete_def by metis
    with l(2) show "\<exists>sr bs. node_at w1 addr = Some sr \<and> sr_shard sr b k (int i) = Some bs"
      unfolding still_node [OF s(4)] by blast
  qed (use num in simp_all)
  with run l enough show "fst (read_ec_object em arrive b k w) = Inr (bytes_stream dat, m)" by simp
qed

end
