(* ===== verification/ECConvert.thy ===== *)
theory ECConvert
  imports ECRead FsProps
begin

text \<open>
  Converting an object: what the shards and the removals do to each node, and that the object can be
  read back afterwards from any \<open>k\<close> of the nodes it was spread over.
\<close>

section \<open>One node's files\<close>

lemma sr_meta_file:
  "sr_meta sr b k = Some m \<longleftrightarrow> (\<exists>mt. fs_file (sr_fs sr) (meta_path (sr_root sr) b k) = Some (mt, CMeta m))"
proof -
  have "meta_lookup (sr_root sr) b (sr_fs sr) k = sr_meta sr b k"
    by (simp add: meta_lookup_def sr_meta_def split: sum.split)
  then show ?thesis using meta_lookup_iff by metis
qed

lemma sr_shard_file:
  "sr_shard sr b k i = Some bs \<longleftrightarrow>
     (\<exists>mt. fs_file (sr_fs sr) (ec_shard_path (sr_root sr) b k i) = Some (mt, CData bs))"
proof -
  let ?n = "fs_get (sr_fs sr) (ec_shard_path (sr_root sr) b k i)"
  have node: "(st_err (node_stream p n) = None \<and> st_bytes (node_stream p n) = bs) \<longleftrightarrow> (\<exists>mt. n = File mt (CData bs))" for p n
    by (cases "(p, n)" rule: node_stream.cases) (auto simp: bytes_stream_def)
  show ?thesis
  proof (cases ?n)
    case None
    then show ?thesis
      by (simp add: sr_shard_def get_ec_shard_def open_stream_def os_open_def bindE_def fs_file_def)
  next
    case (Some n)
    then have "sr_shard sr b k i = Some bs \<longleftrightarrow> (\<exists>mt. n = File mt (CData bs))"
      using node [of "ec_shard_path (sr_root sr) b k i" n]
      by (auto simp: sr_shard_def get_ec_shard_def open_stream_def os_open_def bindE_def retE_def)
    with Some show ?thesis by (simp add: fs_file_Some_iff)
  qed
qed

lemma shard_path_not_temp: "ec_shard_path root b k j \<noteq> path_add (ec_shard_path root b k i) (''.shard.tmp.'' @ u)"
proof
  assume "ec_shard_path root b k j = path_add (ec_shard_path root b k i) (''.shard.tmp.'' @ u)"
  then have "last (ec_shard_path root b k j) = last (ec_shard_path root b k i) @ ''.shard.tmp.'' @ u"
    by (simp add: path_add_def)
  then have "itoa j = itoa i @ ''.shard.tmp.'' @ u"
    by (simp add: ec_shard_path_last)
  then have "CHR ''s'' \<in> set (itoa j)" by simp
  with itoa_chars show False by blast
qed

lemma shard_path_inject: "ec_shard_path root b k i = ec_shard_path root b k j \<Longrightarrow> itoa i = itoa j"
  by (simp add: ec_shard_path_last)

lemma put_ec_shard_frame:
  assumes "\<not> P (ec_shard_path root b k i)" "\<not> P (meta_path root b k)"
    "\<not> P (path_add (ec_shard_path root b k i) (''.shard.tmp.'' @ ev_uuid ev))"
    "\<not> P (path_add (meta_path root b k) (''.tmp.'' @ itoa (ev_now ev)))"
  shows "pres (agrees P f0) (put_ec_shard root ev b k i st sz m)"
  using assms by (auto simp: put_ec_shard_def update_object_meta_def Let_def intro!: pres_intros)

lemma put_ec_shard_other:
  assumes "good_dir root b" "plain_name k" "put_ec_shard root ev b k i st sz m fs = (r, fs')" "itoa j \<noteq> itoa i"
  shows "fs_file fs' (ec_shard_path root b k j) = fs_file fs (ec_shard_path root b k j)"
proof (rule leavesD [OF put_ec_shard_frame assms(3), where P = "\<lambda>q. q = ec_shard_path root b k j"])
  have area: "butlast (meta_path root b k) \<noteq> butlast (ec_shard_path root b k j)"
    using assms(1,2) by (auto simp: object_paths butlast_append)
  then show "\<not> meta_path root b k = ec_shard_path root b k j"
    "\<not> path_add (meta_path root b k) (''.tmp.'' @ itoa (ev_now ev)) = ec_shard_path root b k j"
    by (metis butlast_path_add)+
  show "\<not> ec_shard_path root b k i = ec_shard_path root b k j" using assms(4) shard_path_inject by metis
  show "\<not> path_add (ec_shard_path root b k i) (''.shard.tmp.'' @ ev_uuid ev) = ec_shard_path root b k j"
    using shard_path_not_temp by metis
qed simp

lemma remove_replica_frame:
  "\<not> P (data_path root b k) \<Longrightarrow> pres (agrees P f0) (remove_replica_data root b k)"
  by (auto simp: remove_replica_data_def Let_def intro!: pres_intros)

section \<open>One node\<close>

text \<open>A node with exactly one shard, the one its metadata names; one with none and no such metadata.\<close>

definition ec_holds :: "nat \<Rightarrow> string \<Rightarrow> string \<Rightarrow> nat \<Rightarrow> byte list \<Rightarrow> object_meta \<Rightarrow> server \<Rightarrow> bool" where
  "ec_holds n b k i s m sr \<longleftrightarrow> sr_meta sr b k = Some m \<and> om_ec_chunk_index m = int i \<and> sr_shard sr b k (int i) = Some s \<and>
     (\<forall>j < n. j \<noteq> i \<longrightarrow> sr_shard sr b k (int j) = None)"

definition ec_clean :: "nat \<Rightarrow> string \<Rightarrow> string \<Rightarrow> server \<Rightarrow> bool" where
  "ec_clean n b k sr \<longleftrightarrow> (\<forall>j < n. sr_shard sr b k (int j) = None) \<and> (\<forall>m. sr_meta sr b k = Some m \<longrightarrow> \<not> is_ec m)"

text \<open>What a removal of the replica's data leaves alone.\<close>

definition same_ec :: "string \<Rightarrow> string \<Rightarrow> server \<Rightarrow> server \<Rightarrow> bool" where
  "same_ec b k sr sr' \<longleftrightarrow> sr_root sr' = sr_root sr \<and> sr_token sr' = sr_token sr \<and> sr_mgr sr' = sr_mgr sr \<and>
     sr_meta sr' b k = sr_meta sr b k \<and> (\<forall>i. sr_shard sr' b k i = sr_shard sr b k i)"

lemma same_ec_refl [simp]: "same_ec b k sr sr"
  by (simp add: same_ec_def)

lemma same_ec_trans: "same_ec b k s1 s2 \<Longrightarrow> same_ec b k s2 s3 \<Longrightarrow> same_ec b k s1 s3"
  by (simp add: same_ec_def)

lemma option_eqI: "(\<And>v. a = Some v \<longleftrightarrow> b = Some v) \<Longrightarrow> a = b"
  by (cases a; cases b) auto

lemma same_ec_filesI:
  assumes "fs_file fs (meta_path (sr_root sr) b k) = fs_file (sr_fs sr) (meta_path (sr_root sr) b k)"
    and "\<And>i. fs_file fs (ec_shard_path (sr_root sr) b k i) = fs_file (sr_fs sr) (ec_shard_path (sr_root sr) b k i)"
  shows "same_ec b k sr (sr\<lparr>sr_fs := fs\<rparr>)"
proof -
  have "sr_meta (sr\<lparr>sr_fs := fs\<rparr>) b k = sr_meta sr b k"
    by (rule option_eqI) (simp add: sr_meta_file assms(1))
  moreover have "sr_shard (sr\<lparr>sr_fs := fs\<rparr>) b k i = sr_shard sr b k i" for i
    by (rule option_eqI) (simp add: sr_shard_file assms(2))
  ultimately show ?thesis by (simp add: same_ec_def)
qed

lemma remove_replica_same:
  assumes "good_dir (sr_root sr) b" "plain_name k" "remove_replica_data (sr_root sr) b k (sr_fs sr) = (r, fs)"
  shows "same_ec b k sr (sr\<lparr>sr_fs := fs\<rparr>)"
proof (rule same_ec_filesI)
  note d = area_paths_distinct [OF assms(1,2,1,2,1)]
  show "fs_file fs (meta_path (sr_root sr) b k) = fs_file (sr_fs sr) (meta_path (sr_root sr) b k)"
    by (rule leavesD [OF remove_replica_frame assms(3), where P = "\<lambda>q. q = meta_path (sr_root sr) b k"]) (use d(1) in auto)
  show "fs_file fs (ec_shard_path (sr_root sr) b k i) = fs_file (sr_fs sr) (ec_shard_path (sr_root sr) b k i)" for i
    by (rule leavesD [OF remove_replica_frame assms(3), where P = "\<lambda>q. q = ec_shard_path (sr_root sr) b k i"]) (use d(7) in \<open>metis\<close>, simp)
qed

lemma int64_ok_less: "int64_ok (int n) \<Longrightarrow> j < n \<Longrightarrow> int64_ok (int j)"
  by (simp add: int64_ok_def)

lemma put_shard_holds:
  assumes names: "good_dir (sr_root sr) b" "plain_name k" "good_env ev"
    and run: "put_ec_shard (sr_root sr) ev b k (int i) (bytes_stream s) sz m (sr_fs sr) = (Inr (), fs)"
    and clean: "ec_clean n b k sr" and i: "i < n" "int64_ok (int n)" "om_ec_chunk_index m = int i"
  shows "ec_holds n b k i s m (sr\<lparr>sr_fs := fs\<rparr>)"
proof -
  note eff = put_ec_shard_ok [OF names run]
  have "sr_shard (sr\<lparr>sr_fs := fs\<rparr>) b k (int j) = None" if "j < n" "j \<noteq> i" for j
  proof -
    have "itoa (int j) \<noteq> itoa (int i)"
      using that by simp
    from put_ec_shard_other [OF names(1,2) run this]
    have "sr_shard (sr\<lparr>sr_fs := fs\<rparr>) b k (int j) = sr_shard sr b k (int j)"
      by (intro option_eqI) (simp add: sr_shard_file)
    with clean that(1) show ?thesis by (simp add: ec_clean_def)
  qed
  moreover have "sr_meta (sr\<lparr>sr_fs := fs\<rparr>) b k = Some m" "sr_shard (sr\<lparr>sr_fs := fs\<rparr>) b k (int i) = Some s"
    using eff(3,4) by (simp_all add: sr_meta_file sr_shard_file bytes_stream_def)
  ultimately show ?thesis using i(3) by (simp add: ec_holds_def)
qed

lemma same_ec_holds: "same_ec b k sr sr' \<Longrightarrow> ec_holds n b k i s m sr \<Longrightarrow> ec_holds n b k i s m sr'"
  "same_ec b k sr sr' \<Longrightarrow> ec_clean n b k sr \<Longrightarrow> ec_clean n b k sr'"
  by (simp_all add: same_ec_def ec_holds_def ec_clean_def)

section \<open>One message\<close>

definition ec_world :: "world \<Rightarrow> bool" where
  "ec_world w \<longleftrightarrow> (\<forall>n. good_uuid (w_ids w n)) \<and> (\<forall>a sr. node_at w a = Some sr \<longrightarrow> good_root (sr_root sr))"

lemma world_ok_ec: "world_ok w \<Longrightarrow> ec_world w"
  by (auto simp: world_ok_def ec_world_def node_at_def server_ok_def split: if_splits)

lemma ec_worldD: "ec_world w \<Longrightarrow> good_env (now_env w)" "ec_world w \<Longrightarrow> node_at w a = Some sr \<Longrightarrow> good_root (sr_root sr)"
  by (auto simp: ec_world_def good_uuid_def good_env_def now_env_def plain_seg_def)

definition same_node :: "server \<Rightarrow> server \<Rightarrow> bool" where
  "same_node sr sr' \<longleftrightarrow> sr_root sr' = sr_root sr \<and> sr_token sr' = sr_token sr \<and> sr_mgr sr' = sr_mgr sr"

lemma same_ec_node: "same_ec b k sr sr' \<Longrightarrow> same_node sr sr'"
  by (simp add: same_ec_def same_node_def)

text \<open>Outside the addresses in \<open>A\<close> nothing changes that a reader of the object sees.\<close>

definition ec_step :: "string \<Rightarrow> string \<Rightarrow> string set \<Rightarrow> world \<Rightarrow> world \<Rightarrow> bool" where
  "ec_step b k A w w' \<longleftrightarrow> w_ids w' = w_ids w \<and>
     (\<forall>a. rel_option (if a \<in> A then same_node else same_ec b k) (node_at w a) (node_at w' a))"

lemma ec_stepI:
  assumes "w_ids w' = w_ids w" "\<And>a. a \<noteq> t \<Longrightarrow> node_at w' a = node_at w a"
    and "rel_option (if t \<in> A then same_node else same_ec b k) (node_at w t) (node_at w' t)"
  shows "ec_step b k A w w'"
  unfolding ec_step_def
proof (intro conjI allI)
  fix a :: string
  have "rel_option (if a \<in> A then same_node else same_ec b k) o1 o1" for o1
    by (cases o1) (simp_all add: same_node_def)
  with assms(2,3) show "rel_option (if a \<in> A then same_node else same_ec b k) (node_at w a) (node_at w' a)"
    by (cases "a = t") auto
qed (rule assms(1))

lemma ec_step_refl [simp]: "ec_step b k A w w"
  by (rule ec_stepI [where t = undefined]) (cases "node_at w undefined"; simp add: same_node_def)+

lemma ec_step_trans:
  assumes "ec_step b k A w1 w2" "ec_step b k B w2 w3"
  shows "ec_step b k (A \<union> B) w1 w3"
  unfolding ec_step_def
proof (intro conjI allI)
  fix a :: string
  let ?R = "\<lambda>A. if a \<in> A then same_node else same_ec b k"
  have weak: "rel_option same_node o1 o2" if "rel_option (?R C) o1 o2" for o1 o2 C
    by (rule option.rel_mono_strong [OF that], cases "a \<in> C") (simp, simp, rule same_ec_node)
  have tr: "rel_option R o1 o3" if "rel_option R o1 o2" "rel_option R o2 o3" "\<And>x y z. R x y \<Longrightarrow> R y z \<Longrightarrow> R x z"
    for R :: "server \<Rightarrow> server \<Rightarrow> bool" and o1 o2 o3
    using that(1,2) by (auto elim!: option.rel_cases intro: that(3))
  from assms have r: "rel_option (?R A) (node_at w1 a) (node_at w2 a)" "rel_option (?R B) (node_at w2 a) (node_at w3 a)"
    by (simp_all add: ec_step_def)
  show "rel_option (?R (A \<union> B)) (node_at w1 a) (node_at w3 a)"
  proof (cases "a \<in> A \<union> B")
    case True
    with tr [OF weak [OF r(1)] weak [OF r(2)]] show ?thesis by (simp add: same_node_def)
  next
    case False
    with r tr [of "same_ec b k"] same_ec_trans show ?thesis by auto
  qed
qed (use assms in \<open>simp add: ec_step_def\<close>)

lemma ec_step_mono: "ec_step b k A w w' \<Longrightarrow> A \<subseteq> B \<Longrightarrow> ec_step b k B w w'"
  using ec_step_trans [of b k A w w' B w'] by (simp add: Un_absorb1)

lemma ec_step_node:
  assumes "ec_step b k A w w'" "node_at w' a = Some sr'"
  shows "\<exists>sr. node_at w a = Some sr \<and> same_node sr sr' \<and> (a \<notin> A \<longrightarrow> same_ec b k sr sr')"
proof -
  from assms have "rel_option (if a \<in> A then same_node else same_ec b k) (node_at w a) (Some sr')"
    by (metis ec_step_def)
  then show ?thesis using same_ec_node by (cases "node_at w a") (auto split: if_splits)
qed

lemma ec_step_node':
  assumes "ec_step b k A w w'" "node_at w a = Some sr"
  shows "\<exists>sr'. node_at w' a = Some sr' \<and> same_node sr sr' \<and> (a \<notin> A \<longrightarrow> same_ec b k sr sr')"
proof -
  from assms have "rel_option (if a \<in> A then same_node else same_ec b k) (Some sr) (node_at w' a)"
    by (metis ec_step_def)
  then show ?thesis using same_ec_node by (cases "node_at w' a") (auto split: if_splits)
qed

lemma ec_step_world: "ec_step b k A w w' \<Longrightarrow> ec_world w \<Longrightarrow> ec_world w'"
proof -
  assume s: "ec_step b k A w w'" and w: "ec_world w"
  have "good_root (sr_root sr)" if "node_at w' a = Some sr" for a sr
    using ec_step_node [OF s that] ec_worldD(2) [OF w] by (auto simp: same_node_def)
  with s w show "ec_world w'" by (simp add: ec_world_def ec_step_def)
qed

lemma ec_step_mgr:
  assumes "ec_step b k A w w'"
  shows "known_followers w' = known_followers w" "alive_followers w' = alive_followers w"
    "sr_token (w_self w') = sr_token (w_self w)"
proof -
  have "same_node (w_self w) (w_self w')"
    using ec_step_node [OF assms, of "[]" "w_self w'"] by (auto simp: node_at_def)
  then show "known_followers w' = known_followers w" "alive_followers w' = alive_followers w"
    "sr_token (w_self w') = sr_token (w_self w)"
    by (simp_all add: same_node_def known_followers_def alive_followers_def)
qed

lemma local_ec_step:
  assumes "local m w = (r, w')" "\<And>fs. m (sr_root (w_self w)) (now_env w) (sr_fs (w_self w)) = (r, fs) \<Longrightarrow>
      [] \<in> A \<or> same_ec b k (w_self w) ((w_self w)\<lparr>sr_fs := fs\<rparr>)"
  shows "ec_step b k A w w'"
proof -
  obtain fs where f: "m (sr_root (w_self w)) (now_env w) (sr_fs (w_self w)) = (r, fs)"
    "w' = tick (w\<lparr>w_self := (w_self w)\<lparr>sr_fs := fs\<rparr>\<rparr>)" using assms(1) by (auto simp: local_run)
  show ?thesis
  proof (rule ec_stepI [where t = "[]"])
    show "rel_option (if [] \<in> A then same_node else same_ec b k) (node_at w []) (node_at w' [])"
      using f(2) assms(2) [OF f(1)] by (auto simp: node_at_def same_node_def)
  qed (simp_all add: f(2) node_at_def peer_def)
qed

lemma client_put_ec_shard_ok:
  assumes "client_put_ec_shard addr b k i m (bytes_stream s) (int (length s)) w = (Inr (), w')"
    and "s \<noteq> []" "int64_ok i"
  obtains sr fs where "peer w addr = Some sr" "peer w' addr = Some (sr\<lparr>sr_fs := fs\<rparr>)" "w_self w' = w_self w" "w_ids w' = w_ids w"
    "\<And>a. a \<noteq> addr \<Longrightarrow> peer w' a = peer w a"
    "put_ec_shard (sr_root sr) (now_env w) b k i (bytes_stream s) (int (length s)) m (sr_fs sr) = (Inr (), fs)"
proof -
  let ?sz = "int (length s)"
  let ?rq = "(request w ''POST'' ''/internal/ec-put-shard'' (shard_query b k i))
         \<lparr>rq_meta := MetaOf m, rq_body := RawBody (fst (wire_stream ?sz (bytes_stream s))), rq_length := wire_length ?sz\<rparr>"
  from assms(1) obtain rs w1 where c: "call addr ?rq w = (Inr rs, w1)" and
    rest: "(if \<not> body_sent (Some (bytes_stream s)) ?sz then failE body_error
       else expect_ok (status_error ''ec-put-shard'' addr) (\<lambda>_. retE ()) rs) w1 = (Inr (), w')"
    unfolding client_put_ec_shard_def by (rule bindE_okE)
  from rest have ok: "rs_status rs = 200" "w1 = w'" by (auto simp: expect_ok_def split: if_splits)
  let ?sv = "\<lambda>sr. serve (now_env w) (wire ?rq) sr"
  from c obtain sr where sr: "peer w addr = Some sr" "rs_status rs = rs_status (fst (?sv sr))"
    "peer w1 addr = Some (snd (?sv sr))" by (rule call_ok)
  have len: "wire_length ?sz = ?sz" using assms(2) by (simp add: wire_length_def)
  have q: "rq_query (wire ?rq) = shard_query b k i" "rq_path (wire ?rq) = ''/internal/ec-put-shard''"
    "rq_method (wire ?rq) = ''POST''" "rq_meta (wire ?rq) = MetaOf m" "rq_body (wire ?rq) = RawBody (bytes_stream s)"
    "rq_length (wire ?rq) = ?sz" by (simp_all add: wire_stream_exact len)
  have "?sv sr = mux (now_env w) (wire ?rq) sr" by (rule serve_token) (use sr(2) ok(1) in simp)
  also have "\<dots> = handle_ec_put_shard (now_env w) (wire ?rq) sr" by (simp add: mux_def routes_def q(2))
  also have "\<dots> = (if b = [] \<or> k = []
      then (reply 400 (ErrText ''Missing bucket, key, or shard_index query parameter''), sr)
      else storage_reply 500 (\<lambda>_. StatusJson ''OK'')
        (\<lambda>root. put_ec_shard root (now_env w) b k i (bytes_stream s) ?sz m) sr)"
    using q atoi_itoa [OF assms(3)] qget_shard [OF q(1)]
    by (simp add: handle_ec_put_shard_def only_def with_shard_def bad_request_def Let_def)
  finally have run: "?sv sr = \<dots>" .
  obtain r fs where p: "put_ec_shard (sr_root sr) (now_env w) b k i (bytes_stream s) ?sz m (sr_fs sr) = (r, fs)"
    by (cases "put_ec_shard (sr_root sr) (now_env w) b k i (bytes_stream s) ?sz m (sr_fs sr)")
  from run sr(2) ok(1) p have "r = Inr ()" "snd (?sv sr) = sr\<lparr>sr_fs := fs\<rparr>"
    by (auto simp: storage_reply_def on_storage_def reply_def split: if_splits sum.splits)
  with that [OF sr(1)] sr(3) p call_rest [OF c] ok(2) show thesis by simp
qed

lemma put_shard_at_ok:
  assumes "put_shard_at b k (int i) s (int (length s)) m target w = (Inr (), w')" "ec_world w"
    and "plain_seg b" "plain_name k" "s \<noteq> []" "i < n" "int64_ok (int n)" "om_ec_chunk_index m = int i"
    and "\<And>sr. node_at w target = Some sr \<Longrightarrow> ec_clean n b k sr"
  shows "ec_step b k {target} w w' \<and> (\<exists>sr. node_at w' target = Some sr \<and> ec_holds n b k i s m sr)"
proof -
  have env: "good_env (now_env w)" by (rule ec_worldD(1) [OF assms(2)])
  have dir: "good_dir (sr_root sr) b" if "node_at w target = Some sr" for sr
    using ec_worldD(2) [OF assms(2) that] assms(3) by (simp add: good_dir_def)
  note holds = put_shard_holds [OF dir assms(4) env _ assms(9) assms(6-8)]
  show ?thesis
  proof (cases "target = []")
    case True
    with assms(1) have l: "local (\<lambda>root ev. put_ec_shard root ev b k (int i) (bytes_stream s) (int (length s)) m) w = (Inr (), w')"
      by (auto simp: put_shard_at_def dest: wrapE_okD)
    then obtain fs where f: "put_ec_shard (sr_root (w_self w)) (now_env w) b k (int i) (bytes_stream s) (int (length s)) m (sr_fs (w_self w)) = (Inr (), fs)"
      "w' = tick (w\<lparr>w_self := (w_self w)\<lparr>sr_fs := fs\<rparr>\<rparr>)" by (auto simp: local_run)
    have n: "node_at w target = Some (w_self w)" "node_at w' target = Some ((w_self w)\<lparr>sr_fs := fs\<rparr>)"
      using True f(2) by (simp_all add: node_at_def)
    have "ec_step b k {target} w w'" using True by (intro local_ec_step [OF l]) simp
    with holds [OF n(1) f(1) n(1)] n(2) show ?thesis by blast
  next
    case False
    with assms(1) have c: "client_put_ec_shard target b k (int i) m (bytes_stream s) (int (length s)) w = (Inr (), w')"
      by (auto simp: put_shard_at_def dest: wrapE_okD)
    obtain sr fs where o: "peer w target = Some sr" "peer w' target = Some (sr\<lparr>sr_fs := fs\<rparr>)" "w_self w' = w_self w" "w_ids w' = w_ids w"
      "\<And>a. a \<noteq> target \<Longrightarrow> peer w' a = peer w a"
      "put_ec_shard (sr_root sr) (now_env w) b k (int i) (bytes_stream s) (int (length s)) m (sr_fs sr) = (Inr (), fs)"
      by (rule client_put_ec_shard_ok [OF c assms(5) int64_ok_less [OF assms(7,6)]]) (rule that)
    have n: "node_at w target = Some sr" "node_at w' target = Some (sr\<lparr>sr_fs := fs\<rparr>)" using False o(1,2) by (simp_all add: node_at_def)
    have "ec_step b k {target} w w'"
      by (rule ec_stepI [where t = target]) (use n o(3-5) in \<open>simp_all add: node_at_def same_node_def\<close>)
    with holds [OF n(1) o(6) n(1)] n(2) show ?thesis by blast
  qed
qed

section \<open>All messages\<close>

lemma distribute_ok:
  assumes "forE (List.enumerate d targets) (\<lambda>(i, target).
       put_shard_at b k (int i) (shards ! i) sz (m\<lparr>om_ec_chunk_index := int i\<rparr>) target) w = (Inr (), w')"
    and "ec_world w" "plain_seg b" "plain_name k" "distinct targets" "d + length targets \<le> n" "int64_ok (int n)"
    and "\<And>i. i < n \<Longrightarrow> shards ! i \<noteq> [] \<and> sz = int (length (shards ! i))"
    and "\<And>a sr. a \<in> set targets \<Longrightarrow> node_at w a = Some sr \<Longrightarrow> ec_clean n b k sr"
  shows "ec_step b k (set targets) w w' \<and> (\<forall>j < length targets. \<exists>sr. node_at w' (targets ! j) = Some sr \<and>
    ec_holds n b k (d + j) (shards ! (d + j)) (m\<lparr>om_ec_chunk_index := int (d + j)\<rparr>) sr)"
  using assms(1,2,5,6,9)
proof (induction targets arbitrary: d w)
  case (Cons t ts)
  from Cons.prems(1) obtain w1 where
    one: "put_shard_at b k (int d) (shards ! d) sz (m\<lparr>om_ec_chunk_index := int d\<rparr>) t w = (Inr (), w1)"
    and rest: "forE (List.enumerate (Suc d) ts) (\<lambda>(i, target).
       put_shard_at b k (int i) (shards ! i) sz (m\<lparr>om_ec_chunk_index := int i\<rparr>) target) w1 = (Inr (), w')"
    by (auto elim!: bindE_okE)
  have d: "d < n" using Cons.prems(4) by simp
  have "sz = int (length (shards ! d))" "shards ! d \<noteq> []" using assms(8) [OF d] by simp_all
  then have p: "ec_step b k {t} w w1 \<and> (\<exists>sr. node_at w1 t = Some sr \<and>
      ec_holds n b k d (shards ! d) (m\<lparr>om_ec_chunk_index := int d\<rparr>) sr)"
    using one Cons.prems(2) Cons.prems(5) [of t]
    by (intro put_shard_at_ok [OF _ _ assms(3,4) _ d assms(7)]) simp_all
  then obtain sr1 where st: "ec_step b k {t} w w1" and sr1: "node_at w1 t = Some sr1"
    "ec_holds n b k d (shards ! d) (m\<lparr>om_ec_chunk_index := int d\<rparr>) sr1" by blast
  have nt: "t \<notin> set ts" "distinct ts" using Cons.prems(3) by simp_all
  have clean: "ec_clean n b k sr" if "a \<in> set ts" "node_at w1 a = Some sr" for a sr
    using ec_step_node [OF st that(2)] Cons.prems(5) [of a] that(1) nt(1) same_ec_holds(2) by auto
  have ih: "ec_step b k (set ts) w1 w' \<and> (\<forall>j < length ts. \<exists>sr. node_at w' (ts ! j) = Some sr \<and>
    ec_holds n b k (Suc d + j) (shards ! (Suc d + j)) (m\<lparr>om_ec_chunk_index := int (Suc d + j)\<rparr>) sr)"
    by (rule Cons.IH [OF rest ec_step_world [OF st Cons.prems(2)] nt(2) _ clean]) (use Cons.prems(4) in simp_all)
  have "\<exists>sr. node_at w' t = Some sr \<and> ec_holds n b k d (shards ! d) (m\<lparr>om_ec_chunk_index := int d\<rparr>) sr"
    using ec_step_node' [OF conjunct1 [OF ih] sr1(1)] nt(1) same_ec_holds(1) [OF _ sr1(2)] by auto
  moreover have "ec_step b k (set (t # ts)) w w'"
    using ec_step_trans [OF st conjunct1 [OF ih]] by simp
  moreover have "\<exists>sr. node_at w' ((t # ts) ! Suc j) = Some sr \<and> ec_holds n b k (d + Suc j) (shards ! (d + Suc j))
      (m\<lparr>om_ec_chunk_index := int (d + Suc j)\<rparr>) sr" if "j < length ts" for j
    using conjunct2 [OF ih] that by (simp only: nth_Cons_Suc add_Suc_shift)
  ultimately show ?case by (auto simp: less_Suc_eq_0_disj simp del: of_nat_add of_nat_Suc)
qed simp

lemma client_remove_step:
  assumes "client_remove_replica_data addr b k w = (r, w')" "ec_world w" "plain_seg b" "plain_name k" "addr \<noteq> []"
  shows "ec_step b k {} w w'"
proof -
  let ?rq = "request w ''POST'' ''/internal/ec-remove-replica'' (object_query b k)"
  have "w' = snd (call addr ?rq w)"
    using assms(1) bindE_world [of "\<lambda>rs. expect_ok (status_error ''ec-remove-replica'' addr) (\<lambda>_. retE ()) rs" "call addr ?rq" w]
    by (simp add: client_remove_replica_data_def)
  then obtain r1 where c: "call addr ?rq w = (r1, w')" by (metis prod.collapse)
  let ?R = "\<lambda>sr sr'. good_root (sr_root sr) \<longrightarrow> same_ec b k sr sr'"
  have R: "?R sr (snd (serve (now_env w) rq' sr))" if "rq' \<in> arrivals ?rq" for rq' sr
  proof
    assume root: "good_root (sr_root sr)"
    have path: "rq_path rq' = ''/internal/ec-remove-replica''" using arrivals_fields(1) [OF that] by simp
    have q: "rq_query rq' = object_query b k" using that by (auto simp: arrivals_def)
    obtain r fs where rm: "remove_replica_data (sr_root sr) b k (sr_fs sr) = (r, fs)"
      by (cases "remove_replica_data (sr_root sr) b k (sr_fs sr)")
    have "snd (mux (now_env w) rq' sr) \<in> {sr, sr\<lparr>sr_fs := fs\<rparr>}"
      using path rm qget_object [OF q]
      by (auto simp: mux_def routes_def handle_ec_remove_replica_def only_def with_object_def bad_request_def
          storage_reply_def on_storage_def Let_def split: sum.split)
    then have "snd (serve (now_env w) rq' sr) \<in> {sr, sr\<lparr>sr_fs := fs\<rparr>}" by (auto simp: serve_def)
    moreover have "same_ec b k sr (sr\<lparr>sr_fs := fs\<rparr>)"
      by (rule remove_replica_same [OF _ assms(4) rm]) (use root assms(3) in \<open>simp add: good_dir_def\<close>)
    ultimately show "same_ec b k sr (snd (serve (now_env w) rq' sr))" by auto
  qed
  have "focus addr w w'" "rel_option ?R (peer w addr) (peer w' addr)"
    by (rule call_reach [OF c]; use R in simp)+
  moreover have "rel_option (same_ec b k) (peer w addr) (peer w' addr)"
    by (rule option.rel_mono_strong [OF calculation(2)])
      (use ec_worldD(2) [OF assms(2), of addr] assms(5) in \<open>auto simp: node_at_def\<close>)
  ultimately show ?thesis
    by (intro ec_stepI [where t = addr]) (use assms(5) in \<open>auto simp: focus_def node_at_def\<close>)
qed

lemma remove_replicas_step:
  assumes "remove_replicas b k as w = (e, w')" "ec_world w" "plain_seg b" "plain_name k" "[] \<notin> set as"
  shows "ec_step b k {} w w'"
  using assms(1,2,5)
proof (induction as arbitrary: w e)
  case (Cons a as)
  obtain r w1 where one: "client_remove_replica_data a b k w = (r, w1)" by (cases "client_remove_replica_data a b k w")
  obtain e1 w2 where more: "remove_replicas b k as w1 = (e1, w2)" by (cases "remove_replicas b k as w1")
  have s: "ec_step b k {} w w1"
    by (rule client_remove_step [OF one Cons.prems(2) assms(3,4)]) (use Cons.prems(3) in auto)
  from Cons.prems(1) one more have w': "w2 = w'" by simp
  have "ec_step b k {} w1 w'"
    by (rule Cons.IH [OF more [unfolded w'] ec_step_world [OF s Cons.prems(2)]]) (use Cons.prems(3) in simp)
  from ec_step_trans [OF s this] show ?case by simp
qed simp

lemma remove_everywhere_step:
  assumes "remove_replica_from_all_nodes b k as w = (e, w')" "ec_world w" "plain_seg b" "plain_name k" "[] \<notin> set as"
  shows "ec_step b k {} w w'"
proof -
  obtain r w1 where one: "local (\<lambda>root ev. remove_replica_data root b k) w = (r, w1)"
    by (cases "local (\<lambda>root ev. remove_replica_data root b k) w")
  obtain e1 w2 where more: "remove_replicas b k as w1 = (e1, w2)" by (cases "remove_replicas b k as w1")
  have dir: "good_dir (sr_root (w_self w)) b"
    using ec_worldD(2) [OF assms(2), of "[]"] assms(3) by (simp add: node_at_def good_dir_def)
  have s: "ec_step b k {} w w1"
    by (rule local_ec_step [OF one]) (use remove_replica_same [OF dir assms(4)] in simp)
  from assms(1) one more have w': "w2 = w'" by (simp add: remove_replica_from_all_nodes_def)
  from ec_step_trans [OF s remove_replicas_step [OF more [unfolded w'] ec_step_world [OF s assms(2)] assms(3-5)]]
  show ?thesis by simp
qed

section \<open>A conversion\<close>

definition shard_meta :: "ec_manager \<Rightarrow> byte list list \<Rightarrow> object_meta \<Rightarrow> nat \<Rightarrow> object_meta" where
  "shard_meta em full m i = (ec_meta (em_codec em) (int (length (full ! 0))) m)\<lparr>om_ec_chunk_index := int i\<rparr>"

lemma local_object_run:
  assumes "sr_obj (w_self w) b k = Some (bs, m)" "\<not> is_ec m"
  shows "local (\<lambda>root ev. get_object root b k) w = (Inr (bytes_stream bs, m), tick w)"
proof -
  let ?root = "sr_root (w_self w)" and ?fs = "sr_fs (w_self w)"
  from assms(1) obtain mt mt' where f: "fs_file ?fs (meta_path ?root b k) = Some (mt, CMeta m)"
    "fs_file ?fs (body_path ?root b k m) = Some (mt', CData bs)"
    by (auto simp: sr_obj_def object_at_iff)
  have "get_object ?root b k ?fs = (Inr (bytes_stream bs, m), ?fs)" using f by (rule get_object_run)
  then show ?thesis by (simp add: local_def on_storage_def)
qed

lemma convert_ok:
  assumes run: "convert_to_ec em b k w = (Inr (), w')" and ok: "em_ok em" "ec_world w" "plain_seg b" "plain_name k"
    and obj: "sr_obj (w_self w) b k = Some (dat, m)" "\<not> is_ec m" "dat \<noteq> []"
    and nodes: "distinct ([] # alive_followers w)" "set (alive_followers w) \<subseteq> set (known_followers w)"
    and clean: "\<And>a sr. a \<in> set ([] # known_followers w) \<Longrightarrow> node_at w a = Some sr \<Longrightarrow> ec_clean (nat (codec_n (em_codec em))) b k sr"
  defines "n \<equiv> nat (codec_n (em_codec em))"
  defines "targets \<equiv> take n ([] # alive_followers w)"
  obtains full where "encode (em_rs em) (em_codec em) dat = Inr full" "length targets = n"
    "ec_step b k (set targets) w w'"
    "\<And>j. j < n \<Longrightarrow> \<exists>sr. node_at w' (targets ! j) = Some sr \<and> ec_holds n b k j (full ! j) (shard_meta em full m j) sr"
proof -
  let ?c = "em_codec em" and ?al = "alive_followers w"
  have al: "alive_followers (tick w) = ?al" by (simp add: alive_followers_def)
  obtain full where enc: "encode (em_rs em) ?c dat = Inr full"
    using run local_object_run [OF obj(1,2)]
    by (cases "encode (em_rs em) ?c dat")
      (auto simp: convert_to_ec_def bindE_def wrapE_def drain_def retE_def failE_def bytes_stream_def)
  note cf = ec_codec_facts [OF ok(1) enc obj(3)]
  let ?ss = "int (length (full ! 0))"
  have "bindE (distribute_shards b k full ?ss (ec_meta ?c ?ss m) targets)
      (\<lambda>_ w1. (Inr (), snd (remove_replica_from_all_nodes b k ?al w1))) (tick w) = (Inr (), w')"
    and len: "length targets = n"
    using run local_object_run [OF obj(1,2)] enc al
    by (auto simp: convert_to_ec_def bindE_def wrapE_def drain_def retE_def bytes_stream_def ec_targets_def Let_def
        targets_def n_def split: if_splits prod.splits sum.splits)
  then obtain w1 where d: "distribute_shards b k full ?ss (ec_meta ?c ?ss m) targets (tick w) = (Inr (), w1)"
    and rm: "w' = snd (remove_replica_from_all_nodes b k ?al w1)"
    by (auto elim!: bindE_okE)
  have n: "length full = n" using cf(1) by (simp add: n_def)
  have size: "full ! i \<noteq> [] \<and> ?ss = int (length (full ! i))" if "i < n" for i
  proof
    show "full ! i \<noteq> []" using cf(2) n that nth_mem by metis
    from enc obj(3) ok(1) obtain ss where "\<forall>s \<in> set full. int (length s) = ss"
      unfolding em_ok_def by (metis codec_roundtrip sum.inject(2))
    then show "?ss = int (length (full ! i))" using n that by (metis gr_implies_not0 neq0_conv nth_mem)
  qed
  have same: "node_at (tick w) a = node_at w a" for a by (rule still_node [OF still_refl(2)])
  have w0: "ec_world (tick w)" using ok(2) by (simp add: ec_world_def same)
  have sub: "set targets \<subseteq> set ([] # known_followers w)"
    using set_take_subset [of n "[] # ?al"] nodes(2) unfolding targets_def by auto
  have st: "ec_step b k (set targets) (tick w) w1 \<and> (\<forall>j < length targets. \<exists>sr. node_at w1 (targets ! j) = Some sr \<and>
    ec_holds n b k (0 + j) (full ! (0 + j)) ((ec_meta ?c ?ss m)\<lparr>om_ec_chunk_index := int (0 + j)\<rparr>) sr)"
  proof (rule distribute_ok [OF d [unfolded distribute_shards_def] w0 ok(3,4) _ _ _ size])
    show "distinct targets" unfolding targets_def using nodes(1) by (rule distinct_take)
    show "int64_ok (int n)" using cf(3) n by simp
    show "ec_clean n b k sr" if "a \<in> set targets" "node_at (tick w) a = Some sr" for a sr
      unfolding n_def using clean [of a sr] sub that by (auto simp: same)
  qed (use len in simp_all)
  have s0: "ec_step b k {} w (tick w)"
    by (rule ec_stepI [where t = "[]"]) (simp_all add: same node_at_def)
  have s1: "ec_step b k (set targets) w w1" using ec_step_trans [OF s0 conjunct1 [OF st]] by simp
  have s2: "ec_step b k {} w1 w'"
    unfolding rm by (rule remove_everywhere_step [OF surjective_pairing ec_step_world [OF s1 ok(2)] ok(3,4)]) (use nodes(1) in simp)
  have "ec_step b k (set targets) w w'" using ec_step_trans [OF s1 s2] by simp
  moreover have "\<exists>sr. node_at w' (targets ! j) = Some sr \<and> ec_holds n b k j (full ! j) (shard_meta em full m j) sr" if j: "j < n" for j
  proof -
    from conjunct2 [OF st] j len obtain sr where sr: "node_at w1 (targets ! j) = Some sr"
      "ec_holds n b k j (full ! j) (shard_meta em full m j) sr" by (auto simp: shard_meta_def)
    from ec_step_node' [OF s2 sr(1)] same_ec_holds(1) [OF _ sr(2)] show ?thesis by auto
  qed
  ultimately show thesis using that [OF enc len] by blast
qed

end
