(* ===== verification/ECProps.thy ===== *)
theory ECProps
  imports ECConvert
begin

text \<open>
  What the erasure-coding manager promises: reads are never wrong, a converted object survives the loss
  of \<open>m\<close> nodes; and where it falls short.
\<close>

section \<open>Reading\<close>

text \<open>
  C34. Whatever the network does to the requests of a read, and in whatever order the answers come, a
  read of a non-empty erasure-coded object that returns at all returns exactly its bytes and the local
  metadata, and no node has changed, provided that every node that can be asked holds, under the object's
  shard names, only the right shards of this one encoding.  (\<open>ReadECObject\<close> does not compare the checksum of
  what it decodes: stale shards of another encoding on a node that has come back would be mixed in.)
\<close>

theorem ec_read_never_wrong:
  assumes "em_ok em" "ec_spread em b k dat full m w" "\<And>as. set (arrive as) = set as"
    and "read_ec_object em arrive b k w = (Inr (st, m'), w')"
  shows "st = bytes_stream dat \<and> m' = m \<and> still w w'"
  using ec_read_spread(1) [OF assms] .

section \<open>Conversion, losses, reading\<close>

text \<open>The cluster some time later: the same leader, and each other node as it was or gone.\<close>

definition survivors :: "world \<Rightarrow> world \<Rightarrow> bool" where
  "survivors w v \<longleftrightarrow> w_self v = w_self w \<and> (\<forall>a. peer v a = peer w a \<or> peer v a = None)"

lemma survivors_node: "survivors w v \<Longrightarrow> node_at v a = Some sr \<Longrightarrow> node_at w a = Some sr"
  by (auto simp: survivors_def node_at_def split: if_splits) (metis option.distinct(1))

lemma converted_read:
  assumes ok: "em_ok em" and enc: "encode (em_rs em) (em_codec em) dat = Inr full" "dat \<noteq> []"
    and len: "length targets = nat (codec_n (em_codec em))" "distinct targets" "targets \<noteq> [] \<and> hd targets = []"
    and sub: "set targets \<subseteq> set ([] # known_followers v)"
    and holds: "\<And>j sr. j < length targets \<Longrightarrow> node_at v (targets ! j) = Some sr \<Longrightarrow>
      ec_holds (length targets) b k j (full ! j) (shard_meta em full m j) sr"
    and clean: "\<And>a sr. a \<in> set ([] # known_followers v) - set targets \<Longrightarrow> node_at v a = Some sr \<Longrightarrow> ec_clean (length targets) b k sr"
    and size: "om_content_length m = int (length dat)"
    and up: "responsive v" "b \<noteq> []" "k \<noteq> []" "\<And>as. set (arrive as) = set as"
    and lost: "card {a \<in> set targets. node_at v a = None} \<le> nat (cd_m (em_codec em))"
  shows "fst (read_ec_object em arrive b k v) = Inr (bytes_stream dat, shard_meta em full m 0)"
proof (rule ec_read_spread(2) [OF ok _ up(4) up(1-3)])
  let ?c = "em_codec em" and ?n = "length targets"
  note cf = ec_codec_facts [OF ok enc]
  have n: "codec_n ?c = int ?n" "length full = ?n" using cf(1,4,5) len(1) by (simp_all add: codec_n_def)
  have idx: "\<exists>j < ?n. targets ! j = a" if "a \<in> set targets" for a using that by (auto simp: in_set_conv_nth)
  have claims: "claims_shard (cd_k ?c) (cd_m ?c) (shard_meta em full m j)" "is_ec (shard_meta em full m j)" for j
    by (simp_all add: claims_shard_def shard_meta_def ec_meta_def is_ec_def)
  have node: "ec_clean ?n b k sr \<or> (\<exists>j < ?n. ec_holds ?n b k j (full ! j) (shard_meta em full m j) sr)"
    if "a \<in> set ([] # known_followers v)" "node_at v a = Some sr" for a sr
    using holds clean [of a sr] idx [of a] that by (cases "a \<in> set targets") blast+
  have self: "node_at v (targets ! 0) = Some (w_self v)" using len(3) by (cases targets) (simp_all add: node_at_def)
  from holds [OF _ self] len(3) have own: "sr_meta (w_self v) b k = Some (shard_meta em full m 0)"
    by (cases targets) (simp_all add: ec_holds_def)
  show "ec_spread em b k dat full (shard_meta em full m 0) v"
    unfolding ec_spread_def
  proof (intro conjI ballI allI impI)
    fix a sr i assume a: "a \<in> set ([] # known_followers v)" "node_at v a = Some sr" and i: "i < length full"
    from node [OF a] show "sr_shard sr b k (int i) \<in> {None, Some (full ! i)}"
      using i n(2) by (auto simp: ec_clean_def ec_holds_def)
  qed (use enc own claims(2) [of 0] size in \<open>simp_all add: shard_meta_def ec_meta_def\<close>)
  show "ec_complete em b k v"
    unfolding ec_complete_def
  proof (intro ballI allI impI)
    fix a sr m' assume a: "a \<in> set ([] # known_followers v)" "node_at v a = Some sr"
      and m': "sr_meta sr b k = Some m'" "claims_shard (cd_k ?c) (cd_m ?c) m'"
    from m'(2) have "is_ec m'" by (simp add: claims_shard_def)
    with node [OF a] m'(1) obtain j where "j < ?n" "ec_holds ?n b k j (full ! j) (shard_meta em full m j) sr"
      by (auto simp: ec_clean_def)
    with m'(1) n(1) show "0 \<le> om_ec_chunk_index m' \<and> om_ec_chunk_index m' < codec_n ?c \<and> sr_shard sr b k (om_ec_chunk_index m') \<noteq> None"
      by (simp add: ec_holds_def)
  qed
  let ?up = "{j. j < ?n \<and> node_at v (targets ! j) \<noteq> None}"
  have "int ` ?up \<subseteq> held_shards em b k v"
  proof
    fix i assume "i \<in> int ` ?up"
    then obtain j sr where j: "i = int j" "j < ?n" "node_at v (targets ! j) = Some sr" by auto
    from holds [OF j(2,3)] have "sr_meta sr b k = Some (shard_meta em full m j)" "om_ec_chunk_index (shard_meta em full m j) = i"
      by (simp_all add: ec_holds_def j(1))
    with claims(1) j(2,3) sub show "i \<in> held_shards em b k v"
      unfolding held_shards_def using nth_mem by blast
  qed
  moreover have "finite (held_shards em b k v)"
  proof (rule finite_subset)
    show "held_shards em b k v \<subseteq> (\<lambda>a. om_ec_chunk_index (the (sr_meta (the (node_at v a)) b k))) ` set ([] # known_followers v)"
      unfolding held_shards_def by force
  qed simp
  ultimately have "card ?up \<le> card (held_shards em b k v)"
    using card_inj_on_le [of int ?up] by (simp add: inj_on_def)
  moreover have "?n = card ?up + card {j. j < ?n \<and> node_at v (targets ! j) = None}"
  proof -
    let ?down = "{j. j < ?n \<and> node_at v (targets ! j) = None}"
    have "card (?up \<union> ?down) = card ?up + card ?down" by (rule card_Un_disjoint) auto
    moreover have "?up \<union> ?down = {j. j < ?n}" by auto
    ultimately show ?thesis by simp
  qed
  moreover have "card {j. j < ?n \<and> node_at v (targets ! j) = None} \<le> card {a \<in> set targets. node_at v a = None}"
    by (rule card_inj_on_le [of "(!) targets"]) (use len(2) in \<open>auto simp: inj_on_def nth_eq_iff_index_eq\<close>)
  ultimately show "cd_k ?c \<le> int (card (held_shards em b k v))"
    using lost n(1) cf(4,5) by (simp add: codec_n_def)
qed

text \<open>
  C9. Once a conversion of a non-empty object to \<open>k + m\<close> shards reports success, the leader that made it
  can read it back, byte for byte, with up to \<open>m\<close> of the nodes it was spread over gone.  The leader itself
  stays; the nodes left are as they were and all answer; it knows the followers that were alive; no node
  held a shard of the object or metadata of an encoding before; and the object's metadata described its
  body.  (An empty object does not survive: it reads back as \<open>k\<close> zero bytes.)
\<close>

theorem ec_survives_losses:
  assumes "convert_to_ec em b k w = (Inr (), w')" "em_ok em" "world_ok w" "plain_seg b" "plain_name k"
    and "sr_obj (w_self w) b k = Some (dat, m)" "true_meta dat m" "dat \<noteq> []" "k \<noteq> []"
    and "distinct ([] # alive_followers w)" "set (alive_followers w) \<subseteq> set (known_followers w)"
    and "\<And>a sr. a \<in> set ([] # known_followers w) \<Longrightarrow> node_at w a = Some sr \<Longrightarrow> ec_clean (nat (codec_n (em_codec em))) b k sr"
    and "survivors w' v" "responsive v" "\<And>as. set (arrive as) = set as"
    and "card {a \<in> set (take (nat (codec_n (em_codec em))) ([] # alive_followers w)). node_at v a = None} \<le> nat (cd_m (em_codec em))"
  shows "\<exists>m'. fst (read_ec_object em arrive b k v) = Inr (bytes_stream dat, m') \<and> om_etag m' = om_etag m \<and> om_crc32 m' = crc32 dat"
proof -
  let ?n = "nat (codec_n (em_codec em))"
  let ?t = "take ?n ([] # alive_followers w)"
  have m: "\<not> is_ec m" "om_content_length m = int (length dat)" "om_crc32 m = crc32 dat" using assms(7) by (simp_all add: true_meta_def)
  obtain full where f: "encode (em_rs em) (em_codec em) dat = Inr full" "length ?t = ?n" "ec_step b k (set ?t) w w'"
    "\<And>j. j < ?n \<Longrightarrow> \<exists>sr. node_at w' (?t ! j) = Some sr \<and> ec_holds ?n b k j (full ! j) (shard_meta em full m j) sr"
    by (rule convert_ok [OF assms(1,2) world_ok_ec [OF assms(3)] assms(4,5,6) m(1) assms(8,10,11,12)]) (use that in blast)+
  have "known_followers v = known_followers w"
    using assms(13) ec_step_mgr(1) [OF f(3)] by (simp add: survivors_def known_followers_def)
  note kn = this
  have "1 \<le> ?n" using ec_codec_facts(4,5) [OF assms(2) f(1) assms(8)] by (simp add: codec_n_def)
  then have hd: "?t \<noteq> [] \<and> hd ?t = []" by (cases ?n) simp_all
  have sub: "set ?t \<subseteq> set ([] # known_followers w)"
    using set_take_subset [of ?n "[] # alive_followers w"] assms(11) by auto
  have dist: "distinct ?t" using assms(10) by (rule distinct_take)
  have "fst (read_ec_object em arrive b k v) = Inr (bytes_stream dat, shard_meta em full m 0)"
  proof (rule converted_read [OF assms(2) f(1) assms(8) f(2) dist hd _ _ _ m(2) assms(14) _ assms(9,15,16)])
    show "set ?t \<subseteq> set ([] # known_followers v)" using sub kn by simp
    show "b \<noteq> []" using assms(4) by (auto simp: plain_seg_def plain_comp_def)
    fix j sr assume "j < length ?t" "node_at v (?t ! j) = Some sr"
    with f(2) f(4) [of j] survivors_node [OF assms(13)] show "ec_holds (length ?t) b k j (full ! j) (shard_meta em full m j) sr"
      by fastforce
  next
    fix a sr assume a: "a \<in> set ([] # known_followers v) - set ?t" "node_at v a = Some sr"
    from ec_step_node [OF f(3) survivors_node [OF assms(13) a(2)]] a(1)
    obtain sr0 where "node_at w a = Some sr0" "same_ec b k sr0 sr" by blast
    with assms(12) [of a sr0] a(1) kn same_ec_holds(2) f(2) show "ec_clean (length ?t) b k sr" by simp
  qed
  with m(3) show ?thesis by (simp add: shard_meta_def ec_meta_def)
qed

end
