(* ===== verification/ECDemo.thy ===== *)
theory ECDemo
  imports ECProps ServiceProps
begin

text \<open>
  Three nodes with the exclusive-or code: the properties of the erasure-coding manager at work, and
  two runs in which it falls short.
\<close>

definition demo_manager3 :: ec_manager where
  "demo_manager3 = \<lparr>em_rs = xor_lib, em_codec = \<lparr>cd_k = 2, cd_m = 1\<rparr>, em_min_age = 0, em_min_size = 0\<rparr>"

lemma demo_manager3_ok: "em_ok demo_manager3"
  unfolding em_ok_def by (rule exI [of _ 2], rule exI [of _ 1])
    (use xor_lib_correct in \<open>simp add: demo_manager3_def new_codec_def xor_lib_def wrap64_def int64_ok_def\<close>)

definition ec_demo_meta :: "int \<Rightarrow> object_meta" where
  "ec_demo_meta i = empty_meta\<lparr>om_content_length := 2, om_storage_mode := StorageModeEC,
     om_ec_params := \<lparr>ec_k = 2, ec_m = 1, ec_shard_size = 1\<rparr>, om_ec_chunk_index := i\<rparr>"

definition shard_fs :: "int \<Rightarrow> byte list \<Rightarrow> repo_fs" where
  "shard_fs i bs = (ec_shard_path demo_root ''b'' ''a'' i, File 7 (CData bs)) #
     (meta_path demo_root ''b'' ''a'', File 7 (CMeta (ec_demo_meta i))) #
     ([''srv'', ''ecdata'', ''b''], Dir) # demo_fs"

definition three_nodes :: "(string \<times> repo_fs) list \<Rightarrow> repo_fs \<Rightarrow> world" where
  "three_nodes others own =
     (let w = demo_world (\<lambda>_. Delivered) in
      w\<lparr>w_self := (w_self w)\<lparr>sr_fs := own,
          sr_mgr := Static (demo_static\<lparr>sm_states := map (\<lambda>(nid, fs). demo_node nid StatusReady) others\<rparr>)\<rparr>,
        w_peers := map (\<lambda>(nid, fs). (''http://'' @ nid, (demo_server (Standalone (new_standalone_manager nid)))\<lparr>sr_fs := fs\<rparr>)) others\<rparr>)"

text \<open>The second follower has lost its disk.\<close>

definition degraded :: world where
  "degraded = three_nodes [(''n1'', shard_fs 1 [2]), (''n2'', demo_fs)] (shard_fs 0 [1])"

lemma degraded_read: "fst (read_ec_object demo_manager3 id ''b'' ''a'' degraded) = Inr (bytes_stream [1, 2], ec_demo_meta 0)"
  by code_simp

lemma degraded_node:
  assumes "a \<in> set ([] # known_followers degraded)" "node_at degraded a = Some sr"
  shows "sr \<in> {w_self degraded, the (peer degraded ''http://n1''), the (peer degraded ''http://n2'')}"
proof -
  have "known_followers degraded = [''http://n1'', ''http://n2'']" by code_simp
  with assms show ?thesis by (auto simp: node_at_def split: if_splits)
qed

lemma degraded_shards:
  "list_all (\<lambda>(sr, xs). map (\<lambda>i. sr_shard sr ''b'' ''a'' (int i)) [0, 1, 2] = xs)
     [(w_self degraded, [Some [1], None, None]), (the (peer degraded ''http://n1''), [None, Some [2], None]),
      (the (peer degraded ''http://n2''), [None, None, None])]"
  by code_simp

lemma degraded_spread: "ec_spread demo_manager3 ''b'' ''a'' [1, 2] [[1], [2], [3]] (ec_demo_meta 0) degraded"
  unfolding ec_spread_def
proof (intro conjI ballI allI impI)
  fix a sr i assume a: "a \<in> set ([] # known_followers degraded)" "node_at degraded a = Some sr" and i: "i < length [[1], [2], [3 :: byte]]"
  from i have "i = 0 \<or> i = 1 \<or> i = 2" by auto
  with degraded_node [OF a]
  show "sr_shard sr ''b'' ''a'' (int i) \<in> {None, Some ([[1], [2], [3]] ! i)}"
    using degraded_shards by auto
qed (code_simp | simp)+

theorem ec_read_never_wrong_witness:
  "still degraded (snd (read_ec_object demo_manager3 id ''b'' ''a'' degraded))"
proof -
  let ?p = "read_ec_object demo_manager3 id ''b'' ''a'' degraded"
  have "?p = (Inr (bytes_stream [1, 2], ec_demo_meta 0), snd ?p)" using degraded_read by (cases ?p) simp
  from ec_read_never_wrong [OF demo_manager3_ok degraded_spread _ this] show ?thesis by simp
qed

text \<open>A replica on three nodes.\<close>

definition replica_fs :: repo_fs where
  "replica_fs = (data_path demo_root ''b'' ''a'', File 7 (CData [1, 2])) #
     (meta_path demo_root ''b'' ''a'', File 7 (CMeta (empty_meta\<lparr>om_content_length := 2, om_crc32 := 3066839698\<rparr>))) # demo_fs"

definition replicated :: world where
  "replicated = three_nodes [(''n1'', replica_fs), (''n2'', replica_fs)] replica_fs"

definition converted :: world where
  "converted = snd (convert_to_ec demo_manager3 ''b'' ''a'' replicated)"

text \<open>Then the second follower disappears.\<close>

definition bereft :: world where
  "bereft = converted\<lparr>w_peers := filter (\<lambda>p. fst p \<noteq> ''http://n2'') (w_peers converted), w_net := (\<lambda>_. Delivered)\<rparr>"

lemma conversion_run:
  "case convert_to_ec demo_manager3 ''b'' ''a'' replicated of (r, w) \<Rightarrow>
     r = Inr () \<and> peer w ''http://n1'' \<noteq> None \<and> good_token (sr_token (w_self w)) \<and>
     list_all (\<lambda>p. sr_token (snd p) = sr_token (w_self w)) (w_peers w)"
  by code_simp

lemma converted_facts:
  "convert_to_ec demo_manager3 ''b'' ''a'' replicated = (Inr (), converted)" "peer converted ''http://n1'' \<noteq> None"
  "good_token (sr_token (w_self converted))" "list_all (\<lambda>p. sr_token (snd p) = sr_token (w_self converted)) (w_peers converted)"
  using conversion_run by (auto simp: converted_def split: prod.splits)

lemma bereft_peer: "peer bereft a = (if a = ''http://n2'' then None else peer converted a)"
proof -
  have "map_of (filter (\<lambda>p. fst p \<noteq> c) xs) a = (if a = c then None else map_of xs a)" for c a and xs :: "(string \<times> server) list"
    by (induction xs) auto
  then show ?thesis by (simp add: bereft_def peer_def)
qed

lemma replicated_ok: "world_ok replicated"
proof -
  have "good_uuid ''u-1''" by (simp add: good_uuid_def plain_seg_def) code_simp
  moreover have "mgr_inv (sr_mgr (w_self replicated))"
    by (simp add: replicated_def three_nodes_def demo_world_def sm_inv_def demo_static_def demo_node_def fresh_node_def
        wf_states_def addrs_def ns_addr_def ns_status_def)
  moreover have "wf_fs replica_fs" by code_simp
  ultimately show ?thesis
    by (simp add: world_ok_def replicated_def three_nodes_def demo_world_def demo_server_def server_ok_def peer_def)
qed

lemma replicated_node:
  assumes "a \<in> set ([] # known_followers replicated)" "node_at replicated a = Some sr"
  shows "sr \<in> {w_self replicated, the (peer replicated ''http://n1''), the (peer replicated ''http://n2'')}"
proof -
  have "known_followers replicated = [''http://n1'', ''http://n2'']" by code_simp
  with assms show ?thesis by (auto simp: node_at_def split: if_splits)
qed

lemma replicated_shards:
  "list_all (\<lambda>sr. map (\<lambda>i. sr_shard sr ''b'' ''a'' (int i)) [0, 1, 2] = [None, None, None] \<and>
       map_option is_ec (sr_meta sr ''b'' ''a'') = Some False)
     [w_self replicated, the (peer replicated ''http://n1''), the (peer replicated ''http://n2'')]"
  by code_simp

lemma replicated_clean:
  assumes "a \<in> set ([] # known_followers replicated)" "node_at replicated a = Some sr"
  shows "ec_clean (nat (codec_n (em_codec demo_manager3))) ''b'' ''a'' sr"
proof -
  have n: "nat (codec_n (em_codec demo_manager3)) = 3" by code_simp
  have "sr_shard sr ''b'' ''a'' (int j) = None" if "j < 3" for j
  proof -
    from that have "j = 0 \<or> j = 1 \<or> j = 2" by auto
    with replicated_node [OF assms] replicated_shards show ?thesis by auto
  qed
  with replicated_node [OF assms] replicated_shards show ?thesis by (auto simp: ec_clean_def n)
qed

lemma bereft_losses:
  "card {a \<in> set (take (nat (codec_n (em_codec demo_manager3))) ([] # alive_followers replicated)). node_at bereft a = None} \<le>
     nat (cd_m (em_codec demo_manager3))"
proof -
  have "node_at bereft [] \<noteq> None" by (simp add: node_at_def)
  moreover have "peer bereft ''http://n1'' \<noteq> None" using converted_facts(2) by (simp add: bereft_peer)
  moreover have "take (nat (codec_n (em_codec demo_manager3))) ([] # alive_followers replicated) = [[], ''http://n1'', ''http://n2'']"
    by code_simp
  ultimately have "{a \<in> set (take (nat (codec_n (em_codec demo_manager3))) ([] # alive_followers replicated)). node_at bereft a = None}
      \<subseteq> {''http://n2''}" by (auto simp: node_at_def)
  from card_mono [OF _ this] have "card {a \<in> set (take (nat (codec_n (em_codec demo_manager3))) ([] # alive_followers replicated)).
      node_at bereft a = None} \<le> 1" by simp
  moreover have "nat (cd_m (em_codec demo_manager3)) = 1" by code_simp
  ultimately show ?thesis by simp
qed

lemma bereft_responsive: "responsive bereft"
proof -
  have "sr_token sr = sr_token (w_self converted)" if "peer converted a = Some sr" for a sr
    using converted_facts(4) that by (auto simp: peer_def list_all_iff dest!: map_of_SomeD)
  moreover have "w_net bereft = (\<lambda>_. Delivered)" "w_self bereft = w_self converted" by (simp_all add: bereft_def)
  ultimately show ?thesis using converted_facts(3) by (auto simp: responsive_def bereft_peer split: if_splits)
qed

lemma bereft_survivors: "survivors converted bereft"
  by (simp add: survivors_def bereft_peer) (simp add: bereft_def)

theorem ec_survives_losses_witness:
  "\<exists>m'. fst (read_ec_object demo_manager3 id ''b'' ''a'' bereft) = Inr (bytes_stream [1, 2], m')"
proof -
  have obj: "sr_obj (w_self replicated) ''b'' ''a'' =
      Some ([1, 2], empty_meta\<lparr>om_content_length := 2, om_crc32 := 3066839698\<rparr>)" by code_simp
  have "crc32 [1, 2] = 3066839698" by code_simp
  then have meta: "true_meta [1, 2] (empty_meta\<lparr>om_content_length := 2, om_crc32 := 3066839698\<rparr>)"
    by (simp add: true_meta_def is_ec_def empty_meta_def StorageModeEC_def)
  have al: "alive_followers replicated = [''http://n1'', ''http://n2'']" "known_followers replicated = [''http://n1'', ''http://n2'']"
    by code_simp+
  have "\<exists>m'. fst (read_ec_object demo_manager3 id ''b'' ''a'' bereft) = Inr (bytes_stream [1, 2], m') \<and>
      om_etag m' = om_etag (empty_meta\<lparr>om_content_length := 2, om_crc32 := 3066839698\<rparr>) \<and> om_crc32 m' = crc32 [1, 2]"
    by (rule ec_survives_losses [OF converted_facts(1) demo_manager3_ok replicated_ok demo_names(1,3) obj meta _ _ _ _ _
          bereft_survivors bereft_responsive _ bereft_losses])
      (use replicated_clean in \<open>simp_all add: al\<close>)
  then show ?thesis by blast
qed

section \<open>A repair that heals nothing\<close>

definition located :: "world \<Rightarrow> (int \<times> string) list" where
  "located w = fst (find_shards id ''b'' ''a'' (ec_demo_meta 0) w)"

definition repaired :: "world \<Rightarrow> world" where
  "repaired w = snd (repair_ec_object demo_manager3 id ''b'' ''a'' w)"

text \<open>
  A repair pushes the missing shard to the first node of its list, the leader itself, and so
  overwrites the index in the leader's metadata: the repair reports success with as many shards missing
  as before, another one each time, and the empty node never receives one.
\<close>

theorem repair_never_heals:
  "located degraded = [(0, []), (1, ''http://n1'')] \<and>
   fst (repair_ec_object demo_manager3 id ''b'' ''a'' degraded) = Inr () \<and>
   located (repaired degraded) = [(2, []), (1, ''http://n1'')] \<and>
   located (repaired (repaired degraded)) = [(0, []), (1, ''http://n1'')]"
  by code_simp

section \<open>A node too many\<close>

definition four_nodes :: world where
  "four_nodes = three_nodes [(''n1'', replica_fs), (''n2'', replica_fs), (''n3'', replica_fs)] replica_fs"

text \<open>
  A conversion removes the replica's data from every follower, also from one beyond the \<open>k + m\<close> nodes
  that received a shard: that follower is left with metadata that announces a replica, and no data.
\<close>

theorem conversion_strips_extra_node:
  "case convert_to_ec demo_manager3 ''b'' ''a'' four_nodes of (r, w) \<Rightarrow>
     r = Inr () \<and>
     (case peer w ''http://n3'' of None \<Rightarrow> False
      | Some sr \<Rightarrow> map_option is_ec (sr_meta sr ''b'' ''a'') = Some False \<and> sr_obj sr ''b'' ''a'' = None \<and>
          list_all (\<lambda>i. sr_shard sr ''b'' ''a'' i = None) [0, 1, 2])"
  by code_simp

end
