(* ===== verification/IdleReader.thy ===== *)
theory IdleReader
  imports Network
begin

text \<open>
  The body reader of \<open>internal/internal_api/client.go\<close> that gives a transfer up when nothing moves for a
  while (\<open>idleTimeoutReader\<close>).  A timer that nobody stops cancels the request; every \<open>Read\<close> starts it
  again before and after it asks the body below.

  Time is an argument: a read is called at one time and returns at another, and \<open>pass_time\<close> lets the
  timer fire in between.  What a cancelled request makes of its body is the error of the context.
\<close>

section \<open>The reader\<close>

record idle_reader =
  ir_rest :: stream
  ir_timeout :: int
  ir_alarm :: "int option"   \<comment> \<open>when the timer fires\<close>
  ir_cancelled :: bool

definition set_timer :: "int \<Rightarrow> idle_reader \<Rightarrow> idle_reader" where
  "set_timer now r = r\<lparr>ir_alarm := Some (now + ir_timeout r)\<rparr>"

definition stop_timer :: "idle_reader \<Rightarrow> idle_reader" where
  "stop_timer r = r\<lparr>ir_alarm := None\<rparr>"

definition new_idle_reader :: "stream \<Rightarrow> int \<Rightarrow> int \<Rightarrow> idle_reader" where
  "new_idle_reader st timeout now =
     set_timer now \<lparr>ir_rest = st, ir_timeout = timeout, ir_alarm = None, ir_cancelled = False\<rparr>"

definition pass_time :: "int \<Rightarrow> idle_reader \<Rightarrow> idle_reader" where
  "pass_time now r =
     (case ir_alarm r of
        None \<Rightarrow> r
      | Some d \<Rightarrow> if d \<le> now then r\<lparr>ir_alarm := None, ir_cancelled := True\<rparr> else r)"

text \<open>\<open>io.Reader\<close>: some bytes, the end of the body or an error.\<close>

datatype read_result = Chunk "byte list" | EndOfBody | ReadFailed gerror

definition read_below :: "nat \<Rightarrow> idle_reader \<Rightarrow> read_result \<times> idle_reader" where
  "read_below n r =
     (let st = ir_rest r in
      if ir_cancelled r then (ReadFailed (ErrMsg ''context canceled''), r)
      else if st_bytes st = [] then (case st_err st of None \<Rightarrow> EndOfBody | Some e \<Rightarrow> ReadFailed e, r)
      else (Chunk (take n (st_bytes st)), r\<lparr>ir_rest := st\<lparr>st_bytes := drop n (st_bytes st)\<rparr>\<rparr>))"

text \<open>\<open>Read\<close>, called at \<open>t1\<close> with room for \<open>n\<close> bytes, returning at \<open>t2\<close>.\<close>

definition idle_read :: "int \<Rightarrow> int \<Rightarrow> nat \<Rightarrow> idle_reader \<Rightarrow> read_result \<times> idle_reader" where
  "idle_read t1 t2 n r =
     (case read_below n (pass_time t2 (set_timer t1 (pass_time t1 r))) of
        (Chunk bs, r1) \<Rightarrow> (Chunk bs, set_timer t2 r1)
      | (e, r1) \<Rightarrow> (e, stop_timer (set_timer t2 r1)))"

definition idle_close :: "idle_reader \<Rightarrow> idle_reader" where
  "idle_close r = stop_timer r"

text \<open>\<open>getObjectReadCloser.Close\<close> cancels the request first.\<close>

definition close_get_object :: "idle_reader \<Rightarrow> idle_reader" where
  "close_get_object r = idle_close (r\<lparr>ir_cancelled := True\<rparr>)"

text \<open>Whoever consumes the body reads it to its end; the schedule says when.\<close>

fun idle_transfer :: "(int \<times> int \<times> nat) list \<Rightarrow> idle_reader \<Rightarrow> byte list \<times> read_result option" where
  "idle_transfer [] r = ([], None)"
| "idle_transfer ((t1, t2, n) # ts) r =
     (case idle_read t1 t2 n r of
        (Chunk bs, r1) \<Rightarrow> (case idle_transfer ts r1 of (rest, e) \<Rightarrow> (bs @ rest, e))
      | (e, r1) \<Rightarrow> ([], Some e))"

section \<open>Only idle transfers are cut\<close>

text \<open>No pause of the length of the timeout, neither in a read nor between two.\<close>

fun busy :: "int \<Rightarrow> int \<Rightarrow> (int \<times> int \<times> nat) list \<Rightarrow> bool" where
  "busy d now [] \<longleftrightarrow> True"
| "busy d now ((t1, t2, n) # ts) \<longleftrightarrow> t1 < now + d \<and> t2 < t1 + d \<and> 0 < n \<and> busy d t2 ts"

definition live_at :: "int \<Rightarrow> idle_reader \<Rightarrow> bool" where
  "live_at now r \<longleftrightarrow> \<not> ir_cancelled r \<and> ir_alarm r = Some (now + ir_timeout r)"

lemma live_new: "live_at now (new_idle_reader st d now)"
  by (simp add: live_at_def new_idle_reader_def set_timer_def)

lemma busy_read:
  assumes "live_at now r" "t1 < now + ir_timeout r" "t2 < t1 + ir_timeout r"
  shows "idle_read t1 t2 n r =
    (if st_bytes (ir_rest r) = []
     then (case st_err (ir_rest r) of None \<Rightarrow> EndOfBody | Some e \<Rightarrow> ReadFailed e,
       r\<lparr>ir_alarm := None\<rparr>)
     else (Chunk (take n (st_bytes (ir_rest r))),
       r\<lparr>ir_rest := (ir_rest r)\<lparr>st_bytes := drop n (st_bytes (ir_rest r))\<rparr>, ir_alarm := Some (t2 + ir_timeout r)\<rparr>))"
  using assms by (cases r) (auto simp: idle_read_def read_below_def pass_time_def set_timer_def stop_timer_def live_at_def Let_def
      split: option.split)

text \<open>
  A transfer that always moves is read to its last byte however long it takes: the timer bounds the
  pauses and not the whole.
\<close>

theorem busy_transfer_completes:
  assumes "busy (ir_timeout r) now ts" "live_at now r" "length (st_bytes (ir_rest r)) < length ts"
  shows "idle_transfer ts r = (st_bytes (ir_rest r),
    Some (case st_err (ir_rest r) of None \<Rightarrow> EndOfBody | Some e \<Rightarrow> ReadFailed e))"
  using assms
proof (induction ts arbitrary: r now)
  case (Cons t ts)
  obtain t1 t2 n where t: "t = (t1, t2, n)" by (cases t)
  note read = busy_read [OF Cons.prems(2), of t1 t2 n]
  show ?case
  proof (cases "st_bytes (ir_rest r) = []")
    case True
    then show ?thesis using Cons.prems(1) read by (cases "st_err (ir_rest r)") (simp_all add: t)
  next
    case False
    let ?r = "r\<lparr>ir_rest := (ir_rest r)\<lparr>st_bytes := drop n (st_bytes (ir_rest r))\<rparr>, ir_alarm := Some (t2 + ir_timeout r)\<rparr>"
    have "0 < n" and b: "busy (ir_timeout ?r) t2 ts" using Cons.prems(1) by (simp_all add: t)
    then have "length (st_bytes (ir_rest ?r)) < length ts" using Cons.prems(3) False by (cases "st_bytes (ir_rest r)") auto
    moreover have "live_at t2 ?r" using Cons.prems(2) by (simp add: live_at_def)
    ultimately have "idle_transfer ts ?r = (drop n (st_bytes (ir_rest r)),
        Some (case st_err (ir_rest r) of None \<Rightarrow> EndOfBody | Some e \<Rightarrow> ReadFailed e))"
      using Cons.IH [OF b] by simp
    then show ?thesis using Cons.prems(1) False read by (simp add: t)
  qed
qed simp

text \<open>A pause as long as the timeout ends it with an error, also when the consumer caused it.\<close>

theorem idle_pause_cancels:
  assumes "live_at now r" "now + ir_timeout r \<le> t1 \<or> t1 + ir_timeout r \<le> t2"
  shows "fst (idle_read t1 t2 n r) = ReadFailed (ErrMsg ''context canceled'')"
  using assms by (auto simp: idle_read_def read_below_def pass_time_def set_timer_def stop_timer_def live_at_def Let_def
      split: option.split)

end
