(* ===== verification/S3Http.thy ===== *)
theory S3Http
  imports FsRepo
begin

text \<open>
  What the S3 front end uses of \<open>net/http\<close>, \<open>net/url\<close>, \<open>net\<close>, \<open>strings\<close> and \<open>regexp\<close>: the
  request as the server hands it over, header and query access, and the regular expressions as
  backtracking matchers.  Header values are taken to be ASCII where the case or the blanks of a
  text matter.
\<close>

section \<open>Bytes and texts\<close>

definition text_bytes :: "string \<Rightarrow> byte list" where
  "text_bytes s = map (\<lambda>c. word_of_nat (of_char c)) s"

definition bytes_text :: "byte list \<Rightarrow> string" where
  "bytes_text bs = map (\<lambda>b. char_of (unat b)) bs"

lemma bytes_text_bytes [simp]: "bytes_text (text_bytes s) = s"
proof -
  have "unat (word_of_nat (of_char c) :: byte) = of_char c" for c
    by (simp add: unat_of_nat)
  then show ?thesis by (simp add: bytes_text_def text_bytes_def comp_def)
qed

lemma text_bytes_length [simp]: "length (text_bytes s) = length s"
  by (simp add: text_bytes_def)

lemma text_bytes_append [simp]: "text_bytes (s @ t) = text_bytes s @ text_bytes t"
  by (simp add: text_bytes_def)

section \<open>Blanks\<close>

text \<open>\<open>strings.TrimSpace\<close> takes the vertical tab for a blank, the class \<open>\s\<close> of a regular expression
  does not.\<close>

definition rx_space :: "char \<Rightarrow> bool" where
  "rx_space c \<longleftrightarrow> c = CHR '' '' \<or> c = CHR 0x09 \<or> c = CHR 0x0A \<or> c = CHR 0x0C \<or> c = CHR 0x0D"

definition is_space :: "char \<Rightarrow> bool" where
  "is_space c \<longleftrightarrow> rx_space c \<or> c = CHR 0x0B"

definition trim_space :: "string \<Rightarrow> string" where
  "trim_space s = rev (dropWhile is_space (rev (dropWhile is_space s)))"

section \<open>Headers\<close>

type_synonym header = "(string \<times> string list) list"

text \<open>\<open>textproto.CanonicalMIMEHeaderKey\<close>: a name with a byte that no token has stays as it is.\<close>

definition token_char :: "char \<Rightarrow> bool" where
  "token_char c \<longleftrightarrow>
     is_digit c \<or> (let n = of_char c :: nat in 65 \<le> n \<and> n \<le> 90 \<or> 97 \<le> n \<and> n \<le> 122)
       \<or> c \<in> set (''!#$%&*+-.^_`|~'' @ [CHR 0x27])"

definition to_upper_char :: "char \<Rightarrow> char" where
  "to_upper_char c =
     (let n = of_char c :: nat in if 97 \<le> n \<and> n \<le> 122 then char_of (n - 32) else c)"

fun capitalize :: "bool \<Rightarrow> string \<Rightarrow> string" where
  "capitalize up [] = []"
| "capitalize up (c # cs) =
     (if up then to_upper_char c else to_lower_char c) # capitalize (c = CHR ''-'') cs"

definition canonical_key :: "string \<Rightarrow> string" where
  "canonical_key s = (if list_all token_char s then capitalize True s else s)"

definition header_values :: "header \<Rightarrow> string \<Rightarrow> string list" where
  "header_values h nm = (case map_of h (canonical_key nm) of None \<Rightarrow> [] | Some vs \<Rightarrow> vs)"

definition header_get :: "header \<Rightarrow> string \<Rightarrow> string" where
  "header_get h nm = (case header_values h nm of [] \<Rightarrow> [] | v # vs \<Rightarrow> v)"

definition header_set :: "string \<Rightarrow> string \<Rightarrow> header \<Rightarrow> header" where
  "header_set nm v h = AList.update (canonical_key nm) [v] h"

section \<open>Queries\<close>

type_synonym url_values = "(string \<times> string list) list"

text \<open>\<open>url.QueryUnescape\<close>; \<open>None\<close> for a percent sign without two hexadecimal digits.\<close>

fun query_unescape :: "string \<Rightarrow> string option" where
  "query_unescape [] = Some []"
| "query_unescape (c # cs) =
     (if c = CHR ''%'' then
        (case cs of
           a # b # r \<Rightarrow>
             (case (unhex_digit a, unhex_digit b, query_unescape r) of
                (Some h, Some l, Some t) \<Rightarrow> Some (char_of (16 * h + l) # t)
              | _ \<Rightarrow> None)
         | _ \<Rightarrow> None)
      else map_option (\<lambda>t. (if c = CHR ''+'' then CHR '' '' else c) # t) (query_unescape cs))"

definition add_value :: "string \<Rightarrow> string \<Rightarrow> url_values \<Rightarrow> url_values" where
  "add_value k v q = AList.update k ((case map_of q k of None \<Rightarrow> [] | Some vs \<Rightarrow> vs) @ [v]) q"

text \<open>\<open>url.ParseQuery\<close>, the errors dropped as \<open>URL.Query\<close> drops them.\<close>

definition query_item :: "string \<Rightarrow> url_values \<Rightarrow> url_values" where
  "query_item s q =
     (if CHR '';'' \<in> set s \<or> s = [] then q
      else case (query_unescape (hd (split_n2 (CHR ''='') s)),
                 query_unescape (concat (tl (split_n2 (CHR ''='') s)))) of
          (Some k, Some v) \<Rightarrow> add_value k v q
        | _ \<Rightarrow> q)"

definition parse_query :: "string \<Rightarrow> url_values" where
  "parse_query s = fold query_item (split_on (CHR ''&'') s) []"

definition query_get :: "url_values \<Rightarrow> string \<Rightarrow> string" where
  "query_get q k = (case map_of q k of None \<Rightarrow> [] | Some vs \<Rightarrow> (case vs of [] \<Rightarrow> [] | v # _ \<Rightarrow> v))"

definition query_has :: "url_values \<Rightarrow> string \<Rightarrow> bool" where
  "query_has q k = (map_of q k \<noteq> None)"

section \<open>net.SplitHostPort\<close>

fun last_index :: "char \<Rightarrow> string \<Rightarrow> nat option" where
  "last_index d [] = None"
| "last_index d (c # cs) =
     (case last_index d cs of Some i \<Rightarrow> Some (Suc i) | None \<Rightarrow> if c = d then Some 0 else None)"

definition split_host_port :: "string \<Rightarrow> (string \<times> string) option" where
  "split_host_port s =
     (case last_index (CHR '':'') s of
        None \<Rightarrow> None
      | Some i \<Rightarrow>
          if hd s = CHR ''['' then
            (case str_index s '']'' of
               None \<Rightarrow> None
             | Some e \<Rightarrow>
                 if Suc e = i \<and> CHR ''['' \<notin> set (tl s) \<and> CHR '']'' \<notin> set (drop (Suc e) s)
                 then Some (take (e - 1) (tl s), drop (Suc i) s) else None)
          else if CHR '':'' \<in> set (take i s) \<or> CHR ''['' \<in> set s \<or> CHR '']'' \<in> set s then None
          else Some (take i s, drop (Suc i) s))"

section \<open>Regular expressions\<close>

text \<open>A sequence of literal texts and greedy repetitions, each maybe a group: \<open>match_here\<close> is the
  first match in the order of preference, \<open>match_first\<close> the leftmost one.\<close>

datatype rx_item = RxText string | RxMany bool nat "char \<Rightarrow> bool"

fun first_some :: "('a \<Rightarrow> 'b option) \<Rightarrow> 'a list \<Rightarrow> 'b option" where
  "first_some f [] = None"
| "first_some f (x # xs) = (case f x of None \<Rightarrow> first_some f xs | Some y \<Rightarrow> Some y)"

fun match_here :: "rx_item list \<Rightarrow> string \<Rightarrow> string list option" where
  "match_here [] s = Some []"
| "match_here (RxText t # ps) s = (if prefix t s then match_here ps (drop (length t) s) else None)"
| "match_here (RxMany g k P # ps) s =
     first_some (\<lambda>n. map_option (\<lambda>gs. if g then take n s # gs else gs) (match_here ps (drop n s)))
       (rev [k..<Suc (length (takeWhile P s))])"

fun match_first :: "rx_item list \<Rightarrow> string \<Rightarrow> string list option" where
  "match_first ps [] = match_here ps []"
| "match_first ps (c # cs) =
     (case match_here ps (c # cs) of None \<Rightarrow> match_first ps cs | Some gs \<Rightarrow> Some gs)"

text \<open>A repetition that stops where its class ends matches exactly its run.\<close>

lemma match_here_many:
  assumes "list_all P u" "k \<le> length u" "s = [] \<or> \<not> P (hd s)" "match_here ps s = Some gs"
  shows "match_here (RxMany g k P # ps) (u @ s) = Some (if g then u # gs else gs)"
proof -
  have "takeWhile P s = []" using assms(3) by (cases s) auto
  then have "length (takeWhile P (u @ s)) = length u" using assms(1) by (simp add: list_all_iff)
  moreover have "rev [k..<Suc (length u)] = length u # rev [k..<length u]" using assms(2) by simp
  ultimately show ?thesis using assms(4) by simp
qed

lemma match_here_text [simp]: "match_here (RxText t # ps) (t @ s) = match_here ps s"
  by simp

lemma match_first_here: "match_here ps s = Some gs \<Longrightarrow> match_first ps s = Some gs"
  by (cases s) auto

section \<open>The request\<close>

text \<open>Path and raw query of the URL, the host, the address of the connection's other end, and the other
  headers under their canonical names.\<close>

record s3_request =
  hq_method :: string
  hq_path :: string
  hq_raw_query :: string
  hq_host :: string
  hq_remote :: string
  hq_headers :: header
  hq_body :: stream

definition hq_get :: "s3_request \<Rightarrow> string \<Rightarrow> string" where
  "hq_get rq nm = header_get (hq_headers rq) nm"

definition hq_query :: "s3_request \<Rightarrow> url_values" where
  "hq_query rq = parse_query (hq_raw_query rq)"

end
