(* ===== verification/GoSha.thy ===== *)
theory GoSha
  imports GoHash
begin

unbundle bit_operations_syntax

text \<open>
  \<open>crypto/sha256\<close> (FIPS 180-4) and \<open>crypto/hmac\<close> (RFC 2104) over byte lists, the functions the
  request signatures are made of.  As with the checksums of \<open>GoHash\<close>, the theorems treat them as
  opaque functions.
\<close>

section \<open>crypto/sha256\<close>

definition sha_k :: "u32 list" where
  "sha_k =
    [0x428a2f98, 0x71374491, 0xb5c0fbcf, 0xe9b5dba5, 0x3956c25b, 0x59f111f1, 0x923f82a4, 0xab1c5ed5,
     0xd807aa98, 0x12835b01, 0x243185be, 0x550c7dc3, 0x72be5d74, 0x80deb1fe, 0x9bdc06a7, 0xc19bf174,
     0xe49b69c1, 0xefbe4786, 0x0fc19dc6, 0x240ca1cc, 0x2de92c6f, 0x4a7484aa, 0x5cb0a9dc, 0x76f988da,
     0x983e5152, 0xa831c66d, 0xb00327c8, 0xbf597fc7, 0xc6e00bf3, 0xd5a79147, 0x06ca6351, 0x14292967,
     0x27b70a85, 0x2e1b2138, 0x4d2c6dfc, 0x53380d13, 0x650a7354, 0x766a0abb, 0x81c2c92e, 0x92722c85,
     0xa2bfe8a1, 0xa81a664b, 0xc24b8b70, 0xc76c51a3, 0xd192e819, 0xd6990624, 0xf40e3585, 0x106aa070,
     0x19a4c116, 0x1e376c08, 0x2748774c, 0x34b0bcb5, 0x391c0cb3, 0x4ed8aa4a, 0x5b9cca4f, 0x682e6ff3,
     0x748f82ee, 0x78a5636f, 0x84c87814, 0x8cc70208, 0x90befffa, 0xa4506ceb, 0xbef9a3f7, 0xc67178f2]"

definition sha_init :: "u32 list" where
  "sha_init = [0x6a09e667, 0xbb67ae85, 0x3c6ef372, 0xa54ff53a, 0x510e527f, 0x9b05688c, 0x1f83d9ab, 0x5be0cd19]"

fun be_words :: "byte list \<Rightarrow> u32 list" where
  "be_words (a # b # c # d # bs) =
     (push_bit 24 (ucast a) OR push_bit 16 (ucast b) OR push_bit 8 (ucast c) OR ucast d) # be_words bs"
| "be_words _ = []"

definition be_bytes4 :: "u32 \<Rightarrow> byte list" where
  "be_bytes4 w = [ucast (drop_bit 24 w), ucast (drop_bit 16 w), ucast (drop_bit 8 w), ucast w]"

text \<open>The message schedule: each word from the sixteen before it.\<close>

definition sha_expand :: "u32 list \<Rightarrow> u32 list" where
  "sha_expand ws =
     (let i = length ws; a = ws ! (i - 15); b = ws ! (i - 2);
          s0 = word_rotr 7 a XOR word_rotr 18 a XOR drop_bit 3 a;
          s1 = word_rotr 17 b XOR word_rotr 19 b XOR drop_bit 10 b
      in ws @ [ws ! (i - 16) + s0 + ws ! (i - 7) + s1])"

definition sha_round :: "u32 list \<Rightarrow> u32 \<times> u32 \<Rightarrow> u32 list" where
  "sha_round st kw =
     (case (st, kw) of
        ([a, b, c, d, e, f, g, h], (k, w)) \<Rightarrow>
          (let s1 = word_rotr 6 e XOR word_rotr 11 e XOR word_rotr 25 e;
               t1 = h + s1 + ((e AND f) XOR (NOT e AND g)) + k + w;
               s0 = word_rotr 2 a XOR word_rotr 13 a XOR word_rotr 22 a;
               t2 = s0 + ((a AND b) XOR (a AND c) XOR (b AND c))
           in [t1 + t2, a, b, c, d + t1, e, f, g])
      | _ \<Rightarrow> st)"

definition sha_block :: "u32 list \<Rightarrow> u32 list \<Rightarrow> u32 list" where
  "sha_block h m = map2 (+) h (foldl sha_round h (zip sha_k ((sha_expand ^^ 48) m)))"

definition sha_pad :: "byte list \<Rightarrow> byte list" where
  "sha_pad bs =
     (let n = length bs; z = (119 - n mod 64) mod 64; l = word_of_nat (8 * n) :: 64 word
      in bs @ [0x80] @ replicate z 0 @ map (\<lambda>i. ucast (drop_bit (8 * (7 - i)) l)) [0..<8])"

function sha_blocks :: "u32 list \<Rightarrow> u32 list \<Rightarrow> u32 list" where
  "sha_blocks h ws = (if length ws < 16 then h else sha_blocks (sha_block h (take 16 ws)) (drop 16 ws))"
  by pat_completeness auto
termination
  by (relation "measure (\<lambda>(h, ws). length ws)") auto

declare sha_blocks.simps [simp del]

definition sha256 :: "byte list \<Rightarrow> byte list" where
  "sha256 bs = concat (map be_bytes4 (sha_blocks sha_init (be_words (sha_pad bs))))"

section \<open>crypto/hmac\<close>

definition hmac_key :: "byte list \<Rightarrow> byte list" where
  "hmac_key key =
     (let k = (if 64 < length key then sha256 key else key) in k @ replicate (64 - length k) 0)"

definition hmac_sha256 :: "byte list \<Rightarrow> byte list \<Rightarrow> byte list" where
  "hmac_sha256 key msg =
     sha256 (map (\<lambda>b. b XOR 0x5c) (hmac_key key) @ sha256 (map (\<lambda>b. b XOR 0x36) (hmac_key key) @ msg))"

text \<open>A digest has thirty-two bytes.\<close>

lemma sha_round_length: "length (sha_round st kw) = length st"
  by (auto simp: sha_round_def Let_def split: prod.splits list.splits)

lemma sha_rounds_length: "length (foldl sha_round st kws) = length st"
  by (induction kws arbitrary: st) (simp_all add: sha_round_length)

lemma sha_block_length: "length (sha_block h m) = length h"
  by (simp add: sha_block_def sha_rounds_length)

lemma sha_blocks_length: "length (sha_blocks h ws) = length h"
  by (induction h ws rule: sha_blocks.induct)
    (subst sha_blocks.simps, simp add: sha_block_length)

lemma sha256_length [simp]: "length (sha256 bs) = 32"
  by (simp add: sha256_def length_concat be_bytes4_def comp_def sum_list_triv sha_blocks_length sha_init_def)

lemma hmac_sha256_length [simp]: "length (hmac_sha256 key msg) = 32"
  by (simp add: hmac_sha256_def)

end
