(* ===== verification/Auth.thy ===== *)
theory Auth
  imports S3Http GoSha GoTime
begin

text \<open>
  The signature check of the S3 front end (\<open>internal/presentation/s3api/auth.go\<close>): the parts of
  an Authorization header, the date and its skew, the canonical request, the signature, and the
  decoder of an aws-chunked body.  The debug log lines are left out.
\<close>

section \<open>Escaping\<close>

definition pct :: "char \<Rightarrow> string" where
  "pct c = (let n = of_char c :: nat; hex = (\<lambda>d. if d < 10 then char_of (48 + d) else char_of (55 + d))
     in [CHR ''%'', hex (n div 16), hex (n mod 16)])"

definition is_alnum :: "char \<Rightarrow> bool" where
  "is_alnum c \<longleftrightarrow> (let n = of_char c :: nat in 48 \<le> n \<and> n \<le> 57 \<or> 65 \<le> n \<and> n \<le> 90 \<or> 97 \<le> n \<and> n \<le> 122)"

definition unreserved :: "char \<Rightarrow> bool" where
  "unreserved c \<longleftrightarrow> is_alnum c \<or> c \<in> set ''-_.~''"

text \<open>\<open>url.PathEscape\<close>: of the reserved characters, \<open>$&+:=@\<close> pass.\<close>

definition url_path_escape :: "string \<Rightarrow> string" where
  "url_path_escape s = concat (map (\<lambda>c. if unreserved c \<or> c \<in> set ''$&+:=@'' then [c] else pct c) s)"

definition replace_all :: "char \<Rightarrow> string \<Rightarrow> string \<Rightarrow> string" where
  "replace_all c r s = concat (map (\<lambda>d. if d = c then r else [d]) s)"

definition path_escape :: "string \<Rightarrow> string" where
  "path_escape s =
     (let e = url_path_escape s;
          e = replace_all (CHR ''*'') ''%2A'' e;
          e = replace_all (CHR ''!'') ''%21'' e;
          e = replace_all (CHR 0x27) ''%27'' e;
          e = replace_all (CHR ''('') ''%28'' e;
          e = replace_all (CHR '')'') ''%29'' e;
          e = replace_all (CHR ''+'') ''%2B'' e;
          e = replace_all (CHR '','') ''%2C'' e;
          e = replace_all (CHR '':'') ''%3A'' e;
          e = replace_all (CHR '';'') ''%3B'' e;
          e = replace_all (CHR ''='') ''%3D'' e;
          e = replace_all (CHR ''@'') ''%40'' e
      in e)"

section \<open>The canonical request\<close>

definition get_canonical_uri :: "string \<Rightarrow> string" where
  "get_canonical_uri path =
     (if path = [] then ''/''
      else (let e = join_with ''/'' (map path_escape (split_on (CHR ''/'') path))
            in if prefix ''/'' e then e else ''/'' @ e))"

definition get_canonical_query_string :: "url_values \<Rightarrow> string" where
  "get_canonical_query_string q =
     (if q = [] then []
      else join_with ''&'' (concat (map (\<lambda>k.
          (let vals = sort (the (map_of q k)); ek = path_escape k in
           if vals = [] then [ek @ ''='']
           else map (\<lambda>v. ek @ ''='' @ path_escape v) vals))
        (sort (map fst q)))))"

definition strip_standard_port :: "string \<Rightarrow> string" where
  "strip_standard_port host =
     (case split_host_port host of
        None \<Rightarrow> host
      | Some (h, p) \<Rightarrow> if p = ''80'' \<or> p = ''443'' then h else host)"

text \<open>\<open>regexp.MustCompile(`\s+`).ReplaceAllString(s, " ")\<close>\<close>

fun collapse_spaces :: "string \<Rightarrow> string" where
  "collapse_spaces [] = []"
| "collapse_spaces (c # cs) =
     (if \<not> rx_space c then c # collapse_spaces cs
      else if cs \<noteq> [] \<and> rx_space (hd cs) then collapse_spaces cs
      else CHR '' '' # collapse_spaces cs)"

definition signed_value :: "s3_request \<Rightarrow> string \<Rightarrow> string" where
  "signed_value rq nm =
     (let v = hq_get rq nm;
          v = (if nm = ''host'' then strip_standard_port (if v = [] then hq_host rq else v) else v)
      in collapse_spaces (trim_space v))"

definition newline :: string where "newline = [CHR 0x0A]"

definition build_canonical_request :: "s3_request \<Rightarrow> string \<Rightarrow> string \<Rightarrow> string" where
  "build_canonical_request rq signed_headers hashed_payload =
     (let names = sort (split_on (CHR '';'') (to_lower signed_headers));
          headers = concat (map (\<lambda>nm. nm @ '':'' @ signed_value rq nm @ newline) names)
      in join_with newline
           [hq_method rq, get_canonical_uri (hq_path rq), get_canonical_query_string (hq_query rq),
            headers, join_with '';'' names, hashed_payload])"

section \<open>The signature\<close>

definition sha256_hex :: "string \<Rightarrow> string" where
  "sha256_hex data = hex_encode (sha256 (text_bytes data))"

definition hmac_text :: "byte list \<Rightarrow> string \<Rightarrow> byte list" where
  "hmac_text key data = hmac_sha256 key (text_bytes data)"

definition calculate_signature :: "string \<Rightarrow> string \<Rightarrow> string \<Rightarrow> string \<Rightarrow> string" where
  "calculate_signature secret date region string_to_sign =
     (let k_date = hmac_text (text_bytes (''AWS4'' @ secret)) date;
          k_region = hmac_text k_date region;
          k_service = hmac_text k_region ''s3'';
          k_signing = hmac_text k_service ''aws4_request''
      in hex_encode (hmac_text k_signing string_to_sign))"

definition string_to_sign :: "string \<Rightarrow> string \<Rightarrow> string \<Rightarrow> string \<Rightarrow> string" where
  "string_to_sign amz_date date region canonical =
     join_with newline
       [''AWS4-HMAC-SHA256'', amz_date, date @ ''/'' @ region @ ''/s3/aws4_request'', sha256_hex canonical]"

section \<open>Dates\<close>

definition iso_layout :: "layout_item list" where
  "iso_layout = [LYear, LMonth, LDay, LText ''T'', LHour, LMin, LSec, LText ''Z'']"

definition rfc1123_layout :: "layout_item \<Rightarrow> layout_item list" where
  "rfc1123_layout zone =
     [LWeekday, LText '', '', LDay, LText '' '', LMonthName, LText '' '', LYear, LText '' '',
      LHour, LText '':'', LMin, LText '':'', LSec, LText '' '', zone]"

definition parse_amz_date :: "string \<Rightarrow> int option" where
  "parse_amz_date s =
     (case parse_time iso_layout s of
        Some t \<Rightarrow> Some t
      | None \<Rightarrow>
          (case parse_time (rfc1123_layout LZone) s of
             Some t \<Rightarrow> Some t
           | None \<Rightarrow> parse_time (rfc1123_layout LZoneNum) s))"

text \<open>\<open>skew := time.Since(t); if skew < 0 { skew = -skew }\<close>, the negation on 64 bits.\<close>

definition clock_skew :: "int \<Rightarrow> int \<Rightarrow> int" where
  "clock_skew now t = (let d = time_sub now t in if d < 0 then wrap64 (- d) else d)"

definition too_skewed :: "int \<Rightarrow> int \<Rightarrow> bool" where
  "too_skewed now t \<longleftrightarrow> 15 * minute < clock_skew now t"

section \<open>The chunked body\<close>

fun index_crlf :: "byte list \<Rightarrow> nat option" where
  "index_crlf (a # b # bs) =
     (if a = 0x0D \<and> b = 0x0A then Some 0 else map_option Suc (index_crlf (b # bs)))"
| "index_crlf _ = None"

text \<open>\<open>fmt.Sscanf(s, "%x", &n)\<close> into an \<open>int64\<close>: a sign, the longest run of hexadecimal digits, and
  whatever follows is not looked at.\<close>

fun hex_val :: "int \<Rightarrow> string \<Rightarrow> int" where
  "hex_val a [] = a"
| "hex_val a (c # cs) = hex_val (16 * a + (case unhex_digit c of None \<Rightarrow> 0 | Some d \<Rightarrow> int d)) cs"

definition scan_hex :: "string \<Rightarrow> int option" where
  "scan_hex s =
     (let signed = (s \<noteq> [] \<and> (hd s = CHR ''-'' \<or> hd s = CHR ''+''));
          ds = takeWhile (\<lambda>c. unhex_digit c \<noteq> None) (if signed then tl s else s);
          n = (if s \<noteq> [] \<and> hd s = CHR ''-'' then - hex_val 0 ds else hex_val 0 ds)
      in if ds = [] \<or> \<not> int64_ok n then None else Some n)"

definition chunk_size :: "byte list \<Rightarrow> int option" where
  "chunk_size header =
     (let line = bytes_text header in
      scan_hex (trim_space (case str_index line '';'' of None \<Rightarrow> line | Some i \<Rightarrow> take i line)))"

text \<open>
  The loop of the decoder: what it has written, and whether a slice expression out of range ends
  the process.  The size plus two is added on 64 bits.
\<close>

partial_function (option) decode_loop :: "byte list \<Rightarrow> byte list \<Rightarrow> (byte list \<times> bool) option" where
  [code]: "decode_loop written rest =
     (if rest = [] then Some (written, False)
      else case index_crlf rest of
          None \<Rightarrow> Some (written, False)
        | Some i \<Rightarrow>
            (case chunk_size (take i rest) of
               None \<Rightarrow> Some (written, False)
             | Some n \<Rightarrow>
                 (let body = drop (i + 2) rest in
                  if n \<le> 0 then Some (written, False)
                  else if int (length body) < wrap64 (n + 2) then Some (written @ body, False)
                  else if int (length body) < n \<or> wrap64 (n + 2) < 0 then Some (written, True)
                  else decode_loop (written @ take (nat n) body) (drop (nat n + 2) body))))"

text \<open>What a handler can read of the decoded body, and whether the decoder brings the process down
  once that is read (the stream then ends in \<open>Panic\<close>); a body that cannot be read to its end gives the
  error and nothing else.\<close>

definition decode_chunked_body :: "stream \<Rightarrow> stream \<times> bool" where
  "decode_chunked_body st =
     (case st_err st of
        Some e \<Rightarrow> (\<lparr>st_bytes = [], st_err = Some e\<rparr>, False)
      | None \<Rightarrow>
          (case decode_loop [] (st_bytes st) of
             None \<Rightarrow> (bytes_stream [], False)
           | Some (bs, panics) \<Rightarrow> (\<lparr>st_bytes = bs, st_err = if panics then Some Panic else None\<rparr>, panics)))"

section \<open>ValidateRequest\<close>

record credentials =
  cr_access_key :: string
  cr_secret_key :: string

type_synonym auth_validator = "credentials list"

definition is_hex :: "char \<Rightarrow> bool" where
  "is_hex c \<longleftrightarrow> unhex_digit c \<noteq> None"

definition auth_header_regex :: "rx_item list" where
  "auth_header_regex =
     [RxText ''AWS4-HMAC-SHA256'', RxMany False 1 rx_space, RxText ''Credential='',
      RxMany True 1 (\<lambda>c. c \<noteq> CHR ''/''), RxText ''/'', RxMany True 1 (\<lambda>c. c \<noteq> CHR ''/''), RxText ''/'',
      RxMany True 1 (\<lambda>c. c \<noteq> CHR ''/''), RxText ''/s3/aws4_request,'', RxMany False 0 rx_space,
      RxText ''SignedHeaders='', RxMany True 1 (\<lambda>c. c \<noteq> CHR '',''), RxText '','', RxMany False 0 rx_space,
      RxText ''Signature='', RxMany True 1 is_hex]"

definition find_secret :: "auth_validator \<Rightarrow> string \<Rightarrow> string" where
  "find_secret creds ak =
     (case find (\<lambda>c. cr_access_key c = ak) creds of None \<Rightarrow> [] | Some c \<Rightarrow> cr_secret_key c)"

definition StreamingPayload :: string where
  "StreamingPayload = ''STREAMING-AWS4-HMAC-SHA256-PAYLOAD''"

definition UnsignedPayload :: string where
  "UnsignedPayload = ''UNSIGNED-PAYLOAD''"

definition amz_date_of :: "s3_request \<Rightarrow> string" where
  "amz_date_of rq = (if hq_get rq ''X-Amz-Date'' = [] then hq_get rq ''Date'' else hq_get rq ''X-Amz-Date'')"

definition hashed_payload_of :: "s3_request \<Rightarrow> string" where
  "hashed_payload_of rq =
     (if hq_get rq ''X-Amz-Content-Sha256'' = [] then UnsignedPayload else hq_get rq ''X-Amz-Content-Sha256'')"

text \<open>Step 4: the body against its hash, or the decoder in the body's place.\<close>

definition check_payload :: "s3_request \<Rightarrow> gerror + s3_request" where
  "check_payload rq =
     (let h = hashed_payload_of rq in
      if h = StreamingPayload then Inr (rq\<lparr>hq_body := fst (decode_chunked_body (hq_body rq))\<rparr>)
      else if h = UnsignedPayload then Inr rq
      else (case st_err (hq_body rq) of
          Some e \<Rightarrow> Inl (Wrapped ''failed to read body for auth'' e)
        | None \<Rightarrow>
            if hex_encode (sha256 (st_bytes (hq_body rq))) \<noteq> h then Inl (ErrMsg ''payload hash mismatch'')
            else Inr rq))"

text \<open>The decoder runs beside the handler and waits for its reader with each chunk it writes: a panic
  before the first chunk comes at once, a later one only when a handler reads the body so far.\<close>

definition panics_at_once :: "s3_request \<Rightarrow> bool" where
  "panics_at_once rq \<longleftrightarrow> hashed_payload_of rq = StreamingPayload \<and> snd (decode_chunked_body (hq_body rq)) \<and>
     st_bytes (fst (decode_chunked_body (hq_body rq))) = []"

definition expected_signature :: "s3_request \<Rightarrow> string \<Rightarrow> string \<Rightarrow> string \<Rightarrow> string \<Rightarrow> string" where
  "expected_signature rq secret date region signed_headers =
     calculate_signature secret date region
       (string_to_sign (amz_date_of rq) date region
          (build_canonical_request rq signed_headers (hashed_payload_of rq)))"

text \<open>The access key and the request with the body the handlers see; \<open>None\<close> when the process goes
  down.\<close>

definition validate_request ::
    "auth_validator \<Rightarrow> int \<Rightarrow> s3_request \<Rightarrow> (gerror + string \<times> s3_request) option" where
  "validate_request creds now rq =
     (let auth = hq_get rq ''Authorization'' in
      if auth = [] then Some (Inl (ErrMsg ''missing Authorization header''))
      else case match_first auth_header_regex auth of
          Some [ak, date, region, signed_headers, sig] \<Rightarrow>
            (let secret = find_secret creds ak in
             if secret = [] then Some (Inl (ErrMsg ''invalid access key ID''))
             else if amz_date_of rq = [] then Some (Inl (ErrMsg ''missing Date or X-Amz-Date header''))
             else case parse_amz_date (amz_date_of rq) of
                 None \<Rightarrow> Some (Inl (Wrapped ''invalid date format''
                   (ErrMsg (''unable to parse date string: '' @ amz_date_of rq))))
               | Some t \<Rightarrow>
                   if too_skewed now t then Some (Inl (ErrMsg ''request time too skewed''))
                   else (case check_payload rq of
                       Inl e \<Rightarrow> Some (Inl e)
                     | Inr rq' \<Rightarrow>
                         if panics_at_once rq then None
                         else if sig \<noteq> expected_signature rq' secret date region signed_headers
                         then Some (Inl (ErrMsg ''signature mismatch''))
                         else Some (Inr (ak, rq'))))
        | _ \<Rightarrow> Some (Inl (ErrMsg ''invalid Authorization header format'')))"

end
