(* ===== verification/S3Types.thy ===== *)
theory S3Types
  imports Service Auth
begin

text \<open>
  The responses of the S3 front end: the types of \<open>internal/presentation/s3api/types.go\<close>, the error
  mapping of \<open>errors.go\<close>, and the response helpers of \<open>router.go\<close>.  An XML or JSON body is the value
  it encodes, a \<open>Last-Modified\<close> header the time it shows.
\<close>

section \<open>types.go\<close>

record bucket_info =
  bi_name :: string
  bi_creation_date :: int

record owner =
  ow_id :: string
  ow_display_name :: string

record list_buckets_result =
  la_owner :: owner
  la_buckets :: "bucket_info list"

record contents =
  co_key :: string
  co_last_modified :: int
  co_etag :: string
  co_size :: int
  co_storage_class :: string

record list_bucket_result =
  lb_name :: string
  lb_prefix :: string
  lb_key_count :: int
  lb_max_keys :: int
  lb_is_truncated :: bool
  lb_next_token :: string
  lb_contents :: "contents list"
  lb_common_prefixes :: "string list"

record error_result =
  er_key :: string
  er_code :: string
  er_message :: string

record delete_result =
  dr_deleted :: "string list"
  dr_error :: "error_result list"

record initiate_result =
  in_bucket :: string
  in_key :: string
  in_upload_id :: string

record complete_result =
  cm_location :: string
  cm_bucket :: string
  cm_key :: string
  cm_etag :: string

record part_info =
  pt_part_number :: int
  pt_last_modified :: int
  pt_etag :: string
  pt_size :: int

record list_parts_result =
  lp_bucket :: string
  lp_key :: string
  lp_upload_id :: string
  lp_parts :: "part_info list"

record copy_result =
  cy_last_modified :: int
  cy_etag :: string

record s3_error =
  se_code :: string
  se_message :: string
  se_resource :: string
  se_request_id :: string

datatype s3_payload =
    EmptyBody
  | PlainText string
  | JsonBody string
  | ObjectBody stream
  | ErrorXml s3_error
  | BucketsXml list_buckets_result
  | ListXml list_bucket_result
  | DeleteXml delete_result
  | InitiateXml initiate_result
  | CompleteXml complete_result
  | PartsXml list_parts_result
  | CopyXml copy_result
  | MetricsText

record s3_response =
  sx_status :: int
  sx_headers :: "(string \<times> string) list"
  sx_modified :: "int option"
  sx_payload :: s3_payload

text \<open>
  A write that waits at the gate is not answered; a panic outside the handler's goroutine ends the
  process.  A proxy that has only part of an answer panics with \<open>http.ErrAbortHandler\<close>: the server
  closes the client's connection, and whether a status line went out before is kept with the outcome.
\<close>

datatype s3_outcome = Answered s3_response | Waiting | Crashed | Aborted bool

type_synonym s3_io = "world \<Rightarrow> s3_outcome \<times> world"

definition bare_response :: "int \<Rightarrow> s3_response" where
  "bare_response st = \<lparr>sx_status = st, sx_headers = [], sx_modified = None, sx_payload = EmptyBody\<rparr>"

definition respond :: "s3_response \<Rightarrow> s3_io" where
  "respond rs w = (Answered rs, w)"

section \<open>errors.go\<close>

definition xml_headers :: "string \<Rightarrow> (string \<times> string) list" where
  "xml_headers req_id =
     [(''Content-Type'', ''application/xml''), (''X-Amz-Request-Id'', req_id), (''X-Amz-Id-2'', req_id),
      (''Server'', ''MicroS3'')]"

definition write_error :: "s3_request \<Rightarrow> string \<Rightarrow> string \<Rightarrow> int \<Rightarrow> s3_io" where
  "write_error rq code message st w =
     (let h = hq_get rq ''X-Amz-Request-Id''; req_id = (if h = [] then w_ids w (w_tick w) else h) in
      respond \<lparr>sx_status = st, sx_headers = xml_headers req_id, sx_modified = None,
        sx_payload = ErrorXml \<lparr>se_code = code, se_message = message, se_resource = hq_path rq,
          se_request_id = req_id\<rparr>\<rparr> (if h = [] then tick w else w))"

definition contains :: "string \<Rightarrow> string \<Rightarrow> bool" where
  "contains s t \<longleftrightarrow> str_index s t \<noteq> None"

definition map_error_to_s3 :: "s3_request \<Rightarrow> gerror \<Rightarrow> s3_io" where
  "map_error_to_s3 rq e =
     (let s = err_text e in
      if contains s ''ServiceUnavailable'' then
        write_error rq ''ServiceUnavailable''
          ''The service is temporarily unavailable. Writes are blocked during synchronization.'' 503
      else if s = ''bucket not empty'' then
        write_error rq ''BucketNotEmpty'' ''The bucket you tried to delete is not empty.'' 409
      else if s = ''not found'' \<or> s = ''file does not exist'' \<or> s = ''no such file or directory''
          \<or> contains s ''does not exist'' then
        write_error rq ''NoSuchKey'' ''The specified key does not exist.'' 404
      else write_error rq ''InternalError'' s 500)"

section \<open>Response helpers\<close>

definition write_xml_response :: "s3_request \<Rightarrow> int \<Rightarrow> s3_payload \<Rightarrow> s3_io" where
  "write_xml_response rq st p =
     respond \<lparr>sx_status = st, sx_headers = xml_headers (hq_get rq ''X-Amz-Request-Id''), sx_modified = None,
       sx_payload = p\<rparr>"

text \<open>\<open>x, err := f(); if err != nil { MapErrorToS3(w, r, err); return }\<close>, for an operation of the node and
  for one behind the write gate.  An operation that read a body to the point where its decoder panics
  does not come back.\<close>

definition s3_try :: "s3_request \<Rightarrow> 'a world_io \<Rightarrow> ('a \<Rightarrow> s3_io) \<Rightarrow> s3_io" where
  "s3_try rq m k w =
     (case m w of
        (Inl e, w') \<Rightarrow> (if is_panic e then (Crashed, w') else map_error_to_s3 rq e w')
      | (Inr a, w') \<Rightarrow> k a w')"

definition s3_try_gated ::
    "s3_request \<Rightarrow> (world \<Rightarrow> (gerror + 'a) option \<times> world) \<Rightarrow> ('a \<Rightarrow> s3_io) \<Rightarrow> s3_io" where
  "s3_try_gated rq m k w =
     (case m w of
        (None, w') \<Rightarrow> (Waiting, w')
      | (Some (Inl e), w') \<Rightarrow> (if is_panic e then (Crashed, w') else map_error_to_s3 rq e w')
      | (Some (Inr a), w') \<Rightarrow> k a w')"

end
