(* ===== verification/S3Router.thy ===== *)
theory S3Router
  imports S3Types
begin

text \<open>
  The S3 front end (\<open>internal/presentation/s3api/router.go\<close>): one definition per handler over the
  application service, the dispatch, and the proxy of a follower with the \<open>s3-proxy\<close> endpoint of the
  leader's internal API.  Access log and request metrics are left out.
\<close>

section \<open>The handler\<close>

text \<open>
  The configuration of a node's front end: its address for the others, what \<open>url.Parse\<close> accepts, the
  reader of erasure-coded objects its service was given, and the XML decoder of the two request
  bodies, \<open>None\<close> for its error.
\<close>

record s3_handler =
  sh_auth :: "auth_validator option"
  sh_cluster_token :: string
  sh_local_reads :: bool
  sh_ec_reader :: "ec_reader option"
  sh_address :: string
  sh_url_ok :: "string \<Rightarrow> bool"
  sh_xml_delete :: "stream \<Rightarrow> string list option"
  sh_xml_complete :: "stream \<Rightarrow> complete_part list option"

section \<open>Operations of the service that only call the storage\<close>

definition svc_create_bucket :: "string \<Rightarrow> unit world_io" where
  "svc_create_bucket bucket = local (\<lambda>root ev. create_bucket root bucket)"

definition svc_delete_bucket :: "string \<Rightarrow> unit world_io" where
  "svc_delete_bucket bucket = local (\<lambda>root ev. delete_bucket root bucket)"

definition svc_has_bucket :: "string \<Rightarrow> bool world_io" where
  "svc_has_bucket bucket = local (\<lambda>root ev. has_bucket root bucket)"

definition svc_list_buckets :: "string list world_io" where
  "svc_list_buckets = local (\<lambda>root ev. list_buckets root)"

definition svc_get_object_meta :: "string \<Rightarrow> string \<Rightarrow> object_meta world_io" where
  "svc_get_object_meta bucket key = local (\<lambda>root ev. get_object_meta root bucket key)"

definition svc_save_part :: "string \<Rightarrow> string \<Rightarrow> int \<Rightarrow> stream \<Rightarrow> upload_part world_io" where
  "svc_save_part bucket upload_id n st =
     local (\<lambda>root ev. save_multipart_part root ev bucket upload_id n st)"

definition svc_get_parts :: "string \<Rightarrow> string \<Rightarrow> upload_part list world_io" where
  "svc_get_parts bucket upload_id = local (\<lambda>root ev. get_multipart_parts root bucket upload_id)"

definition svc_abort_upload :: "string \<Rightarrow> string \<Rightarrow> unit world_io" where
  "svc_abort_upload bucket upload_id = local (\<lambda>root ev. abort_multipart_upload root bucket upload_id)"

section \<open>Bucket handlers\<close>

definition handle_list_buckets :: "s3_request \<Rightarrow> s3_io" where
  "handle_list_buckets rq =
     s3_try rq svc_list_buckets (\<lambda>bs w.
       write_xml_response rq 200
         (BucketsXml \<lparr>la_owner = \<lparr>ow_id = ''micros3'', ow_display_name = ''micros3''\<rparr>,
            la_buckets = map (\<lambda>b. \<lparr>bi_name = b, bi_creation_date = w_now w\<rparr>) bs\<rparr>) w)"

definition handle_create_bucket :: "s3_request \<Rightarrow> string \<Rightarrow> s3_io" where
  "handle_create_bucket rq bucket = s3_try rq (svc_create_bucket bucket) (\<lambda>_. respond (bare_response 200))"

definition check_bucket_exists :: "s3_request \<Rightarrow> string \<Rightarrow> s3_io \<Rightarrow> s3_io" where
  "check_bucket_exists rq bucket k =
     s3_try rq (svc_has_bucket bucket) (\<lambda>exists.
       if \<not> exists then write_error rq ''NoSuchBucket'' ''The specified bucket does not exist.'' 404 else k)"

definition handle_head_bucket :: "s3_request \<Rightarrow> string \<Rightarrow> s3_io" where
  "handle_head_bucket rq bucket = check_bucket_exists rq bucket (respond (bare_response 200))"

definition handle_delete_bucket :: "s3_request \<Rightarrow> string \<Rightarrow> s3_io" where
  "handle_delete_bucket rq bucket = s3_try rq (svc_delete_bucket bucket) (\<lambda>_. respond (bare_response 204))"

section \<open>Object handlers\<close>

text \<open>The size of a PUT: the decoded length of a streamed body comes before the content length, and a
  header that does not parse leaves the size unknown.\<close>

definition put_size :: "s3_request \<Rightarrow> int" where
  "put_size rq =
     (let dcl = hq_get rq ''X-Amz-Decoded-Content-Length''; cl = hq_get rq ''Content-Length''
      in if dcl \<noteq> [] then (case atoi dcl of Some n \<Rightarrow> n | None \<Rightarrow> -1)
         else if cl \<noteq> [] then (case atoi cl of Some n \<Rightarrow> n | None \<Rightarrow> -1) else -1)"

definition user_metadata :: "header \<Rightarrow> (string \<times> string) list" where
  "user_metadata h =
     map (\<lambda>(k, vs). (k, join_with '','' vs)) (filter (\<lambda>(k, vs). prefix ''x-amz-meta-'' (to_lower k)) h)"

definition put_meta_of :: "int \<Rightarrow> s3_request \<Rightarrow> object_meta" where
  "put_meta_of now rq =
     empty_meta\<lparr>om_content_type := hq_get rq ''Content-Type'', om_created_at := now, om_modified_at := now,
       om_user_metadata := user_metadata (hq_headers rq)\<rparr>"

definition etag_response :: "string \<Rightarrow> s3_response" where
  "etag_response etag = (bare_response 200)\<lparr>sx_headers := [(''Etag'', etag)]\<rparr>"

definition handle_put_object :: "s3_request \<Rightarrow> string \<Rightarrow> string \<Rightarrow> s3_io" where
  "handle_put_object rq bucket key w =
     s3_try_gated rq (put_object bucket key (const_reader (hq_body rq)) (put_size rq) (put_meta_of (w_now w) rq))
       (\<lambda>m. respond (etag_response (om_etag m))) w"

text \<open>The headers of a GET and a HEAD: the metadata of the user last.\<close>

definition object_headers :: "object_meta \<Rightarrow> (string \<times> string) list" where
  "object_headers m =
     [(''Content-Type'', om_content_type m), (''Content-Length'', itoa (om_content_length m)),
      (''Etag'', om_etag m)] @ om_user_metadata m"

definition object_response :: "object_meta \<Rightarrow> s3_payload \<Rightarrow> s3_response" where
  "object_response m p =
     \<lparr>sx_status = 200, sx_headers = object_headers m, sx_modified = Some (om_modified_at m), sx_payload = p\<rparr>"

definition handle_get_object :: "s3_handler \<Rightarrow> s3_request \<Rightarrow> string \<Rightarrow> string \<Rightarrow> s3_io" where
  "handle_get_object H rq bucket key =
     check_bucket_exists rq bucket (
       s3_try rq (read_object (sh_ec_reader H) bucket key) (\<lambda>(st, m).
         respond (object_response m (ObjectBody st))))"

definition handle_head_object :: "s3_request \<Rightarrow> string \<Rightarrow> string \<Rightarrow> s3_io" where
  "handle_head_object rq bucket key =
     check_bucket_exists rq bucket (
       s3_try rq (svc_get_object_meta bucket key) (\<lambda>m. respond (object_response m EmptyBody)))"

definition handle_delete_object :: "s3_request \<Rightarrow> string \<Rightarrow> string \<Rightarrow> s3_io" where
  "handle_delete_object rq bucket key =
     check_bucket_exists rq bucket (
       s3_try_gated rq (remove_object bucket key) (\<lambda>_. respond (bare_response 204)))"

definition max_keys_of :: "url_values \<Rightarrow> int" where
  "max_keys_of q =
     (let s = query_get q ''max-keys'' in
      if s = [] then 1000 else case atoi s of None \<Rightarrow> 1000 | Some n \<Rightarrow> n)"

definition list_xml :: "list_result \<Rightarrow> list_bucket_result" where
  "list_xml r =
     \<lparr>lb_name = lr_name r, lb_prefix = lr_prefix r, lb_key_count = lr_key_count r, lb_max_keys = lr_max_keys r,
      lb_is_truncated = lr_is_truncated r, lb_next_token = lr_next_token r,
      lb_contents = map (\<lambda>c. \<lparr>co_key = oi_key c, co_last_modified = oi_last_modified c, co_etag = oi_etag c,
        co_size = oi_size c, co_storage_class = oi_storage_class c\<rparr>) (lr_contents r),
      lb_common_prefixes = lr_common_prefixes r\<rparr>"

definition handle_list_objects_v2 :: "s3_request \<Rightarrow> string \<Rightarrow> s3_io" where
  "handle_list_objects_v2 rq bucket =
     check_bucket_exists rq bucket (
       (let q = hq_query rq in
        s3_try rq (list_objects bucket (query_get q ''prefix'') (query_get q ''delimiter'')
            (query_get q ''continuation-token'') (max_keys_of q)) (\<lambda>r.
          write_xml_response rq 200 (ListXml (list_xml r)))))"

text \<open>The loop of a batch deletion: an error is reported for its key and the loop goes on.\<close>

fun delete_each :: "string \<Rightarrow> string list \<Rightarrow> world \<Rightarrow> delete_result option \<times> world" where
  "delete_each bucket [] w = (Some \<lparr>dr_deleted = [], dr_error = []\<rparr>, w)"
| "delete_each bucket (k # ks) w =
     (case remove_object bucket k w of
        (None, w1) \<Rightarrow> (None, w1)
      | (Some r, w1) \<Rightarrow>
          (case delete_each bucket ks w1 of
             (None, w2) \<Rightarrow> (None, w2)
           | (Some d, w2) \<Rightarrow>
               (Some (case r of
                  Inl e \<Rightarrow> d\<lparr>dr_error := \<lparr>er_key = k, er_code = ''InternalError'', er_message = err_text e\<rparr> # dr_error d\<rparr>
                | Inr _ \<Rightarrow> d\<lparr>dr_deleted := k # dr_deleted d\<rparr>), w2)))"

definition bad_xml :: "s3_request \<Rightarrow> s3_io" where
  "bad_xml rq = write_error rq ''InvalidArgument'' ''Invalid XML request body'' 400"

text \<open>A decoder reads the body to its end, past the point where the goroutine behind it panics.\<close>

definition read_xml :: "(stream \<Rightarrow> 'a option) \<Rightarrow> s3_request \<Rightarrow> ('a \<Rightarrow> s3_io) \<Rightarrow> s3_io" where
  "read_xml dec rq k w =
     (if st_err (hq_body rq) = Some Panic then (Crashed, w)
      else case dec (hq_body rq) of None \<Rightarrow> bad_xml rq w | Some x \<Rightarrow> k x w)"

definition handle_delete_objects :: "s3_handler \<Rightarrow> s3_request \<Rightarrow> string \<Rightarrow> s3_io" where
  "handle_delete_objects H rq bucket =
     check_bucket_exists rq bucket (
       read_xml (sh_xml_delete H) rq (\<lambda>keys w.
           case delete_each bucket keys w of
             (None, w') \<Rightarrow> (Waiting, w')
           | (Some d, w') \<Rightarrow> write_xml_response rq 200 (DeleteXml d) w'))"

definition handle_copy_object :: "s3_handler \<Rightarrow> s3_request \<Rightarrow> string \<Rightarrow> string \<Rightarrow> s3_io" where
  "handle_copy_object H rq bucket key =
     (case split_n2 (CHR ''/'') (trim_prefix (hq_get rq ''x-amz-copy-source'') ''/'') of
        [src_bucket, src_key] \<Rightarrow>
          s3_try_gated rq (copy_object (sh_ec_reader H) src_bucket src_key bucket key) (\<lambda>m.
            write_xml_response rq 200
              (CopyXml \<lparr>cy_last_modified = om_modified_at m, cy_etag = om_etag m\<rparr>))
      | _ \<Rightarrow> write_error rq ''InvalidArgument'' ''Invalid x-amz-copy-source header'' 400)"

section \<open>Multipart handlers\<close>

definition handle_create_upload :: "s3_request \<Rightarrow> string \<Rightarrow> string \<Rightarrow> s3_io" where
  "handle_create_upload rq bucket key =
     s3_try rq (create_upload bucket key) (\<lambda>u.
       write_xml_response rq 200 (InitiateXml \<lparr>in_bucket = bucket, in_key = key, in_upload_id = u\<rparr>))"

definition handle_upload_part :: "s3_request \<Rightarrow> string \<Rightarrow> string \<Rightarrow> s3_io" where
  "handle_upload_part rq bucket key =
     (case atoi (query_get (hq_query rq) ''partNumber'') of
        None \<Rightarrow> write_error rq ''InvalidArgument'' ''Invalid partNumber parameter'' 400
      | Some n \<Rightarrow>
          s3_try rq (svc_save_part bucket (query_get (hq_query rq) ''uploadId'') n (hq_body rq)) (\<lambda>p.
            respond (etag_response (up_etag p))))"

definition handle_complete_upload :: "s3_handler \<Rightarrow> s3_request \<Rightarrow> string \<Rightarrow> string \<Rightarrow> s3_io" where
  "handle_complete_upload H rq bucket key =
     read_xml (sh_xml_complete H) rq (\<lambda>parts.
          s3_try_gated rq (complete_multipart_upload bucket (query_get (hq_query rq) ''uploadId'') parts) (\<lambda>m.
            write_xml_response rq 200 (CompleteXml
              \<lparr>cm_location = ''http://'' @ hq_host rq @ ''/'' @ bucket @ ''/'' @ key,
               cm_bucket = bucket, cm_key = key, cm_etag = om_etag m\<rparr>)))"

definition handle_abort_upload :: "s3_request \<Rightarrow> string \<Rightarrow> string \<Rightarrow> s3_io" where
  "handle_abort_upload rq bucket key =
     s3_try rq (svc_abort_upload bucket (query_get (hq_query rq) ''uploadId'')) (\<lambda>_. respond (bare_response 204))"

definition handle_list_parts :: "s3_request \<Rightarrow> string \<Rightarrow> string \<Rightarrow> s3_io" where
  "handle_list_parts rq bucket key =
     check_bucket_exists rq bucket (
       (let u = query_get (hq_query rq) ''uploadId'' in
        s3_try rq (svc_get_parts bucket u) (\<lambda>ps.
          write_xml_response rq 200 (PartsXml \<lparr>lp_bucket = bucket, lp_key = key, lp_upload_id = u,
            lp_parts = map (\<lambda>p. \<lparr>pt_part_number = up_part_number p, pt_last_modified = up_modified_at p,
              pt_etag = up_etag p, pt_size = up_size p\<rparr>) ps\<rparr>))))"

section \<open>Dispatch\<close>

definition handle_bucket_request :: "s3_handler \<Rightarrow> s3_request \<Rightarrow> string \<Rightarrow> s3_io" where
  "handle_bucket_request H rq bucket =
     (let m = hq_method rq in
      if m = ''PUT'' then handle_create_bucket rq bucket
      else if m = ''HEAD'' then handle_head_bucket rq bucket
      else if m = ''DELETE'' then handle_delete_bucket rq bucket
      else if m = ''GET'' then handle_list_objects_v2 rq bucket
      else if m = ''POST'' then
        (if query_has (hq_query rq) ''delete'' then handle_delete_objects H rq bucket
         else write_error rq ''InvalidArgument'' ''Invalid post query parameter'' 400)
      else respond (bare_response 405))"

definition handle_object_request :: "s3_handler \<Rightarrow> s3_request \<Rightarrow> string \<Rightarrow> string \<Rightarrow> s3_io" where
  "handle_object_request H rq bucket key =
     (let m = hq_method rq; q = hq_query rq in
      if m = ''GET'' then
        (if query_has q ''uploadId'' then handle_list_parts rq bucket key else handle_get_object H rq bucket key)
      else if m = ''HEAD'' then handle_head_object rq bucket key
      else if m = ''DELETE'' then
        (if query_has q ''uploadId'' then handle_abort_upload rq bucket key else handle_delete_object rq bucket key)
      else if m = ''PUT'' then
        (if query_has q ''uploadId'' \<and> query_has q ''partNumber'' then handle_upload_part rq bucket key
         else if hq_get rq ''x-amz-copy-source'' \<noteq> [] then handle_copy_object H rq bucket key
         else handle_put_object rq bucket key)
      else if m = ''POST'' then
        (if query_has q ''uploads'' then handle_create_upload rq bucket key
         else if query_has q ''uploadId'' then handle_complete_upload H rq bucket key
         else write_error rq ''InvalidArgument'' ''Invalid POST action'' 400)
      else respond (bare_response 405))"

text \<open>The path of the URL as bucket and key; the key may hold slashes, and may be missing.\<close>

definition path_parts :: "string \<Rightarrow> string \<times> string" where
  "path_parts path =
     (let parts = split_n2 (CHR ''/'') (trim_prefix path ''/'')
      in (hd parts, concat (tl parts)))"

definition dispatch :: "s3_handler \<Rightarrow> s3_request \<Rightarrow> s3_io" where
  "dispatch H rq =
     (case path_parts (hq_path rq) of
        (bucket, key) \<Rightarrow>
          if trim_prefix (hq_path rq) ''/'' = [] then
            (if hq_method rq = ''GET'' then handle_list_buckets rq
             else write_error rq ''InvalidArgument'' ''Invalid method on root'' 400)
          else if key = [] then handle_bucket_request H rq bucket
          else handle_object_request H rq bucket key)"

definition signature_error :: "s3_request \<Rightarrow> s3_io" where
  "signature_error rq =
     write_error rq ''SignatureDoesNotMatch''
       ''The request signature we calculated does not match the signature you provided.'' 403"

text \<open>The requests a node answers itself: the signature, then the handler.\<close>

definition serve_here :: "s3_handler \<Rightarrow> s3_request \<Rightarrow> s3_io" where
  "serve_here H rq w =
     (case sh_auth H of
        None \<Rightarrow> dispatch H rq w
      | Some creds \<Rightarrow>
          (case validate_request creds (w_now w) rq of
             None \<Rightarrow> (Crashed, w)
           | Some (Inl e) \<Rightarrow> signature_error rq w
           | Some (Inr (ak, rq')) \<Rightarrow> dispatch H rq' w))"

section \<open>The proxy\<close>

text \<open>
  What \<open>httputil.ReverseProxy\<close> does to a request besides its director: the headers of one hop go, the
  client's address is added.  Protocol upgrades are not modelled.
\<close>

definition hop_headers :: "string list" where
  "hop_headers = [''Connection'', ''Proxy-Connection'', ''Keep-Alive'', ''Proxy-Authenticate'',
     ''Proxy-Authorization'', ''Te'', ''Trailer'', ''Transfer-Encoding'', ''Upgrade'']"

definition remove_hop_headers :: "header \<Rightarrow> header" where
  "remove_hop_headers h =
     (let named = map (\<lambda>s. canonical_key (header_trim s))
            (concat (map (split_on (CHR '','')) (header_values h ''Connection'')))
      in filter (\<lambda>(k, vs). k \<notin> set hop_headers \<and> k \<notin> set named) h)"

definition add_forwarded_for :: "string \<Rightarrow> header \<Rightarrow> header" where
  "add_forwarded_for remote h =
     (case split_host_port remote of
        None \<Rightarrow> h
      | Some (ip, port) \<Rightarrow>
          header_set ''X-Forwarded-For'' (join_with '', '' (header_values h ''X-Forwarded-For'' @ [ip])) h)"

text \<open>The director: the original request travels in headers.\<close>

definition director :: "s3_handler \<Rightarrow> s3_request \<Rightarrow> s3_request" where
  "director H rq =
     (let h = header_set ''X-MicroS3-Original-Path'' (hq_path rq) (hq_headers rq);
          h = header_set ''X-MicroS3-Original-Method'' (hq_method rq) h;
          h = header_set ''X-MicroS3-Original-RawQuery'' (hq_raw_query rq) h;
          h = header_set ''X-MicroS3-Token'' (sh_cluster_token H) h;
          req_id = hq_get rq ''X-Amz-Request-Id'';
          h = (if req_id \<noteq> [] then header_set ''X-MicroS3-RequestID'' req_id h else h)
      in rq\<lparr>hq_method := ''POST'', hq_path := ''/internal/s3-proxy'', hq_headers := h\<rparr>)"

definition outgoing :: "s3_handler \<Rightarrow> s3_request \<Rightarrow> s3_request" where
  "outgoing H rq =
     (let out = director H rq
      in out\<lparr>hq_headers := add_forwarded_for (hq_remote rq) (remove_hop_headers (hq_headers out)),
             hq_remote := sh_address H\<rparr>)"

definition values_ok :: "header \<Rightarrow> bool" where
  "values_ok h \<longleftrightarrow> list_all (\<lambda>(k, vs). list_all (list_all header_char_ok) vs) h"

text \<open>The request as it arrives: blanks around header values are gone.\<close>

definition arriving :: "s3_request \<Rightarrow> s3_request" where
  "arriving rq = rq\<lparr>hq_headers := map (\<lambda>(k, vs). (k, map header_trim vs)) (hq_headers rq)\<rparr>"

definition cut_request :: "nat \<Rightarrow> s3_request \<Rightarrow> s3_request" where
  "cut_request n rq = rq\<lparr>hq_body := cut_stream n (hq_body rq)\<rparr>"

text \<open>
  What a follower makes of the outcome at the leader.  The request on the wire is a POST, whatever the
  client's method was, so a length that the handler declares promises a body: when the handler
  of a HEAD writes none, or a body ends early, the leader's server closes the connection and the
  follower's \<open>ReverseProxy\<close> aborts its own answer; what it has copied by then leaves its buffer of 2048
  bytes or not.  A connection that breaks after \<open>n\<close> bytes of the body is the same.  A leader that goes down,
  or that itself aborts before it has sent a status line, does not reply.
\<close>

definition bad_gateway :: s3_response where "bad_gateway = bare_response 502"

definition declared_length :: "s3_response \<Rightarrow> int option" where
  "declared_length rs = (case map_of (sx_headers rs) ''Content-Length'' of None \<Rightarrow> None
     | Some v \<Rightarrow> (case atoi v of None \<Rightarrow> None | Some n \<Rightarrow> if n < 0 then None else Some n))"

definition body_length :: "s3_response \<Rightarrow> nat option" where
  "body_length rs = (case sx_payload rs of EmptyBody \<Rightarrow> Some 0 | ObjectBody st \<Rightarrow> Some (length (st_bytes st)) | _ \<Rightarrow> None)"

definition proxy_buffer :: nat where "proxy_buffer = 2048"

definition pass_on :: "nat option \<Rightarrow> s3_response \<Rightarrow> s3_outcome" where
  "pass_on broken rs =
     (let written = (case body_length rs of None \<Rightarrow> broken | Some l \<Rightarrow> (case broken of None \<Rightarrow> Some l | Some n \<Rightarrow> Some (min n l)));
          short = (case body_length rs of
             None \<Rightarrow> broken \<noteq> None
           | Some l \<Rightarrow> written \<noteq> Some l \<or> declared_length rs \<notin> {None, Some (int l)})
      in if short then Aborted (case written of None \<Rightarrow> False | Some l \<Rightarrow> proxy_buffer < l) else Answered rs)"

fun relay :: "(s3_response \<Rightarrow> s3_outcome) \<Rightarrow> s3_outcome \<Rightarrow> s3_outcome" where
  "relay f (Answered rs) = f rs"
| "relay f Waiting = Waiting"
| "relay f Crashed = Answered bad_gateway"
| "relay f (Aborted started) = (if started then Aborted True else Answered bad_gateway)"

definition proxy_to_leader :: "(string \<Rightarrow> s3_request \<Rightarrow> s3_io) \<Rightarrow> s3_handler \<Rightarrow> s3_request \<Rightarrow> s3_io" where
  "proxy_to_leader visit_node H rq w =
     (let addr = mgr_leader_address (sr_mgr (w_self w)); out = outgoing H rq in
      if addr = [] then
        write_error rq ''ServiceUnavailable'' ''No leader available in the cluster'' 503 w
      else if \<not> sh_url_ok H addr then write_error rq ''InternalError'' ''Invalid leader address'' 500 w
      else if \<not> values_ok (hq_headers out) \<or> map_of (w_peers w) addr = None
      then respond bad_gateway (tick w)
      else case w_net w (w_tick w) of
          Delivered \<Rightarrow> map_prod (relay (pass_on None)) id (visit_node addr (arriving out) (tick w))
        | Lost \<Rightarrow> respond bad_gateway (tick w)
        | ReplyLost \<Rightarrow> map_prod (relay (\<lambda>_. Answered bad_gateway)) id (visit_node addr (arriving out) (tick w))
        | Cut n \<Rightarrow>
            map_prod (relay (\<lambda>_. Answered bad_gateway)) id (visit_node addr (cut_request n (arriving out)) (tick w))
        | ReplyCut n \<Rightarrow> map_prod (relay (pass_on (Some n))) id (visit_node addr (arriving out) (tick w)))"

text \<open>The world seen from a peer, and back.\<close>

definition enter_node :: "string \<Rightarrow> string \<Rightarrow> world \<Rightarrow> world" where
  "enter_node me addr w =
     (case map_of (w_peers w) addr of
        None \<Rightarrow> w
      | Some sr \<Rightarrow> w\<lparr>w_self := sr, w_peers := AList.update me (w_self w) (AList.delete addr (w_peers w))\<rparr>)"

definition visit :: "string \<Rightarrow> string \<Rightarrow> (world \<Rightarrow> 'a \<times> world) \<Rightarrow> world \<Rightarrow> 'a \<times> world" where
  "visit me addr f w = (case f (enter_node me addr w) of (out, w') \<Rightarrow> (out, enter_node addr me w'))"

text \<open>The endpoint of the leader's internal API, behind its token check.\<close>

definition handle_s3_proxy :: "(s3_request \<Rightarrow> s3_io) \<Rightarrow> s3_request \<Rightarrow> s3_io" where
  "handle_s3_proxy s3 rq w =
     (let meth = hq_get rq ''X-MicroS3-Original-Method''; path = hq_get rq ''X-MicroS3-Original-Path'';
          raw_query = hq_get rq ''X-MicroS3-Original-RawQuery'' in
      if hq_get rq ''X-MicroS3-Token'' \<noteq> sr_token (w_self w) then
        respond ((bare_response 401)\<lparr>sx_payload := PlainText ''Unauthorized: Token mismatch''\<rparr>) w
      else if hq_method rq \<noteq> ''POST'' then respond (bare_response 405) w
      else if meth = [] \<or> path = [] then
        respond ((bare_response 400)\<lparr>sx_payload := PlainText ''Missing proxy headers''\<rparr>) w
      else s3 (rq\<lparr>hq_method := meth, hq_path := path, hq_raw_query := raw_query\<rparr>) w)"

section \<open>ServeHTTP\<close>

definition json_response :: "int \<Rightarrow> string \<Rightarrow> s3_response" where
  "json_response st status =
     \<lparr>sx_status = st, sx_headers = [(''Content-Type'', ''application/json'')], sx_modified = None,
      sx_payload = JsonBody status\<rparr>"

definition handle_s3_health :: s3_io where
  "handle_s3_health w =
     (let m = sr_mgr (w_self w); status = mgr_status m in
      respond (if mgr_is_leader (w_now w) m \<or> status = ''READY'' then json_response 200 ''OK''
               else json_response 503 status) w)"

definition handle_liveness :: s3_io where
  "handle_liveness = respond (json_response 200 ''OK'')"

definition with_request_id :: "int \<Rightarrow> s3_request \<Rightarrow> s3_request" where
  "with_request_id now rq =
     (if hq_get rq ''X-Amz-Request-Id'' = []
      then rq\<lparr>hq_headers := header_set ''X-Amz-Request-Id'' (''req-'' @ itoa now) (hq_headers rq)\<rparr> else rq)"

text \<open>
  A node that is not the leader hands a request on, and the node it hands it to may do the same; the
  number of hops is the fuel, and a request that runs out of it is never answered.
\<close>

fun serve_http :: "nat \<Rightarrow> (string \<Rightarrow> s3_handler) \<Rightarrow> s3_handler \<Rightarrow> s3_request \<Rightarrow> s3_io" where
  "serve_http 0 hs H rq w = (Waiting, w)"
| "serve_http (Suc n) hs H rq w =
     (if hq_path rq = ''/health'' then handle_s3_health w
      else if hq_path rq = ''/liveness'' then handle_liveness w
      else if hq_path rq = ''/metrics'' then respond ((bare_response 200)\<lparr>sx_payload := MetricsText\<rparr>) w
      else let rq' = with_request_id (w_now w) rq in
        if should_proxy (w_now w) (hq_method rq') (sh_local_reads H) (w_self w)
        then proxy_to_leader (\<lambda>addr out.
               visit (sh_address H) addr (handle_s3_proxy (serve_http n hs (hs addr)) out)) H rq' w
        else serve_here H rq' w)"

declare serve_http.simps [simp del]

end
