(* ===== verification/AuthProps.thy ===== *)
theory AuthProps
  imports Auth
begin

text \<open>
  What the signature check guarantees: the escaping of the canonical request against the reference
  encoding, the decoder of chunked bodies against its encoder, and which requests are accepted.
\<close>

section \<open>Escaping\<close>

text \<open>The encoding the signature specification asks for: every byte but the unreserved ones.\<close>

definition uri_encode :: "string \<Rightarrow> string" where
  "uri_encode s = concat (map (\<lambda>c. if unreserved c then [c] else pct c) s)"

definition escape_char :: "char \<Rightarrow> string" where
  "escape_char c = (if unreserved c \<or> c = CHR ''$'' \<or> c = CHR ''&'' then [c] else pct c)"

lemma replace_all_append: "replace_all c r (s @ t) = replace_all c r s @ replace_all c r t"
  by (simp add: replace_all_def)

lemma replace_all_id [simp]: "c \<notin> set s \<Longrightarrow> replace_all c r s = s"
  by (induction s) (auto simp: replace_all_def)

definition hex_upper :: "nat \<Rightarrow> char" where
  "hex_upper d = (if d < 10 then char_of (48 + d) else char_of (55 + d))"

lemma pct_eq: "pct c = [CHR ''%'', hex_upper (of_char c div 16), hex_upper (of_char c mod 16)]"
  by (simp add: pct_def hex_upper_def Let_def)

lemma of_char_less: "(of_char (c :: char) :: nat) < 256"
  using of_char_mod_256 [of c, where 'a = nat] by (metis mod_less_divisor zero_less_numeral)

lemma char_halves: "(of_char (c :: char) :: nat) div 16 < 16"
  using of_char_less [of c] by (simp add: less_mult_imp_div_less)

lemma hex_upper_alnum: "d < 16 \<Longrightarrow> is_alnum (hex_upper d)"
  by (auto simp: hex_upper_def is_alnum_def)

lemma unhex_upper: "d < 16 \<Longrightarrow> unhex_digit (hex_upper d) = Some d"
  by (auto simp: hex_upper_def unhex_digit_def Let_def)

lemma pct_set: "x \<in> set (pct c) \<Longrightarrow> x = CHR ''%'' \<or> is_alnum x"
  by (auto simp: pct_eq hex_upper_alnum char_halves)

definition specials :: string where
  "specials = ''*!()+,:;=@'' @ [CHR 0x27]"

lemma special_reserved: "x \<in> set specials \<Longrightarrow> \<not> is_alnum x \<and> \<not> unreserved x \<and> x \<notin> set ''%$&''"
  by (auto simp: specials_def is_alnum_def unreserved_def)

lemma special_not_escaped: "x \<in> set specials \<Longrightarrow> x \<notin> set (escape_char c)"
  using special_reserved [of x] pct_set [of x c] by (auto simp: escape_char_def)

lemma path_escape_single: "path_escape [c] = escape_char c"
proof (cases "c \<in> set ''+:=@''")
  case True
  moreover have "list_all (\<lambda>c. path_escape [c] = escape_char c) ''+:=@''" by code_simp
  ultimately show ?thesis unfolding list_all_iff by blast
next
  case False
  then have "url_path_escape [c] = escape_char c"
    by (auto simp: url_path_escape_def escape_char_def)
  with special_not_escaped [of _ c] show ?thesis
    by (simp add: path_escape_def specials_def)
qed

lemma path_escape_Cons: "path_escape (c # s) = path_escape [c] @ path_escape s"
proof -
  have "url_path_escape (c # s) = url_path_escape [c] @ url_path_escape s"
    by (simp add: url_path_escape_def)
  then show ?thesis by (simp only: path_escape_def Let_def replace_all_append)
qed

lemma path_escape_concat: "path_escape s = concat (map escape_char s)"
proof (induction s)
  case (Cons c s)
  then show ?case by (subst path_escape_Cons) (simp add: path_escape_single)
qed (simp add: path_escape_def url_path_escape_def replace_all_def)

lemma escape_char_unescape: "query_unescape (escape_char c @ s) = map_option (\<lambda>t. c # t) (query_unescape s)"
proof (cases "unreserved c \<or> c = CHR ''$'' \<or> c = CHR ''&''")
  case True
  then have "escape_char c = [c]" "c \<noteq> CHR ''%''" "c \<noteq> CHR ''+''"
    by (auto simp: escape_char_def unreserved_def is_alnum_def)
  then show ?thesis by simp
next
  case False
  define n where "n = (of_char c :: nat)"
  have n: "n div 16 < 16" "n mod 16 < 16" "16 * (n div 16) + n mod 16 = n" "char_of n = c"
    using char_halves [of c] by (simp_all add: n_def)
  from False have "escape_char c = [CHR ''%'', hex_upper (n div 16), hex_upper (n mod 16)]"
    by (simp add: escape_char_def pct_eq n_def)
  moreover have "query_unescape ([CHR ''%'', hex_upper (n div 16), hex_upper (n mod 16)] @ s) = map_option (\<lambda>t. c # t) (query_unescape s)"
    unfolding append.simps query_unescape.simps list.case unhex_upper [OF n(1)] unhex_upper [OF n(2)] prod.case option.case n(3,4)
    by (cases "query_unescape s") simp_all
  ultimately show ?thesis by simp
qed

lemma pct_length [simp]: "length (pct c) = 3"
  by (simp add: pct_def Let_def)

lemma escape_char_length: "length (escape_char c) \<le> length (if unreserved c then [c] else pct c)"
  by (simp add: escape_char_def)

lemma escape_shorter: "length (path_escape s) \<le> length (uri_encode s)"
proof (induction s)
  case (Cons c s)
  with escape_char_length [of c] show ?case by (simp add: path_escape_concat uri_encode_def)
qed (simp add: path_escape_concat)

text \<open>
  C37. The escaping of the canonical request is the reference encoding of the signature
  specification exactly on the texts without a dollar sign and without an ampersand: the code
  leaves these two as they are, so a request whose path or query holds one is signed differently by
  a standard client and rejected.
\<close>

theorem path_escape_reference:
  "path_escape s = uri_encode s \<longleftrightarrow> CHR ''$'' \<notin> set s \<and> CHR ''&'' \<notin> set s"
proof (induction s)
  case (Cons c s)
  have e: "path_escape (c # s) = escape_char c @ path_escape s"
    "uri_encode (c # s) = (if unreserved c then [c] else pct c) @ uri_encode s"
    by (simp_all add: path_escape_concat uri_encode_def)
  show ?case
  proof (cases "c = CHR ''$'' \<or> c = CHR ''&''")
    case True
    then have "length (path_escape (c # s)) < length (uri_encode (c # s))"
      using escape_shorter [of s] unfolding e by (auto simp: escape_char_def unreserved_def is_alnum_def)
    with True show ?thesis by force
  next
    case False
    then have "escape_char c = (if unreserved c then [c] else pct c)" by (simp add: escape_char_def)
    with False Cons show ?thesis unfolding e by auto
  qed
qed (simp add: path_escape_concat uri_encode_def)

text \<open>The escaping itself loses nothing: unescaping gives the text back, so two paths or two query
  texts never share an escaped form.\<close>

lemma escape_unescape: "query_unescape (path_escape s) = Some s"
  by (induction s) (simp_all add: path_escape_concat escape_char_unescape)

lemma path_escape_inject: "path_escape s = path_escape t \<longleftrightarrow> s = t"
  by (metis escape_unescape option.inject)

text \<open>The canonical query does not separate its parts: as the ampersand is not escaped, two different
  queries have the same canonical form, and a signature for one is good for the other.\<close>

theorem canonical_query_ambiguous:
  "parse_query ''a=1%26c&d=2'' \<noteq> parse_query ''a=1&c%26d=2'' \<and>
   get_canonical_query_string (parse_query ''a=1%26c&d=2'') =
     get_canonical_query_string (parse_query ''a=1&c%26d=2'')"
  by code_simp

section \<open>The chunked body\<close>

text \<open>The framing of the encoder: the size in hexadecimal, an extension such as the chunk's signature,
  the data; a chunk of size zero ends the body.\<close>

fun hex_digits :: "nat \<Rightarrow> string" where
  "hex_digits n = (if n < 16 then [hex_digit n] else hex_digits (n div 16) @ [hex_digit (n mod 16)])"

declare hex_digits.simps [simp del]

definition crlf :: "byte list" where "crlf = [0x0D, 0x0A]"

definition chunk_header :: "nat \<Rightarrow> string \<Rightarrow> byte list" where
  "chunk_header n ext = text_bytes (hex_digits n @ ext)"

definition encode_chunk :: "byte list \<times> string \<Rightarrow> byte list" where
  "encode_chunk ce = chunk_header (length (fst ce)) (snd ce) @ crlf @ fst ce @ crlf"

definition encode_chunks :: "(byte list \<times> string) list \<Rightarrow> string \<Rightarrow> byte list" where
  "encode_chunks ces ext = concat (map encode_chunk ces) @ chunk_header 0 ext @ crlf @ crlf"

definition chunk_ext :: "string \<Rightarrow> bool" where
  "chunk_ext ext \<longleftrightarrow> CHR 0x0D \<notin> set ext \<and> (ext = [] \<or> hd ext = CHR '';'')"

definition chunk_ok :: "byte list \<times> string \<Rightarrow> bool" where
  "chunk_ok ce \<longleftrightarrow> fst ce \<noteq> [] \<and> length (fst ce) < 2 ^ 62 \<and> chunk_ext (snd ce)"

lemma hex_digit_is_hex: "n < 16 \<Longrightarrow> is_hex (hex_digit n)"
  by (simp add: is_hex_def unhex_hex_digit)

lemma hex_digits_hex: "list_all is_hex (hex_digits n)"
proof (induction n rule: hex_digits.induct)
  case (1 n)
  then show ?case by (subst hex_digits.simps) (auto simp: hex_digit_is_hex)
qed

lemma hex_digits_not_Nil [simp]: "hex_digits n \<noteq> []"
  by (subst hex_digits.simps) simp

lemma hex_val_append: "hex_val a (s @ t) = hex_val (hex_val a s) t"
  by (induction s arbitrary: a) auto

lemma hex_val_digits: "hex_val 0 (hex_digits n) = int n"
proof (induction n rule: hex_digits.induct)
  case (1 n)
  then show ?case by (subst hex_digits.simps) (auto simp: unhex_hex_digit hex_val_append zdiv_int zmod_int)
qed

lemma not_hex: "\<not> is_hex (CHR '';'')" "\<not> is_hex (CHR ''-'')" "\<not> is_hex (CHR ''+'')" "\<not> is_hex (CHR 0x0D)"
  by (simp_all add: is_hex_def unhex_digit_def)

lemma hex_not_space: "is_hex c \<Longrightarrow> \<not> is_space c"
  by (auto simp: is_hex_def is_space_def rx_space_def unhex_digit_def)

lemma trim_space_hex: "list_all is_hex s \<Longrightarrow> trim_space s = s"
proof -
  have *: "list_all is_hex t \<Longrightarrow> dropWhile is_space t = t" for t
    by (cases t) (auto simp: hex_not_space)
  assume "list_all is_hex s"
  then show ?thesis using * [of s] * [of "rev s"] by (simp add: trim_space_def)
qed

lemma scan_hex_digits: "int64_ok (int n) \<Longrightarrow> scan_hex (hex_digits n) = Some (int n)"
proof -
  assume n: "int64_ok (int n)"
  obtain c cs where c: "hex_digits n = c # cs" by (cases "hex_digits n") auto
  with hex_digits_hex [of n] have "is_hex c" by simp
  then have "c \<noteq> CHR ''-''" "c \<noteq> CHR ''+''" using not_hex by auto
  moreover have "takeWhile (\<lambda>c. unhex_digit c \<noteq> None) (hex_digits n) = hex_digits n"
    using hex_digits_hex [of n] by (intro takeWhile_eq_all_conv [THEN iffD2]) (auto simp: list_all_iff is_hex_def)
  ultimately show ?thesis using n c hex_val_digits [of n] by (simp add: scan_hex_def)
qed

lemma str_index_char:
  "c \<notin> set s \<Longrightarrow> t = [] \<or> hd t = c \<Longrightarrow> str_index (s @ t) [c] = (if t = [] then None else Some (length s))"
proof (induction s)
  case Nil
  then show ?case by (cases t) auto
qed auto

lemma chunk_size_header:
  assumes "int64_ok (int n)" "chunk_ext ext"
  shows "chunk_size (chunk_header n ext) = Some (int n)"
proof -
  have "CHR '';'' \<notin> set (hex_digits n)"
    using hex_digits_hex [of n] not_hex by (auto simp: list_all_iff)
  from str_index_char [OF this, of ext] assms(2)
  have "(case str_index (hex_digits n @ ext) '';'' of None \<Rightarrow> hex_digits n @ ext | Some i \<Rightarrow> take i (hex_digits n @ ext)) = hex_digits n"
    by (auto simp: chunk_ext_def)
  with assms(1) show ?thesis
    by (simp add: chunk_size_def chunk_header_def trim_space_hex hex_digits_hex scan_hex_digits del: text_bytes_append)
qed

lemma index_crlf_append: "0x0D \<notin> set h \<Longrightarrow> index_crlf (h @ crlf @ r) = Some (length h)"
proof (induction h)
  case Nil
  then show ?case by (simp add: crlf_def)
next
  case (Cons a h)
  then obtain b t where "h @ crlf @ r = b # t" by (cases "h @ crlf @ r") (auto simp: crlf_def)
  with Cons show ?case by simp
qed

lemma text_bytes_cr: "0x0D \<in> set (text_bytes s) \<Longrightarrow> CHR 0x0D \<in> set s"
proof -
  assume "0x0D \<in> set (text_bytes s)"
  then obtain c where c: "c \<in> set s" "(0x0D :: byte) = word_of_nat (of_char c)"
    by (auto simp: text_bytes_def)
  from c(2) have "bytes_text (text_bytes [c]) = bytes_text [0x0D]" by (simp add: text_bytes_def)
  moreover have "bytes_text [0x0D] = [CHR 0x0D]" by code_simp
  ultimately have "c = CHR 0x0D" by simp
  with c(1) show ?thesis by simp
qed

lemma header_no_cr: "chunk_ext ext \<Longrightarrow> 0x0D \<notin> set (chunk_header n ext)"
  using hex_digits_hex [of n] not_hex(4)
  by (auto simp: chunk_header_def chunk_ext_def list_all_iff simp del: text_bytes_append dest!: text_bytes_cr)

text \<open>A chunk whose size is so close to the largest 64-bit number that the bounds test overflows.\<close>

definition has_huge_chunk :: "byte list \<Rightarrow> bool" where
  "has_huge_chunk rest \<longleftrightarrow> (\<exists>pre post i n. rest = pre @ post \<and> index_crlf post = Some i \<and>
     chunk_size (take i post) = Some n \<and> 2 ^ 63 \<le> n + 2)"

lemma has_huge_chunk_drop: "has_huge_chunk (drop i xs) \<Longrightarrow> has_huge_chunk xs"
  unfolding has_huge_chunk_def by (metis append_assoc append_take_drop_id)

text \<open>
  C36. The loop of the decoder ends on every input, each round consuming the two bytes of a line end at
  least: it only appends to what it has written, never more than it was given, and it ends in a
  panic only when a chunk announces \<open>2^63 - 2\<close> bytes or more.
\<close>

theorem decode_loop_returns:
  "\<exists>bs panics. decode_loop written rest = Some (written @ bs, panics) \<and> length bs \<le> length rest \<and>
     (panics \<longrightarrow> has_huge_chunk rest)"
proof (induction "length rest" arbitrary: written rest rule: less_induct)
  case less
  show ?case
  proof (cases "index_crlf rest")
    case None
    then show ?thesis by (subst decode_loop.simps) auto
  next
    case (Some i)
    then have "rest \<noteq> []" by auto
    let ?b = "drop (i + 2) rest"
    have lb: "length ?b < length rest" using \<open>rest \<noteq> []\<close> by simp
    have rec: "\<exists>bs panics. decode_loop (written @ take n ?b) (drop (n + 2) ?b) = Some (written @ bs, panics) \<and>
        length bs \<le> length rest \<and> (panics \<longrightarrow> has_huge_chunk rest)" for n
    proof -
      have "length (drop (n + 2) ?b) < length rest" using lb by simp
      from less [OF this, of "written @ take n ?b"] obtain bs panics where
        r: "decode_loop (written @ take n ?b) (drop (n + 2) ?b) = Some ((written @ take n ?b) @ bs, panics)"
          "length bs \<le> length (drop (n + 2) ?b)" "panics \<longrightarrow> has_huge_chunk (drop (n + 2) ?b)"
        by blast
      have "length (take n ?b @ bs) \<le> length rest" using r(2) lb by (auto simp: min_def)
      with r show ?thesis
        by (intro exI [of _ "take n ?b @ bs"] exI [of _ panics]) (auto dest: has_huge_chunk_drop)
    qed
    have huge: "has_huge_chunk rest"
      if "chunk_size (take i rest) = Some n" "0 < n" "wrap64 (n + 2) \<le> int (length ?b)"
        "int (length ?b) < n \<or> wrap64 (n + 2) < 0" for n
    proof -
      have "\<not> int64_ok (n + 2)" using that(2-4) wrap64_id [of "n + 2"] by auto
      then have "2 ^ 63 \<le> n + 2" using that(2) by (simp add: int64_ok_def)
      with that(1) Some show ?thesis
        unfolding has_huge_chunk_def by (intro exI [of _ "[]"] exI [of _ rest]) auto
    qed
    show ?thesis
    proof (cases "chunk_size (take i rest)")
      case None
      then show ?thesis by (subst decode_loop.simps) (auto simp: Some)
    next
      case n: (Some n)
      show ?thesis
        using rec [of "nat n"] huge [OF n] lb \<open>rest \<noteq> []\<close>
        by (subst decode_loop.simps) (auto simp: Some n Let_def not_less)
    qed
  qed
qed

theorem decode_loop_returns_witness:
  "has_huge_chunk (text_bytes ''7fffffffffffffff'' @ crlf)"
proof -
  have "decode_loop [] (text_bytes ''7fffffffffffffff'' @ crlf) = Some ([], True)"
    by (subst decode_loop.simps) code_simp
  with decode_loop_returns [of "[]" "text_bytes ''7fffffffffffffff'' @ crlf"] show ?thesis by auto
qed

lemma decode_step:
  assumes "int64_ok (int n + 2)" "chunk_ext ext"
  shows "decode_loop w (chunk_header n ext @ crlf @ r) =
    (if n = 0 then Some (w, False) else if length r < n + 2 then Some (w @ r, False)
     else decode_loop (w @ take n r) (drop (n + 2) r))"
proof -
  let ?h = "chunk_header n ext"
  have i: "index_crlf (?h @ crlf @ r) = Some (length ?h)" by (rule index_crlf_append [OF header_no_cr [OF assms(2)]])
  have n: "int64_ok (int n)" using assms(1) by (auto simp: int64_ok_def)
  have "?h @ crlf @ r \<noteq> []" "take (length ?h) (?h @ crlf @ r) = ?h" "drop (length ?h + 2) (?h @ crlf @ r) = r"
    by (simp_all add: crlf_def)
  moreover have "chunk_size ?h = Some (int n)" by (rule chunk_size_header [OF n assms(2)])
  ultimately show ?thesis
    unfolding decode_loop.simps [of w "?h @ crlf @ r"] i option.case Let_def
    by (auto simp: wrap64_id [OF assms(1)])
qed

text \<open>A chunk shorter than its header says is passed on as if it were complete, and the body ends there
  without an error.\<close>

theorem short_chunk_accepted:
  assumes "chunk_ext ext" "0 < n" "n < 2 ^ 62" "length data < n + 2"
  shows "decode_loop w (chunk_header n ext @ crlf @ data) = Some (w @ data, False)"
  using assms by (subst decode_step) (auto simp: int64_ok_def)

text \<open>
  C35. Decoding inverts the chunked encoding: whatever the chunks and their extensions, the handlers
  see the data of the chunks, joined, and nothing of the framing.
\<close>

theorem decode_encode:
  assumes "list_all chunk_ok ces" "chunk_ext ext"
  shows "decode_loop w (encode_chunks ces ext) = Some (w @ concat (map fst ces), False)"
  using assms(1)
proof (induction ces arbitrary: w)
  case Nil
  then show ?case using decode_step [of 0 ext w crlf] assms(2) by (simp add: encode_chunks_def int64_ok_def)
next
  case (Cons ce ces)
  let ?c = "fst ce"
  have ok: "int64_ok (int (length ?c) + 2)" "chunk_ext (snd ce)" "?c \<noteq> []"
    using Cons.prems by (auto simp: chunk_ok_def int64_ok_def)
  have "encode_chunks (ce # ces) ext = chunk_header (length ?c) (snd ce) @ crlf @ ?c @ crlf @ encode_chunks ces ext"
    by (simp add: encode_chunks_def encode_chunk_def)
  then have "decode_loop w (encode_chunks (ce # ces) ext) = decode_loop (w @ ?c) (encode_chunks ces ext)"
    using decode_step [OF ok(1,2), of w "?c @ crlf @ encode_chunks ces ext"] ok(3) by (simp add: crlf_def)
  with Cons show ?case by simp
qed

theorem decode_encode_witness:
  "decode_loop [] (encode_chunks [([1, 2], '';chunk-signature=ab''), ([3], [])] []) = Some ([1, 2, 3], False)"
  using decode_encode [of "[([1, 2], '';chunk-signature=ab''), ([3], [])]" "[]" "[]"]
  by (simp add: chunk_ok_def chunk_ext_def)

text \<open>A size close to the largest 64-bit number: adding two wraps around, the bounds check passes and
  the slice expression panics, in a goroutine nobody recovers, before the signature is looked at.\<close>

theorem huge_chunk_panics:
  "decode_chunked_body (bytes_stream (text_bytes ''7fffffffffffffff'' @ crlf)) =
     (\<lparr>st_bytes = [], st_err = Some Panic\<rparr>, True)"
  by code_simp

section \<open>Which requests are accepted\<close>

text \<open>The header a client sends: its parts have none of the characters that separate them.\<close>

record auth_parts =
  ap_key :: string
  ap_date :: string
  ap_region :: string
  ap_names :: string
  ap_sig :: string

definition auth_text :: "auth_parts \<Rightarrow> string" where
  "auth_text a = ''AWS4-HMAC-SHA256'' @ '' '' @ ''Credential='' @ ap_key a @ ''/'' @ ap_date a @ ''/'' @ ap_region a @
     ''/s3/aws4_request,'' @ '' '' @ ''SignedHeaders='' @ ap_names a @ '','' @ '' '' @ ''Signature='' @ ap_sig a @ []"

definition auth_parts_ok :: "auth_parts \<Rightarrow> bool" where
  "auth_parts_ok a \<longleftrightarrow>
     ap_key a \<noteq> [] \<and> CHR ''/'' \<notin> set (ap_key a) \<and> ap_date a \<noteq> [] \<and> CHR ''/'' \<notin> set (ap_date a) \<and>
     ap_region a \<noteq> [] \<and> CHR ''/'' \<notin> set (ap_region a) \<and> ap_names a \<noteq> [] \<and> CHR '','' \<notin> set (ap_names a) \<and>
     ap_sig a \<noteq> [] \<and> list_all is_hex (ap_sig a)"

lemma match_textI: "match_here ps s = r \<Longrightarrow> match_here (RxText t # ps) (t @ s) = r"
  by simp

lemma match_groupI:
  "list_all P u \<Longrightarrow> k \<le> length u \<Longrightarrow> s = [] \<or> \<not> P (hd s) \<Longrightarrow> match_here ps s = Some gs \<Longrightarrow>
   match_here (RxMany True k P # ps) (u @ s) = Some (u # gs)"
  using match_here_many [of P u k s ps gs True] by (simp only: if_True)

lemma match_skipI:
  "list_all P u \<Longrightarrow> k \<le> length u \<Longrightarrow> s = [] \<or> \<not> P (hd s) \<Longrightarrow> match_here ps s = Some gs \<Longrightarrow>
   match_here (RxMany False k P # ps) (u @ s) = Some gs"
  using match_here_many [of P u k s ps gs False] by (simp only: if_False)

lemma auth_text_parts:
  assumes "auth_parts_ok a"
  shows "match_first auth_header_regex (auth_text a) = Some [ap_key a, ap_date a, ap_region a, ap_names a, ap_sig a]"
  unfolding auth_header_regex_def auth_text_def
proof (rule match_first_here, intro match_textI match_groupI match_skipI)
qed (use assms in \<open>auto simp: auth_parts_ok_def list_all_iff Suc_le_eq rx_space_def\<close>)

text \<open>The skew test in whole numbers: besides the window of fifteen minutes it lets through every date
  so far ahead that the difference does not fit a 64-bit duration.\<close>

lemma too_skewed_iff: "too_skewed now t \<longleftrightarrow> 15 * minute < \<bar>now - t\<bar> \<and> - (2 ^ 63) < now - t"
proof -
  have w: "wrap64 (2 ^ 63) = - (2 ^ 63)" by (simp add: wrap64_def)
  have "now - t < - (2 ^ 63) \<or> now - t = - (2 ^ 63) \<or> 2 ^ 63 \<le> now - t \<or> (int64_ok (now - t) \<and> int64_ok (t - now))"
    by (auto simp: int64_ok_def)
  then show ?thesis
    by (elim disjE) (auto simp: too_skewed_def clock_skew_def time_sub_def Let_def int64_ok_def min_duration_def
        max_duration_def minute_def nanos_def w [simplified])
qed

definition payload_ok :: "s3_request \<Rightarrow> bool" where
  "payload_ok rq \<longleftrightarrow> hashed_payload_of rq = UnsignedPayload \<or>
     (if hashed_payload_of rq = StreamingPayload then \<not> panics_at_once rq
      else st_err (hq_body rq) = None \<and> hex_encode (sha256 (st_bytes (hq_body rq))) = hashed_payload_of rq)"

text \<open>The request the handlers get: a streamed body decoded, any other as it came.\<close>

definition plain_request :: "s3_request \<Rightarrow> s3_request" where
  "plain_request rq =
     (if hashed_payload_of rq = StreamingPayload then rq\<lparr>hq_body := fst (decode_chunked_body (hq_body rq))\<rparr> else rq)"

lemma request_body_irrelevant:
  "hq_get (rq\<lparr>hq_body := b\<rparr>) = hq_get rq" "hashed_payload_of (rq\<lparr>hq_body := b\<rparr>) = hashed_payload_of rq"
  "amz_date_of (rq\<lparr>hq_body := b\<rparr>) = amz_date_of rq"
  "expected_signature (rq\<lparr>hq_body := b\<rparr>) = expected_signature rq"
proof -
  show g: "hq_get (rq\<lparr>hq_body := b\<rparr>) = hq_get rq" by (rule ext) (simp add: hq_get_def)
  then show h: "hashed_payload_of (rq\<lparr>hq_body := b\<rparr>) = hashed_payload_of rq" "amz_date_of (rq\<lparr>hq_body := b\<rparr>) = amz_date_of rq"
    by (simp_all add: hashed_payload_of_def amz_date_of_def)
  have "signed_value (rq\<lparr>hq_body := b\<rparr>) = signed_value rq" by (rule ext) (simp add: signed_value_def g Let_def)
  then show "expected_signature (rq\<lparr>hq_body := b\<rparr>) = expected_signature rq"
    by (intro ext) (simp add: expected_signature_def build_canonical_request_def h hq_query_def)
qed

lemma payload_names [simp]: "StreamingPayload \<noteq> UnsignedPayload" "UnsignedPayload \<noteq> StreamingPayload"
  by (simp_all add: StreamingPayload_def UnsignedPayload_def)

lemma check_payload_Inr: "check_payload rq = Inr rq' \<Longrightarrow> rq' = plain_request rq"
  by (auto simp: check_payload_def plain_request_def Let_def split: if_splits option.splits)

lemma check_payload_ok: "payload_ok rq \<Longrightarrow> check_payload rq = Inr (plain_request rq)"
  by (auto simp: check_payload_def plain_request_def payload_ok_def Let_def
      split: option.splits if_splits)

lemma payload_ok_iff: "payload_ok rq \<longleftrightarrow> (\<exists>rq'. check_payload rq = Inr rq') \<and> \<not> panics_at_once rq"
  by (auto simp: check_payload_def payload_ok_def panics_at_once_def Let_def
      split: option.splits if_splits)

text \<open>
  C5. A request whose Authorization header has the documented form is accepted exactly when its
  access key is configured with a secret, its date parses and is not more than fifteen minutes
  off (or so far ahead that the difference overflows), its body agrees with the announced hash (a
  streamed body need only not bring the decoder down with its first chunk), and its signature is the
  one computed from the secret and the canonical request.  The handlers then see the request with a
  streamed body decoded.
\<close>

theorem signature_decides:
  assumes "hq_get rq ''Authorization'' = auth_text a" "auth_parts_ok a"
  shows "validate_request creds now rq = Some (Inr (ak, rq')) \<longleftrightarrow>
    ak = ap_key a \<and> rq' = plain_request rq \<and> find_secret creds ak \<noteq> [] \<and>
    (case parse_amz_date (amz_date_of rq) of
       None \<Rightarrow> False | Some t \<Rightarrow> \<bar>now - t\<bar> \<le> 15 * minute \<or> now - t \<le> - (2 ^ 63)) \<and>
    amz_date_of rq \<noteq> [] \<and> payload_ok rq \<and>
    ap_sig a = expected_signature rq (find_secret creds ak) (ap_date a) (ap_region a) (ap_names a)"
proof -
  have "auth_text a \<noteq> []" by (simp add: auth_text_def)
  moreover have "expected_signature (plain_request rq) = expected_signature rq"
    by (simp add: plain_request_def request_body_irrelevant)
  ultimately show ?thesis
    unfolding validate_request_def Let_def assms(1) auth_text_parts [OF assms(2)]
    using check_payload_Inr [of rq] check_payload_ok [of rq] payload_ok_iff [of rq]
    by (auto simp: too_skewed_iff not_less split: option.splits sum.splits)
qed

text \<open>A signed GET, checked a minute after it was sent.\<close>

definition demo_signed :: "string \<Rightarrow> s3_request" where
  "demo_signed auth = \<lparr>hq_method = ''GET'', hq_path = ''/b/a'', hq_raw_query = [], hq_host = ''h'', hq_remote = ''10.0.0.9:5000'',
     hq_headers = [(''Authorization'', [auth]), (''X-Amz-Date'', [''20260630T120000Z''])],
     hq_body = bytes_stream []\<rparr>"

definition demo_now :: int where "demo_now = 1782820800 * nanos + minute"

definition demo_creds :: auth_validator where
  "demo_creds = [\<lparr>cr_access_key = ''micros3'', cr_secret_key = ''micros3secret''\<rparr>]"

definition demo_sig :: string where
  "demo_sig = expected_signature (demo_signed []) ''micros3secret'' ''20260630'' ''us-east-1'' ''host;x-amz-date''"

definition demo_parts :: auth_parts where
  "demo_parts = \<lparr>ap_key = ''micros3'', ap_date = ''20260630'', ap_region = ''us-east-1'',
     ap_names = ''host;x-amz-date'', ap_sig = demo_sig\<rparr>"

lemma hex_encode_hex: "list_all is_hex (hex_encode bs)"
proof (induction bs)
  case (Cons b bs)
  have "unat b < 256" by (rule unat_byte_lt)
  then have "is_hex (hex_digit (unat b div 16))" "is_hex (hex_digit (unat b mod 16))"
    by (auto intro!: hex_digit_is_hex)
  with Cons show ?case by simp
qed simp

lemma hex_encode_length [simp]: "length (hex_encode bs) = 2 * length bs"
  by (induction bs) simp_all

lemma signature_hex: "list_all is_hex (expected_signature rq s d r n)" "expected_signature rq s d r n \<noteq> []"
proof -
  show "list_all is_hex (expected_signature rq s d r n)"
    by (simp add: expected_signature_def calculate_signature_def Let_def hex_encode_hex)
  have "length (expected_signature rq s d r n) = 64"
    by (simp add: expected_signature_def calculate_signature_def Let_def hmac_text_def)
  then show "expected_signature rq s d r n \<noteq> []" by auto
qed

lemma demo_parts_ok: "auth_parts_ok demo_parts"
  by (simp add: auth_parts_ok_def demo_parts_def demo_sig_def signature_hex)

lemma demo_eval:
  "canonical_key ''host'' = ''Host'' \<and> canonical_key ''x-amz-date'' = ''X-Amz-Date'' \<and>
   canonical_key ''X-Amz-Date'' = ''X-Amz-Date'' \<and> canonical_key ''Authorization'' = ''Authorization'' \<and>
   canonical_key ''X-Amz-Content-Sha256'' = ''X-Amz-Content-Sha256'' \<and>
   sort (split_on (CHR '';'') (to_lower ''host;x-amz-date'')) = [''host'', ''x-amz-date''] \<and>
   parse_amz_date ''20260630T120000Z'' = Some (1782820800 * nanos) \<and> minute \<le> 15 * minute \<and> 0 \<le> minute"
  by code_simp

lemmas demo_runs = demo_eval [THEN conjunct1] demo_eval [THEN conjunct2, THEN conjunct1]
  demo_eval [THEN conjunct2, THEN conjunct2, THEN conjunct1] demo_eval [THEN conjunct2, THEN conjunct2, THEN conjunct2]

lemma demo_headers:
  "hq_get (demo_signed x) ''X-Amz-Date'' = ''20260630T120000Z''" "hq_get (demo_signed x) ''Authorization'' = x"
  "hq_get (demo_signed x) ''X-Amz-Content-Sha256'' = []" "hq_get (demo_signed x) ''host'' = []"
  "hq_get (demo_signed x) ''x-amz-date'' = ''20260630T120000Z''"
  by (simp_all add: hq_get_def header_get_def header_values_def demo_runs) (simp_all add: demo_signed_def)

lemma demo_fields: "amz_date_of (demo_signed x) = ''20260630T120000Z''" "hashed_payload_of (demo_signed x) = UnsignedPayload"
  by (simp_all add: amz_date_of_def hashed_payload_of_def demo_headers)

lemma demo_signature:
  "expected_signature (demo_signed x) s d r ''host;x-amz-date'' = expected_signature (demo_signed []) s d r ''host;x-amz-date''"
proof -
  have "signed_value (demo_signed x) ''host'' = signed_value (demo_signed []) ''host''"
    "signed_value (demo_signed x) ''x-amz-date'' = signed_value (demo_signed []) ''x-amz-date''"
    by (simp_all add: signed_value_def demo_headers Let_def) (simp add: demo_signed_def)
  then show ?thesis
    by (simp add: expected_signature_def demo_fields build_canonical_request_def demo_runs Let_def)
      (simp add: demo_signed_def hq_query_def)
qed

theorem signature_decides_witness:
  "validate_request demo_creds demo_now (demo_signed (auth_text demo_parts)) =
     Some (Inr (''micros3'', demo_signed (auth_text demo_parts)))"
proof -
  let ?rq = "demo_signed (auth_text demo_parts)"
  have "find_secret demo_creds ''micros3'' = ''micros3secret''" by (simp add: find_secret_def demo_creds_def)
  moreover have "demo_now - 1782820800 * nanos = minute" by (simp add: demo_now_def)
  moreover have "ap_sig demo_parts = expected_signature ?rq ''micros3secret'' ''20260630'' ''us-east-1'' ''host;x-amz-date''"
    by (simp only: demo_signature [of "auth_text demo_parts"]) (simp add: demo_parts_def demo_sig_def)
  moreover have "payload_ok ?rq" "plain_request ?rq = ?rq"
    by (simp_all add: payload_ok_def plain_request_def demo_fields)
  moreover have "ap_key demo_parts = ''micros3''" "ap_date demo_parts = ''20260630''" "ap_region demo_parts = ''us-east-1''"
    "ap_names demo_parts = ''host;x-amz-date''" by (simp_all add: demo_parts_def)
  ultimately show ?thesis
    using demo_runs by (subst signature_decides [OF demo_headers(2) demo_parts_ok]) (simp add: demo_fields)
qed

text \<open>The window does not bound the future: a date in the year 9999 passes at every time of this century.\<close>

theorem far_future_date_accepted:
  "\<not> too_skewed demo_now (the (parse_amz_date ''99990101T000000Z'')) \<and>
   too_skewed demo_now (the (parse_amz_date ''20300101T000000Z''))"
proof -
  have "parse_amz_date ''99990101T000000Z'' = Some 253370764800000000000 \<and>
      parse_amz_date ''20300101T000000Z'' = Some 1893456000000000000"
    by code_simp
  then show ?thesis by (simp add: too_skewed_iff demo_now_def minute_def nanos_def)
qed

end
