(* ===== verification/S3Props.thy ===== *)
theory S3Props
  imports S3Router AuthProps SyncProps
begin

text \<open>
  What the S3 front end guarantees: the shape of its answers, and what a PUT leaves for a later GET;
  and a run in which the upload id of an abort leaves the directory of the uploads.
\<close>

section \<open>Answers\<close>

named_theorems answer_intros \<open>every answer of a handler has a property\<close>

definition answers :: "(s3_response \<Rightarrow> bool) \<Rightarrow> s3_io \<Rightarrow> bool" where
  "answers P m \<longleftrightarrow> (\<forall>w rs w'. m w = (Answered rs, w') \<longrightarrow> P rs)"

lemma answersI: "(\<And>w rs w'. m w = (Answered rs, w') \<Longrightarrow> P rs) \<Longrightarrow> answers P m"
  by (simp add: answers_def)

lemma answersD: "answers P m \<Longrightarrow> m w = (Answered rs, w') \<Longrightarrow> P rs"
  unfolding answers_def by blast

lemma answers_respond: "P rs \<Longrightarrow> answers P (respond rs)"
  by (simp add: answers_def respond_def)

lemma answers_If [answer_intros]:
  "(b \<Longrightarrow> answers P m) \<Longrightarrow> (\<not> b \<Longrightarrow> answers P n) \<Longrightarrow> answers P (if b then m else n)"
  by simp

lemma answers_option [answer_intros]:
  "answers P m \<Longrightarrow> (\<And>a. answers P (k a)) \<Longrightarrow> answers P (case v of None \<Rightarrow> m | Some a \<Rightarrow> k a)"
  by (cases v) auto

lemma answers_prod [answer_intros]: "(\<And>a b. answers P (k a b)) \<Longrightarrow> answers P (case v of (a, b) \<Rightarrow> k a b)"
  by (cases v) auto

text \<open>The codes of the error documents and the status each goes with.\<close>

definition error_table :: "(string \<times> int) list" where
  "error_table =
     [(''SignatureDoesNotMatch'', 403), (''InvalidArgument'', 400), (''NoSuchBucket'', 404), (''NoSuchKey'', 404),
      (''BucketNotEmpty'', 409), (''ServiceUnavailable'', 503), (''InternalError'', 500)]"

definition known_statuses :: "int list" where
  "known_statuses = [200, 204, 400, 401, 403, 404, 405, 409, 500, 502, 503]"

fun payload_typed :: "s3_payload \<Rightarrow> int \<Rightarrow> (string \<times> string) list \<Rightarrow> bool" where
  "payload_typed EmptyBody st hs \<longleftrightarrow> st \<in> set known_statuses"
| "payload_typed (PlainText t) st hs \<longleftrightarrow> st = 400 \<or> st = 401"
| "payload_typed (JsonBody t) st hs \<longleftrightarrow> st = 200 \<or> st = 503"
| "payload_typed (ErrorXml e) st hs \<longleftrightarrow> (se_code e, st) \<in> set error_table \<and> hs = xml_headers (se_request_id e)"
| "payload_typed (ObjectBody b) st hs \<longleftrightarrow> st = 200"
| "payload_typed MetricsText st hs \<longleftrightarrow> st = 200"
| "payload_typed p st hs \<longleftrightarrow> st = 200 \<and> (\<exists>req_id. hs = xml_headers req_id)"

definition well_typed :: "s3_response \<Rightarrow> bool" where
  "well_typed rs \<longleftrightarrow> payload_typed (sx_payload rs) (sx_status rs) (sx_headers rs)"

lemma typed_error [answer_intros]: "(code, st) \<in> set error_table \<Longrightarrow> answers well_typed (write_error rq code msg st)"
  by (auto simp: answers_def write_error_def respond_def Let_def well_typed_def)

lemma typed_map_error [answer_intros]: "answers well_typed (map_error_to_s3 rq e)"
  unfolding map_error_to_s3_def Let_def by (intro answer_intros) (simp_all add: error_table_def)

lemma typed_try [answer_intros]: "(\<And>a. answers well_typed (k a)) \<Longrightarrow> answers well_typed (s3_try rq m k)"
  by (rule answersI) (auto simp: s3_try_def split: prod.splits sum.splits if_splits dest: answersD answersD [OF typed_map_error])

lemma typed_try_gated [answer_intros]:
  "(\<And>a. answers well_typed (k a)) \<Longrightarrow> answers well_typed (s3_try_gated rq m k)"
  by (rule answersI)
    (auto simp: s3_try_gated_def split: prod.splits option.splits sum.splits if_splits dest: answersD answersD [OF typed_map_error])

lemma typed_bare [answer_intros]: "st \<in> set known_statuses \<Longrightarrow> answers well_typed (respond (bare_response st))"
  by (rule answers_respond) (simp add: well_typed_def bare_response_def)

lemma typed_xml [answer_intros]:
  "answers well_typed (write_xml_response rq 200 (BucketsXml b))" "answers well_typed (write_xml_response rq 200 (ListXml l))"
  "answers well_typed (write_xml_response rq 200 (DeleteXml d))" "answers well_typed (write_xml_response rq 200 (InitiateXml i))"
  "answers well_typed (write_xml_response rq 200 (CompleteXml c))" "answers well_typed (write_xml_response rq 200 (PartsXml p))"
  "answers well_typed (write_xml_response rq 200 (CopyXml y))"
  by (auto simp: write_xml_response_def well_typed_def intro!: answers_respond)

lemma typed_etag [answer_intros]: "answers well_typed (respond (etag_response e))"
  by (intro answers_respond) (simp add: etag_response_def bare_response_def well_typed_def known_statuses_def)

lemma typed_object [answer_intros]:
  "answers well_typed (respond (object_response m (ObjectBody st)))" "answers well_typed (respond (object_response m EmptyBody))"
  by (intro answers_respond; simp add: object_response_def well_typed_def known_statuses_def)+

lemma typed_list_buckets [answer_intros]: "answers well_typed (handle_list_buckets rq)"
  unfolding handle_list_buckets_def
  by (intro typed_try) (auto intro!: answersI dest: answersD [OF typed_xml(1)])

lemma typed_read_xml [answer_intros]:
  "(\<And>x. answers well_typed (k x)) \<Longrightarrow> answers well_typed (read_xml dec rq k)"
proof (rule answersI)
  fix w rs w' assume k: "\<And>x. answers well_typed (k x)" and run: "read_xml dec rq k w = (Answered rs, w')"
  have "answers well_typed (bad_xml rq)"
    unfolding bad_xml_def by (intro answer_intros) (simp add: error_table_def)
  with run show "well_typed rs"
    by (auto simp: read_xml_def split: if_splits option.splits dest: answersD answersD [OF k])
qed

lemma typed_delete_objects [answer_intros]: "answers well_typed (handle_delete_objects H rq b)"
proof -
  have "answers well_typed (\<lambda>w. case delete_each b ks w of
      (None, w') \<Rightarrow> (Waiting, w') | (Some d, w') \<Rightarrow> write_xml_response rq 200 (DeleteXml d) w')" for ks
    by (rule answersI) (auto split: prod.splits option.splits dest: answersD [OF typed_xml(3)])
  then show ?thesis
    unfolding handle_delete_objects_def check_bucket_exists_def
    by (intro answer_intros) (simp_all add: error_table_def)
qed

lemma typed_put [answer_intros]: "answers well_typed (handle_put_object rq b k)"
proof (rule answersI)
  fix w rs w' assume "handle_put_object rq b k w = (Answered rs, w')"
  then show "well_typed rs"
    unfolding handle_put_object_def by (rule answersD [rotated]) (intro answer_intros)
qed

lemma typed_copy [answer_intros]: "answers well_typed (handle_copy_object H rq b k)"
  unfolding handle_copy_object_def
  by (auto split: list.split simp: error_table_def intro!: answer_intros)

lemma typed_check [answer_intros]: "answers well_typed k \<Longrightarrow> answers well_typed (check_bucket_exists rq b k)"
  unfolding check_bucket_exists_def by (intro answer_intros) (simp_all add: error_table_def)

lemma typed_buckets [answer_intros]:
  "answers well_typed (handle_create_bucket rq b)" "answers well_typed (handle_head_bucket rq b)"
  "answers well_typed (handle_delete_bucket rq b)" "answers well_typed (handle_list_objects_v2 rq b)"
  unfolding handle_create_bucket_def handle_head_bucket_def handle_delete_bucket_def handle_list_objects_v2_def Let_def
  by (intro answer_intros; simp add: known_statuses_def)+

lemma typed_objects [answer_intros]:
  "answers well_typed (handle_get_object H rq b k)" "answers well_typed (handle_head_object rq b k)"
  "answers well_typed (handle_delete_object rq b k)"
  unfolding handle_get_object_def handle_head_object_def handle_delete_object_def
  by (intro answer_intros; simp add: known_statuses_def)+

lemma typed_uploads [answer_intros]:
  "answers well_typed (handle_create_upload rq b k)" "answers well_typed (handle_upload_part rq b k)"
  "answers well_typed (handle_complete_upload H rq b k)" "answers well_typed (handle_abort_upload rq b k)"
  "answers well_typed (handle_list_parts rq b k)"
  unfolding handle_create_upload_def handle_upload_part_def handle_complete_upload_def handle_abort_upload_def
    handle_list_parts_def Let_def
  by (intro answer_intros; simp add: known_statuses_def error_table_def)+

lemma typed_bucket_request [answer_intros]: "answers well_typed (handle_bucket_request H rq b)"
  unfolding handle_bucket_request_def Let_def
  by (intro answer_intros) (simp_all add: known_statuses_def error_table_def)

lemma typed_object_request [answer_intros]: "answers well_typed (handle_object_request H rq b k)"
  unfolding handle_object_request_def Let_def
  by (intro answer_intros) (simp_all add: known_statuses_def error_table_def)

lemma typed_dispatch [answer_intros]: "answers well_typed (dispatch H rq)"
  unfolding dispatch_def by (intro answer_intros) (simp_all add: error_table_def)

lemma typed_serve_here [answer_intros]: "answers well_typed (serve_here H rq)"
proof (rule answersI)
  fix w rs w' assume "serve_here H rq w = (Answered rs, w')"
  moreover have "answers well_typed (signature_error rq)"
    unfolding signature_error_def by (intro answer_intros) (simp add: error_table_def)
  ultimately show "well_typed rs"
    unfolding serve_here_def
    by (auto split: option.splits sum.splits prod.splits dest: answersD [OF typed_dispatch] answersD)
qed

lemma typed_relay:
  assumes "\<And>rs rs'. well_typed rs \<Longrightarrow> f rs = Answered rs' \<Longrightarrow> well_typed rs'" "answers well_typed m"
  shows "answers well_typed (\<lambda>w. map_prod (relay f) id (m w))"
proof (rule answersI)
  fix w rs w' assume "map_prod (relay f) id (m w) = (Answered rs, w')"
  then obtain out where m: "m w = (out, w')" "relay f out = Answered rs" by (cases "m w") auto
  then show "well_typed rs"
    using assms answersD [OF assms(2), of w _ w']
    by (cases out) (auto simp: bad_gateway_def bare_response_def well_typed_def known_statuses_def split: if_splits)
qed

lemma pass_on_answers: "pass_on broken rs = Answered rs' \<Longrightarrow> rs' = rs"
  by (simp add: pass_on_def Let_def split: if_splits)

lemma typed_gateway [answer_intros]: "answers well_typed (respond bad_gateway)"
  unfolding bad_gateway_def by (intro answer_intros) (simp add: known_statuses_def)

lemma typed_visit: "answers well_typed m \<Longrightarrow> answers well_typed (visit me addr m)"
  by (rule answersI) (auto simp: visit_def split: prod.splits dest: answersD)

lemma typed_proxy:
  assumes "\<And>addr out. answers well_typed (v addr out)"
  shows "answers well_typed (proxy_to_leader v H rq)"
proof (rule answersI)
  fix w rs w' assume run: "proxy_to_leader v H rq w = (Answered rs, w')"
  have gateway: "well_typed bad_gateway"
    by (simp add: bad_gateway_def bare_response_def well_typed_def known_statuses_def)
  have relays: "answers well_typed (\<lambda>w. map_prod (relay (pass_on broken)) id (v a o' w))"
    "answers well_typed (\<lambda>w. map_prod (relay (\<lambda>_. Answered bad_gateway)) id (v a o' w))" for a o' broken
    using gateway by (intro typed_relay assms; auto dest: pass_on_answers)+
  have errors: "answers well_typed (write_error rq ''ServiceUnavailable'' m 503)"
    "answers well_typed (write_error rq ''InternalError'' m 500)" for m
    by (intro answer_intros; simp add: error_table_def)+
  from run show "well_typed rs"
    unfolding proxy_to_leader_def Let_def
    by (auto split: if_splits fate.splits dest: relays [THEN answersD] errors [THEN answersD] answersD [OF typed_gateway])
qed

lemma typed_s3_proxy: "(\<And>out. answers well_typed (s3 out)) \<Longrightarrow> answers well_typed (handle_s3_proxy s3 rq)"
proof (rule answersI)
  fix w rs w' assume s3: "\<And>out. answers well_typed (s3 out)" and run: "handle_s3_proxy s3 rq w = (Answered rs, w')"
  from run show "well_typed rs"
    unfolding handle_s3_proxy_def Let_def
    by (auto simp: respond_def bare_response_def well_typed_def known_statuses_def split: if_splits
        dest: s3 [THEN answersD, unfolded well_typed_def])
qed

text \<open>
  C14. Every answer of the front end, whatever the request, the state of the nodes and the network, is
  of one of a few shapes: an error document has one of seven codes, with the status that goes with
  it and its request id in the headers; any other document, and the bytes of an object, come with
  200; an answer without a body has one of eleven statuses.
\<close>

theorem answers_well_typed:
  "case fst (serve_http n hs H rq w) of Answered rs \<Rightarrow> well_typed rs | _ \<Rightarrow> True"
proof -
  have "answers well_typed (serve_http n hs H rq)"
  proof (induction n arbitrary: H rq)
    case 0
    then show ?case by (simp add: answers_def serve_http.simps)
  next
    case (Suc n)
    have p: "answers well_typed (proxy_to_leader (\<lambda>addr out.
        visit (sh_address H) addr (handle_s3_proxy (serve_http n hs (hs addr)) out)) H rq')" for rq'
      by (intro typed_proxy typed_visit typed_s3_proxy Suc.IH)
    have j: "answers well_typed (respond (json_response st t))" if "st = 200 \<or> st = 503" for st t
      using that by (intro answers_respond) (auto simp: json_response_def well_typed_def)
    show ?case
    proof (rule answersI)
      fix w rs w' assume "serve_http (Suc n) hs H rq w = (Answered rs, w')"
      then show "well_typed rs"
        using j [THEN answersD, of 200] j [THEN answersD, of 503]
        by (auto simp: serve_http.simps Let_def handle_s3_health_def handle_liveness_def split: if_splits
            dest: answersD [OF p] answersD [OF typed_serve_here])
          (auto simp: respond_def well_typed_def bare_response_def)
    qed
  qed
  from answersD [OF this] show ?thesis
    by (cases "serve_http n hs H rq w") (auto split: s3_outcome.split)
qed

section \<open>Requests for one object at the leader\<close>

text \<open>A request the front end lets in, as its handlers see it.\<close>

definition admits :: "s3_handler \<Rightarrow> int \<Rightarrow> s3_request \<Rightarrow> s3_request \<Rightarrow> bool" where
  "admits H now rq rq' \<longleftrightarrow>
     (case sh_auth H of
        None \<Rightarrow> rq' = rq
      | Some creds \<Rightarrow> (\<exists>ak. validate_request creds now rq = Some (Inr (ak, rq'))))"

definition object_url :: "string \<Rightarrow> string \<Rightarrow> string" where
  "object_url b k = ''/'' @ b @ ''/'' @ k"

text \<open>A plain request for an object: no part of a multipart upload and no copy.\<close>

definition object_request :: "string \<Rightarrow> string \<Rightarrow> string \<Rightarrow> s3_request \<Rightarrow> bool" where
  "object_request meth b k rq \<longleftrightarrow> hq_method rq = meth \<and> hq_path rq = object_url b k \<and>
     \<not> query_has (hq_query rq) ''uploadId'' \<and> hq_get rq ''x-amz-copy-source'' = []"

lemma validated_plain: "validate_request creds now rq = Some (Inr (ak, rq')) \<Longrightarrow> rq' = plain_request rq"
  by (auto simp: validate_request_def Let_def dest: check_payload_Inr split: if_splits option.splits list.splits sum.splits)

lemma admits_fields:
  assumes "admits H now rq rq'"
  shows "hq_method rq' = hq_method rq" "hq_path rq' = hq_path rq" "hq_query rq' = hq_query rq" "hq_get rq' = hq_get rq"
    "hq_headers rq' = hq_headers rq"
proof -
  have "rq' = rq \<or> rq' = plain_request rq" using assms by (auto simp: admits_def dest: validated_plain split: option.splits)
  then show "hq_method rq' = hq_method rq" "hq_path rq' = hq_path rq" "hq_query rq' = hq_query rq" "hq_get rq' = hq_get rq"
    "hq_headers rq' = hq_headers rq"
    by (auto simp: plain_request_def hq_query_def request_body_irrelevant)
qed

lemma serve_here_admitted: "admits H (w_now w) rq rq' \<Longrightarrow> serve_here H rq w = dispatch H rq' w"
  by (auto simp: admits_def serve_here_def split: option.splits)

lemma path_parts_object: "CHR ''/'' \<notin> set b \<Longrightarrow> path_parts (object_url b k) = (b, k)"
proof -
  assume "CHR ''/'' \<notin> set b"
  then have "takeWhile (\<lambda>c. c \<noteq> CHR ''/'') (b @ ''/'' @ k) = b" "dropWhile (\<lambda>c. c \<noteq> CHR ''/'') (b @ ''/'' @ k) = ''/'' @ k"
    by (simp_all add: takeWhile_append dropWhile_append)
  then show ?thesis by (simp add: path_parts_def object_url_def trim_prefix_def split_n2_def Let_def)
qed

lemma object_url_special:
  "CHR ''/'' \<notin> set u \<Longrightarrow> object_url b k \<noteq> CHR ''/'' # u" "object_url b k \<noteq> []"
proof -
  assume "CHR ''/'' \<notin> set u"
  moreover have "CHR ''/'' \<in> set (tl (object_url b k))" by (simp add: object_url_def)
  ultimately show "object_url b k \<noteq> CHR ''/'' # u" by auto
qed (simp add: object_url_def)

lemma with_request_id_fields:
  "hq_method (with_request_id now rq) = hq_method rq" "hq_path (with_request_id now rq) = hq_path rq"
  "hq_query (with_request_id now rq) = hq_query rq" "hq_body (with_request_id now rq) = hq_body rq"
  "hq_raw_query (with_request_id now rq) = hq_raw_query rq"
  by (simp_all add: with_request_id_def hq_query_def)

lemma header_get_set:
  "header_get (header_set nm v h) x = (if canonical_key x = canonical_key nm then v else header_get h x)"
  by (simp add: header_get_def header_values_def header_set_def update_conv')

lemma key_facts:
  "canonical_key ''X-Amz-Request-Id'' = ''X-Amz-Request-Id'' \<and> canonical_key ''x-amz-copy-source'' = ''X-Amz-Copy-Source'' \<and>
   canonical_key ''Content-Type'' = ''Content-Type'' \<and> canonical_key ''Content-Length'' = ''Content-Length'' \<and>
   canonical_key ''X-Amz-Decoded-Content-Length'' = ''X-Amz-Decoded-Content-Length'' \<and>
   canonical_key ''X-Forwarded-For'' = ''X-Forwarded-For'' \<and> canonical_key ''X-MicroS3-Token'' = ''X-Micros3-Token'' \<and>
   canonical_key ''X-MicroS3-RequestID'' = ''X-Micros3-Requestid'' \<and>
   canonical_key ''X-MicroS3-Original-Path'' = ''X-Micros3-Original-Path'' \<and>
   canonical_key ''X-MicroS3-Original-Method'' = ''X-Micros3-Original-Method'' \<and>
   canonical_key ''X-MicroS3-Original-RawQuery'' = ''X-Micros3-Original-Rawquery'' \<and>
   canonical_key ''Authorization'' = ''Authorization'' \<and> canonical_key ''X-Amz-Date'' = ''X-Amz-Date'' \<and>
   canonical_key ''Date'' = ''Date'' \<and> canonical_key ''X-Amz-Content-Sha256'' = ''X-Amz-Content-Sha256''"
  by code_simp

lemmas key_simps [simp] = key_facts [THEN conjunct1] key_facts [THEN conjunct2, THEN conjunct1]
  key_facts [THEN conjunct2, THEN conjunct2, THEN conjunct1] key_facts [THEN conjunct2, THEN conjunct2, THEN conjunct2]

lemma with_request_id_get:
  "canonical_key nm \<noteq> ''X-Amz-Request-Id'' \<Longrightarrow> hq_get (with_request_id now rq) nm = hq_get rq nm"
  by (simp add: with_request_id_def hq_get_def header_get_set)

lemma serve_object_leader:
  assumes "mgr_is_leader (w_now w) (sr_mgr (w_self w))" "admits H (w_now w) (with_request_id (w_now w) rq) rq'"
    and "hq_path rq = object_url b k" "plain_seg b" "k \<noteq> []"
  shows "serve_http (Suc n) hs H rq w = handle_object_request H rq' b k w"
proof -
  have b: "CHR ''/'' \<notin> set b" using assms(4) by (simp add: plain_seg_def)
  have p: "hq_path rq' = object_url b k"
    using admits_fields [OF assms(2)] assms(3) by (simp add: with_request_id_fields)
  have "trim_prefix (object_url b k) ''/'' \<noteq> []" by (simp add: trim_prefix_def object_url_def)
  then have "dispatch H rq' w = handle_object_request H rq' b k w"
    using assms(5) by (simp add: dispatch_def p path_parts_object [OF b])
  with assms(1,3) serve_here_admitted [OF assms(2)] show ?thesis
    by (simp add: serve_http.simps Let_def should_proxy_def object_url_special)
qed

section \<open>PUT, then GET\<close>

lemma served_object:
  assumes "server_ok (w_self w)" "sr_obj (w_self w) b k = Some (bs, m)" "\<not> is_ec m" "plain_seg b" "plain_name k"
  shows "\<exists>w'. handle_get_object H rq b k w = (Answered (object_response m (ObjectBody (bytes_stream bs))), w')"
proof -
  let ?r = "sr_root (w_self w)" and ?fs = "sr_fs (w_self w)"
  have ok: "wf_fs ?fs" "good_dir ?r b" using assms(1,4) by (simp_all add: server_ok_def good_dir_def)
  have obj: "object_at ?r ?fs b k = Some (bs, m)" using assms(2) by (simp add: sr_obj_def)
  have "data_dir ?r b = ?r @ [''data'', b]" using ok(2) by (simp add: dir_paths)
  then have hb: "has_bucket ?r b ?fs = (Inr True, ?fs)"
    using object_dirs(1) [OF ok assms(5) obj assms(3)] by (simp add: has_bucket_def os_stat_def)
  obtain mt1 mt2 where f: "fs_file ?fs (meta_path ?r b k) = Some (mt1, CMeta m)"
    "fs_file ?fs (body_path ?r b k m) = Some (mt2, CData bs)"
    using obj by (auto simp: object_at_iff)
  have gm: "get_object_meta ?r b k ?fs = (Inr m, ?fs)" using f(1) by (simp add: get_object_meta_ok)
  have go: "get_object ?r b k ?fs = (Inr (bytes_stream bs, m), ?fs)" by (rule get_object_run [OF f])
  show ?thesis
    by (simp add: handle_get_object_def check_bucket_exists_def svc_has_bucket_def s3_try_def read_object_def local_def
        on_storage_def bindE_def hb gm go assms(3) tick_def now_env_def respond_def)
qed

lemma put_world_ok:
  assumes "world_ok w" "put_object b k (const_reader st) sz m w = (res, w')" "plain_seg b" "plain_name k"
  shows "world_ok w'"
  using assms(1,2)
proof (cases rule: put_entered)
  case idle
  then show ?thesis by (simp add: calm_ok)
next
  case (ran u r v)
  have "world_ok v" by (rule put_2pc_obj(4) [OF calm_ok [OF ran(1)] ran(2) assms(3,4)])
  then show ?thesis unfolding ran(4) by (rule calm_ok [OF calm_leave])
qed

lemma error_not_ok: "answers (\<lambda>rs. sx_status rs \<noteq> 200) (map_error_to_s3 rq e)"
proof -
  have "answers (\<lambda>rs. sx_status rs \<noteq> 200) (write_error rq c m st)" if "st \<noteq> 200" for c m st
    using that by (auto simp: answers_def write_error_def respond_def Let_def)
  then show ?thesis unfolding map_error_to_s3_def Let_def by (intro answers_If) simp_all
qed

lemma put_answered_ok:
  assumes "handle_put_object rq b k w = (Answered rs, w')" "sx_status rs = 200"
  obtains m where "put_object b k (const_reader (hq_body rq)) (put_size rq) (put_meta_of (w_now w) rq) w = (Some (Inr m), w')"
    "rs = etag_response (om_etag m)"
  using assms error_not_ok [THEN answersD, of rq]
  by (auto simp: handle_put_object_def s3_try_gated_def respond_def split: prod.splits option.splits sum.splits if_splits)

lemma object_put_served:
  assumes "mgr_is_leader (w_now w) (sr_mgr (w_self w))" "admits H (w_now w) (with_request_id (w_now w) rq) rq'"
    and "object_request ''PUT'' b k rq" "plain_seg b" "plain_name k"
  shows "serve_http (Suc n) hs H rq w = handle_put_object rq' b k w"
proof -
  have k: "k \<noteq> []" using assms(5) by (auto simp: plain_name_def plain_comp_def)
  have "hq_method rq' = ''PUT''" "\<not> query_has (hq_query rq') ''uploadId''" "hq_get rq' ''x-amz-copy-source'' = []"
    using assms(3) admits_fields [OF assms(2)]
    by (auto simp: object_request_def with_request_id_fields with_request_id_get)
  moreover have "serve_http (Suc n) hs H rq w = handle_object_request H rq' b k w"
    by (rule serve_object_leader [OF assms(1,2) _ assms(4) k]) (use assms(3) in \<open>simp add: object_request_def\<close>)
  ultimately show ?thesis by (simp add: handle_object_request_def)
qed

lemma leader_put_get:
  assumes "world_ok w" "distinct (alive_followers w)" "plain_seg b" "plain_name k"
    and "mgr_is_leader (w_now w) (sr_mgr (w_self w))" "admits H (w_now w) (with_request_id (w_now w) rq) rq'"
    and "object_request ''PUT'' b k rq" "serve_http (Suc n) hs H rq w = (Answered rs, w1)" "sx_status rs = 200"
    and "mgr_is_leader (w_now w1) (sr_mgr (w_self w1))" "admits H (w_now w1) (with_request_id (w_now w1) g) g'"
    and "object_request ''GET'' b k g"
  shows "let bs = st_bytes (hq_body rq'); m = staged_meta (put_meta_of (w_now w) rq') bs in
    st_err (hq_body rq') = None \<and> rs = etag_response (om_etag m) \<and>
    fst (serve_http (Suc n) hs H g w1) = Answered (object_response m (ObjectBody (bytes_stream bs)))"
proof -
  have k: "k \<noteq> []" using assms(4) by (auto simp: plain_name_def plain_comp_def)
  have "handle_put_object rq' b k w = (Answered rs, w1)"
    using object_put_served [OF assms(5,6,7,3,4)] assms(8) by simp
  then obtain m where run: "put_object b k (const_reader (hq_body rq')) (put_size rq') (put_meta_of (w_now w) rq') w = (Some (Inr m), w1)"
    and rs: "rs = etag_response (om_etag m)"
    by (rule put_answered_ok [OF _ assms(9)])
  have ec: "\<not> is_ec (put_meta_of (w_now w) rq')"
    by (simp add: put_meta_of_def is_ec_def empty_meta_def StorageModeEC_def)
  note put = put_ok [OF assms(1,3,4) ec assms(2) run]
  have g: "hq_method g' = ''GET''" "\<not> query_has (hq_query g') ''uploadId''"
    using assms(12) admits_fields [OF assms(11)] by (auto simp: object_request_def with_request_id_fields)
  have "serve_http (Suc n) hs H g w1 = handle_object_request H g' b k w1"
    by (rule serve_object_leader [OF assms(10,11) _ assms(3) k]) (use assms(12) in \<open>simp add: object_request_def\<close>)
  then have "serve_http (Suc n) hs H g w1 = handle_get_object H g' b k w1"
    by (simp add: handle_object_request_def g)
  moreover have "server_ok (w_self w1)" by (rule world_okD(2) [OF put_world_ok [OF assms(1) run assms(3,4)]])
  from served_object [OF this put(3) _ assms(3,4), of H g']
  obtain w2 where "handle_get_object H g' b k w1 = (Answered (object_response m (ObjectBody (bytes_stream (st_bytes (hq_body rq'))))), w2)"
    using ec put(2) by (auto simp: is_ec_staged)
  ultimately show ?thesis using put(1,2) rs by simp
qed

text \<open>
  C3. A PUT of an object that the leader answers with 200 was read to its end, and a GET of the same
  object that the leader serves next returns exactly those bytes, with the ETag the PUT announced and
  the content type and user metadata of its headers; a streamed body is stored decoded.
\<close>

theorem http_put_get:
  assumes "world_ok w" "distinct (alive_followers w)" "plain_seg b" "plain_name k"
    and "mgr_is_leader (w_now w) (sr_mgr (w_self w))" "admits H (w_now w) (with_request_id (w_now w) rq) rq'"
    and "object_request ''PUT'' b k rq" "serve_http (Suc n) hs H rq w = (Answered rs, w1)" "sx_status rs = 200"
    and "mgr_is_leader (w_now w1) (sr_mgr (w_self w1))" "admits H (w_now w1) (with_request_id (w_now w1) g) g'"
    and "object_request ''GET'' b k g"
  shows "let bs = st_bytes (hq_body rq'); m = staged_meta (put_meta_of (w_now w) rq') bs in
    st_err (hq_body rq') = None \<and> rs = etag_response (om_etag m) \<and>
    fst (serve_http (Suc n) hs H g w1) = Answered (object_response m (ObjectBody (bytes_stream bs)))"
  by (rule leader_put_get [OF assms])

text \<open>A leader without followers to write to: nothing stands between an intact body and its commit, when
  the bucket is there or can be created (\<open>ensureBucketExists\<close> does so), and then no regular file is on the
  way to the object's body, its metadata or the staging directory, and no directory in their place.\<close>

definition room_for :: "world \<Rightarrow> string \<Rightarrow> string \<Rightarrow> bool" where
  "room_for w b k \<longleftrightarrow>
     (let r = sr_root (w_self w); (made, fs) = ensure_bucket b r (sr_fs (w_self w));
          S = staging_dir r (w_ids w (Suc (Suc (w_tick w)))) in
      made = Inr () \<and> \<not> file_above fs S \<and> fs_get fs S = None \<and>
      can_place fs (data_path r b k) \<and> can_place fs (meta_path r b k))"

lemma lone_put:
  assumes "world_ok w" "plain_seg b" "plain_name k" "alive_followers w = []" "sv_syncing (sr_svc (w_self w)) = []"
    and "room_for w b k" "st_err st = None" "sz < 0 \<or> sz = int (length (st_bytes st))"
  shows "\<exists>w'. put_object b k (const_reader st) sz m w = (Some (Inr (staged_meta m (st_bytes st))), w') \<and>
    sr_mgr (w_self w') = sr_mgr (w_self w)"
proof -
  let ?s = "w_self w" and ?m = "staged_meta m (st_bytes st)"
  let ?r = "sr_root ?s"
  obtain fs where e: "ensure_bucket b ?r (sr_fs ?s) = (Inr (), fs)" using assms(6)
    by (auto simp: room_for_def Let_def split: prod.splits)
  let ?t = "tick (w\<lparr>w_self := ?s\<lparr>sr_fs := fs\<rparr>\<rparr>)"
  define s where "s = (\<lambda>t. snd (write_gate t (sr_svc ?s)))"
  have gate: "write_gate t (sr_svc ?s) = (Enter, s t)" for t
    using assms(5) by (simp add: s_def write_gate_def writes_blocked_def)
  let ?u = "tick (upd_svc (\<lambda>_. s (w_now ?t)) ?t)"
  let ?tx = "new_tx OpPut b k ?u"
  have u: "sr_root (w_self ?u) = ?r" "sr_fs (w_self ?u) = fs" "tx_id ?tx = w_ids w (Suc (Suc (w_tick w)))"
    by (simp_all add: upd_svc_def upd_self_def tick_def new_tx_def)
  have id: "good_uuid (tx_id ?tx)" using world_okD(5) [OF assms(1)] u(3) by simp
  have l0: "local (\<lambda>root ev. ensure_bucket b root) w = (Inr (), ?t)"
    using e by (simp add: local_run)
  have "world_ok ?t" by (rule calm_ok [OF ensure_bucket_calm(1) [OF assms(1) l0]])
  then have dirs: "good_dir ?r b" "good_dir ?r (tx_id ?tx)" "wf_fs fs"
    using world_okD(2) [of ?t] world_okD(2) [OF assms(1)] good_uuid_seg [OF id] assms(2)
    by (simp_all add: good_dir_server server_ok_def)
  have "world_ok (tick ?u)"
    using \<open>world_ok ?t\<close> by (simp add: world_ok_def server_ok_def peer_def upd_svc_def upd_self_def tick_def)
  then have "good_env (now_env (tick ?u))" by (rule world_okD(1))
  note env = this
  have pre: "tx_operation ?tx = OpPut" "tx_bucket ?tx = b" "tx_key ?tx = k"
      "\<not> file_above fs (staging_dir ?r (tx_id ?tx))" "fs_get fs (staging_dir ?r (tx_id ?tx)) = None"
      "can_place fs (data_path ?r b k)" "can_place fs (meta_path ?r b k)"
    using assms(6) u(3) e by (simp_all add: room_for_def new_tx_def Let_def)
  obtain fs1 fs2 where st: "stage_object ?r (now_env (tick ?u)) (tx_id ?tx) st sz m ?tx fs = (Inr ?m, fs1)"
    and cm: "commit_transaction ?r (tx_id ?tx) b k fs1 = (Inr ?m, fs2)"
    by (rule put_run [OF dirs(1) assms(3) dirs(2) env dirs(3) pre(1-5) assms(7,8) pre(6,7)]) (rule that)
  let ?w1 = "tick (tick ?u\<lparr>w_self := (w_self ?u)\<lparr>sr_fs := fs1\<rparr>\<rparr>)"
  have l1: "local (\<lambda>root ev. stage_reader root ev (tx_id ?tx) (const_reader st) sz m ?tx) (tick ?u) = (Inr ?m, ?w1)"
    using st u by (simp add: stage_local_const new_tx_def local_run)
  have l2: "local (\<lambda>root ev. commit_transaction root (tx_id ?tx) (tx_bucket ?tx) (tx_key ?tx)) ?w1 =
      (Inr ?m, tick (?w1\<lparr>w_self := (w_self ?w1)\<lparr>sr_fs := fs2\<rparr>\<rparr>))"
    using cm u by (simp add: local_run new_tx_def)
  let ?w2 = "tick (?w1\<lparr>w_self := (w_self ?w1)\<lparr>sr_fs := fs2\<rparr>\<rparr>)"
  have mgr: "sr_mgr (w_self ?u) = sr_mgr ?s" by (simp add: upd_svc_def upd_self_def)
  have none: "alive_followers ?w1 = []"
    using assms(4) by (simp add: alive_followers_def upd_svc_def upd_self_def)
  have "two_phase ?tx ?m ?w1 = (Inr ?m, ?w2)"
    unfolding two_phase_def prepare_phase_def none Let_def by (simp only: l2 prod.case bool.case if_True sum.case simp_thms if_False)
  then have body: "put_2pc b k (const_reader st) sz m ?u = (Inr ?m, ?w2)"
    unfolding put_2pc_def Let_def bindE_def l1 by simp
  have "gated (put_2pc b k (const_reader st) sz m) ?t = (Some (Inr ?m), upd_svc leave_write ?w2)"
    using gate body by (simp add: gated_def)
  with l0 have "put_object b k (const_reader st) sz m w = (Some (Inr ?m), upd_svc leave_write ?w2)"
    by (simp add: put_object_def)
  moreover have "sr_mgr (w_self (upd_svc leave_write ?w2)) = sr_mgr ?s"
    using mgr by (simp add: upd_svc_def upd_self_def)
  ultimately show ?thesis by blast
qed

lemma lone_http_put:
  assumes "world_ok w" "plain_seg b" "plain_name k" "alive_followers w = []" "sv_syncing (sr_svc (w_self w)) = []"
    and "room_for w b k" "mgr_is_leader (w_now w) (sr_mgr (w_self w))"
    and "admits H (w_now w) (with_request_id (w_now w) rq) rq'" "object_request ''PUT'' b k rq"
    and "st_err (hq_body rq') = None" "put_size rq' < 0 \<or> put_size rq' = int (length (st_bytes (hq_body rq')))"
  shows "\<exists>(m :: object_meta) w'. serve_http (Suc n) hs H rq w = (Answered (etag_response (om_etag m)), w') \<and>
    sr_mgr (w_self w') = sr_mgr (w_self w)"
proof -
  obtain m w' where "put_object b k (const_reader (hq_body rq')) (put_size rq') (put_meta_of (w_now w) rq') w = (Some (Inr m), w')"
    "sr_mgr (w_self w') = sr_mgr (w_self w)"
    using lone_put [OF assms(1-6,10,11)] by blast
  then show ?thesis
    unfolding object_put_served [OF assms(7-9,2,3)]
    by - (intro exI [of _ m] exI [of _ w'], simp add: handle_put_object_def s3_try_gated_def respond_def)
qed

text \<open>A PUT to a demonstration leader that serves alone, and the GET after it.\<close>

definition demo_handler :: s3_handler where
  "demo_handler = \<lparr>sh_auth = None, sh_cluster_token = ''tok'', sh_local_reads = False, sh_ec_reader = None,
     sh_address = ''http://n0'', sh_url_ok = (\<lambda>_. True), sh_xml_delete = (\<lambda>_. None), sh_xml_complete = (\<lambda>_. None)\<rparr>"

definition demo_request :: "string \<Rightarrow> string \<Rightarrow> s3_request" where
  "demo_request meth path = \<lparr>hq_method = meth, hq_path = path, hq_raw_query = [], hq_host = ''h'',
     hq_remote = ''10.0.0.9:5000'', hq_headers = [(''Content-Type'', [''text/plain''])], hq_body = bytes_stream []\<rparr>"

definition lone_world :: world where
  "lone_world = (demo_world (\<lambda>_. Delivered))\<lparr>w_self := demo_server (Static (demo_static\<lparr>sm_states := []\<rparr>))\<rparr>"

definition demo_http_put :: "s3_outcome \<times> world" where
  "demo_http_put = serve_http 1 (\<lambda>_. demo_handler) demo_handler (demo_request ''PUT'' ''/b/a/k'') lone_world"

lemma lone_facts: "alive_followers lone_world = [] \<and> sv_syncing (sr_svc (w_self lone_world)) = []"
  by code_simp

lemma lone_leader: "mgr_is_leader now (sr_mgr (w_self lone_world))"
  by (simp add: lone_world_def demo_server_def demo_static_def sm_is_leader_def)

lemma lone_room: "room_for lone_world ''b'' ''a/k''"
  by code_simp

lemma parse_query_Nil [simp]: "parse_query [] = []"
  by code_simp

lemma demo_request_get: "hq_get (demo_request meth p) nm = (if canonical_key nm = ''Content-Type'' then ''text/plain'' else [])"
  by (simp add: hq_get_def header_get_def header_values_def demo_request_def)

lemma demo_handler_admits: "admits demo_handler now rq rq"
  by (simp add: admits_def demo_handler_def)

lemma demo_object_request: "object_request meth ''b'' ''a/k'' (demo_request meth ''/b/a/k'')"
  unfolding object_request_def demo_request_get
  by (simp add: demo_request_def object_url_def hq_query_def query_has_def)

lemma stored_content_type: "om_content_type (staged_meta (put_meta_of now rq) bs) = hq_get rq ''Content-Type''"
  by (simp add: staged_meta_def put_meta_of_def Let_def)

lemma lone_world_ok: "world_ok lone_world"
proof -
  have "sm_inv (demo_static\<lparr>sm_states := []\<rparr>)" by (simp add: sm_inv_def demo_static_def wf_states_def addrs_def)
  then show ?thesis
    using demo_world_ok [of "\<lambda>_. Delivered"]
    by (simp add: world_ok_def lone_world_def demo_world_def demo_server_def server_ok_def peer_def)
qed

lemma demo_http_put_run:
  "\<exists>(m :: object_meta) w'. demo_http_put = (Answered (etag_response (om_etag m)), w') \<and> sr_mgr (w_self w') = sr_mgr (w_self lone_world)"
proof -
  let ?rq = "with_request_id (w_now lone_world) (demo_request ''PUT'' ''/b/a/k'')"
  have "hq_body ?rq = bytes_stream []" by (simp add: with_request_id_fields demo_request_def)
  moreover have "put_size ?rq = -1"
    by (simp add: put_size_def with_request_id_get demo_request_get)
  ultimately show ?thesis
    unfolding demo_http_put_def One_nat_def
    by (intro lone_http_put [OF lone_world_ok demo_names(1,2) _ _ lone_room lone_leader demo_handler_admits demo_object_request])
      (simp_all add: lone_facts)
qed

theorem http_put_get_witness:
  "\<exists>m. fst (serve_http 1 (\<lambda>_. demo_handler) demo_handler (demo_request ''GET'' ''/b/a/k'') (snd demo_http_put)) =
     Answered (object_response m (ObjectBody (bytes_stream []))) \<and> om_content_type m = ''text/plain''"
proof -
  let ?w1 = "snd demo_http_put"
  obtain m :: object_meta and w1 where run: "demo_http_put = (Answered (etag_response (om_etag m)), w1)"
    and mgr: "sr_mgr (w_self w1) = sr_mgr (w_self lone_world)"
    using demo_http_put_run by blast
  have "serve_http (Suc 0) (\<lambda>_. demo_handler) demo_handler (demo_request ''PUT'' ''/b/a/k'') lone_world =
      (Answered (etag_response (om_etag m)), w1)"
    using run by (simp add: demo_http_put_def)
  note get = http_put_get [OF lone_world_ok _ demo_names(1,2) lone_leader demo_handler_admits demo_object_request this _ _
      demo_handler_admits demo_object_request]
  let ?m = "staged_meta (put_meta_of (w_now lone_world) (with_request_id (w_now lone_world) (demo_request ''PUT'' ''/b/a/k''))) []"
  have "fst (serve_http (Suc 0) (\<lambda>_. demo_handler) demo_handler (demo_request ''GET'' ''/b/a/k'') w1) =
      Answered (object_response ?m (ObjectBody (bytes_stream [])))"
    using get lone_facts lone_leader
    by (simp add: with_request_id_fields etag_response_def bare_response_def mgr Let_def demo_request_def [of "''PUT''"])
  moreover have "om_content_type ?m = ''text/plain''"
    by (simp add: stored_content_type with_request_id_get demo_request_get)
  ultimately show ?thesis unfolding run One_nat_def snd_conv by blast
qed


section \<open>An upload id is a path\<close>

text \<open>The DELETE of an upload takes its id from the query as it is: the id of this one names the data
  directory of the bucket.\<close>

definition escaping_abort :: s3_request where
  "escaping_abort = (demo_request ''DELETE'' ''/b/a'')\<lparr>hq_raw_query := ''uploadId=../../data/b''\<rparr>"

lemma unescape_plain: "list_all (\<lambda>c. c \<noteq> CHR ''%'' \<and> c \<noteq> CHR ''+'') s \<Longrightarrow> query_unescape s = Some s"
  by (induction s) auto

lemma escaping_id: "hq_query (with_request_id now escaping_abort) = [(''uploadId'', [''../../data/b''])]"
proof -
  have "query_item ''uploadId=../../data/b'' [] = [(''uploadId'', [''../../data/b''])]"
    by (simp add: query_item_def split_n2_def add_value_def unescape_plain del: query_unescape.simps)
  moreover have "split_on (CHR ''&'') ''uploadId=../../data/b'' = [''uploadId=../../data/b'']" by (rule split_on_plain) simp
  ultimately have "parse_query ''uploadId=../../data/b'' = [(''uploadId'', [''../../data/b''])]"
    by (simp only: parse_query_def fold_simps)
  moreover have "hq_raw_query escaping_abort = ''uploadId=../../data/b''" by (simp add: escaping_abort_def)
  ultimately show ?thesis by (simp only: with_request_id_fields hq_query_def)
qed

lemma escaping_run:
  "let r = abort_multipart_upload demo_root ''b'' ''../../data/b'' demo_fs in
     fst r = Inr () \<and> fst (has_bucket demo_root ''b'' (snd r)) = Inr False"
  by code_simp

theorem abort_escapes_uploads:
  "\<exists>w'. serve_http 1 (\<lambda>_. demo_handler) demo_handler escaping_abort lone_world = (Answered (bare_response 204), w') \<and>
     fst (has_bucket demo_root ''b'' (sr_fs (w_self w'))) = Inr False"
proof -
  let ?rq = "with_request_id (w_now lone_world) escaping_abort"
  have meth: "hq_method escaping_abort = ''DELETE''" by (simp add: escaping_abort_def demo_request_def)
  have "serve_http (Suc 0) (\<lambda>_. demo_handler) demo_handler escaping_abort lone_world =
      handle_object_request demo_handler ?rq ''b'' ''a'' lone_world"
    by (rule serve_object_leader [OF lone_leader demo_handler_admits])
      (simp_all add: escaping_abort_def demo_request_def object_url_def)
  also have "\<dots> = handle_abort_upload ?rq ''b'' ''a'' lone_world"
    by (simp add: handle_object_request_def escaping_id query_has_def with_request_id_fields(1) meth)
  finally have run: "serve_http 1 (\<lambda>_. demo_handler) demo_handler escaping_abort lone_world =
      handle_abort_upload ?rq ''b'' ''a'' lone_world" by simp
  obtain fs where a: "abort_multipart_upload demo_root ''b'' ''../../data/b'' demo_fs = (Inr (), fs)"
    "fst (has_bucket demo_root ''b'' fs) = Inr False"
    using escaping_run by (cases "abort_multipart_upload demo_root ''b'' ''../../data/b'' demo_fs") (auto simp: Let_def)
  have "sr_root (w_self lone_world) = demo_root" "sr_fs (w_self lone_world) = demo_fs"
    by (simp_all add: lone_world_def demo_server_def)
  with a show ?thesis
    unfolding run
    by (simp add: handle_abort_upload_def s3_try_def svc_abort_upload_def local_def on_storage_def escaping_id query_get_def
        respond_def)
qed

end
