(* ===== verification/ProxyProps.thy ===== *)
theory ProxyProps
  imports S3Props
begin

text \<open>
  The proxy of a follower: which headers a node answers by, and that a request which reaches the leader
  through a follower is answered, and changes the leader, as if it had been sent to the leader.
\<close>

section \<open>The headers a node answers by\<close>

text \<open>The headers the proxy adds or takes away, under their canonical names.\<close>

definition proxy_keys :: "string list" where
  "proxy_keys = hop_headers @ [''X-Forwarded-For'', ''X-Micros3-Original-Path'', ''X-Micros3-Original-Method'',
     ''X-Micros3-Original-Rawquery'', ''X-Micros3-Token'', ''X-Micros3-Requestid'']"

definition bare_headers :: "header \<Rightarrow> header" where
  "bare_headers h = filter (\<lambda>(k, vs). k \<notin> set proxy_keys) h"

definition bare :: "s3_request \<Rightarrow> s3_request" where
  "bare rq = rq\<lparr>hq_remote := [], hq_headers := bare_headers (hq_headers rq)\<rparr>"

lemma bare_fields [simp]:
  "hq_method (bare rq) = hq_method rq" "hq_path (bare rq) = hq_path rq" "hq_query (bare rq) = hq_query rq"
  "hq_body (bare rq) = hq_body rq" "hq_host (bare rq) = hq_host rq" "hq_headers (bare rq) = bare_headers (hq_headers rq)"
  by (simp_all add: bare_def hq_query_def)

lemma map_of_filter_key: "P k \<Longrightarrow> map_of (filter (\<lambda>(k, v). P k) h) k = map_of h k"
  by (induction h) auto

lemma map_of_bare: "k \<notin> set proxy_keys \<Longrightarrow> map_of (bare_headers h) k = map_of h k"
  by (simp add: bare_headers_def map_of_filter_key)

lemma bare_get: "canonical_key nm \<notin> set proxy_keys \<Longrightarrow> hq_get (bare rq) nm = hq_get rq nm"
  by (simp add: hq_get_def header_get_def header_values_def map_of_bare)

lemma kept_keys:
  "list_all (\<lambda>nm. canonical_key nm \<notin> set proxy_keys)
     [''X-Amz-Request-Id'', ''x-amz-copy-source'', ''Content-Type'', ''Content-Length'', ''X-Amz-Decoded-Content-Length'',
      ''Authorization'', ''X-Amz-Date'', ''Date'', ''X-Amz-Content-Sha256'']"
  by code_simp

lemma bare_gets [simp]:
  "hq_get (bare rq) ''X-Amz-Request-Id'' = hq_get rq ''X-Amz-Request-Id''"
  "hq_get (bare rq) ''x-amz-copy-source'' = hq_get rq ''x-amz-copy-source''"
  "hq_get (bare rq) ''Content-Type'' = hq_get rq ''Content-Type''"
  "hq_get (bare rq) ''Content-Length'' = hq_get rq ''Content-Length''"
  "hq_get (bare rq) ''X-Amz-Decoded-Content-Length'' = hq_get rq ''X-Amz-Decoded-Content-Length''"
  "hq_get (bare rq) ''Authorization'' = hq_get rq ''Authorization''"
  "hq_get (bare rq) ''X-Amz-Date'' = hq_get rq ''X-Amz-Date''"
  "hq_get (bare rq) ''Date'' = hq_get rq ''Date''"
  "hq_get (bare rq) ''X-Amz-Content-Sha256'' = hq_get rq ''X-Amz-Content-Sha256''"
  using kept_keys by (simp_all add: bare_get)

lemma user_metadata_bare [simp]: "user_metadata (bare_headers h) = user_metadata h"
proof -
  have k: "list_all (\<lambda>k. \<not> prefix ''x-amz-meta-'' (to_lower k)) proxy_keys" by code_simp
  have "filter (\<lambda>(k, vs). prefix ''x-amz-meta-'' (to_lower k)) (bare_headers h) =
      filter (\<lambda>(k, vs). prefix ''x-amz-meta-'' (to_lower k)) h"
    using k by (auto simp: bare_headers_def list_all_iff intro!: filter_cong)
  then show ?thesis by (simp add: user_metadata_def)
qed

section \<open>No handler looks at the others\<close>

named_theorems bare_eqs \<open>an operation does the same for a request and its bare form\<close>

lemma write_bare [bare_eqs]:
  "write_error (bare rq) = write_error rq" "map_error_to_s3 (bare rq) = map_error_to_s3 rq"
  "write_xml_response (bare rq) = write_xml_response rq"
proof -
  show e: "write_error (bare rq) = write_error rq" by (simp add: write_error_def fun_eq_iff)
  show "map_error_to_s3 (bare rq) = map_error_to_s3 rq" unfolding map_error_to_s3_def e ..
  show "write_xml_response (bare rq) = write_xml_response rq" by (simp add: write_xml_response_def fun_eq_iff)
qed

lemma try_bare [bare_eqs]:
  "s3_try (bare rq) m k = s3_try rq m k" "s3_try_gated (bare rq) m' k = s3_try_gated rq m' k"
  unfolding s3_try_def s3_try_gated_def write_bare by (rule refl)+

lemma check_bare [bare_eqs]: "check_bucket_exists (bare rq) b k = check_bucket_exists rq b k"
  unfolding check_bucket_exists_def bare_eqs ..

lemma xml_bare [bare_eqs]: "read_xml dec (bare rq) k = read_xml dec rq k"
proof -
  have "bad_xml (bare rq) = bad_xml rq" unfolding bad_xml_def write_bare ..
  then show ?thesis by (intro ext) (simp add: read_xml_def split: option.split)
qed

lemma put_bare [bare_eqs]: "put_size (bare rq) = put_size rq" "put_meta_of now (bare rq) = put_meta_of now rq"
  by (simp_all add: put_size_def put_meta_of_def)

lemma bucket_bare [bare_eqs]: "handle_bucket_request H (bare rq) b = handle_bucket_request H rq b"
  unfolding handle_bucket_request_def handle_create_bucket_def handle_head_bucket_def handle_delete_bucket_def
    handle_list_objects_v2_def handle_delete_objects_def bare_eqs bare_fields ..

lemma object_bare [bare_eqs]: "handle_object_request H (bare rq) b k = handle_object_request H rq b k"
proof -
  have put: "handle_put_object (bare rq) b k = handle_put_object rq b k"
    by (intro ext) (simp only: handle_put_object_def bare_eqs bare_fields)
  show ?thesis
    unfolding put handle_object_request_def handle_list_parts_def handle_get_object_def handle_head_object_def
      handle_abort_upload_def handle_delete_object_def handle_upload_part_def handle_copy_object_def
      handle_create_upload_def handle_complete_upload_def bare_eqs bare_fields bare_gets ..
qed

lemma dispatch_bare: "dispatch H (bare rq) = dispatch H rq"
  unfolding dispatch_def handle_list_buckets_def bare_eqs bare_fields ..

text \<open>The signature check reads the headers it was told are signed.\<close>

definition signed_names :: "s3_request \<Rightarrow> string list" where
  "signed_names rq =
     (case match_first auth_header_regex (hq_get rq ''Authorization'') of
        Some [ak, date, region, signed_headers, sig] \<Rightarrow> split_on (CHR '';'') (to_lower signed_headers)
      | _ \<Rightarrow> [])"

definition signed_apart :: "s3_request \<Rightarrow> bool" where
  "signed_apart rq \<longleftrightarrow> list_all (\<lambda>nm. canonical_key nm \<notin> set proxy_keys) (signed_names rq)"

lemma canonical_bare:
  assumes "list_all (\<lambda>nm. canonical_key nm \<notin> set proxy_keys) (split_on (CHR '';'') (to_lower sh))"
  shows "build_canonical_request (bare rq) sh hp = build_canonical_request rq sh hp"
proof -
  have "signed_value (bare rq) nm = signed_value rq nm" if "nm \<in> set (sort (split_on (CHR '';'') (to_lower sh)))" for nm
  proof -
    have "hq_get (bare rq) nm = hq_get rq nm" using assms that by (simp add: bare_get list_all_iff)
    then show ?thesis unfolding signed_value_def by (simp only: bare_fields)
  qed
  then have m: "map (\<lambda>nm. nm @ '':'' @ signed_value (bare rq) nm @ newline) (sort (split_on (CHR '';'') (to_lower sh))) =
      map (\<lambda>nm. nm @ '':'' @ signed_value rq nm @ newline) (sort (split_on (CHR '';'') (to_lower sh)))"
    by (intro map_cong refl) simp
  show ?thesis unfolding build_canonical_request_def Let_def m bare_fields ..
qed

lemma payload_bare:
  "hashed_payload_of (bare rq) = hashed_payload_of rq" "amz_date_of (bare rq) = amz_date_of rq"
  "panics_at_once (bare rq) = panics_at_once rq"
  by (simp_all add: hashed_payload_of_def amz_date_of_def panics_at_once_def)

lemma check_payload_bare: "check_payload (bare rq) = map_sum id bare (check_payload rq)"
proof -
  have "bare (rq\<lparr>hq_body := b\<rparr>) = (bare rq)\<lparr>hq_body := b\<rparr>" for b by (simp add: bare_def)
  then show ?thesis
    by (simp add: check_payload_def payload_bare Let_def split: option.split)
qed

lemma validate_bare:
  assumes "signed_apart rq"
  shows "validate_request creds now (bare rq) = map_option (map_sum id (map_prod id bare)) (validate_request creds now rq)"
proof -
  have sig: "expected_signature (bare rq') s d r sh = expected_signature rq' s d r sh"
    if "match_first auth_header_regex (hq_get rq ''Authorization'') = Some [ak, d, r, sh, sig]" for rq' ak s d r sh sig
    using assms that by (simp add: signed_apart_def signed_names_def expected_signature_def payload_bare canonical_bare)
  show ?thesis
    by (auto simp: validate_request_def Let_def payload_bare check_payload_bare sig split: option.split list.split sum.split)
qed

lemma serve_here_bare:
  assumes "sh_auth H = None \<or> signed_apart rq"
  shows "serve_here H (bare rq) w = serve_here H rq w"
proof (cases "sh_auth H")
  case None
  then show ?thesis by (simp add: serve_here_def dispatch_bare)
next
  case (Some creds)
  with assms have v: "validate_request creds (w_now w) (bare rq) =
      map_option (map_sum id (map_prod id bare)) (validate_request creds (w_now w) rq)"
    by (simp add: validate_bare)
  have "signature_error (bare rq) = signature_error rq" unfolding signature_error_def bare_eqs ..
  then show ?thesis using Some by (simp add: serve_here_def v dispatch_bare split: option.split sum.split)
qed

section \<open>What arrives at the leader\<close>

definition connection_names :: "header \<Rightarrow> string list" where
  "connection_names h =
     map (\<lambda>s. canonical_key (header_trim s)) (concat (map (split_on (CHR '','')) (header_values h ''Connection'')))"

text \<open>
  A request the proxy can carry: nothing HTTP refuses in a header, no blanks around a value, no
  header of its own named in its \<open>Connection\<close> header.
\<close>

definition carries :: "s3_handler \<Rightarrow> s3_request \<Rightarrow> bool" where
  "carries H rq \<longleftrightarrow> values_ok (hq_headers (outgoing H rq)) \<and>
     list_all (\<lambda>(k, vs). list_all (\<lambda>v. header_trim v = v) vs) (hq_headers rq) \<and>
     list_all (\<lambda>s. header_trim s = s) [hq_path rq, hq_method rq, hq_raw_query rq, sh_cluster_token H] \<and>
     hq_method rq \<noteq> [] \<and> hq_path rq \<noteq> [] \<and>
     list_all (\<lambda>k. k \<in> set hop_headers \<or> k \<notin> fst ` set (hq_headers rq) \<and> k \<notin> set proxy_keys)
       (connection_names (hq_headers rq))"

lemma bare_set: "canonical_key nm \<in> set proxy_keys \<Longrightarrow> bare_headers (header_set nm v h) = bare_headers h"
proof -
  have "k \<in> set proxy_keys \<Longrightarrow> bare_headers (AList.update k vs h) = bare_headers h" for k vs
    by (induction h) (auto simp: bare_headers_def)
  then show "canonical_key nm \<in> set proxy_keys \<Longrightarrow> bare_headers (header_set nm v h) = bare_headers h"
    by (simp add: header_set_def)
qed

lemma proxy_key_list:
  "list_all (\<lambda>nm. canonical_key nm \<in> set proxy_keys)
     [''X-MicroS3-Original-Path'', ''X-MicroS3-Original-Method'', ''X-MicroS3-Original-RawQuery'', ''X-MicroS3-Token'',
      ''X-MicroS3-RequestID'', ''X-Forwarded-For'']"
  by code_simp

lemma bare_sets [simp]:
  "bare_headers (header_set ''X-MicroS3-Original-Path'' v h) = bare_headers h"
  "bare_headers (header_set ''X-MicroS3-Original-Method'' v h) = bare_headers h"
  "bare_headers (header_set ''X-MicroS3-Original-RawQuery'' v h) = bare_headers h"
  "bare_headers (header_set ''X-MicroS3-Token'' v h) = bare_headers h"
  "bare_headers (header_set ''X-MicroS3-RequestID'' v h) = bare_headers h"
  "bare_headers (header_set ''X-Forwarded-For'' v h) = bare_headers h"
  using proxy_key_list by (simp_all add: bare_set del: key_simps)

lemma bare_forwarded [simp]: "bare_headers (add_forwarded_for r h) = bare_headers h"
  by (simp add: add_forwarded_for_def split: option.split)

lemma bare_director: "bare_headers (hq_headers (director H rq)) = bare_headers (hq_headers rq)"
  by (simp add: director_def Let_def)

lemma remove_hop_alt:
  "remove_hop_headers h = filter (\<lambda>(k, vs). k \<notin> set hop_headers \<and> k \<notin> set (connection_names h)) h"
  by (simp add: remove_hop_headers_def connection_names_def Let_def)

lemma header_values_set:
  "header_values (header_set nm v h) x = (if canonical_key x = canonical_key nm then [v] else header_values h x)"
  by (simp add: header_values_def header_set_def update_conv')

lemma connection_director: "connection_names (hq_headers (director H rq)) = connection_names (hq_headers rq)"
proof -
  have "canonical_key ''Connection'' = ''Connection''" by code_simp
  then show ?thesis by (simp add: connection_names_def director_def Let_def header_values_set)
qed

lemma bare_remove_hop:
  assumes "carries H rq"
  shows "bare_headers (remove_hop_headers (hq_headers (director H rq))) = bare_headers (hq_headers rq)"
proof -
  let ?h = "hq_headers (director H rq)"
  have "bare_headers (remove_hop_headers ?h) = filter (\<lambda>(k, vs). k \<notin> set hop_headers \<and> k \<notin> set (connection_names ?h)) (bare_headers ?h)"
    by (auto simp: remove_hop_alt bare_headers_def intro!: filter_cong)
  also have "\<dots> = bare_headers ?h"
  proof (rule filter_True, clarify)
    fix k vs assume "(k, vs) \<in> set (bare_headers ?h)"
    then have "(k, vs) \<in> set (hq_headers rq)" "k \<notin> set proxy_keys"
      unfolding bare_director by (auto simp: bare_headers_def)
    then have "k \<in> fst ` set (hq_headers rq)" "k \<notin> set hop_headers" by (force, simp add: proxy_keys_def)
    with assms show "k \<notin> set hop_headers \<and> k \<notin> set (connection_names ?h)"
      by (auto simp: connection_director carries_def list_all_iff)
  qed
  finally show ?thesis by (simp add: bare_director)
qed

definition rewritten :: "s3_handler \<Rightarrow> s3_request \<Rightarrow> s3_request" where
  "rewritten H rq = (arriving (outgoing H rq))\<lparr>hq_method := hq_method rq, hq_path := hq_path rq, hq_raw_query := hq_raw_query rq\<rparr>"

lemma bare_rewritten:
  assumes "carries H rq"
  shows "bare (rewritten H rq) = bare rq"
proof -
  have m: "bare_headers (map (\<lambda>(k, vs). (k, map f vs)) h) = map (\<lambda>(k, vs). (k, map f vs)) (bare_headers h)" for f and h :: header
    by (induction h) (auto simp: bare_headers_def)
  have "list_all (\<lambda>(k, vs). list_all (\<lambda>v. header_trim v = v) vs) (hq_headers rq)" using assms by (simp add: carries_def)
  then have "map (\<lambda>(k, vs). (k, map header_trim vs)) (bare_headers (hq_headers rq)) = bare_headers (hq_headers rq)"
    by (intro map_idI) (auto simp: list_all_iff bare_headers_def intro!: map_idI)
  with bare_remove_hop [OF assms] show ?thesis
    by (simp add: bare_def rewritten_def arriving_def outgoing_def Let_def m director_def)
qed

lemma get_arriving: "hq_get (arriving rq) nm = header_trim (hq_get rq nm)"
proof -
  have t: "header_trim [] = []" by code_simp
  have "map_of (map (\<lambda>(k, vs). (k, map header_trim vs)) h) k = map_option (map header_trim) (map_of h k)" for k and h :: header
    by (induction h) auto
  then show ?thesis
    by (simp add: hq_get_def arriving_def header_get_def header_values_def t split: option.split list.split)
qed

lemma get_outgoing:
  assumes "carries H rq" "canonical_key nm \<notin> set hop_headers" "canonical_key nm \<noteq> ''X-Forwarded-For''"
    and "canonical_key nm \<in> set proxy_keys"
  shows "hq_get (outgoing H rq) nm = hq_get (director H rq) nm"
proof -
  have "canonical_key nm \<notin> set (connection_names (hq_headers (director H rq)))"
    using assms by (auto simp: connection_director carries_def list_all_iff)
  with assms(2) have "map_of (remove_hop_headers (hq_headers (director H rq))) (canonical_key nm) =
      map_of (hq_headers (director H rq)) (canonical_key nm)"
    unfolding remove_hop_alt by (intro map_of_filter_key) simp
  then have "header_get (remove_hop_headers (hq_headers (director H rq))) nm = hq_get (director H rq) nm"
    by (simp add: header_get_def header_values_def hq_get_def)
  with assms(3) show ?thesis
    by (simp add: hq_get_def outgoing_def Let_def add_forwarded_for_def header_get_set split: option.split)
qed

lemma get_rewritten:
  assumes "carries H rq"
  shows "hq_get (arriving (outgoing H rq)) ''X-MicroS3-Original-Method'' = hq_method rq"
    "hq_get (arriving (outgoing H rq)) ''X-MicroS3-Original-Path'' = hq_path rq"
    "hq_get (arriving (outgoing H rq)) ''X-MicroS3-Original-RawQuery'' = hq_raw_query rq"
    "hq_get (arriving (outgoing H rq)) ''X-MicroS3-Token'' = sh_cluster_token H"
  using assms
  by (simp_all add: get_arriving get_outgoing [OF assms] proxy_keys_def hop_headers_def)
    (simp_all add: hq_get_def director_def Let_def header_get_set carries_def)

text \<open>The endpoint hands the request on as it was, but for headers no handler looks at.\<close>

lemma handle_carried:
  assumes "carries H rq" "sh_cluster_token H = sr_token (w_self w)"
  shows "handle_s3_proxy s3 (arriving (outgoing H rq)) w = s3 (rewritten H rq) w"
proof -
  have "hq_method (arriving (outgoing H rq)) = ''POST''"
    by (simp add: arriving_def outgoing_def director_def Let_def)
  moreover have "hq_method rq \<noteq> []" "hq_path rq \<noteq> []" using assms(1) by (simp_all add: carries_def)
  ultimately show ?thesis
    using assms(2) by (simp add: handle_s3_proxy_def get_rewritten [OF assms(1)] rewritten_def Let_def)
qed

lemma leader_bare:
  assumes "mgr_is_leader (w_now w) (sr_mgr (w_self w))" "bare r1 = bare r2" "sh_auth H = None \<or> signed_apart r1 \<and> signed_apart r2"
    and "hq_get r2 ''X-Amz-Request-Id'' \<noteq> []"
  shows "serve_http (Suc n) hs H r1 w = serve_http (Suc n) hs H r2 w"
proof -
  have i: "hq_get r1 ''X-Amz-Request-Id'' = hq_get r2 ''X-Amz-Request-Id''"
    using bare_gets(1) [of r1] bare_gets(1) [of r2] assms(2) by simp
  then have id: "with_request_id (w_now w) r1 = r1" "with_request_id (w_now w) r2 = r2"
    using assms(4) by (simp_all add: with_request_id_def)
  have p: "hq_path r1 = hq_path r2" using bare_fields(2) [of r1] bare_fields(2) [of r2] assms(2) by simp
  have "serve_here H r1 w = serve_here H r2 w"
    using serve_here_bare [of H r1 w] serve_here_bare [of H r2 w] assms(2,3) by auto
  then show ?thesis
    using assms(1) by (simp add: serve_http.simps id p should_proxy_def)
qed

section \<open>The proxy is transparent\<close>

lemma enter_node_facts:
  assumes "peer w a = Some l"
  shows "w_self (enter_node me a w) = l" "w_now (enter_node me a w) = w_now w"
  using assms by (simp_all add: enter_node_def peer_def w_now_def)

lemma signed_bare: "bare r1 = bare r2 \<Longrightarrow> signed_apart r1 = signed_apart r2"
  using bare_gets(6) [of r1] bare_gets(6) [of r2] by (simp add: signed_apart_def signed_names_def)

text \<open>What becomes of an answer on its way back: whole when it declares the length it has or none, and cut off
  before its first byte when, as to a HEAD of an object that is not empty, it declares one and has no body.\<close>

lemma pass_on_whole:
  "body_length rs = None \<or> (\<exists>l. body_length rs = Some l \<and> declared_length rs \<in> {None, Some (int l)}) \<Longrightarrow>
   pass_on None rs = Answered rs"
  by (auto simp: pass_on_def Let_def)

lemma object_declared: "0 \<le> om_content_length m \<Longrightarrow> int64_ok (om_content_length m) \<Longrightarrow>
  declared_length (object_response m p) = Some (om_content_length m)"
  by (simp add: declared_length_def object_response_def object_headers_def atoi_itoa)

lemma get_passed_on:
  "om_content_length m = int (length (st_bytes st)) \<Longrightarrow> int64_ok (om_content_length m) \<Longrightarrow>
   pass_on None (object_response m (ObjectBody st)) = Answered (object_response m (ObjectBody st))"
  using object_declared [of m "ObjectBody st"] by (intro pass_on_whole) (simp add: body_length_def object_response_def)

lemma head_cut_off:
  "0 < om_content_length m \<Longrightarrow> int64_ok (om_content_length m) \<Longrightarrow>
   pass_on None (object_response m EmptyBody) = Aborted False"
  using object_declared [of m EmptyBody]
  by (simp add: pass_on_def body_length_def Let_def object_response_def proxy_buffer_def)

text \<open>
  C13. A request that a follower hands to the leader does to the cluster what it would have done at the
  leader, and the follower's client gets what the leader's handler answers, but for two ends: a leader
  that goes down shows as 502, and an answer that declares a length and comes without the body, which is
  the answer to the HEAD of a non-empty object, is cut off, because the request on the wire is a POST.
  This holds when the message is delivered both ways whole, the tokens agree, the node asked is the leader,
  no signed header is one the proxy touches, and HTTP carries the request as it is: every header value is
  one it accepts, none, nor the path, the method, the raw query or the token, has blanks at an end, and the
  \<open>Connection\<close> header names no header of the request outside one hop.
\<close>

theorem proxy_transparent:
  assumes "should_proxy (w_now w) (hq_method rq) (sh_local_reads H) (w_self w)"
    and "hq_path rq \<notin> {''/health'', ''/liveness'', ''/metrics''}"
    and "mgr_leader_address (sr_mgr (w_self w)) = a" "a \<noteq> []" "sh_url_ok H a" "peer w a = Some l"
    and "w_net w (w_tick w) = Delivered" "sh_cluster_token H = sr_token l"
    and "mgr_is_leader (w_now (tick w)) (sr_mgr l)"
    and "carries H (with_request_id (w_now w) rq)" "sh_auth (hs a) = None \<or> signed_apart (with_request_id (w_now w) rq)"
  shows "serve_http (Suc (Suc n)) hs H rq w =
    map_prod (relay (pass_on None)) id
      (visit (sh_address H) a (serve_http (Suc n) hs (hs a) (with_request_id (w_now w) rq)) (tick w))"
proof -
  let ?rq = "with_request_id (w_now w) rq" and ?w = "enter_node (sh_address H) a (tick w)"
  have l: "w_self ?w = l" "w_now ?w = w_now (tick w)"
    using enter_node_facts [of "tick w" a l] assms(6) by (simp_all add: peer_def)
  have id: "hq_get ?rq ''X-Amz-Request-Id'' \<noteq> []"
    by (simp add: with_request_id_def hq_get_def header_get_set)
  have r: "bare (rewritten H ?rq) = bare ?rq" by (rule bare_rewritten [OF assms(10)])
  have "serve_http (Suc n) hs (hs a) (rewritten H ?rq) ?w = serve_http (Suc n) hs (hs a) ?rq ?w"
    by (rule leader_bare [OF _ r _ id]) (use assms(9,11) l signed_bare [OF r] in simp_all)
  then have "handle_s3_proxy (serve_http (Suc n) hs (hs a)) (arriving (outgoing H ?rq)) ?w =
      serve_http (Suc n) hs (hs a) ?rq ?w"
    using handle_carried [OF assms(10), of ?w] assms(8) l by simp
  then have v: "visit (sh_address H) a (handle_s3_proxy (serve_http (Suc n) hs (hs a)) (arriving (outgoing H ?rq))) (tick w) =
      visit (sh_address H) a (serve_http (Suc n) hs (hs a) ?rq) (tick w)"
    by (simp add: visit_def)
  have "values_ok (hq_headers (outgoing H ?rq))" using assms(10) by (simp add: carries_def)
  with v assms(1-7) show ?thesis
    by (subst serve_http.simps) (simp add: Let_def with_request_id_fields proxy_to_leader_def peer_def)
qed

text \<open>A follower of the demonstration's leader, and a GET it is sent.\<close>

definition follower_handler :: s3_handler where
  "follower_handler = demo_handler\<lparr>sh_address := ''http://n1''\<rparr>"

definition follower_world :: world where
  "follower_world = lone_world\<lparr>
     w_self := demo_server (Static (demo_static\<lparr>sm_local_id := ''n1'', sm_static_nodes := [(''n0'', ''http://n0'')]\<rparr>)),
     w_peers := [(''http://n0'', w_self lone_world)]\<rparr>"

abbreviation proxied_get :: s3_request where
  "proxied_get \<equiv> demo_request ''GET'' ''/b/a/k''"

lemma follower_facts:
  "should_proxy (w_now follower_world) (hq_method proxied_get) (sh_local_reads follower_handler) (w_self follower_world) \<and>
   mgr_leader_address (sr_mgr (w_self follower_world)) = ''http://n0'' \<and>
   w_net follower_world (w_tick follower_world) = Delivered \<and>
   sh_cluster_token follower_handler = sr_token (w_self lone_world)"
  by code_simp

lemma follower_carries: "carries follower_handler (with_request_id (w_now follower_world) proxied_get)"
  by code_simp

theorem proxy_transparent_witness:
  "serve_http 2 (\<lambda>_. demo_handler) follower_handler proxied_get follower_world =
    map_prod (relay (pass_on None)) id
      (visit ''http://n1'' ''http://n0''
        (serve_http 1 (\<lambda>_. demo_handler) demo_handler (with_request_id (w_now follower_world) proxied_get)) (tick follower_world))"
proof -
  have "peer follower_world ''http://n0'' = Some (w_self lone_world)" "hq_path proxied_get = ''/b/a/k''"
    by (simp_all add: peer_def follower_world_def demo_request_def)
  then show ?thesis
    using proxy_transparent [of follower_world proxied_get follower_handler "''http://n0''" "w_self lone_world" "\<lambda>_. demo_handler" 0]
      follower_facts follower_carries lone_leader
    by (simp add: follower_handler_def demo_handler_def numeral_2_eq_2)
qed

text \<open>A blank at the end of a path is lost on the way: the leader serves another key.\<close>

theorem proxied_path_trimmed:
  "hq_get (arriving (outgoing follower_handler (demo_request ''PUT'' ''/b/a ''))) ''X-MicroS3-Original-Path'' = ''/b/a''"
  by code_simp

end
