(* ===== verification/Config.thy ===== *)
theory Config
  imports Auth
begin

text \<open>
  The configuration (\<open>internal/config/config.go\<close>): its defaults, the file, the environment on top of it,
  the durations and the validation.  The YAML decoder, the environment, the file to open and the host
  name are arguments.
\<close>

section \<open>The configuration\<close>

record storage_config =
  sg_type :: string
  sg_root :: string
  sg_dsn :: string

record k8s_config =
  kc_lease_name :: string
  kc_lease_duration :: int
  kc_renew_deadline :: int
  kc_retry_period :: int
  kc_lease_duration_str :: string
  kc_renew_deadline_str :: string
  kc_retry_period_str :: string
  kc_label_selector :: string
  kc_internal_port :: int

record static_config =
  st_nodes :: "(string \<times> string) list"   \<comment> \<open>\<open>StaticNode\<close>: id and internal address\<close>
  st_force_leader :: string

record cluster_config =
  cc_mode :: string
  cc_token :: string
  cc_k8s :: k8s_config
  cc_static :: static_config

record s3_config =
  s3_credentials :: "credentials list"
  s3_region :: string

record tls_params =
  tp_enabled :: bool
  tp_cert_file :: string
  tp_key_file :: string

record multipart_config =
  mc_max_part_size :: string
  mc_upload_expiry :: int
  mc_cleanup_interval :: int
  mc_upload_expiry_str :: string
  mc_cleanup_interval_str :: string

record sync_config =
  sy_block_writes :: bool
  sy_write_block_behavior :: string
  sy_allow_local_reads :: bool

record ec_config =
  ec_enabled :: bool
  ec_cfg_k :: int
  ec_cfg_m :: int
  ec_min_object_size :: int
  ec_min_age :: int
  ec_min_age_str :: string
  ec_convert_interval :: int
  ec_convert_interval_str :: string
  ec_restore_interval :: int
  ec_restore_interval_str :: string

record health_config =
  hc_interval :: int
  hc_timeout :: int
  hc_max_failures :: int
  hc_interval_str :: string
  hc_timeout_str :: string

record config =
  cf_node_id :: string
  cf_s3_listen :: string
  cf_internal_listen :: string
  cf_storage :: storage_config
  cf_cluster :: cluster_config
  cf_s3 :: s3_config
  cf_tls_s3 :: tls_params
  cf_tls_internal :: tls_params
  cf_multipart :: multipart_config
  cf_sync :: sync_config
  cf_health :: health_config
  cf_log_level :: string
  cf_log_format :: string
  cf_ec :: ec_config

definition default_config :: config where
  "default_config =
     \<lparr>cf_node_id = [], cf_s3_listen = '':9000'', cf_internal_listen = '':9001'',
      cf_storage = \<lparr>sg_type = ''fs'', sg_root = ''/data/micros3'', sg_dsn = []\<rparr>,
      cf_cluster = \<lparr>cc_mode = ''single'', cc_token = [],
        cc_k8s = \<lparr>kc_lease_name = ''micros3-leader'', kc_lease_duration = 0, kc_renew_deadline = 0,
          kc_retry_period = 0, kc_lease_duration_str = ''15s'', kc_renew_deadline_str = ''10s'',
          kc_retry_period_str = ''2s'', kc_label_selector = ''app=micros3'', kc_internal_port = 9001\<rparr>,
        cc_static = \<lparr>st_nodes = [], st_force_leader = []\<rparr>\<rparr>,
      cf_s3 = \<lparr>s3_credentials = [\<lparr>cr_access_key = ''micros3'', cr_secret_key = ''micros3secret''\<rparr>],
        s3_region = ''us-east-1''\<rparr>,
      cf_tls_s3 = \<lparr>tp_enabled = False, tp_cert_file = [], tp_key_file = []\<rparr>,
      cf_tls_internal = \<lparr>tp_enabled = False, tp_cert_file = [], tp_key_file = []\<rparr>,
      cf_multipart = \<lparr>mc_max_part_size = ''5GB'', mc_upload_expiry = 0, mc_cleanup_interval = 0,
        mc_upload_expiry_str = ''24h'', mc_cleanup_interval_str = ''1h''\<rparr>,
      cf_sync = \<lparr>sy_block_writes = True, sy_write_block_behavior = ''reject'', sy_allow_local_reads = False\<rparr>,
      cf_health = \<lparr>hc_interval = 0, hc_timeout = 0, hc_max_failures = 3, hc_interval_str = ''5s'',
        hc_timeout_str = ''3s''\<rparr>,
      cf_log_level = ''info'', cf_log_format = ''json'',
      cf_ec = \<lparr>ec_enabled = False, ec_cfg_k = 3, ec_cfg_m = 2, ec_min_object_size = 2 ^ 20, ec_min_age = 0,
        ec_min_age_str = ''10m'', ec_convert_interval = 0, ec_convert_interval_str = ''5m'',
        ec_restore_interval = 0, ec_restore_interval_str = ''5m''\<rparr>\<rparr>"

section \<open>OverrideWithEnv\<close>

type_synonym getenv = "string \<Rightarrow> string"   \<comment> \<open>empty for a variable that is not set\<close>

definition env_true :: "string \<Rightarrow> bool" where
  "env_true v \<longleftrightarrow> to_lower v = ''true''"

text \<open>A number that does not parse changes nothing.\<close>

definition env_int :: "(int \<Rightarrow> config \<Rightarrow> config) \<Rightarrow> string \<Rightarrow> config \<Rightarrow> config" where
  "env_int upd v c = (case atoi v of None \<Rightarrow> c | Some n \<Rightarrow> upd n c)"

definition set_first_credential :: "(credentials \<Rightarrow> credentials) \<Rightarrow> config \<Rightarrow> config" where
  "set_first_credential f c =
     (let cs = s3_credentials (cf_s3 c);
          cs = (if cs = [] then cs @ [\<lparr>cr_access_key = [], cr_secret_key = []\<rparr>] else cs)
      in cf_s3_update (s3_credentials_update (\<lambda>_. cs[0 := f (cs ! 0)])) c)"

definition env_overrides :: "(string \<times> (string \<Rightarrow> config \<Rightarrow> config)) list" where
  "env_overrides =
     [(''MICROS3_NODE_ID'', \<lambda>v. cf_node_id_update (\<lambda>_. v)),
      (''MICROS3_SERVER_S3_LISTEN'', \<lambda>v. cf_s3_listen_update (\<lambda>_. v)),
      (''MICROS3_SERVER_INTERNAL_LISTEN'', \<lambda>v. cf_internal_listen_update (\<lambda>_. v)),
      (''MICROS3_STORAGE_TYPE'', \<lambda>v. cf_storage_update (sg_type_update (\<lambda>_. v))),
      (''MICROS3_STORAGE_ROOT'', \<lambda>v. cf_storage_update (sg_root_update (\<lambda>_. v))),
      (''MICROS3_STORAGE_DSN'', \<lambda>v. cf_storage_update (sg_dsn_update (\<lambda>_. v))),
      (''MICROS3_CLUSTER_MODE'', \<lambda>v. cf_cluster_update (cc_mode_update (\<lambda>_. v))),
      (''MICROS3_CLUSTER_TOKEN'', \<lambda>v. cf_cluster_update (cc_token_update (\<lambda>_. v))),
      (''MICROS3_CLUSTER_K8S_LEASE_NAME'', \<lambda>v. cf_cluster_update (cc_k8s_update (kc_lease_name_update (\<lambda>_. v)))),
      (''MICROS3_CLUSTER_K8S_LEASE_DURATION'',
         \<lambda>v. cf_cluster_update (cc_k8s_update (kc_lease_duration_str_update (\<lambda>_. v)))),
      (''MICROS3_CLUSTER_K8S_RENEW_DEADLINE'',
         \<lambda>v. cf_cluster_update (cc_k8s_update (kc_renew_deadline_str_update (\<lambda>_. v)))),
      (''MICROS3_CLUSTER_K8S_RETRY_PERIOD'',
         \<lambda>v. cf_cluster_update (cc_k8s_update (kc_retry_period_str_update (\<lambda>_. v)))),
      (''MICROS3_CLUSTER_K8S_LABEL_SELECTOR'',
         \<lambda>v. cf_cluster_update (cc_k8s_update (kc_label_selector_update (\<lambda>_. v)))),
      (''MICROS3_CLUSTER_K8S_INTERNAL_PORT'',
         env_int (\<lambda>n. cf_cluster_update (cc_k8s_update (kc_internal_port_update (\<lambda>_. n))))),
      (''MICROS3_CLUSTER_STATIC_FORCE_LEADER'',
         \<lambda>v. cf_cluster_update (cc_static_update (st_force_leader_update (\<lambda>_. v)))),
      (''MICROS3_S3_REGION'', \<lambda>v. cf_s3_update (s3_region_update (\<lambda>_. v))),
      (''MICROS3_LOG_LEVEL'', \<lambda>v. cf_log_level_update (\<lambda>_. v)),
      (''MICROS3_LOG_FORMAT'', \<lambda>v. cf_log_format_update (\<lambda>_. v)),
      (''MICROS3_TLS_S3_ENABLED'', \<lambda>v. cf_tls_s3_update (tp_enabled_update (\<lambda>_. env_true v))),
      (''MICROS3_TLS_S3_CERT_FILE'', \<lambda>v. cf_tls_s3_update (tp_cert_file_update (\<lambda>_. v))),
      (''MICROS3_TLS_S3_KEY_FILE'', \<lambda>v. cf_tls_s3_update (tp_key_file_update (\<lambda>_. v))),
      (''MICROS3_TLS_INTERNAL_ENABLED'', \<lambda>v. cf_tls_internal_update (tp_enabled_update (\<lambda>_. env_true v))),
      (''MICROS3_TLS_INTERNAL_CERT_FILE'', \<lambda>v. cf_tls_internal_update (tp_cert_file_update (\<lambda>_. v))),
      (''MICROS3_TLS_INTERNAL_KEY_FILE'', \<lambda>v. cf_tls_internal_update (tp_key_file_update (\<lambda>_. v))),
      (''MICROS3_S3_CREDENTIALS_0_ACCESS_KEY'', \<lambda>v. set_first_credential (cr_access_key_update (\<lambda>_. v))),
      (''MICROS3_S3_CREDENTIALS_0_SECRET_KEY'', \<lambda>v. set_first_credential (cr_secret_key_update (\<lambda>_. v))),
      (''MICROS3_EC_ENABLED'', \<lambda>v. cf_ec_update (ec_enabled_update (\<lambda>_. env_true v))),
      (''MICROS3_EC_K'', env_int (\<lambda>n. cf_ec_update (ec_cfg_k_update (\<lambda>_. n)))),
      (''MICROS3_EC_M'', env_int (\<lambda>n. cf_ec_update (ec_cfg_m_update (\<lambda>_. n)))),
      (''MICROS3_EC_MIN_OBJECT_SIZE'', env_int (\<lambda>n. cf_ec_update (ec_min_object_size_update (\<lambda>_. n)))),
      (''MICROS3_EC_MIN_AGE'', \<lambda>v. cf_ec_update (ec_min_age_str_update (\<lambda>_. v))),
      (''MICROS3_EC_CONVERT_INTERVAL'', \<lambda>v. cf_ec_update (ec_convert_interval_str_update (\<lambda>_. v))),
      (''MICROS3_EC_RESTORE_INTERVAL'', \<lambda>v. cf_ec_update (ec_restore_interval_str_update (\<lambda>_. v)))]"

definition override_one :: "getenv \<Rightarrow> string \<times> (string \<Rightarrow> config \<Rightarrow> config) \<Rightarrow> config \<Rightarrow> config" where
  "override_one env e c = (case e of (nm, upd) \<Rightarrow> if env nm \<noteq> [] then upd (env nm) c else c)"

definition override_with_env :: "getenv \<Rightarrow> config \<Rightarrow> config" where
  "override_with_env env c = fold (override_one env) env_overrides c"

section \<open>parseDurations\<close>

text \<open>The text of the error of \<open>time.ParseDuration\<close> is not modelled further.\<close>

definition duration_field ::
    "string \<Rightarrow> (config \<Rightarrow> string) \<Rightarrow> (int \<Rightarrow> config \<Rightarrow> config) \<Rightarrow> config \<Rightarrow> gerror + config" where
  "duration_field nm get upd c =
     (case parse_duration (get c) of
        None \<Rightarrow> Inl (Wrapped (''invalid '' @ nm) (ErrMsg (''time: invalid duration '' @ get c)))
      | Some d \<Rightarrow> Inr (upd d c))"

definition duration_fields :: "(config \<Rightarrow> gerror + config) list" where
  "duration_fields =
     [duration_field ''cluster.k8s.lease_duration'' (\<lambda>c. kc_lease_duration_str (cc_k8s (cf_cluster c)))
        (\<lambda>d. cf_cluster_update (cc_k8s_update (kc_lease_duration_update (\<lambda>_. d)))),
      duration_field ''cluster.k8s.renew_deadline'' (\<lambda>c. kc_renew_deadline_str (cc_k8s (cf_cluster c)))
        (\<lambda>d. cf_cluster_update (cc_k8s_update (kc_renew_deadline_update (\<lambda>_. d)))),
      duration_field ''cluster.k8s.retry_period'' (\<lambda>c. kc_retry_period_str (cc_k8s (cf_cluster c)))
        (\<lambda>d. cf_cluster_update (cc_k8s_update (kc_retry_period_update (\<lambda>_. d)))),
      duration_field ''multipart.upload_expiry'' (\<lambda>c. mc_upload_expiry_str (cf_multipart c))
        (\<lambda>d. cf_multipart_update (mc_upload_expiry_update (\<lambda>_. d))),
      duration_field ''multipart.cleanup_interval'' (\<lambda>c. mc_cleanup_interval_str (cf_multipart c))
        (\<lambda>d. cf_multipart_update (mc_cleanup_interval_update (\<lambda>_. d))),
      duration_field ''health.interval'' (\<lambda>c. hc_interval_str (cf_health c))
        (\<lambda>d. cf_health_update (hc_interval_update (\<lambda>_. d))),
      duration_field ''health.timeout'' (\<lambda>c. hc_timeout_str (cf_health c))
        (\<lambda>d. cf_health_update (hc_timeout_update (\<lambda>_. d))),
      duration_field ''ec.min_age'' (\<lambda>c. ec_min_age_str (cf_ec c))
        (\<lambda>d. cf_ec_update (ec_min_age_update (\<lambda>_. d))),
      duration_field ''ec.convert_interval'' (\<lambda>c. ec_convert_interval_str (cf_ec c))
        (\<lambda>d. cf_ec_update (ec_convert_interval_update (\<lambda>_. d))),
      duration_field ''ec.restore_interval'' (\<lambda>c. ec_restore_interval_str (cf_ec c))
        (\<lambda>d. cf_ec_update (ec_restore_interval_update (\<lambda>_. d)))]"

fun run_fields :: "(config \<Rightarrow> gerror + config) list \<Rightarrow> config \<Rightarrow> gerror + config" where
  "run_fields [] c = Inr c"
| "run_fields (f # fs) c = (case f c of Inl e \<Rightarrow> Inl e | Inr c' \<Rightarrow> run_fields fs c')"

definition parse_durations :: "config \<Rightarrow> gerror + config" where
  "parse_durations c = run_fields duration_fields c"

section \<open>Validate\<close>

text \<open>The node id of a cluster node falls back to the host name; the comparison with the mode is
  exact, where the other tests of the mode ignore the case.\<close>

definition default_node_id :: "(gerror + string) \<Rightarrow> config \<Rightarrow> gerror + config" where
  "default_node_id host c =
     (if cf_node_id c = [] \<and> cc_mode (cf_cluster c) \<noteq> ''single'' then
        (case host of
           Inl e \<Rightarrow> Inl (ErrMsg ''node.id is required when cluster mode is not single'')
         | Inr h \<Rightarrow> Inr (c\<lparr>cf_node_id := h\<rparr>))
      else Inr c)"

definition check_mode :: "config \<Rightarrow> gerror + config" where
  "check_mode c =
     (let mode = to_lower (cc_mode (cf_cluster c)) in
      if mode \<noteq> ''k8s'' \<and> mode \<noteq> ''static'' \<and> mode \<noteq> ''single'' then
        Inl (ErrMsg (''invalid cluster.mode: '' @ cc_mode (cf_cluster c) @ '', must be one of [k8s, static, single]''))
      else Inr c)"

definition in_quotes :: "string \<Rightarrow> string" where
  "in_quotes s = [CHR 0x27] @ s @ [CHR 0x27]"

definition check_storage :: "config \<Rightarrow> gerror + config" where
  "check_storage c =
     (let c = (if to_lower (sg_type (cf_storage c)) = [] then cf_storage_update (sg_type_update (\<lambda>_. ''fs'')) c else c)
      in if to_lower (sg_type (cf_storage c)) = ''fs'' then
           (if sg_root (cf_storage c) = []
            then Inl (ErrMsg (''storage.root directory is required when storage.type is '' @ in_quotes ''fs'')) else Inr c)
         else if sg_dsn (cf_storage c) = []
           then Inl (ErrMsg (''storage.dsn is required when storage.type is '' @ in_quotes (sg_type (cf_storage c))))
         else Inr c)"

definition check_behavior :: "config \<Rightarrow> gerror + config" where
  "check_behavior c =
     (let b = to_lower (sy_write_block_behavior (cf_sync c)); b = (if b = [] then ''reject'' else b) in
      if b \<noteq> ''reject'' \<and> b \<noteq> ''wait'' then
        Inl (ErrMsg (''invalid sync.write_block_behavior: '' @ b @ '', must be '' @ in_quotes ''reject'' @ '' or '' @ in_quotes ''wait''))
      else Inr (cf_sync_update (sy_write_block_behavior_update (\<lambda>_. b)) c))"

text \<open>\<open>K+M\<close> is added on 64 bits.\<close>

definition check_ec :: "config \<Rightarrow> gerror + config" where
  "check_ec c =
     (let ec = cf_ec c in
      if \<not> ec_enabled ec then Inr c
      else if ec_cfg_k ec < 1 then Inl (ErrMsg ''invalid ec.k: must be >= 1'')
      else if ec_cfg_m ec < 1 then Inl (ErrMsg ''invalid ec.m: must be >= 1'')
      else if 256 < wrap64 (ec_cfg_k ec + ec_cfg_m ec) then Inl (ErrMsg ''invalid ec.k+ec.m: must be <= 256'')
      else if ec_min_object_size ec < 0 then Inl (ErrMsg ''invalid ec.min_object_size: must be >= 0'')
      else Inr c)"

definition validate :: "(gerror + string) \<Rightarrow> config \<Rightarrow> gerror + config" where
  "validate host c = run_fields [default_node_id host, check_mode, check_storage, check_behavior, check_ec] c"

section \<open>Load\<close>

text \<open>The decoder changes the fields the document names, and may have changed some before an error; the
  end of the file is no error.\<close>

datatype yaml_result = Decoded config | AtEOF config | YamlError gerror

definition read_config_file :: "(gerror + string) \<Rightarrow> (string \<Rightarrow> config \<Rightarrow> yaml_result) \<Rightarrow> config \<Rightarrow> gerror + config" where
  "read_config_file opened yaml c =
     (case opened of
        Inl e \<Rightarrow> if is_not_exist e then Inr c else Inl (Wrapped ''failed to open config file'' e)
      | Inr text \<Rightarrow>
          (case yaml text c of
             Decoded c' \<Rightarrow> Inr c' | AtEOF c' \<Rightarrow> Inr c'
           | YamlError e \<Rightarrow> Inl (Wrapped ''failed to parse yaml config'' e)))"

definition load ::
    "(string \<Rightarrow> gerror + string) \<Rightarrow> (string \<Rightarrow> config \<Rightarrow> yaml_result) \<Rightarrow> getenv \<Rightarrow> (gerror + string) \<Rightarrow> string \<Rightarrow>
     gerror + config" where
  "load open_file yaml env host config_path =
     (case (if config_path = [] then Inr default_config else read_config_file (open_file config_path) yaml default_config) of
        Inl e \<Rightarrow> Inl e
      | Inr c \<Rightarrow> run_fields [parse_durations, validate host] (override_with_env env c))"

end
