(* ===== verification/FollowerSync.thy ===== *)
theory FollowerSync
  imports SyncProps S3Router
begin

text \<open>
  The follower's side of a synchronisation: the requests \<open>SyncStart\<close> and \<open>SyncRequest\<close> of
  \<open>internal/internal_api/client.go\<close>, the worker of \<open>internal/replication/sync.go\<close>, and what one pass of its
  loop leaves at both nodes.  The leader runs the request as its own operation on the cluster, so the
  world is seen from the leader meanwhile (\<open>visit\<close>).
\<close>

section \<open>The endpoints that wait\<close>

type_synonym waiting_handler = "request \<Rightarrow> world \<Rightarrow> response option \<times> world"

definition on_node :: "(request \<Rightarrow> server \<Rightarrow> response option \<times> server) \<Rightarrow> waiting_handler" where
  "on_node h rq w = (case h rq (w_self w) of (rs, sr) \<Rightarrow> (rs, tick (upd_self (\<lambda>_. sr) w)))"

text \<open>The internal API with the two requests a node answers only when its active writes are over.\<close>

definition serve_all ::
    "(string \<Rightarrow> unit world_io) option \<Rightarrow> (string \<times> string) list option \<Rightarrow> waiting_handler" where
  "serve_all coord endpoints rq w =
     (if hget rq ''X-MicroS3-Token'' \<noteq> sr_token (w_self w)
      then (Some (reply 401 (ErrText ''Unauthorized: Token mismatch'')), w)
      else if rq_path rq = ''/internal/sync-request'' then handle_sync_request_call coord endpoints rq w
      else if rq_path rq = ''/internal/sync-start'' then on_node (handle_sync_start (w_now w)) rq w
      else on_node (\<lambda>rq sr. map_prod Some id (mux (now_env w) rq sr)) rq w)"

text \<open>A round trip to the node at \<open>addr\<close>; the caller is reached at \<open>me\<close>.\<close>

definition call_node :: "string \<Rightarrow> waiting_handler \<Rightarrow> string \<Rightarrow> request \<Rightarrow> world \<Rightarrow> (gerror + response) option \<times> world" where
  "call_node me srv addr rq w =
     (let reset = (\<lambda>_. Some (Inl (ErrMsg ''connection reset''))) in
      if \<not> headers_ok rq then (Some (Inl (ErrMsg ''net/http: invalid header field value'')), tick w)
      else case map_of (w_peers w) addr of
        None \<Rightarrow> (Some (Inl (ErrMsg ''connection refused'')), tick w)
      | Some _ \<Rightarrow>
          (case w_net w (w_tick w) of
             Delivered \<Rightarrow> map_prod (map_option Inr) id (visit me addr (srv (wire rq)) (tick w))
           | Lost \<Rightarrow> (Some (Inl (ErrMsg ''connection refused'')), tick w)
           | ReplyLost \<Rightarrow> map_prod reset id (visit me addr (srv (wire rq)) (tick w))
           | Cut n \<Rightarrow>
               map_prod reset id (visit me addr (srv ((wire rq)\<lparr>rq_body := cut_body n (rq_body rq)\<rparr>)) (tick w))
           | ReplyCut n \<Rightarrow>
               map_prod (map_option (\<lambda>rs. Inr (rs\<lparr>rs_payload := cut_payload n (rs_payload rs)\<rparr>))) id
                 (visit me addr (srv (wire rq)) (tick w))))"

definition want_ok :: "(response \<Rightarrow> gerror) \<Rightarrow> gerror + response \<Rightarrow> gerror + unit" where
  "want_ok err r = (case r of Inl e \<Rightarrow> Inl e | Inr rs \<Rightarrow> if rs_status rs \<noteq> 200 then Inl (err rs) else Inr ())"

section \<open>The client\<close>

type_synonym sync_call = "string \<Rightarrow> string \<Rightarrow> string \<Rightarrow> world \<Rightarrow> (gerror + unit) option \<times> world"

definition client_sync_start :: "string \<Rightarrow> waiting_handler \<Rightarrow> string \<Rightarrow> string \<Rightarrow> world \<Rightarrow> (gerror + unit) option \<times> world" where
  "client_sync_start me srv addr nid w =
     map_prod (map_option (want_ok (short_error ''sync-start''))) id
       (call_node me srv addr (request w ''POST'' ''/internal/sync-start'' [(''node_id'', nid)]) w)"

text \<open>The follower sends its own address along, under which the leader reaches it.\<close>

definition client_sync_request :: "waiting_handler \<Rightarrow> sync_call" where
  "client_sync_request srv addr nid internal_addr w =
     map_prod (map_option (want_ok (\<lambda>rs. ErrMsg (''sync-request failed with status '' @ itoa (rs_status rs) @ '': '' @
         payload_text (rs_payload rs))))) id
       (call_node internal_addr srv addr
         (request w ''POST'' ''/internal/sync-request''
           ((''node_id'', nid) # (if internal_addr \<noteq> [] then [(''internal_addr'', internal_addr)] else []))) w)"

section \<open>The worker\<close>

definition self_internal_addr :: "(string \<Rightarrow> string) \<Rightarrow> int \<Rightarrow> string" where
  "self_internal_addr env port =
     (let ip = env ''POD_IP'' in if ip \<noteq> [] then ''http://'' @ ip @ '':'' @ itoa port else [])"

definition synchronize :: "sync_call \<Rightarrow> string \<Rightarrow> world \<Rightarrow> (gerror + unit) option \<times> world" where
  "synchronize ask self w =
     (let leader = mgr_leader_address (sr_mgr (w_self w)) in
      if leader = [] then (Some (Inl (ErrMsg ''leader address is not available yet'')), w)
      else if self = [] then (Some (Inl (ErrMsg ''self internal address is not configured (POD_IP env not set)'')), w)
      else case ask leader (mgr_node_id (sr_mgr (w_self w))) self w of
        (Some (Inl e), w1) \<Rightarrow> (Some (Inl (Wrapped ''leader-driven sync failed'' e)), w1)
      | (r, w1) \<Rightarrow> (r, w1))"

text \<open>One pass of \<open>runSyncLoop\<close>, and whether it ends; the pauses between passes are left out.\<close>

definition sync_pass :: "sync_call \<Rightarrow> string \<Rightarrow> world \<Rightarrow> bool \<times> world" where
  "sync_pass ask self w =
     (let m = sr_mgr (w_self w) in
      if \<not> mgr_is_leader (w_now w) m \<and> mgr_status m = StatusSyncing
      then (case synchronize ask self w of
          (None, w1) \<Rightarrow> (False, w1)
        | (Some (Inl _), w1) \<Rightarrow> (True, w1)
        | (Some (Inr _), w1) \<Rightarrow> (True, upd_mgr (mgr_set_local_status StatusReady) w1))
      else (True, w))"

section \<open>What the leader's preparation leaves\<close>

text \<open>Health checks, discovery and registration touch no storage.\<close>

definition same_store :: "server \<Rightarrow> server \<Rightarrow> bool" where
  "same_store sr sr' \<longleftrightarrow> sr_root sr' = sr_root sr \<and> sr_fs sr' = sr_fs sr"

definition same_stores :: "world \<Rightarrow> world \<Rightarrow> bool" where
  "same_stores w w' \<longleftrightarrow> w_ids w' = w_ids w \<and> same_store (w_self w) (w_self w') \<and>
     (\<forall>a. rel_option same_store (peer w a) (peer w' a))"

lemma same_store_refl [simp]: "same_store sr sr"
  by (simp add: same_store_def)

lemma same_stores_refl [simp]: "same_stores w w"
  by (simp add: same_stores_def option.rel_refl)

lemma same_stores_trans [trans]:
  assumes "same_stores w1 w2" "same_stores w2 w3"
  shows "same_stores w1 w3"
proof -
  have "rel_option same_store (peer w1 a) (peer w3 a)" for a
    using assms by (cases "peer w1 a"; cases "peer w2 a"; cases "peer w3 a")
      (auto simp: same_stores_def same_store_def dest!: spec [of _ a])
  with assms show ?thesis by (simp add: same_stores_def same_store_def)
qed

lemma same_stores_upd [simp]: "same_stores w (upd_mgr f w)" "same_stores w (upd_svc g w)" "same_stores w (tick w)"
  by (simp_all add: same_stores_def same_store_def upd_mgr_def upd_svc_def upd_self_def peer_def tick_def option.rel_refl)

lemma serve_store:
  "rq_path rq \<in> {''/internal/health'', ''/internal/set-status''} \<Longrightarrow> same_store sr (snd (serve ev rq sr))"
  by (auto simp: serve_def mux_def routes_def reply_def handle_health_def handle_set_status_def only_def bad_request_def
      same_store_def Let_def)

lemma call_stores:
  assumes "rq_path rq \<in> {''/internal/health'', ''/internal/set-status''}"
  shows "same_stores w (snd (call addr rq w))"
proof -
  obtain r w' where c: "call addr rq w = (r, w')" by fastforce
  have "focus addr w w'" "rel_option same_store (peer w addr) (peer w' addr)"
    using assms arrivals_fields(1) by (auto intro!: call_reach [OF c] serve_store)
  moreover from this(1) have "rel_option same_store (peer w a) (peer w' a)" if "a \<noteq> addr" for a
    using that by (simp add: focus_def option.rel_refl)
  ultimately show ?thesis by (auto simp: c same_stores_def focus_def) metis
qed

lemma bind_keeps:
  assumes "\<And>a v. snd (k a v) = v"
  shows "snd (bindE m k w) = snd (m w)"
  using assms by (cases "m w") (auto simp: bindE_def split: sum.split)

lemma client_stores:
  "same_stores w (snd (client_health addr w))" "same_stores w (snd (client_set_status addr st w))"
proof -
  have "snd (client_health addr w) = snd (call addr (request w ''GET'' ''/internal/health'' []) w)"
    unfolding client_health_def
    by (rule bind_keeps) (simp add: expect_ok_def failE_def retE_def bad_json_def split: payload.split)
  then show "same_stores w (snd (client_health addr w))" by (simp add: call_stores)
  have "snd (client_set_status addr st w) = snd (call addr (request w ''POST'' ''/internal/set-status'' [(''status'', st)]) w)"
    unfolding client_set_status_def by (rule bind_keeps) (simp add: expect_ok_def failE_def retE_def)
  then show "same_stores w (snd (client_set_status addr st w))" by (simp add: call_stores)
qed

lemma resyncs_stores: "same_stores w (fold (\<lambda>a v. snd (client_set_status a st v)) as w)"
  by (induction as arbitrary: w) (auto intro: same_stores_trans client_stores)

lemma check_followers_stores: "same_stores w (check_followers tasks w)"
proof (induction tasks w rule: check_followers.induct)
  case (2 nid addr tasks w)
  obtain r w1 where h: "client_health addr w = (r, w1)" by fastforce
  obtain m rs where a: "mgr_health_answer nid addr r (w_now w1) (sr_mgr (w_self w1)) = (m, rs)" by fastforce
  let ?v = "fold (\<lambda>a v. snd (client_set_status a ''SYNCING'' v)) rs (upd_mgr (\<lambda>_. m) w1)"
  have "same_stores w w1" using client_stores(1) [of w addr] by (simp add: h)
  also have "same_stores w1 (upd_mgr (\<lambda>_. m) w1)" by simp
  also have "same_stores (upd_mgr (\<lambda>_. m) w1) ?v" by (rule resyncs_stores)
  also have "same_stores ?v (check_followers tasks ?v)" by (rule "2.IH" [OF h [symmetric] a [symmetric]])
  finally show ?case by (simp add: h a)
qed simp

lemma discover_stores: "same_stores w (discover_and_check endpoints k w)"
proof (cases "km_is_leader (w_now w) k")
  case True
  let ?v = "\<lambda>found. upd_mgr (\<lambda>_. K8s (km_discover (w_now w) found k)) w"
  have "same_stores w (upd_mgr rebuild_mgr (heartbeat_round (?v found)))" for found
  proof -
    have "same_stores w (?v found)" by simp
    also have "same_stores (?v found) (heartbeat_round (?v found))"
      unfolding heartbeat_round_def by (rule check_followers_stores)
    also have "same_stores (heartbeat_round (?v found)) (upd_mgr rebuild_mgr (heartbeat_round (?v found)))" by simp
    finally show ?thesis .
  qed
  then show ?thesis by (cases endpoints) (simp_all add: discover_and_check_def)
qed (simp add: discover_and_check_def)

lemma refresh_stores: "same_stores w (refresh_followers endpoints w)"
  by (simp add: refresh_followers_def discover_stores split: cluster_manager.split)

section \<open>A pass that succeeds\<close>

text \<open>The leader's world when the synchronisation itself begins.\<close>

definition registered :: "(string \<times> string) list option \<Rightarrow> string \<Rightarrow> string \<Rightarrow> world \<Rightarrow> world" where
  "registered endpoints nid addr w =
     upd_mgr (mgr_register_follower nid addr)
       (refresh_followers endpoints (tick (upd_svc (snd \<circ> start_sync_lease (w_now w) nid) w)))"

lemma registered_stores: "same_stores w (registered endpoints nid addr w)"
  unfolding registered_def by (meson same_stores_upd refresh_stores same_stores_trans)

lemma sync_request_ok:
  assumes "handle_sync_request_call (Some sync) endpoints rq w = (Some rs, w')" "rs_status rs = 200"
  obtains w2 where "sync (qget rq ''internal_addr'') (registered endpoints (qget rq ''node_id'') (qget rq ''internal_addr'') w) = (Inr (), w2)"
    "w' = upd_svc (end_sync_lease (qget rq ''node_id'')) (upd_mgr (mgr_mark_alive (qget rq ''node_id'') (qget rq ''internal_addr'')) w2)"
    "qget rq ''internal_addr'' \<noteq> []"
proof -
  let ?n = "qget rq ''node_id''" and ?a = "qget rq ''internal_addr''"
  have "\<exists>w2. sync ?a (registered endpoints ?n ?a w) = (Inr (), w2) \<and>
      w' = upd_svc (end_sync_lease ?n) (upd_mgr (mgr_mark_alive ?n ?a) w2) \<and> ?a \<noteq> []"
    using assms
    by (auto simp: handle_sync_request_call_def handle_sync_request_def registered_def reply_def Let_def upd_svc_def upd_self_def comp_def
        split: if_splits option.splits sum.splits prod.splits bool.splits)
  then show thesis using that by blast
qed

lemma enter_self: "peer w a = Some l \<Longrightarrow> w_self (enter_node me a w) = l"
  by (simp add: enter_node_def peer_def)

lemma enter_peer: "peer w a = Some l \<Longrightarrow> peer (enter_node me a w) me = Some (w_self w)"
  by (simp add: enter_node_def peer_def update_conv')

lemma call_node_ok:
  assumes "call_node me srv addr rq w = (Some (Inr rs), w')"
  obtains rs0 w1 l where "srv (wire rq) (enter_node me addr (tick w)) = (Some rs0, w1)" "w' = enter_node addr me w1"
    "rs_status rs = rs_status rs0" "peer w addr = Some l"
proof -
  have "\<exists>rs0 w1 l. srv (wire rq) (enter_node me addr (tick w)) = (Some rs0, w1) \<and> w' = enter_node addr me w1 \<and>
      rs_status rs = rs_status rs0 \<and> peer w addr = Some l"
    using assms by (auto simp: call_node_def visit_def peer_def Let_def split: if_splits option.splits fate.splits prod.splits)
  then show thesis using that by blast
qed

lemma client_sync_request_ok:
  assumes "client_sync_request (serve_all (Some sync) endpoints) addr nid me w = (Some (Inr ()), w')"
  obtains l w2 where "peer w addr = Some l"
    "sync me (registered endpoints nid me (enter_node me addr (tick w))) = (Inr (), w2)" "me \<noteq> []"
    "w' = enter_node addr me (upd_svc (end_sync_lease nid) (upd_mgr (mgr_mark_alive nid me) w2))"
proof -
  let ?rq = "request w ''POST'' ''/internal/sync-request''
    ((''node_id'', nid) # (if me \<noteq> [] then [(''internal_addr'', me)] else []))"
  from assms obtain rs where c: "call_node me (serve_all (Some sync) endpoints) addr ?rq w = (Some (Inr rs), w')" "rs_status rs = 200"
    unfolding client_sync_request_def by (cases "call_node me (serve_all (Some sync) endpoints) addr ?rq w")
      (auto simp: want_ok_def split: if_splits sum.splits)
  obtain rs0 w1 l where s: "serve_all (Some sync) endpoints (wire ?rq) (enter_node me addr (tick w)) = (Some rs0, w1)"
    "w' = enter_node addr me w1" "rs_status rs = rs_status rs0" "peer w addr = Some l"
    by (rule call_node_ok [OF c(1)])
  have q: "qget (wire ?rq) ''node_id'' = nid" "qget (wire ?rq) ''internal_addr'' = me"
    by (simp_all add: qget_def lookup_def)
  have "handle_sync_request_call (Some sync) endpoints (wire ?rq) (enter_node me addr (tick w)) = (Some rs0, w1)"
    using s(1,3) c(2) by (auto simp: serve_all_def reply_def split: if_splits)
  then obtain w2 where "sync me (registered endpoints nid me (enter_node me addr (tick w))) = (Inr (), w2)"
    "w1 = upd_svc (end_sync_lease nid) (upd_mgr (mgr_mark_alive nid me) w2)" "me \<noteq> []"
    using sync_request_ok [of sync endpoints "wire ?rq" "enter_node me addr (tick w)" rs0 w1] s(3) c(2) unfolding q by metis
  with s(2,4) that show thesis by blast
qed

text \<open>The leader's table keeps admitting the node while it is refreshed.\<close>

lemma admits_answer: "mgr_admits n (fst (mgr_health_answer nid addr r now m)) = mgr_admits n m"
  by (cases m) (auto simp: sm_health_answer_def km_health_answer_def sm_admits_def km_admits_def split: option.split prod.split)

lemma resyncs_self: "w_self (fold (\<lambda>a v. snd (client_set_status a st v)) as w) = w_self w"
proof (induction as arbitrary: w)
  case (Cons a as)
  have "w_self (snd (client_set_status a st w)) = w_self w"
    unfolding client_set_status_def by (subst bind_keeps) (auto simp: expect_ok_def failE_def retE_def intro: call_rest(1) [OF surjective_pairing])
  with Cons show ?case by simp
qed simp

lemma admits_check: "mgr_admits n (sr_mgr (w_self (check_followers tasks w))) = mgr_admits n (sr_mgr (w_self w))"
proof (induction tasks w rule: check_followers.induct)
  case (2 nid addr tasks w)
  obtain r w1 where h: "client_health addr w = (r, w1)" by fastforce
  obtain m rs where a: "mgr_health_answer nid addr r (w_now w1) (sr_mgr (w_self w1)) = (m, rs)" by fastforce
  have "w_self (snd (client_health addr w)) = w_self w"
    unfolding client_health_def by (subst bind_keeps)
      (auto simp: expect_ok_def failE_def retE_def bad_json_def split: payload.split intro: call_rest(1) [OF surjective_pairing])
  moreover have "mgr_admits n m = mgr_admits n (sr_mgr (w_self w1))"
    using admits_answer [of n nid addr r "w_now w1" "sr_mgr (w_self w1)"] by (simp add: a)
  moreover have "check_followers ((nid, addr) # tasks) w =
      check_followers tasks (fold (\<lambda>a v. snd (client_set_status a ''SYNCING'' v)) rs (upd_mgr (\<lambda>_. m) w1))"
    by (simp add: h a)
  ultimately show ?case
    using "2.IH" [OF h [symmetric] a [symmetric]] by (simp add: h resyncs_self)
qed simp

lemma admits_rebuild [simp]: "mgr_admits n (rebuild_mgr m) = mgr_admits n m"
  by (cases m) (simp_all add: rebuild_mgr_def rebuild_alive_followers_def km_admits_def)

lemma admits_discover [simp]: "km_admits n (km_discover now found k) = km_admits n k"
  by (simp add: km_discover_def km_admits_def Let_def)

lemma admits_refresh: "mgr_admits n (sr_mgr (w_self (refresh_followers endpoints w))) = mgr_admits n (sr_mgr (w_self w))"
  by (simp add: refresh_followers_def discover_and_check_def heartbeat_round_def admits_check
      split: cluster_manager.split option.split)

lemma comparable_store: "same_store sr sr' \<Longrightarrow> comparable N sr \<Longrightarrow> comparable N sr'"
  by (simp add: same_store_def comparable_def tidy_node_def object_names_def obj_of_def sr_obj_def)

lemma digest_store: "same_store sr sr' \<Longrightarrow> digest_of sr' x = digest_of sr x"
  by (simp add: same_store_def digest_of_def obj_of_def sr_obj_def)

lemma stores_peer: "same_stores w w' \<Longrightarrow> peer w' a = Some sr' \<Longrightarrow> \<exists>sr. peer w a = Some sr \<and> same_store sr sr'"
  by (auto simp: same_stores_def dest!: spec [of _ a] elim!: option.rel_cases)

lemma stores_ok: "same_stores w w' \<Longrightarrow> world_ok w \<Longrightarrow> mgr_inv (sr_mgr (w_self w')) \<Longrightarrow> world_ok w'"
proof -
  assume s: "same_stores w w'" and ok: "world_ok w" and m: "mgr_inv (sr_mgr (w_self w'))"
  have "server_ok sr'" if "peer w' a = Some sr'" for a sr'
    using stores_peer [OF s that] world_okD(3) [OF ok] by (auto simp: same_store_def server_ok_def)
  with s ok m show ?thesis by (auto simp: same_stores_def same_store_def world_ok_def server_ok_def)
qed


lemma pass_marks_ready:
  assumes "synchronize ask me w = (Some (Inr ()), w')" "\<not> mgr_is_leader (w_now w) (sr_mgr (w_self w))"
    and "mgr_status (sr_mgr (w_self w)) = StatusSyncing"
  shows "sync_pass ask me w = (True, upd_mgr (mgr_set_local_status StatusReady) w')"
  using assms by (simp add: sync_pass_def)

text \<open>Node \<open>n1\<close>, empty, comes back to a leader that holds one object and took it for dead.\<close>

definition returning_world :: world where
  "returning_world = sync_world\<lparr>
     w_self := demo_server (Static (demo_static\<lparr>sm_local_id := ''n1'', sm_static_nodes := [(''n0'', ''http://n0'')],
       sm_local_status := StatusSyncing\<rparr>)),
     w_peers := [(''http://n0'', (w_self sync_world)\<lparr>sr_mgr := Static (demo_static\<lparr>sm_states := [demo_node ''n1'' StatusOffline]\<rparr>)\<rparr>)]\<rparr>"

definition returning_run :: "(gerror + unit) option \<times> world" where
  "returning_run = synchronize (client_sync_request (serve_all (Some (sync_follower id None)) None)) ''http://n1'' returning_world"

lemma returning_ok: "fst returning_run = Some (Inr ())"
  by code_simp

lemma returning_leader:
  "mgr_leader_address (sr_mgr (w_self returning_world)) = ''http://n0'' \<and> mgr_node_id (sr_mgr (w_self returning_world)) = ''n1'' \<and>
   mgr_admits ''n1'' (Static (demo_static\<lparr>sm_states := [demo_node ''n1'' StatusOffline]\<rparr>)) \<and>
   mgr_inv (sr_mgr (w_self (registered None ''n1'' ''http://n1'' (enter_node ''http://n1'' ''http://n0'' (tick returning_world))))) \<and>
   sr_mgr (w_self (enter_node ''http://n1'' ''http://n0'' (tick returning_world))) =
     Static (demo_static\<lparr>sm_states := [demo_node ''n1'' StatusOffline]\<rparr>) \<and>
   mgr_inv (Static (demo_static\<lparr>sm_states := [demo_node ''n1'' StatusOffline]\<rparr>))"
  by code_simp

lemma returning_peer:
  "peer returning_world a = Some l \<longleftrightarrow>
     a = ''http://n0'' \<and> l = (w_self sync_world)\<lparr>sr_mgr := Static (demo_static\<lparr>sm_states := [demo_node ''n1'' StatusOffline]\<rparr>)\<rparr>"
  by (auto simp: returning_world_def peer_def)

lemma returning_world_ok: "world_ok (enter_node ''http://n1'' ''http://n0'' (tick returning_world))"
proof -
  let ?v = "enter_node ''http://n1'' ''http://n0'' (tick returning_world)"
  have l: "peer (tick returning_world) ''http://n0'' = Some ((w_self sync_world)\<lparr>sr_mgr := Static (demo_static\<lparr>sm_states := [demo_node ''n1'' StatusOffline]\<rparr>)\<rparr>)"
    by (simp add: returning_peer)
  have "same_store (w_self sync_world) (w_self ?v)" by (simp add: enter_self [OF l] same_store_def)
  moreover have "w_peers ?v = [(''http://n1'', w_self returning_world)]" "w_ids ?v = w_ids sync_world"
    by (simp_all add: enter_node_def returning_world_def tick_def)
  moreover have "same_store (demo_server m) (w_self returning_world)" for m
    by (simp add: same_store_def returning_world_def demo_server_def)
  moreover have "server_ok (demo_server m)" for m
    using world_okD(2) [OF demo_world_ok [of "\<lambda>_. Delivered"]] by (simp add: demo_world_def demo_server_def server_ok_def)
  ultimately show ?thesis
    using sync_world_ok returning_leader by (auto simp: world_ok_def peer_def same_store_def server_ok_def)
qed


text \<open>
  Outside Kubernetes nobody sets \<open>POD_IP\<close>: a follower of a static cluster started as the README says
  never asks for a synchronisation, whatever the network does.
\<close>

theorem no_pod_ip_no_sync:
  assumes "env ''POD_IP'' = []"
  shows "((\<lambda>v. snd (sync_pass ask (self_internal_addr env port) v)) ^^ k) w = w"
proof -
  have "snd (sync_pass ask (self_internal_addr env port) v) = v" for v
    by (simp add: self_internal_addr_def assms sync_pass_def synchronize_def Let_def)
  then show ?thesis by (induction k) simp_all
qed

end
