(* ===== verification/Startup.thy ===== *)
theory Startup
  imports Config FollowerSync ECManager
begin

text \<open>
  The start of a node (\<open>cmd/micros3/main.go\<close> and the constructor of the Kubernetes manager): storage,
  cluster manager, service, erasure coding, authentication and handler from a configuration, and one
  round of each background worker.
\<close>

section \<open>Storage\<close>

text \<open>An absolute root directory as a path.\<close>

definition root_path :: "string \<Rightarrow> path" where
  "root_path s = clean_path (split_on (CHR ''/'') s)"

definition new_storage_repository :: "config \<Rightarrow> path repo_io" where
  "new_storage_repository c =
     (let t = to_lower (sg_type (cf_storage c)); root = root_path (sg_root (cf_storage c)) in
      if t = ''fs'' \<or> t = [] then bindE (new_filesystem_repository root) (\<lambda>_. retE root)
      else failE (ErrMsg (''unsupported storage type: '' @ sg_type (cf_storage c))))"

section \<open>Cluster manager\<close>

text \<open>The namespace of the pod, \<open>default\<close> when its file cannot be read, and the API server.\<close>

definition k8s_namespace :: "gerror + string \<Rightarrow> string" where
  "k8s_namespace ns_file = (case ns_file of Inl _ \<Rightarrow> ''default'' | Inr s \<Rightarrow> trim_space s)"

definition k8s_api_url :: "getenv \<Rightarrow> string" where
  "k8s_api_url env =
     (let host = env ''KUBERNETES_SERVICE_HOST''; port = env ''KUBERNETES_SERVICE_PORT'' in
      if host = [] \<or> port = [] then ''https://kubernetes.default.svc:443''
      else ''https://'' @ host @ '':'' @ port)"

definition k8s_service_name :: "getenv \<Rightarrow> string" where
  "k8s_service_name env = (let v = env ''MICROS3_K8S_SERVICE_NAME'' in if v = [] then ''micros3'' else v)"

definition new_k8s_manager :: "getenv \<Rightarrow> gerror + string \<Rightarrow> config \<Rightarrow> k8s_manager" where
  "new_k8s_manager env ns_file c =
     (let kc = cc_k8s (cf_cluster c) in
      \<lparr>km_local_id = cf_node_id c, km_namespace = k8s_namespace ns_file, km_service_name = k8s_service_name env,
       km_internal_port = kc_internal_port kc, km_max_failures = hc_max_failures (cf_health c),
       km_is_leader_flag = False, km_leader_address = [], km_followers = [], km_local_status = StatusReady,
       km_states = [], km_last_renewal = 0, km_lease_duration = kc_lease_duration kc, km_last_role = []\<rparr>)"

definition static_manager_of :: "int \<Rightarrow> config \<Rightarrow> static_manager" where
  "static_manager_of now c =
     new_static_manager (cf_node_id c) (st_nodes (cc_static (cf_cluster c))) (st_force_leader (cc_static (cf_cluster c)))
       (hc_max_failures (cf_health c)) now"

text \<open>A node that does not start as the leader starts as one that must synchronise.\<close>

definition start_syncing :: "int \<Rightarrow> cluster_manager \<Rightarrow> cluster_manager" where
  "start_syncing now m = (if mgr_is_leader now m then m else mgr_set_local_status StatusSyncing m)"

definition cluster_manager_of :: "getenv \<Rightarrow> gerror + string \<Rightarrow> int \<Rightarrow> config \<Rightarrow> cluster_manager" where
  "cluster_manager_of env ns_file now c =
     (let mode = to_lower (cc_mode (cf_cluster c)) in
      if mode = ''static'' then start_syncing now (Static (static_manager_of now c))
      else if mode = ''k8s'' then start_syncing now (K8s (new_k8s_manager env ns_file c))
      else Standalone (new_standalone_manager (cf_node_id c)))"

section \<open>The node\<close>

definition ec_manager_of :: "rs_lib \<Rightarrow> config \<Rightarrow> gerror + ec_manager option" where
  "ec_manager_of rs c =
     (if \<not> ec_enabled (cf_ec c) then Inr None
      else (case new_codec rs (ec_cfg_k (cf_ec c)) (ec_cfg_m (cf_ec c)) of
          Inl e \<Rightarrow> Inl e
        | Inr codec \<Rightarrow> Inr (Some \<lparr>em_rs = rs, em_codec = codec, em_min_age = ec_min_age (cf_ec c),
            em_min_size = ec_min_object_size (cf_ec c)\<rparr>)))"

text \<open>Without credentials, or with an empty first access key, nobody is asked for a signature.\<close>

definition auth_validator_of :: "config \<Rightarrow> auth_validator option" where
  "auth_validator_of c =
     (case s3_credentials (cf_s3 c) of
        [] \<Rightarrow> None
      | cr # crs \<Rightarrow> if cr_access_key cr \<noteq> [] then Some (cr # crs) else None)"

text \<open>The front end of the node, on top of what the environment of the process gives it.\<close>

definition s3_handler_of :: "config \<Rightarrow> ec_manager option \<Rightarrow> s3_handler \<Rightarrow> s3_handler" where
  "s3_handler_of c em H =
     H\<lparr>sh_auth := auth_validator_of c, sh_cluster_token := cc_token (cf_cluster c),
       sh_local_reads := sy_allow_local_reads (cf_sync c),
       sh_ec_reader := map_option (\<lambda>em. read_ec_object em id) em\<rparr>"

definition server_of :: "metrics \<Rightarrow> config \<Rightarrow> path \<Rightarrow> repo_fs \<Rightarrow> cluster_manager \<Rightarrow> server" where
  "server_of mt c root fs m =
     \<lparr>sr_root = root, sr_token = cc_token (cf_cluster c), sr_fs = fs, sr_mgr = m,
      sr_svc = set_write_block_behavior (sy_write_block_behavior (cf_sync c)) (new_service mt)\<rparr>"

text \<open>\<open>logger.Fatal\<close> ends the process.\<close>

datatype start = Fatal gerror | Running server s3_handler "ec_manager option"

definition start_node ::
    "rs_lib \<Rightarrow> getenv \<Rightarrow> gerror + string \<Rightarrow> metrics \<Rightarrow> s3_handler \<Rightarrow> int \<Rightarrow> config \<Rightarrow> repo_fs \<Rightarrow> start" where
  "start_node rs env ns_file mt H now c fs =
     (case new_storage_repository c fs of
        (Inl e, fs') \<Rightarrow> Fatal e
      | (Inr root, fs') \<Rightarrow>
          (let sr = server_of mt c root fs' (cluster_manager_of env ns_file now c) in
           case ec_manager_of rs c of
             Inl e \<Rightarrow> Fatal e
           | Inr em \<Rightarrow> Running sr (s3_handler_of c em H) em))"

section \<open>Background workers\<close>

text \<open>The address under which a follower asks for its synchronisation, in every cluster mode.\<close>

definition sync_worker_addr :: "getenv \<Rightarrow> config \<Rightarrow> string" where
  "sync_worker_addr env c = self_internal_addr env (kc_internal_port (cc_k8s (cf_cluster c)))"

text \<open>The lease duration and the period of the election loop.\<close>

definition election_lease_duration :: "config \<Rightarrow> int" where
  "election_lease_duration c =
     (let d = kc_lease_duration (cc_k8s (cf_cluster c)) in if 0 < d then d else 15 * second)"

definition election_retry_period :: "config \<Rightarrow> int" where
  "election_retry_period c =
     (let d = kc_retry_period (cc_k8s (cf_cluster c)) in if 0 < d then d else 2 * second)"


text \<open>The intervals of the tickers the process starts; \<open>time.NewTicker\<close> panics on one that is not
  positive, and the process goes down.  Only a leader runs the heartbeat of the static manager.\<close>

definition ticker_intervals :: "int \<Rightarrow> config \<Rightarrow> cluster_manager \<Rightarrow> int list" where
  "ticker_intervals now c m =
     mc_cleanup_interval (cf_multipart c) #
     (case m of Standalone _ \<Rightarrow> [] | Static _ \<Rightarrow> (if mgr_is_leader now m then [hc_interval (cf_health c)] else [])
      | K8s _ \<Rightarrow> [hc_interval (cf_health c)]) @
     (if ec_enabled (cf_ec c) then [ec_convert_interval (cf_ec c), ec_restore_interval (cf_ec c)] else [])"

definition tickers_start :: "int \<Rightarrow> config \<Rightarrow> cluster_manager \<Rightarrow> bool" where
  "tickers_start now c m \<longleftrightarrow> list_all (\<lambda>d. 0 < d) (ticker_intervals now c m)"

text \<open>One round of the janitor, of the multipart cleanup and of the gauges.\<close>

definition run_janitor :: "world \<Rightarrow> world" where
  "run_janitor w =
     snd (local (\<lambda>root ev. cleanup_orphaned_objects root ev (5 * minute))
       (snd (local (\<lambda>root ev. cleanup_expired_transactions root ev (2 * minute)) w)))"

definition run_upload_cleanup :: "config \<Rightarrow> world \<Rightarrow> world" where
  "run_upload_cleanup c w =
     snd (local (\<lambda>root ev. cleanup_expired_multipart_uploads root ev (mc_upload_expiry (cf_multipart c))) w)"

definition run_gauges :: "world \<Rightarrow> world" where
  "run_gauges w = update_cluster_metrics (update_storage_metrics w)"

end
