(* ===== verification/StartupProps.thy ===== *)
theory StartupProps
  imports Startup S3Props
begin

text \<open>
  What the configuration and the start of a node guarantee, and that the janitor never touches an
  object a client can read.
\<close>

section \<open>The janitor\<close>

lemma climb_files: "fs_file (climb_empty_dirs d b r fs) = fs_file fs"
proof (induction d b r fs rule: climb_empty_dirs.induct)
  case (1 d b r fs)
  have "fs_file (snd (os_remove d fs)) = fs_file fs" if "os_read_dir d fs = (Inr es, fs')" for es fs'
    using that by (auto simp: os_read_dir_def fs_file_def fun_eq_iff split: option.splits fnode.splits)
  with 1 show ?case
    by (subst climb_empty_dirs.simps) (auto split: prod.split sum.split list.split simp del: fs_file_remove)
qed

text \<open>A file below \<open>data/\<close> goes only when the metadata of the object it belongs to is missing.\<close>

lemma orphan_visit_files:
  assumes "good_root root"
  shows "fs_file (snd (orphan_visit root ev age rel fs)) = fs_file fs \<or>
    (\<exists>b k. fs_file (snd (orphan_visit root ev age rel fs)) = fs_file (snd (os_remove (root @ ''data'' # rel) fs)) \<and>
      split_n2 (CHR ''/'') (join_with ''/'' rel) = [b, k] \<and> fs_get fs (path_join (root @ [''meta'']) [b, k @ ''.json'']) = None)"
proof -
  have p: "path_join root [''data''] = root @ [''data'']" "path_join root [''meta''] = root @ [''meta'']"
    using assms by (simp_all add: path_join_plain good_root_plain)
  show ?thesis
  proof (cases "fs_get fs (root @ ''data'' # rel)")
    case (Some n)
    show ?thesis
    proof (cases n)
      case (File mt c)
      with Some show ?thesis
        by (auto simp: orphan_visit_def Let_def p climb_files os_stat_def split: list.split option.split)
    qed (simp add: orphan_visit_def Let_def p Some)
  qed (simp add: orphan_visit_def Let_def p)
qed

lemma orphan_visit_object:
  assumes "good_dir root b" "plain_name k"
  shows "object_at root (snd (orphan_visit root ev age rel fs)) b k = object_at root fs b k"
  using orphan_visit_files [OF good_dirD(1) [OF assms(1)], of ev age rel fs]
proof (elim disjE exE conjE)
  fix b' k'
  let ?fs = "snd (orphan_visit root ev age rel fs)" and ?p = "root @ ''data'' # rel"
  assume run: "fs_file ?fs = fs_file (snd (os_remove ?p fs))"
    and parts: "split_n2 (CHR ''/'') (join_with ''/'' rel) = [b', k']"
    and gone: "fs_get fs (path_join (root @ [''meta'']) [b', k' @ ''.json'']) = None"
  note paths = object_paths [OF assms]
  show ?thesis
  proof (cases "?p = data_path root b k")
    case True
    then have "rel = b # split_on (CHR ''/'') k" by (simp add: paths)
    moreover have "join_with ''/'' (b # split_on (CHR ''/'') k) = b @ ''/'' @ k"
      using join_split [of "CHR ''/''" k] by (cases "split_on (CHR ''/'') k") simp_all
    moreover have "split_n2 (CHR ''/'') (b @ ''/'' @ k) = [b, k]"
      using assms(1) by (auto simp: split_n2_def Let_def takeWhile_append dropWhile_append good_dir_def plain_seg_def)
    ultimately have "b' = b" "k' = k" using parts by simp_all
    moreover have "path_join (root @ [''meta'']) [b, k @ ''.json''] = meta_path root b k"
      using assms by (simp add: meta_path_def path_join_def dir_paths clean_path_def good_dir_def)
    ultimately have "fs_file fs (meta_path root b k) = None" using gone by (simp add: fs_file_def)
    moreover from this have "fs_file ?fs (meta_path root b k) = None" using True area_paths_distinct(1) [OF assms assms] run by (simp add: paths)
    ultimately have "object_at root f b k \<noteq> Some x" if "f \<in> {fs, ?fs}" for f x
      using that by (cases x) (auto simp: object_at_iff)
    then show ?thesis by (metis insertI1 insertI2 option.exhaust)
  next
    case False
    then show ?thesis
      by (intro object_at_cong) (auto simp: run paths)
  qed
qed (intro object_at_cong, simp_all)

lemma orphan_loop_object:
  assumes "good_dir root b" "plain_name k"
  shows "object_at root (snd (orphan_loop root ev age rels fs)) b k = object_at root fs b k"
proof (induction rels arbitrary: fs)
  case (Cons rel rels)
  then show ?case using orphan_visit_object [OF assms, of ev age rel fs] by (simp add: split_beta)
qed simp

lemma abort_object:
  assumes "good_dir root b" "plain_name k" "good_dir root t"
  shows "object_at root (snd (abort_transaction root t fs)) b k = object_at root fs b k"
proof (rule staging_leaves_object [OF assms])
  fix q assume "\<not> prefix (staging_dir root t) q"
  then show "fs_file (snd (abort_transaction root t fs)) q = fs_file fs q"
    by (cases "os_remove_all (staging_dir root t) fs", cases "fst (os_remove_all (staging_dir root t) fs)")
      (auto simp: abort_transaction_def dest: os_remove_all_ok(1) os_remove_all_err)
qed

lemma cleanup_loop_object:
  assumes "good_dir root b" "plain_name k" "list_all (\<lambda>e. plain_seg (fst e)) es"
  shows "object_at root (snd (cleanup_tx_loop root ev age es fs)) b k = object_at root fs b k"
  using assms(3)
proof (induction es arbitrary: fs)
  case (Cons e es)
  obtain t d where e: "e = (t, d)" by (cases e)
  with Cons.prems assms(1) have "good_dir root t" by (simp add: good_dir_def)
  note ab = abort_object [OF assms(1,2) this]
  from Cons.IH Cons.prems show ?case unfolding e by (auto simp: ab split_beta split: sum.split)
qed simp

lemma dir_names_plain:
  assumes "wf_fs fs" "os_read_dir p fs = (Inr es, fs')"
  shows "list_all (\<lambda>e. plain_seg (fst e)) es"
proof -
  have "plain_seg n" if n: "n \<in> set (dir_names fs p)" for n
  proof -
    from n obtain e where e: "e \<in> set fs" "fst e \<noteq> []" "n = last (fst e)" by (auto simp: dir_names_def)
    with assms(1) have "list_all plain_seg (fst e)" by (auto simp: wf_fs_def list_all_iff)
    then show ?thesis using e(2,3) by (simp add: list_all_iff)
  qed
  then show "list_all (\<lambda>e. plain_seg (fst e)) es"
    using assms(2) by (auto simp: os_read_dir_def list_all_iff split: option.splits fnode.splits)
qed



section \<open>The configuration\<close>

lemma run_fields_Cons: "run_fields (f # fs) c = Inr c'' \<longleftrightarrow> (\<exists>c'. f c = Inr c' \<and> run_fields fs c' = Inr c'')"
  by (auto split: sum.split)

lemma to_lower_idem [simp]: "to_lower (to_lower s) = to_lower s"
proof -
  have "to_lower_char (to_lower_char c) = to_lower_char c" for c
    by (simp add: to_lower_char_def Let_def)
  then show ?thesis by (simp add: to_lower_def comp_def)
qed

lemma to_lower_consts [simp]: "to_lower ''fs'' = ''fs''" "to_lower ''reject'' = ''reject''" "to_lower [] = []"
  by code_simp+

text \<open>What each check leaves.\<close>

lemma check_mode_Inr:
  "check_mode c = Inr c' \<Longrightarrow> c' = c \<and> to_lower (cc_mode (cf_cluster c)) \<in> {''k8s'', ''static'', ''single''}"
  by (simp add: check_mode_def Let_def split: if_splits)

lemma check_storage_Inr:
  assumes "check_storage c = Inr c'"
  shows "check_storage c' = Inr c' \<and> c' = cf_storage_update (\<lambda>_. cf_storage c') c"
proof (cases "to_lower (sg_type (cf_storage c)) = []")
  case True
  with assms show ?thesis by (auto simp: check_storage_def Let_def split: if_splits)
next
  case False
  with assms show ?thesis by (auto simp: check_storage_def Let_def split: if_splits)
qed

lemma check_behavior_Inr:
  assumes "check_behavior c = Inr c'"
  shows "check_behavior c' = Inr c' \<and> c' = cf_sync_update (\<lambda>_. cf_sync c') c \<and>
     (sy_write_block_behavior (cf_sync c') = ''reject'' \<or> sy_write_block_behavior (cf_sync c') = ''wait'')"
proof -
  let ?b = "to_lower (sy_write_block_behavior (cf_sync c))"
  let ?d = "if ?b = [] then ''reject'' else ?b"
  have d: "?d = ''reject'' \<or> ?d = ''wait''" and c': "c' = cf_sync_update (sy_write_block_behavior_update (\<lambda>_. ?d)) c"
    using assms by (auto simp: check_behavior_def Let_def split: if_splits)
  then have "sy_write_block_behavior (cf_sync c') = ?d" "to_lower ?d = ?d" "?d \<noteq> []" by auto
  with d c' show ?thesis by (simp add: check_behavior_def Let_def)
qed

lemma check_ec_Inr:
  "check_ec c = Inr c' \<Longrightarrow> c' = c \<and> (ec_enabled (cf_ec c) \<longrightarrow>
     1 \<le> ec_cfg_k (cf_ec c) \<and> 1 \<le> ec_cfg_m (cf_ec c) \<and> wrap64 (ec_cfg_k (cf_ec c) + ec_cfg_m (cf_ec c)) \<le> 256)"
  by (simp add: check_ec_def Let_def split: if_splits)

lemma default_node_id_Inr:
  "default_node_id host c = Inr c' \<Longrightarrow> default_node_id host c' = Inr c' \<and> c' = c\<lparr>cf_node_id := cf_node_id c'\<rparr>"
  by (auto simp: default_node_id_def split: if_splits sum.splits)

lemma default_node_id_same:
  "default_node_id host c = Inr c \<longleftrightarrow> cf_node_id c \<noteq> [] \<or> cc_mode (cf_cluster c) = ''single'' \<or> host = Inr []"
  by (cases c) (auto simp: default_node_id_def split: sum.splits)

lemma check_storage_sync: "check_storage (cf_sync_update f c) = map_sum id (cf_sync_update f) (check_storage c)"
  by (simp add: check_storage_def Let_def)

lemma validate_Inr:
  assumes "validate host c = Inr c'"
  obtains c1 c2 where "default_node_id host c = Inr c1" "check_mode c1 = Inr c1" "check_storage c1 = Inr c2"
    "check_behavior c2 = Inr c'" "check_ec c' = Inr c'"
  using assms check_mode_Inr check_ec_Inr unfolding validate_def run_fields_Cons run_fields.simps(1)
  by (metis sum.inject(2))

text \<open>
  C39. What validation returns passes validation again unchanged, its mode is one of three, the
  behaviour of blocked writes one of two, and with erasure coding on there is a data and a parity
  shard and, unless their sum overflows, no more than 256 in all.
\<close>

theorem validated_config:
  assumes "validate host c = Inr c'"
  shows "validate host c' = Inr c' \<and> to_lower (cc_mode (cf_cluster c')) \<in> {''k8s'', ''static'', ''single''} \<and>
    sy_write_block_behavior (cf_sync c') \<in> {''reject'', ''wait''} \<and>
    (ec_enabled (cf_ec c') \<longrightarrow> 1 \<le> ec_cfg_k (cf_ec c') \<and> 1 \<le> ec_cfg_m (cf_ec c') \<and>
       (ec_cfg_k (cf_ec c') + ec_cfg_m (cf_ec c') < 2 ^ 63 \<longrightarrow> ec_cfg_k (cf_ec c') + ec_cfg_m (cf_ec c') \<le> 256))"
proof -
  from assms obtain c1 c2 where v: "default_node_id host c = Inr c1" "check_mode c1 = Inr c1" "check_storage c1 = Inr c2"
    "check_behavior c2 = Inr c'" "check_ec c' = Inr c'"
    by (rule validate_Inr)
  note s = check_storage_Inr [OF v(3)] and b = check_behavior_Inr [OF v(4)]
  have c2: "c2 = cf_storage_update (\<lambda>_. cf_storage c2) c1" and c': "c' = cf_sync_update (\<lambda>_. cf_sync c') c2" using s b by simp_all
  have f: "cf_node_id c' = cf_node_id c1" "cf_cluster c' = cf_cluster c1"
    by (subst c', simp, subst c2, simp)+
  have "default_node_id host c' = Inr c'"
    using default_node_id_Inr [OF v(1)] f unfolding default_node_id_same by auto
  moreover have "check_mode c' = Inr c'" "to_lower (cc_mode (cf_cluster c')) \<in> {''k8s'', ''static'', ''single''}"
    using check_mode_Inr [OF v(2)] f by (auto simp: check_mode_def)
  moreover have "check_storage (cf_sync_update (\<lambda>_. cf_sync c') c2) = Inr (cf_sync_update (\<lambda>_. cf_sync c') c2)"
    using s by (simp add: check_storage_sync)
  then have "check_storage c' = Inr c'" unfolding c' [symmetric] .
  ultimately show ?thesis
    using b v(5) check_ec_Inr [OF v(5)] by (auto simp: validate_def int64_ok_def)
qed

theorem validated_config_witness:
  "validate (Inr ''h'') default_config = Inr default_config \<and>
   sy_write_block_behavior (cf_sync default_config) \<in> {''reject'', ''wait''}"
proof -
  have "validate (Inr ''h'') default_config = Inr default_config" by code_simp
  from validated_config [OF this] show ?thesis by blast
qed

section \<open>The started node\<close>

lemma load_validated:
  assumes "load open_file yaml env host p = Inr c"
  obtains c0 where "validate host c0 = Inr c"
  using assms by (auto simp: load_def run_fields_Cons simp del: run_fields.simps(2) split: sum.splits if_splits)

lemma root_path_good: "good_root (root_path s)"
proof -
  have "set (root_path s) \<subseteq> set (split_on (CHR ''/'') s)" "list_all plain_comp (root_path s)"
    unfolding root_path_def by (rule clean_path_subset, rule clean_path_is_plain)
  then show ?thesis by (auto simp: list_all_iff plain_seg_def dest: split_on_no_sep)
qed

lemma new_storage_wf:
  assumes "new_storage_repository c fs = (Inr root, fs')" "wf_fs fs"
  shows "good_root root \<and> wf_fs fs'"
proof -
  let ?r = "root_path (sg_root (cf_storage c))"
  have "pres wf_fs (new_filesystem_repository ?r)"
    unfolding new_filesystem_repository_def
    by (auto intro!: pres_intros simp: root_path_good simp del: forE.simps)
  with assms show ?thesis
    by (auto simp: new_storage_repository_def Let_def root_path_good retE_def failE_def pres_def
        split: if_splits elim!: bindE_okE)
qed

text \<open>The states of a static manager: one per id, the last entry of the configuration with that id.\<close>

lemma static_states:
  assumes "\<And>nid addr. ns_addr (F nid addr) = addr"
    and "distinct (map fst sts)" "\<And>i st. (i, st) \<in> set sts \<Longrightarrow> (i, ns_addr st) \<in> N" "set ns \<subseteq> N"
  shows "distinct (map fst (foldl (\<lambda>sts (nid, addr). AList.update nid (F nid addr) sts) sts ns))"
    and "(i, st) \<in> set (foldl (\<lambda>sts (nid, addr). AList.update nid (F nid addr) sts) sts ns) \<Longrightarrow> (i, ns_addr st) \<in> N"
proof -
  have "distinct (map fst (foldl (\<lambda>sts (nid, addr). AList.update nid (F nid addr) sts) sts ns)) \<and>
      (\<forall>(i, st) \<in> set (foldl (\<lambda>sts (nid, addr). AList.update nid (F nid addr) sts) sts ns). (i, ns_addr st) \<in> N)"
    using assms(2-)
  proof (induction ns arbitrary: sts)
    case (Cons e ns)
    obtain nid addr where e: "e = (nid, addr)" by (cases e)
    have "set (AList.update nid v sts) \<subseteq> insert (nid, v) (set sts)" for v :: node_state by (induction sts) auto
    then have "(i, ns_addr st) \<in> N" if "(i, st) \<in> set (AList.update nid (F nid addr) sts)" for i st
      using that Cons.prems(2,3) assms(1) e by fastforce
    moreover have "distinct (map fst (AList.update nid (F nid addr) sts))"
      using Cons.prems(1) by (rule distinct_update)
    ultimately have "distinct (map fst (foldl (\<lambda>sts (nid, addr). AList.update nid (F nid addr) sts)
          (AList.update nid (F nid addr) sts) ns)) \<and>
        (\<forall>(i, st) \<in> set (foldl (\<lambda>sts (nid, addr). AList.update nid (F nid addr) sts)
          (AList.update nid (F nid addr) sts) ns). (i, ns_addr st) \<in> N)"
      using Cons.prems(3) by (intro Cons.IH) auto
    then show ?case by (simp add: e)
  qed auto
  then show "distinct (map fst (foldl (\<lambda>sts (nid, addr). AList.update nid (F nid addr) sts) sts ns))"
    "(i, st) \<in> set (foldl (\<lambda>sts (nid, addr). AList.update nid (F nid addr) sts) sts ns) \<Longrightarrow> (i, ns_addr st) \<in> N"
    by auto
qed

text \<open>Two static nodes of different ids share an address; nothing in the validation forbids it.\<close>

definition shared_address :: "config \<Rightarrow> bool" where
  "shared_address c \<longleftrightarrow> to_lower (cc_mode (cf_cluster c)) = ''static'' \<and>
     list_ex (\<lambda>(i, a). list_ex (\<lambda>(j, b). a = b \<and> i \<noteq> j) (st_nodes (cc_static (cf_cluster c))))
       (st_nodes (cc_static (cf_cluster c)))"

lemma static_manager_inv:
  assumes "\<not> shared_address c" "to_lower (cc_mode (cf_cluster c)) = ''static''"
  shows "sm_inv (static_manager_of now c)"
proof -
  let ?n = "st_nodes (cc_static (cf_cluster c))" and ?sts = "sm_states (static_manager_of now c)"
  let ?F = "\<lambda>nid addr. fresh_node nid addr (if nid = st_force_leader (cc_static (cf_cluster c)) then RoleLeader else RoleFollower)
    (if nid = cf_node_id c then StatusReady else StatusOffline) now"
  have sts: "?sts = foldl (\<lambda>sts (nid, addr). AList.update nid (?F nid addr) sts) [] ?n"
    by (simp add: static_manager_of_def new_static_manager_def)
  have F: "ns_addr (?F nid addr) = addr" for nid addr by (simp add: fresh_node_def ns_addr_def)
  have init: "distinct (map fst ([] :: states))" "\<And>i st. (i, st) \<in> set ([] :: states) \<Longrightarrow> (i, ns_addr st) \<in> set ?n" by simp_all
  note st = static_states [where F = ?F and ns = ?n, OF F init order_refl]
  have keys: "distinct (map fst ?sts)" unfolding sts by (rule st(1))
  have from_cfg: "(i, ns_addr st) \<in> set ?n" if "(i, st) \<in> set ?sts" for i st
    using that st(2) [of i st] by (simp only: sts)
  have "inj_on (ns_addr \<circ> snd) (set ?sts)"
  proof (rule inj_onI)
    fix x y assume x: "x \<in> set ?sts" and y: "y \<in> set ?sts" and eq: "(ns_addr \<circ> snd) x = (ns_addr \<circ> snd) y"
    obtain i st j st' where xy: "x = (i, st)" "y = (j, st')" by (cases x, cases y)
    have "(i, ns_addr st) \<in> set ?n" "(j, ns_addr st') \<in> set ?n" "ns_addr st = ns_addr st'"
      using from_cfg [of i st] from_cfg [of j st'] x y eq by (simp_all add: xy)
    then have "i = j" using assms unfolding shared_address_def list_ex_iff by fastforce
    moreover from this have "st = st'" using x y keys eq_key_imp_eq_value [of ?sts i st st'] by (simp add: xy)
    ultimately show "x = y" by (simp add: xy)
  qed
  with keys show ?thesis
    by (simp add: sm_inv_def wf_states_def addrs_def distinct_map)
qed

lemma cluster_manager_inv:
  assumes "\<not> shared_address c"
  shows "mgr_inv (cluster_manager_of env ns now c)"
proof -
  have "mgr_inv (start_syncing now m)" if "mgr_inv m" for m
    using that by (cases m) (auto simp: start_syncing_def sm_inv_def km_inv_def sm_set_local_status_def
        km_set_local_status_def rebuild_alive_followers_def)
  moreover have "km_inv (new_k8s_manager env ns c)"
    by (simp add: km_inv_def new_k8s_manager_def wf_states_def addrs_def rebuild_alive_followers_def Let_def)
  ultimately show ?thesis
    using static_manager_inv [OF assms] by (simp add: cluster_manager_of_def Let_def)
qed

lemma started_server:
  assumes "load open_file yaml env host p = Inr c" "wf_fs fs" "start_node rs env' ns mt H now c fs = Running sr H' em"
  shows "server_ok sr" "sv_active_writes (sr_svc sr) = 0" "sv_syncing (sr_svc sr) = []"
    "sv_behavior (sr_svc sr) = sy_write_block_behavior (cf_sync c)" "sr_mgr sr = cluster_manager_of env' ns now c"
    "H' = s3_handler_of c em H"
proof -
  obtain c0 where "validate host c0 = Inr c" by (rule load_validated [OF assms(1)])
  then have b: "sy_write_block_behavior (cf_sync c) = ''reject'' \<or> sy_write_block_behavior (cf_sync c) = ''wait''"
    using check_behavior_Inr by (elim validate_Inr) blast
  from assms(3) obtain root fs' where st: "new_storage_repository c fs = (Inr root, fs')"
    and sr: "sr = server_of mt c root fs' (cluster_manager_of env' ns now c)" and "H' = s3_handler_of c em H"
    by (auto simp: start_node_def Let_def split: prod.splits sum.splits)
  with new_storage_wf [OF st assms(2)] b
  show "server_ok sr" "sv_active_writes (sr_svc sr) = 0" "sv_syncing (sr_svc sr) = []"
    "sv_behavior (sr_svc sr) = sy_write_block_behavior (cf_sync c)" "sr_mgr sr = cluster_manager_of env' ns now c"
    "H' = s3_handler_of c em H"
    by (auto simp: server_of_def server_ok_def set_write_block_behavior_def new_service_def)
qed

text \<open>
  C38. A node that starts from an accepted configuration, on any well-formed disk, starts in a good
  state: a well-formed store under a good root, the configured behaviour of blocked writes, no write
  active and no lease held.  Its cluster manager is consistent, one state per node id and no address
  twice, unless the configuration is one of a static cluster in which two nodes of different ids share
  an address, which the validation accepts.
\<close>

theorem started_node_ok:
  assumes "load open_file yaml env host p = Inr c" "wf_fs fs"
    and "start_node rs env' ns mt H now c fs = Running sr H' em"
  shows "server_ok sr \<and> sv_active_writes (sr_svc sr) = 0 \<and> sv_syncing (sr_svc sr) = [] \<and>
    sv_behavior (sr_svc sr) = sy_write_block_behavior (cf_sync c) \<and>
    (if shared_address c then True else mgr_inv (sr_mgr sr))"
  using started_server [OF assms] cluster_manager_inv [of c env' ns now] by simp

text \<open>The default configuration, without a file and without an environment.\<close>

definition loaded_default :: "gerror + config" where
  "loaded_default = load (\<lambda>_. Inl ErrNotExist) (\<lambda>_. Decoded) (\<lambda>_. []) (Inr ''h'') []"

definition running :: "start \<Rightarrow> bool" where
  "running s \<longleftrightarrow> (case s of Fatal _ \<Rightarrow> False | Running _ _ _ \<Rightarrow> True)"

definition default_start :: "s3_handler \<Rightarrow> start" where
  "default_start H = (case loaded_default of Inl e \<Rightarrow> Fatal e
     | Inr c \<Rightarrow> start_node xor_lib (\<lambda>_. []) (Inl ErrNotExist) no_metrics H 0 c [])"

lemma default_runs: "running (default_start H)"
  by code_simp

lemma default_nodes: "case loaded_default of Inl _ \<Rightarrow> False | Inr c \<Rightarrow> st_nodes (cc_static (cf_cluster c)) = []"
  by code_simp

theorem started_node_ok_witness:
  "\<exists>sr H' em. default_start demo_handler = Running sr H' em \<and> server_ok sr \<and> mgr_inv (sr_mgr sr) \<and>
     sv_behavior (sr_svc sr) \<in> {''reject'', ''wait''}"
proof -
  obtain c where c: "loaded_default = Inr c" "st_nodes (cc_static (cf_cluster c)) = []"
    using default_nodes by (auto split: sum.splits)
  obtain sr H' em where r: "default_start demo_handler = Running sr H' em"
    using default_runs [of demo_handler] by (auto simp: running_def split: start.splits)
  then have s: "start_node xor_lib (\<lambda>_. []) (Inl ErrNotExist) no_metrics demo_handler 0 c [] = Running sr H' em"
    by (simp add: default_start_def c(1))
  note l = c(1) [unfolded loaded_default_def]
  obtain c0 where "validate (Inr ''h'') c0 = Inr c" by (rule load_validated [OF l])
  then have "sy_write_block_behavior (cf_sync c) = ''reject'' \<or> sy_write_block_behavior (cf_sync c) = ''wait''"
    using check_behavior_Inr by (elim validate_Inr) blast
  moreover have "\<not> shared_address c" by (simp add: shared_address_def c(2))
  moreover have "wf_fs []" by (simp add: wf_fs_def)
  ultimately show ?thesis using started_node_ok [OF l _ s] r by auto
qed

text \<open>
  C40. A configuration that is accepted with erasure coding on never keeps the node from starting for
  its shard counts: the constructor of the codec passes its own checks and takes the counts as they
  are, when their sum does not overflow and the Reed-Solomon library takes them.
\<close>

theorem accepted_config_builds_codec:
  assumes "load open_file yaml env host p = Inr c" "ec_enabled (cf_ec c)"
    and "ec_cfg_k (cf_ec c) + ec_cfg_m (cf_ec c) < 2 ^ 63"
    and "rs_new rs (ec_cfg_k (cf_ec c)) (ec_cfg_m (cf_ec c)) = None"
  shows "ec_manager_of rs c = Inr (Some \<lparr>em_rs = rs, em_codec = \<lparr>cd_k = ec_cfg_k (cf_ec c), cd_m = ec_cfg_m (cf_ec c)\<rparr>,
    em_min_age = ec_min_age (cf_ec c), em_min_size = ec_min_object_size (cf_ec c)\<rparr>)"
proof -
  obtain c0 where "validate host c0 = Inr c" by (rule load_validated [OF assms(1)])
  from check_ec_Inr [of c c] this assms(2,3)
  have "1 \<le> ec_cfg_k (cf_ec c)" "1 \<le> ec_cfg_m (cf_ec c)" "ec_cfg_k (cf_ec c) + ec_cfg_m (cf_ec c) \<le> 256"
    by (auto simp: int64_ok_def elim!: validate_Inr)
  with assms(2,4) show ?thesis by (simp add: ec_manager_of_def new_codec_def wrap64_id int64_ok_def)
qed

text \<open>The default with erasure coding switched on in the environment.\<close>

definition ec_env :: getenv where
  "ec_env v = (if v = ''MICROS3_EC_ENABLED'' then ''True'' else if v = ''MICROS3_EC_M'' then ''1'' else [])"

definition loaded_ec :: "gerror + config" where
  "loaded_ec = load (\<lambda>_. Inl ErrNotExist) (\<lambda>_. Decoded) ec_env (Inr ''h'') []"

lemma loaded_ec_facts: "case loaded_ec of Inl _ \<Rightarrow> False
  | Inr c \<Rightarrow> ec_enabled (cf_ec c) \<and> ec_cfg_k (cf_ec c) = 3 \<and> ec_cfg_m (cf_ec c) = 1"
  by code_simp

theorem accepted_config_builds_codec_witness:
  "\<exists>c em. loaded_ec = Inr c \<and> ec_manager_of xor_lib c = Inr (Some em) \<and> em_codec em = \<lparr>cd_k = 3, cd_m = 1\<rparr>"
proof -
  obtain c where c: "loaded_ec = Inr c" "ec_enabled (cf_ec c)" "ec_cfg_k (cf_ec c) = 3" "ec_cfg_m (cf_ec c) = 1"
    using loaded_ec_facts by (auto split: sum.splits)
  have "rs_new xor_lib 3 1 = None" by (simp add: xor_lib_def)
  with accepted_config_builds_codec [OF c(1) [unfolded loaded_ec_def] c(2), of xor_lib] c(3,4) show ?thesis
    by (simp add: c(1))
qed

section \<open>What validation lets through\<close>

text \<open>Shard counts whose sum overflows pass the bound on it.\<close>

theorem shard_bound_overflows:
  "check_ec (cf_ec_update (\<lambda>ec. ec\<lparr>ec_enabled := True, ec_cfg_k := 2 ^ 62, ec_cfg_m := 2 ^ 62\<rparr>) default_config) =
     Inr (cf_ec_update (\<lambda>ec. ec\<lparr>ec_enabled := True, ec_cfg_k := 2 ^ 62, ec_cfg_m := 2 ^ 62\<rparr>) default_config)"
  by (simp add: check_ec_def wrap64_def default_config_def)

text \<open>A storage type other than the file system is accepted with a connection string, and the node then
  refuses to start.\<close>

theorem dsn_config_is_fatal:
  assumes "to_lower (sg_type (cf_storage c)) \<notin> {[], ''fs''}" "sg_dsn (cf_storage c) \<noteq> []"
  shows "check_storage c = Inr c \<and> (\<exists>e. start_node rs env ns mt H now c fs = Fatal e)"
  using assms by (simp add: check_storage_def start_node_def new_storage_repository_def Let_def failE_def)

text \<open>Every node of a static cluster without a forced leader takes itself for the leader.\<close>

theorem static_nodes_all_lead:
  assumes "to_lower (cc_mode (cf_cluster c)) = ''static''" "st_force_leader (cc_static (cf_cluster c)) = []"
  shows "check_mode c = Inr c \<and> mgr_is_leader now' (cluster_manager_of env ns now c)"
  using assms by (simp add: check_mode_def cluster_manager_of_def start_syncing_def static_manager_of_def
      new_static_manager_def sm_is_leader_def Let_def)

text \<open>An interval of zero is accepted, and the ticker it is given to panics.\<close>

definition zero_env :: getenv where
  "zero_env v = (if v = ''MICROS3_EC_ENABLED'' then ''true'' else if v = ''MICROS3_EC_CONVERT_INTERVAL'' then ''0s'' else [])"

theorem zero_interval_panics:
  "case load (\<lambda>_. Inl ErrNotExist) (\<lambda>_. Decoded) zero_env (Inr ''h'') [] of Inl _ \<Rightarrow> False
   | Inr c \<Rightarrow> \<not> tickers_start 0 c (cluster_manager_of zero_env (Inl ErrNotExist) 0 c)"
  by code_simp

text \<open>A lease duration of zero is accepted; the election then takes 15 s, while the guard of \<open>IsLeader\<close> keeps
  the zero and never ends a leadership.\<close>

definition zero_lease_env :: getenv where
  "zero_lease_env v = (if v = ''MICROS3_CLUSTER_K8S_LEASE_DURATION'' then ''0s'' else [])"

theorem zero_lease_drops_guard:
  "(case load (\<lambda>_. Inl ErrNotExist) (\<lambda>_. Decoded) zero_lease_env (Inr ''h'') [] of Inl _ \<Rightarrow> False
    | Inr c \<Rightarrow> election_lease_duration c = 15 * second \<and>
        km_lease_duration (new_k8s_manager zero_lease_env (Inl ErrNotExist) c) = 0) \<and>
   (\<forall>m now. km_lease_duration m = 0 \<longrightarrow> km_is_leader now m = km_is_leader_flag m)"
proof
  show "\<forall>m now. km_lease_duration m = 0 \<longrightarrow> km_is_leader now m = km_is_leader_flag m"
    by (simp add: km_is_leader_def guard_window_def second_def)
qed code_simp

text \<open>
  A follower of a static cluster whose process has no \<open>POD_IP\<close> starts as one that must synchronise and
  never asks for it, so the leader never counts it among those that take part in a write.
\<close>

theorem static_follower_never_syncs:
  assumes "start_node rs env ns mt H0 now c fs = Running sr H em" "env ''POD_IP'' = []"
    and "to_lower (cc_mode (cf_cluster c)) = ''static''" "st_force_leader (cc_static (cf_cluster c)) \<notin> {[], cf_node_id c}"
    and "w_self w = sr"
  shows "mgr_status (sr_mgr (w_self w)) = StatusSyncing \<and>
    ((\<lambda>v. snd (sync_pass ask (sync_worker_addr env c) v)) ^^ k) w = w"
proof
  show "((\<lambda>v. snd (sync_pass ask (sync_worker_addr env c) v)) ^^ k) w = w"
    unfolding sync_worker_addr_def by (rule no_pod_ip_no_sync [where env = env]) (rule assms(2))
  have "sr_mgr sr = cluster_manager_of env ns now c"
    using assms(1) by (auto simp: start_node_def server_of_def Let_def split: prod.splits sum.splits)
  then show "mgr_status (sr_mgr (w_self w)) = StatusSyncing"
    using assms(3-5) by (auto simp: cluster_manager_of_def start_syncing_def static_manager_of_def new_static_manager_def
        sm_is_leader_def sm_set_local_status_def Let_def)
qed

text \<open>The default token is empty, and a node with an empty token answers requests that carry none.\<close>

theorem empty_token_admits:
  assumes "sr_token sr = []" "hget rq ''X-MicroS3-Token'' = []"
  shows "cc_token (cf_cluster default_config) = [] \<and> serve ev rq sr = mux ev rq sr"
  using assms by (simp add: serve_def default_config_def)

section \<open>A single node\<close>

text \<open>A world of one started node.\<close>

definition alone_with :: "server \<Rightarrow> world \<Rightarrow> bool" where
  "alone_with sr w \<longleftrightarrow> w_self w = sr \<and> w_peers w = [] \<and> (\<forall>n. good_uuid (w_ids w n))"

lemma single_manager:
  "to_lower (cc_mode (cf_cluster c)) = ''single'' \<Longrightarrow>
   cluster_manager_of env ns now c = Standalone (new_standalone_manager (cf_node_id c))"
  by (simp add: cluster_manager_of_def Let_def)

lemma single_world:
  assumes "load open_file yaml env host p = Inr c" "to_lower (cc_mode (cf_cluster c)) = ''single''" "wf_fs fs"
    and "start_node rs env' ns mt H0 now c fs = Running sr H em" "alone_with sr w"
  shows "world_ok w" "alive_followers w = []" "sv_syncing (sr_svc (w_self w)) = []" "\<And>t. mgr_is_leader t (sr_mgr (w_self w))"
    "H = s3_handler_of c em H0"
proof -
  note s = started_server [OF assms(1,3,4)]
  have m: "sr_mgr (w_self w) = Standalone (new_standalone_manager (cf_node_id c))"
    using s(5) assms(5) single_manager [OF assms(2)] by (simp add: alone_with_def)
  then show "alive_followers w = []" "\<And>t. mgr_is_leader t (sr_mgr (w_self w))"
    by (simp_all add: alive_followers_def sa_alive_followers_def sa_is_leader_def)
  show "sv_syncing (sr_svc (w_self w)) = []" "world_ok w"
    using s m assms(5) by (simp_all add: alone_with_def world_ok_def peer_def)
  show "H = s3_handler_of c em H0" by (rule s(6))
qed

lemma single_put_get:
  assumes "load open_file yaml env host p = Inr c" "to_lower (cc_mode (cf_cluster c)) = ''single''" "wf_fs fs"
    and "start_node rs env' ns mt H0 now c fs = Running sr H em" "alone_with sr w"
    and "plain_seg b" "plain_name k" "room_for w b k"
    and "admits H (w_now w) (with_request_id (w_now w) rq) rq'" "object_request ''PUT'' b k rq"
    and "st_err (hq_body rq') = None" "put_size rq' < 0 \<or> put_size rq' = int (length (st_bytes (hq_body rq')))"
    and "admits H t (with_request_id t g) g'" "object_request ''GET'' b k g"
    and "t = w_now (snd (serve_http (Suc n) hs H rq w))"
  shows "\<exists>m w1. serve_http (Suc n) hs H rq w = (Answered (etag_response (om_etag m)), w1) \<and>
    fst (serve_http (Suc n) hs H g w1) = Answered (object_response m (ObjectBody (bytes_stream (st_bytes (hq_body rq')))))"
proof -
  note w = single_world [OF assms(1-5)]
  obtain m0 :: object_meta and w1 where put: "serve_http (Suc n) hs H rq w = (Answered (etag_response (om_etag m0)), w1)"
    and m: "sr_mgr (w_self w1) = sr_mgr (w_self w)"
    using lone_http_put [OF w(1) assms(6,7) w(2,3) assms(8) w(4) assms(9-12)] by blast
  have l1: "mgr_is_leader (w_now w1) (sr_mgr (w_self w1))" using w(4) m by simp
  have g: "admits H (w_now w1) (with_request_id (w_now w1) g) g'" using assms(13,15) put by simp
  have ok: "sx_status (etag_response (om_etag m0)) = 200" by (simp add: etag_response_def bare_response_def)
  have "distinct (alive_followers w)" by (simp add: w(2))
  from leader_put_get [OF w(1) this assms(6,7) w(4) assms(9,10) put ok l1 g assms(14)]
  show ?thesis using put by (auto simp: Let_def intro!: exI)
qed

text \<open>A single node without credentials, on an empty disk.\<close>

definition open_yaml :: "string \<Rightarrow> config \<Rightarrow> yaml_result" where
  "open_yaml text c = Decoded (cf_s3_update (s3_credentials_update (\<lambda>_. [])) c)"

definition loaded_open :: "gerror + config" where
  "loaded_open = load (\<lambda>_. Inr ''s3: {credentials: []}'') open_yaml (\<lambda>_. []) (Inr ''h'') ''micros3.yaml''"

definition node_start :: start where
  "node_start = (case loaded_open of Inl e \<Rightarrow> Fatal e
     | Inr c \<Rightarrow> start_node xor_lib (\<lambda>_. []) (Inl ErrNotExist) no_metrics demo_handler 0 c [])"

definition node_world :: "server \<Rightarrow> world" where
  "node_world sr = \<lparr>w_self = sr, w_peers = [], w_tick = 0, w_clock = int, w_ids = (\<lambda>_. ''u-1''), w_net = (\<lambda>_. Delivered)\<rparr>"

lemma node_facts:
  "case node_start of Fatal _ \<Rightarrow> False | Running sr H em \<Rightarrow> sh_auth H = None \<and> room_for (node_world sr) ''b'' ''a/k''"
  by code_simp

lemma open_mode: "case loaded_open of Inl _ \<Rightarrow> False | Inr c \<Rightarrow> to_lower (cc_mode (cf_cluster c)) = ''single''"
  by code_simp

lemma node_started:
  obtains c sr H em where "loaded_open = Inr c" "to_lower (cc_mode (cf_cluster c)) = ''single''" "wf_fs ([] :: repo_fs)"
    "start_node xor_lib (\<lambda>_. []) (Inl ErrNotExist) no_metrics demo_handler 0 c [] = Running sr H em"
    "node_start = Running sr H em" "alone_with sr (node_world sr)" "sh_auth H = None" "room_for (node_world sr) ''b'' ''a/k''"
proof -
  obtain c where c: "loaded_open = Inr c" "to_lower (cc_mode (cf_cluster c)) = ''single''"
    using open_mode by (auto split: sum.splits)
  obtain sr H em where r: "node_start = Running sr H em" "sh_auth H = None" "room_for (node_world sr) ''b'' ''a/k''"
    using node_facts by (auto split: start.splits)
  have "start_node xor_lib (\<lambda>_. []) (Inl ErrNotExist) no_metrics demo_handler 0 c [] = Running sr H em"
    using r(1) by (simp add: node_start_def c(1))
  moreover have "good_uuid ''u-1''" using world_okD(5) [OF demo_world_ok] by (simp add: demo_world_def)
  then have "alone_with sr (node_world sr)" by (simp add: alone_with_def node_world_def)
  moreover have "wf_fs ([] :: repo_fs)" by (simp add: wf_fs_def)
  ultimately show thesis using that c r by blast
qed

end
