(* ===== verification/Spec2Isabelle.thy ===== *)
theory Spec2Isabelle
  imports Listing Election Multipart SyncProps ECDemo IdleReader ProxyProps StartupProps
begin

text \<open>
  A verification development for micros3, an S3-compatible object store in Go: one process per node,
  an S3 front end for clients, an internal API between the nodes, one leader that takes every write
  and copies it to the followers by a two-phase commit.

  \<^bold>\<open>How the parts interact.\<close>  A client's request enters \<open>Handler.ServeHTTP\<close>, which checks the signature and
  hands the request to the handler of its method and path.  A node that does not lead sends it on to the
  leader (\<open>ProxyToLeader\<close>).  The leader's handlers call the service; a write of the service
  passes the write gate, prepares at the followers and locally, commits and tells the cluster manager who
  failed.  The storage under it is the filesystem repository.  A follower that comes up asks the leader
  for a synchronisation, which closes the gate with a lease.  The erasure-coding manager of the leader
  turns replicated objects into shards in the background and reads them back on demand.

  \<^bold>\<open>Shared theories.\<close>
  \<^item> \<open>Prelude\<close>: results as a sum with an \<open>error\<close> datatype, the collections \<open>io_simps\<close> and
    \<open>pres_intros\<close>, lemmas on lists, maps and composed operations.  \<open>int\<close> stands for Go's \<open>int\<close> and \<open>int64\<close>;
    where an overflow can be reached it is written out (\<open>int64_ok\<close>, \<open>wrap64\<close>).
  \<^item> \<open>GoLib\<close>, \<open>GoTime\<close>, \<open>GoHash\<close>, \<open>GoSha\<close>: what the source uses of \<open>strings\<close>, \<open>strconv\<close>, \<open>sort\<close>,
    \<open>path/filepath\<close>, \<open>time\<close>, \<open>hash/crc32\<close>, \<open>crypto/md5\<close>, \<open>crypto/sha256\<close> and \<open>crypto/hmac\<close>.
    \<open>OsFiles\<close>: \<open>os\<close> over a file tree, errors included.  \<open>S3Http\<close>: \<open>net/http\<close>, \<open>net/url\<close> and the one
    regular expression.
  \<^item> \<open>Domain\<close>: \<open>internal/domain/s3/object.go\<close> and \<open>internal/domain/cluster/node.go\<close>, one record per struct,
    and the states of a transaction, of which the final ones stay final (\<open>tx_final\<close>).

  \<^bold>\<open>Storage.\<close>
  \<^item> \<open>FsRepo\<close>: every method of \<open>storage/fs/filesystem.go\<close> as a function from the file tree to a result and
    a file tree, in the order of its calls to \<open>os\<close>, so an error half way leaves what was written before it.
    \<open>FsFacts\<close>, \<open>FsTx\<close>: the areas of the tree are disjoint, every operation keeps the tree well formed and
    leaves alone what it does not name, and the exact effect of prepare, commit and abort.
    \<open>FsObjects\<close>: the abstract object store, a partial map from a key to metadata and bytes, which the
    files implement.  \<open>FsProps\<close>: the commits refine the update of that map, except that the sweep of a key's
    shards, which goes by the prefix \<open>key.shard.\<close>, takes those of a key it is a part of (\<open>shard_clash\<close>) with it
    and leaves those of a key with a \<open>/\<close>.  \<open>Listing\<close>: the pages of
    \<open>ListObjectsV2\<close>, followed by their tokens, hold every key once, in order.
  \<^item> \<open>ECCodec\<close>: \<open>storage/ec/codec.go\<close>.  The Reed-Solomon library is the parameter \<open>rs_lib\<close>; \<open>rs_correct\<close>
    states its documented law, and the witnesses use a code that computes.
  \<^item> \<open>TxnStore\<close>: the locale \<open>txn_store\<close>, what the two-phase commit asks of a storage (prepare, commit,
    abort and the abstract store behind them), interpreted on the filesystem repository.

  \<^bold>\<open>Cluster.\<close>
  \<^item> \<open>Cluster\<close>: \<open>cluster.go\<close>, \<open>static_manager.go\<close> and the follower table of \<open>k8s_manager.go\<close>: health counters,
    the cached list of alive followers, who takes part in a commit.
  \<^item> \<open>Election\<close>: \<open>tryAcquireOrRenewLease\<close> and \<open>IsLeader\<close> of \<open>k8s_manager.go\<close>.  An attempt is cut where time passes
    and other nodes act (read, decide, write, note the answer), and the attempts of all nodes form an
    inductive step relation; the API server is a parameter whose named hypothesis is that an update
    with an old resource version is refused.  Two nodes never lead at once while answers arrive within
    the guard window, and do when one does not.
  \<^item> \<open>Leases\<close>: \<open>syncMutex\<close>, the write gate and the leases of \<open>s3app/service.go\<close> as a step relation, the end of
    any node's lease through \<open>/internal/sync-done\<close> included.
  \<^item> \<open>Node\<close>, \<open>Network\<close>: a running node with the handlers of \<open>internal_api/handlers.go\<close>, and the calls of
    \<open>internal_api/client.go\<close>.  Each message has a \<open>fate\<close>: it is delivered, it is lost, its answer is lost, or one of
    the two is cut short; the theorems hold for every assignment of fates.
  \<^item> \<open>Service\<close>: \<open>s3app/service.go\<close> and \<open>replication/replicator.go\<close>.  \<open>NetFacts\<close>, \<open>TwoPhase\<close>, \<open>ServiceProps\<close>: a
    write that reports success is at the leader and at every follower it still counts as alive; a
    write that fails in its prepare phase leaves the objects of every node as they were (its bucket may have
    been created); whatever happens, no other object changes, but for the shards of a key that clashes,
    and the gate is released.  \<open>Multipart\<close>: a saved part is read back and listed, and a completed upload is the
    requested parts in the order of their numbers, at the leader and at the followers.
  \<^item> \<open>Sync\<close>: \<open>replication/coordinator.go\<close>, the leader's side of \<open>HandleSyncRequest\<close>, and the health checks.  \<open>SyncFacts\<close>,
    \<open>SyncProps\<close>: a synchronisation that reports success leaves the follower with the leader's objects, when
    none is erasure coded.
    \<open>FollowerSync\<close>: the worker of \<open>replication/sync.go\<close> and its request, run at the leader; a follower whose request
    succeeds is up to date and takes part in the next write.  \<open>IdleReader\<close>: the timer of the client's
    bodies cuts idle transfers and no others.
  \<^item> \<open>ECManager\<close>: \<open>replication/ec/manager.go\<close>.  \<open>ECRead\<close>, \<open>ECConvert\<close>, \<open>ECProps\<close>, \<open>ECDemo\<close>: a read of a
    non-empty object gives it or an error while no node holds foreign shards under its names, and a
    converted object survives the loss of \<open>m\<close> nodes other than the reading leader.

  \<^bold>\<open>Front end and process.\<close>
  \<^item> \<open>Auth\<close>: \<open>s3api/auth.go\<close>, from the Authorization header to the verdict, and the decoder of chunked
    bodies.  \<open>AuthProps\<close>: a request is accepted exactly when its signature is that of its canonical
    form; the decoder inverts the encoder, and it returns on every input but one that announces a chunk
    of \<open>2^63 - 2\<close> bytes or more, where it panics.  A panic is the error \<open>Panic\<close> at the end of the body: a handler
    that reads the body to there takes the process down (\<open>Crashed\<close>), one that does not goes on.
  \<^item> \<open>S3Types\<close>, \<open>S3Router\<close>: \<open>types.go\<close>, \<open>errors.go\<close> and \<open>router.go\<close>, one definition per handler over the
    service of the node.  \<open>S3Props\<close>: the shape of the answers, and a GET after a PUT.  \<open>ProxyProps\<close>:
    a request to a follower is answered as the leader answers it, except that the answer to a HEAD of a
    non-empty object is cut off (\<open>head_cut_off\<close>): it declares a length, and on the wire it answers a POST.
    An outcome \<open>Aborted\<close> is a connection closed in the middle of an answer.
  \<^item> \<open>Config\<close>: \<open>config.go\<close>.  \<open>Startup\<close>: the construction of a node in \<open>cmd/micros3/main.go\<close> and one round of
    each background worker.  \<open>StartupProps\<close>: an accepted configuration is consistent, a started node is
    well formed, and the janitor never touches an object a client can read.  This theory composes
    them all: a node that starts from its configuration serves what it is given.

  \<^bold>\<open>Interfaces.\<close>  The locales state what one part asks of another and are interpreted on the model's own
  definitions in the theory that provides them; the properties rest on the facts of the
  interpretation.  \<open>membership\<close> (in \<open>Cluster\<close>): a follower that failed leaves the list of the next commit,
  and no other one does; the service's error paths rest on it.  \<open>readmission\<close> extends it: a follower
  registered and marked alive is in that list; the synchronisation rests on it.  Both are interpreted on
  the static and the Kubernetes manager and on their sum in \<open>Node\<close>, the first also on the standalone
  one.  \<open>txn_store\<close> (in \<open>TxnStore\<close>): the storage under the two-phase commit, interpreted on the filesystem
  repository.

  \<^bold>\<open>Loops, bounds and fuel.\<close>  Loops over lists are structural.  The decoder of chunked bodies is a
  \<open>partial_function (option)\<close>, and \<open>AuthProps\<close> proves that it ends on every input.  \<open>serve_http\<close> carries a number of
  hops: a node that leads answers with one, a follower whose leader leads needs two, and no request
  takes more unless the proxies form a circle, which the source would follow for ever.  The clock, the
  UUIDs and the fates are functions of a counter, so they never run out.  Paging is bounded by the number of keys.

  \<^bold>\<open>Interleaving.\<close>  Where the code holds a lock, the locked part is one function.  Where it does not and
  the claim depends on it (election, the write gate), the pieces are steps of a relation.  The
  goroutines of one \<open>PrepareAll\<close>, \<open>CommitAll\<close> or \<open>AbortAll\<close> run in the order of the follower list: each
  talks to a peer of its own, so only the order of the fates depends on it.

  \<^bold>\<open>Not modelled.\<close>  The Prometheus registration of \<open>internal/metrics\<close> (the values the service sets are
  in its state); \<open>internal_api/server.go\<close>, the
  listening sockets, TLS, signals and the logger of \<open>main.go\<close>; log lines, the access log and request
  metrics; the tickers (one tick is one operation); deadlines of contexts (a request cut off by one is
  a fate).  The decoders of XML and YAML, the environment, the host name, the Reed-Solomon library and
  the Kubernetes API server are parameters.  JSON files and bodies hold the value they encode.
\<close>

section \<open>A node from its configuration to its answers\<close>

text \<open>
  C4. A node that starts alone from an accepted configuration stores what it is given: a PUT of an
  object that the front end admits, with an intact body of the announced size, is answered with
  200, and the GET after it is answered with exactly its bytes and the ETag of the PUT.  The bucket need not
  exist, the PUT creates it; what the disk holds must leave room: no regular file on the way to the bucket,
  to the object's body and metadata or to the staging directory of the transaction, no directory in the
  place of the body or metadata (\<open>a/b\<close> cannot be put beside \<open>a\<close>, nor \<open>a\<close> beside \<open>a/b\<close>), and no staging
  directory of that name yet.
\<close>

theorem single_node_serves:
  assumes "load open_file yaml env host p = Inr c" "to_lower (cc_mode (cf_cluster c)) = ''single''" "wf_fs fs"
    and "start_node rs env' ns mt H0 now c fs = Running sr H em" "alone_with sr w"
    and "plain_seg b" "plain_name k" "room_for w b k"
    and "admits H (w_now w) (with_request_id (w_now w) rq) rq'" "object_request ''PUT'' b k rq"
    and "st_err (hq_body rq') = None" "put_size rq' < 0 \<or> put_size rq' = int (length (st_bytes (hq_body rq')))"
    and "admits H t (with_request_id t g) g'" "object_request ''GET'' b k g"
    and "t = w_now (snd (serve_http (Suc n) hs H rq w))"
  shows "\<exists>m w1. serve_http (Suc n) hs H rq w = (Answered (etag_response (om_etag m)), w1) \<and>
    fst (serve_http (Suc n) hs H g w1) = Answered (object_response m (ObjectBody (bytes_stream (st_bytes (hq_body rq')))))"
  by (rule single_put_get [OF assms])

theorem single_node_serves_witness:
  "\<exists>sr H em m w1. node_start = Running sr H em \<and>
     serve_http (Suc 0) (\<lambda>_. H) H (demo_request ''PUT'' ''/b/a/k'') (node_world sr) = (Answered (etag_response (om_etag m)), w1) \<and>
     fst (serve_http (Suc 0) (\<lambda>_. H) H (demo_request ''GET'' ''/b/a/k'') w1) =
       Answered (object_response m (ObjectBody (bytes_stream [])))"
proof -
  obtain c sr H em where n: "loaded_open = Inr c" "to_lower (cc_mode (cf_cluster c)) = ''single''" "wf_fs ([] :: repo_fs)"
    "start_node xor_lib (\<lambda>_. []) (Inl ErrNotExist) no_metrics demo_handler 0 c [] = Running sr H em"
    "node_start = Running sr H em" "alone_with sr (node_world sr)" "sh_auth H = None" "room_for (node_world sr) ''b'' ''a/k''"
    by (rule node_started)
  let ?rq = "with_request_id (w_now (node_world sr)) (demo_request ''PUT'' ''/b/a/k'')"
  have a: "admits H t r r" for t r using n(7) by (simp add: admits_def)
  have "hq_body ?rq = bytes_stream []" by (simp add: with_request_id_fields demo_request_def)
  moreover have "put_size ?rq = -1" by (simp add: put_size_def with_request_id_get demo_request_get)
  ultimately show ?thesis
    using single_node_serves [OF n(1) [unfolded loaded_open_def] n(2-4,6) demo_names(1,2) n(8) a demo_object_request
        _ _ a demo_object_request refl, of 0 "\<lambda>_. H"] n(5) by auto
qed

end
